(* ===== verification/Prelude.thy ===== *)
theory Prelude
  imports Complex_Main
begin

text \<open>
  What every component of the development shares: the named collections of facts, the exceptions
  the TypeScript code throws, the state-and-exception computations its asynchronous functions are
  translated to, and the pieces of the JavaScript standard library the code uses on strings and
  arrays (\<open>toLowerCase\<close>, \<open>startsWith\<close>, \<open>slice\<close>, \<open>split\<close>).

  A string is a list of bytes (the UTF-8 text); everything the code compares case-insensitively is
  hexadecimal text, so \<open>lower\<close> only maps the ASCII letters.
\<close>

named_theorems act_simps \<open>unfolding of computations, one step at a time\<close>
named_theorems act_elims \<open>elimination of a computation that has returned\<close>
named_theorems model_defs \<open>definitions that the component proofs unfold\<close>

section \<open>JSON values and exceptions\<close>

text \<open>
  A JavaScript value that crosses the network or reaches a schema. An object keeps its entries in
  insertion order; numbers are rationals (rounding to doubles is not modelled).
\<close>

datatype json =
    JNull
  | JBool bool
  | JNum rat
  | JStr string
  | JArr "json list"
  | JObj "(string \<times> json) list"

text \<open>
  What a function throws: the validation error of a schema, the \<open>TypeError\<close> of the language, an
  \<open>HttpError\<close> of the code (message and status), or a value thrown by a library or by the network.
\<close>

datatype exn =
    ZodError
  | TypeError
  | HttpError string int
  | LibError json

section \<open>Computations with state and exceptions\<close>

text \<open>
  An asynchronous function is a state transformer that returns or throws; its state holds whatever
  the function changes or observes (a database, a session, the trace of outbound requests).
  The state at the point of a throw is kept, as in the code.
\<close>

type_synonym ('s, 'a) act = "'s \<Rightarrow> 's \<times> (exn + 'a)"

definition ret :: "'a \<Rightarrow> ('s, 'a) act" where
  "ret a = (\<lambda>s. (s, Inr a))"

definition throw :: "exn \<Rightarrow> ('s, 'a) act" where
  "throw e = (\<lambda>s. (s, Inl e))"

definition bind :: "('s, 'a) act \<Rightarrow> ('a \<Rightarrow> ('s, 'b) act) \<Rightarrow> ('s, 'b) act" where
  "bind m f = (\<lambda>s. case m s of (s', Inl e) \<Rightarrow> (s', Inl e) | (s', Inr a) \<Rightarrow> f a s')"

definition catch :: "('s, 'a) act \<Rightarrow> (exn \<Rightarrow> ('s, 'a) act) \<Rightarrow> ('s, 'a) act" where
  "catch m h = (\<lambda>s. case m s of (s', Inl e) \<Rightarrow> h e s' | (s', Inr a) \<Rightarrow> (s', Inr a))"

text \<open>\<open>try { m } finally { f }\<close>\<close>

definition finally_do :: "('s, 'a) act \<Rightarrow> ('s \<Rightarrow> 's) \<Rightarrow> ('s, 'a) act" where
  "finally_do m f = (\<lambda>s. (f (fst (m s)), snd (m s)))"

definition gets :: "('s \<Rightarrow> 'a) \<Rightarrow> ('s, 'a) act" where
  "gets f = (\<lambda>s. (s, Inr (f s)))"

definition modify :: "('s \<Rightarrow> 's) \<Rightarrow> ('s, unit) act" where
  "modify f = (\<lambda>s. (f s, Inr ()))"

text \<open>A partial library function: \<open>None\<close> is the given exception.\<close>

definition of_opt :: "exn \<Rightarrow> 'a option \<Rightarrow> ('s, 'a) act" where
  "of_opt e x = (case x of None \<Rightarrow> throw e | Some a \<Rightarrow> ret a)"

text \<open>The \<open>for ... await\<close> loop: in order, stopped by the first exception.\<close>

fun for_each :: "('a \<Rightarrow> ('s, unit) act) \<Rightarrow> 'a list \<Rightarrow> ('s, unit) act" where
  "for_each f [] = ret ()"
| "for_each f (x # xs) = bind (f x) (\<lambda>_. for_each f xs)"

text \<open>\<open>Array.some\<close> and \<open>Array.filter\<close> with a callback that may throw (and has no effect).\<close>

fun some_act :: "('a \<Rightarrow> exn + bool) \<Rightarrow> 'a list \<Rightarrow> exn + bool" where
  "some_act p [] = Inr False"
| "some_act p (x # xs) =
     (case p x of Inl e \<Rightarrow> Inl e | Inr True \<Rightarrow> Inr True | Inr False \<Rightarrow> some_act p xs)"

fun filter_act :: "('a \<Rightarrow> exn + bool) \<Rightarrow> 'a list \<Rightarrow> exn + 'a list" where
  "filter_act p [] = Inr []"
| "filter_act p (x # xs) =
     (case p x of Inl e \<Rightarrow> Inl e
      | Inr b \<Rightarrow> (case filter_act p xs of Inl e \<Rightarrow> Inl e
                 | Inr ys \<Rightarrow> Inr (if b then x # ys else ys)))"

fun map_act :: "('a \<Rightarrow> exn + 'b) \<Rightarrow> 'a list \<Rightarrow> exn + 'b list" where
  "map_act f [] = Inr []"
| "map_act f (x # xs) =
     (case f x of Inl e \<Rightarrow> Inl e
      | Inr y \<Rightarrow> (case map_act f xs of Inl e \<Rightarrow> Inl e | Inr ys \<Rightarrow> Inr (y # ys)))"

fun fold_act :: "('a \<Rightarrow> 'b \<Rightarrow> exn + 'b) \<Rightarrow> 'a list \<Rightarrow> 'b \<Rightarrow> exn + 'b" where
  "fold_act f [] b = Inr b"
| "fold_act f (x # xs) b = (case f x b of Inl e \<Rightarrow> Inl e | Inr b' \<Rightarrow> fold_act f xs b')"

definition of_sum :: "exn + 'a \<Rightarrow> ('s, 'a) act" where
  "of_sum x = (\<lambda>s. (s, x))"

definition sbind :: "exn + 'a \<Rightarrow> ('a \<Rightarrow> exn + 'b) \<Rightarrow> exn + 'b" where
  "sbind m f = (case m of Inl e \<Rightarrow> Inl e | Inr a \<Rightarrow> f a)"

subsection \<open>Laws\<close>

lemma ret_apply [act_simps]: "ret a s = (s, Inr a)"
  by (simp add: ret_def)

lemma throw_apply [act_simps]: "throw e s = (s, Inl e)"
  by (simp add: throw_def)

lemma gets_apply [act_simps]: "gets f s = (s, Inr (f s))"
  by (simp add: gets_def)

lemma modify_apply [act_simps]: "modify f s = (f s, Inr ())"
  by (simp add: modify_def)

lemma of_sum_apply [act_simps]: "of_sum x s = (s, x)"
  by (simp add: of_sum_def)

lemma of_opt_simps [simp]:
  "of_opt e None = throw e"
  "of_opt e (Some a) = ret a"
  by (simp_all add: of_opt_def)

lemma bind_ret [simp]: "bind (ret a) f = f a"
  by (simp add: bind_def fun_eq_iff act_simps)

lemma bind_throw [simp]: "bind (throw e) f = throw e"
  by (simp add: bind_def fun_eq_iff act_simps)

lemma bind_assoc: "bind (bind m f) g = bind m (\<lambda>a. bind (f a) g)"
  by (auto simp: bind_def fun_eq_iff split: prod.splits sum.splits)

lemma bind_Inl: "m s = (s', Inl e) \<Longrightarrow> bind m f s = (s', Inl e)"
  by (simp add: bind_def)

lemma bind_Inr: "m s = (s', Inr a) \<Longrightarrow> bind m f s = f a s'"
  by (simp add: bind_def)

lemma bind_returned [act_elims]:
  assumes "bind m f s = (t, Inr b)"
  obtains a s' where "m s = (s', Inr a)" "f a s' = (t, Inr b)"
  using assms by (auto simp: bind_def split: prod.splits sum.splits)

lemma bind_thrown:
  assumes "bind m f s = (t, Inl e)"
  obtains "m s = (t, Inl e)" | a s' where "m s = (s', Inr a)" "f a s' = (t, Inl e)"
  using assms by (auto simp: bind_def split: prod.splits sum.splits)

lemma bind_gets [simp]: "bind (gets f) g s = g (f s) s"
  by (simp add: bind_def act_simps)

lemma bind_modify [simp]: "bind (modify f) g s = g () (f s)"
  by (simp add: bind_def act_simps)

lemma bind_of_sum: "bind (of_sum x) f s = (case x of Inl e \<Rightarrow> (s, Inl e) | Inr a \<Rightarrow> f a s)"
  by (auto simp: bind_def act_simps split: sum.splits)

lemma bind_of_sum_simps [simp]:
  "bind (of_sum (Inl e)) f = throw e"
  "bind (of_sum (Inr a)) f = f a"
  by (simp_all add: bind_def fun_eq_iff act_simps)

lemma bind_if: "bind (if c then m else m') f = (if c then bind m f else bind m' f)"
  by simp

lemma catch_ret [simp]: "catch (ret a) h = ret a"
  by (simp add: catch_def fun_eq_iff act_simps)

lemma catch_throw [simp]: "catch (throw e) h = h e"
  by (simp add: catch_def fun_eq_iff act_simps)

lemma sbind_simps [simp]:
  "sbind (Inl e) f = Inl e"
  "sbind (Inr a) f = f a"
  by (simp_all add: sbind_def)

lemma sbind_returned [act_elims]:
  assumes "sbind m f = Inr b"
  obtains a where "m = Inr a" "f a = Inr b"
  using assms by (cases m) auto

lemmas act_cases = prod.splits sum.splits option.splits if_splits

lemma for_each_append: "for_each f (xs @ ys) = bind (for_each f xs) (\<lambda>_. for_each f ys)"
  by (induction xs) (simp_all add: bind_assoc)

lemma some_act_cong [fundef_cong]:
  "xs = ys \<Longrightarrow> (\<And>x. x \<in> set ys \<Longrightarrow> p x = q x) \<Longrightarrow> some_act p xs = some_act q ys"
  by (induction ys arbitrary: xs) (auto split: sum.splits bool.splits)

lemma map_act_cong [fundef_cong]:
  "xs = ys \<Longrightarrow> (\<And>x. x \<in> set ys \<Longrightarrow> f x = g x) \<Longrightarrow> map_act f xs = map_act g ys"
  by (induction ys arbitrary: xs) (auto split: sum.splits)

text \<open>A fold whose steps are lists of elementary updates.\<close>

lemma fold_act_events:
  assumes "\<And>x b. x \<in> set xs \<Longrightarrow> f x b = sbind (ev x) (\<lambda>es. Inr (fold ap es b))"
  shows "fold_act f xs b = sbind (map_act ev xs) (\<lambda>ess. Inr (fold ap (concat ess) b))"
  using assms by (induction xs arbitrary: b) (auto simp: sbind_def split: sum.splits)

fun find_last :: "('a \<Rightarrow> bool) \<Rightarrow> 'a list \<Rightarrow> 'a option" where
  "find_last P [] = None"
| "find_last P (x # xs) =
     (case find_last P xs of Some y \<Rightarrow> Some y | None \<Rightarrow> if P x then Some x else None)"

lemma find_last_None: "find_last P xs = None \<longleftrightarrow> (\<forall>x \<in> set xs. \<not> P x)"
  by (induction xs) (auto split: option.splits)

lemma find_last_Some: "find_last P xs = Some x \<Longrightarrow> x \<in> set xs \<and> P x"
  by (induction xs arbitrary: x) (auto split: option.splits if_splits)

lemma fold_act_invariant:
  assumes "fold_act f xs b = Inr c" "I b"
    and "\<And>x b c. x \<in> set xs \<Longrightarrow> f x b = Inr c \<Longrightarrow> I b \<Longrightarrow> I c"
  shows "I c"
  using assms
proof (induction xs arbitrary: b)
  case Nil
  then show ?case by simp
next
  case (Cons x xs)
  from Cons.prems(1) obtain b' where "f x b = Inr b'" "fold_act f xs b' = Inr c"
    by (auto split: sum.splits)
  with Cons.prems(2,3) Cons.IH [of b'] show ?case by auto
qed

lemma some_act_Inr_True: "some_act p xs = Inr True \<Longrightarrow> \<exists>x \<in> set xs. p x = Inr True"
  by (induction xs) (auto split: sum.splits bool.splits)

lemma some_act_Inr_False: "some_act p xs = Inr False \<longleftrightarrow> (\<forall>x \<in> set xs. p x = Inr False)"
  by (induction xs) (auto split: sum.splits bool.splits)

lemma some_act_total: "(\<And>x. x \<in> set xs \<Longrightarrow> p x = Inr (q x)) \<Longrightarrow> some_act p xs = Inr (\<exists>x \<in> set xs. q x)"
  by (induction xs) (auto split: bool.splits)

lemma filter_act_sound: "filter_act p xs = Inr ys \<Longrightarrow> ys = filter (\<lambda>x. p x = Inr True) xs"
  by (induction xs arbitrary: ys) (auto split: sum.splits if_splits)

lemma filter_act_total:
  "(\<And>x. x \<in> set xs \<Longrightarrow> p x = Inr (q x)) \<Longrightarrow> filter_act p xs = Inr (filter q xs)"
  by (induction xs) auto

lemma map_act_total:
  "(\<And>x. x \<in> set xs \<Longrightarrow> f x = Inr (g x)) \<Longrightarrow> map_act f xs = Inr (map g xs)"
  by (induction xs) auto

lemma map_act_append:
  "map_act f (xs @ ys) = sbind (map_act f xs) (\<lambda>us. sbind (map_act f ys) (\<lambda>vs. Inr (us @ vs)))"
  by (induction xs) (auto simp: sbind_def split: sum.splits)

lemma map_act_concat:
  "map_act f (concat xss) = sbind (map_act (map_act f) xss) (\<lambda>yss. Inr (concat yss))"
  by (induction xss) (auto simp: sbind_def map_act_append split: sum.splits)

lemma concat_concat: "concat (concat xss) = concat (map concat xss)"
  by (induction xss) auto

lemma map_act_map: "map_act f (map g xs) = map_act (\<lambda>x. f (g x)) xs"
  by (induction xs) (auto split: sum.splits)

lemma map_act_length: "map_act f xs = Inr ys \<Longrightarrow> length ys = length xs"
  by (induction xs arbitrary: ys) (auto split: sum.splits)

lemma map_act_nth: "map_act f xs = Inr ys \<Longrightarrow> i < length xs \<Longrightarrow> f (xs ! i) = Inr (ys ! i)"
  by (induction xs arbitrary: ys i) (auto simp: nth_Cons split: sum.splits nat.splits)

subsection \<open>Computations without effect\<close>

definition effect_free :: "('s, 'a) act \<Rightarrow> bool" where
  "effect_free m \<longleftrightarrow> (\<forall>s. fst (m s) = s)"

lemma effect_freeD: "effect_free m \<Longrightarrow> m s = (t, r) \<Longrightarrow> t = s"
  by (metis effect_free_def fst_conv)

lemma effect_free_intros [intro]:
  "effect_free (ret a)" "effect_free (throw e)" "effect_free (gets f)" "effect_free (of_sum x)"
  "effect_free (of_opt e y)"
  by (auto simp: effect_free_def of_opt_def act_simps split: option.splits)

lemma effect_free_bind [intro!]:
  "effect_free m \<Longrightarrow> (\<And>a. effect_free (f a)) \<Longrightarrow> effect_free (bind m f)"
  by (auto simp: effect_free_def bind_def split: prod.splits sum.splits) (metis fst_conv)+

lemma effect_free_if [intro!]: "effect_free m \<Longrightarrow> effect_free m' \<Longrightarrow> effect_free (if c then m else m')"
  by simp

lemma effect_free_case_option [intro!]:
  "effect_free m \<Longrightarrow> (\<And>a. effect_free (f a)) \<Longrightarrow> effect_free (case x of None \<Rightarrow> m | Some a \<Rightarrow> f a)"
  by (simp split: option.split)

lemma bind_effect_free_state: "(\<And>a. effect_free (f a)) \<Longrightarrow> fst (bind m f s) = fst (m s)"
  by (auto simp: bind_def effect_free_def split: prod.splits sum.splits)

subsection \<open>Invariants of computations\<close>

text \<open>\<open>keeps I m\<close>: the computation preserves the invariant, whether it returns or throws.\<close>

definition keeps :: "('s \<Rightarrow> bool) \<Rightarrow> ('s, 'a) act \<Rightarrow> bool" where
  "keeps I m \<longleftrightarrow> (\<forall>s. I s \<longrightarrow> I (fst (m s)))"

lemma keepsD: "keeps I m \<Longrightarrow> I s \<Longrightarrow> I (fst (m s))"
  by (simp add: keeps_def)

lemma keepsE: "keeps I m \<Longrightarrow> m s = (t, r) \<Longrightarrow> I s \<Longrightarrow> I t"
  by (metis fst_conv keepsD)

lemma keeps_effect_free: "effect_free m \<Longrightarrow> keeps I m"
  by (simp add: keeps_def effect_free_def)

lemma keeps_basic [intro, simp]:
  "keeps I (ret a)" "keeps I (throw e)" "keeps I (gets f)" "keeps I (of_sum x)" "keeps I (of_opt e y)"
  by (auto intro: keeps_effect_free)

lemma keeps_modify: "(\<And>s. I s \<Longrightarrow> I (f s)) \<Longrightarrow> keeps I (modify f)"
  by (simp add: keeps_def act_simps)

lemma keeps_bind [intro!]: "keeps I m \<Longrightarrow> (\<And>a. keeps I (f a)) \<Longrightarrow> keeps I (bind m f)"
  unfolding keeps_def bind_def by (auto split: prod.splits sum.splits)

lemma keeps_bind_gets: "(\<And>s. I s \<Longrightarrow> I (fst (g (f s) s))) \<Longrightarrow> keeps I (bind (gets f) g)"
  by (simp add: keeps_def)

lemma keeps_catch [intro!]: "keeps I m \<Longrightarrow> (\<And>e. keeps I (h e)) \<Longrightarrow> keeps I (catch m h)"
  unfolding keeps_def catch_def by (auto split: prod.splits sum.splits)

lemma keeps_if [intro!]: "(c \<Longrightarrow> keeps I m) \<Longrightarrow> (\<not> c \<Longrightarrow> keeps I m') \<Longrightarrow> keeps I (if c then m else m')"
  by simp

lemma keeps_case_option [intro!]:
  "(x = None \<Longrightarrow> keeps I m) \<Longrightarrow> (\<And>a. x = Some a \<Longrightarrow> keeps I (f a)) \<Longrightarrow>
     keeps I (case x of None \<Rightarrow> m | Some a \<Rightarrow> f a)"
  by (simp split: option.split)

lemma keeps_for_each [intro!]: "(\<And>x. x \<in> set xs \<Longrightarrow> keeps I (f x)) \<Longrightarrow> keeps I (for_each f xs)"
  by (induction xs) auto

section \<open>Strings and arrays\<close>

definition code :: "char \<Rightarrow> nat" where
  "code c = of_char c"

definition lower_char :: "char \<Rightarrow> char" where
  "lower_char c = (if 65 \<le> code c \<and> code c \<le> 90 then char_of (code c + 32) else c)"

text \<open>\<open>String.prototype.toLowerCase\<close>\<close>

definition lower :: "string \<Rightarrow> string" where
  "lower s = map lower_char s"

definition is_digit :: "char \<Rightarrow> bool" where
  "is_digit c \<longleftrightarrow> 48 \<le> code c \<and> code c \<le> 57"

definition is_hex_digit :: "char \<Rightarrow> bool" where
  "is_hex_digit c \<longleftrightarrow> is_digit c \<or> (65 \<le> code c \<and> code c \<le> 70) \<or> (97 \<le> code c \<and> code c \<le> 102)"

text \<open>The regular expression \<open>/^0x[0-9a-fA-F]*$/\<close> of the schemas.\<close>

definition hex_regex :: "string \<Rightarrow> bool" where
  "hex_regex s \<longleftrightarrow> take 2 s = ''0x'' \<and> list_all is_hex_digit (drop 2 s)"

definition starts_with :: "string \<Rightarrow> string \<Rightarrow> bool" where
  "starts_with s p \<longleftrightarrow> take (length p) s = p"

text \<open>\<open>s.split(sep)\<close> for a separator of one character: always at least one piece.\<close>

fun split_on :: "char \<Rightarrow> string \<Rightarrow> string list" where
  "split_on sep [] = [[]]"
| "split_on sep (c # cs) =
     (if c = sep then [] # split_on sep cs
      else (case split_on sep cs of [] \<Rightarrow> [[c]] | p # ps \<Rightarrow> (c # p) # ps))"

text \<open>\<open>xs.join(sep)\<close>, and the digit of a percent-encoded byte.\<close>

fun join_with :: "string \<Rightarrow> string list \<Rightarrow> string" where
  "join_with sep [] = []"
| "join_with sep [x] = x"
| "join_with sep (x # xs) = x @ sep @ join_with sep xs"

definition hex_upper :: "nat \<Rightarrow> char" where
  "hex_upper n = (if n < 10 then char_of (48 + n) else char_of (55 + n))"

definition is_space :: "char \<Rightarrow> bool" where
  "is_space c \<longleftrightarrow> code c = 32 \<or> (9 \<le> code c \<and> code c \<le> 13)"

definition trim :: "string \<Rightarrow> string" where
  "trim s = rev (dropWhile is_space (rev (dropWhile is_space s)))"

text \<open>\<open>slice(start, end)\<close> on integers: negative positions count from the end.\<close>

definition slice_pos :: "nat \<Rightarrow> int \<Rightarrow> nat" where
  "slice_pos n i = nat (if i < 0 then max (int n + i) 0 else min i (int n))"

definition js_slice :: "'a list \<Rightarrow> int \<Rightarrow> int \<Rightarrow> 'a list" where
  "js_slice xs i j =
     (let a = slice_pos (length xs) i; b = slice_pos (length xs) j in take (b - a) (drop a xs))"

text \<open>\<open>xs[r]\<close> for a number \<open>r\<close>: \<open>undefined\<close> unless \<open>r\<close> is the index of an element.\<close>

definition array_get :: "'a list \<Rightarrow> rat \<Rightarrow> 'a option" where
  "array_get xs r =
     (if r = of_int (floor r) \<and> 0 \<le> floor r \<and> floor r < int (length xs) then Some (xs ! nat (floor r)) else None)"

text \<open>Decimal text of an integer, as in a template literal.\<close>

fun show_nat :: "nat \<Rightarrow> string" where
  "show_nat n = (if n < 10 then [char_of (48 + n)] else show_nat (n div 10) @ [char_of (48 + n mod 10)])"

declare show_nat.simps [simp del]

definition show_int :: "int \<Rightarrow> string" where
  "show_int i = (if i < 0 then ''-'' @ show_nat (nat (- i)) else show_nat (nat i))"

text \<open>Hexadecimal text in lower case, \<open>toString(16)\<close>.\<close>

definition hex_lower :: "nat \<Rightarrow> char" where
  "hex_lower n = (if n < 10 then char_of (48 + n) else char_of (87 + n))"

fun show_hex :: "nat \<Rightarrow> string" where
  "show_hex n = (if n < 16 then [hex_lower n] else show_hex (n div 16) @ [hex_lower (n mod 16)])"

declare show_hex.simps [simp del]

definition show_int_hex :: "int \<Rightarrow> string" where
  "show_int_hex n = (if n < 0 then ''-'' @ show_hex (nat (- n)) else show_hex (nat n))"

subsection \<open>Laws\<close>

lemma length_lower [simp]: "length (lower s) = length s"
  by (simp add: lower_def)

lemma code_char_of [simp]: "n < 256 \<Longrightarrow> code (char_of n) = n"
  by (simp add: code_def)

lemma code_bound: "code c < 256"
  by (simp add: code_def)

lemma lower_char_0x [simp]: "lower_char CHR ''0'' = CHR ''0''" "lower_char CHR ''x'' = CHR ''x''"
  by code_simp+

lemma lower_char_idem [simp]: "lower_char (lower_char c) = lower_char c"
  by (auto simp: lower_char_def)

lemma lower_idem [simp]: "lower (lower s) = lower s"
  by (simp add: lower_def)

lemma lower_append [simp]: "lower (s @ t) = lower s @ lower t"
  by (simp add: lower_def)

lemma lower_Nil [simp]: "lower [] = []"
  by (simp add: lower_def)

lemma lower_Cons [simp]: "lower (c # s) = lower_char c # lower s"
  by (simp add: lower_def)

lemma is_hex_digit_lower [simp]: "is_hex_digit (lower_char c) = is_hex_digit c"
  by (auto simp: is_hex_digit_def is_digit_def lower_char_def)

lemma hex_regex_no_colon: "hex_regex s \<Longrightarrow> CHR '':'' \<notin> set s"
proof
  assume h: "hex_regex s" and "CHR '':'' \<in> set s"
  then have "CHR '':'' \<in> set (take 2 s) \<or> CHR '':'' \<in> set (drop 2 s)"
    by (metis Un_iff append_take_drop_id set_append)
  moreover have "\<not> is_hex_digit CHR '':''" by code_simp
  ultimately show False using h by (auto simp: hex_regex_def list_all_iff)
qed

lemma set_js_slice: "set (js_slice xs i j) \<subseteq> set xs"
  by (auto simp: js_slice_def Let_def dest: in_set_takeD in_set_dropD)

lemma length_js_slice_le: "length (js_slice xs i j) \<le> length xs"
  by (simp add: js_slice_def Let_def)

lemma slice_pos_nonneg: "0 \<le> i \<Longrightarrow> slice_pos n i = min (nat i) n"
  by (auto simp: slice_pos_def)

lemma js_slice_page:
  assumes "0 \<le> i" "0 \<le> k"
  shows "js_slice xs i (i + k) = take (nat k) (drop (nat i) xs)"
  using assms
  by (auto simp: js_slice_def Let_def slice_pos_nonneg min_def nat_add_distrib)

lemma length_js_slice_page: "0 \<le> k \<Longrightarrow> length (js_slice xs i (i + k)) \<le> nat k \<or> i < 0"
  by (cases "0 \<le> i") (auto simp: js_slice_page)

lemma split_on_not_Nil [simp]: "split_on c s \<noteq> []"
  by (induction s) (auto split: list.splits)

lemma split_on_no_sep: "sep \<notin> set s \<Longrightarrow> split_on sep s = [s]"
  by (induction s) auto

lemma split_on_pieces: "p \<in> set (split_on sep s) \<Longrightarrow> sep \<notin> set p"
  by (induction s arbitrary: p) (auto split: list.splits if_splits)

section \<open>Lists\<close>

lemma filter_take_subset: "set (take n (filter P xs)) \<subseteq> {x \<in> set xs. P x}"
  by (auto dest: in_set_takeD)

lemma fold_upd_map_of: "fold (\<lambda>(k, v) m. m(k \<mapsto> v)) kvs m = m ++ map_of (rev kvs)"
  by (induction kvs arbitrary: m) (auto simp: map_add_def fun_eq_iff split: option.splits)

lemma append_sep_inject:
  "x \<notin> set a \<Longrightarrow> x \<notin> set a' \<Longrightarrow> a @ x # b = a' @ x # b' \<longleftrightarrow> a = a' \<and> b = b'"
proof (induction a arbitrary: a')
  case Nil
  then show ?case by (cases a') auto
next
  case (Cons y ys)
  then show ?case by (cases a') auto
qed

end
