(* ===== verification/Json.thy ===== *)
theory Json
  imports Prelude
begin

text \<open>
  JSON objects (property access, object spread, property test) and the schema declarations of the
  code. The code validates every request and every upstream answer with schemas of the library
  zod; a schema is data here, declared constructor by constructor as the source declares it, and
  the function that runs a schema on a value is a parameter of the model (theory External).
  \<open>zod\<close> below is an interpreter of the schemas that follows the library's documentation: it is what
  the theorems that rely on a schema assume the library to compute, and what the witnesses run.
\<close>

section \<open>Objects\<close>

definition entries :: "json \<Rightarrow> (string \<times> json) list" where
  "entries j = (case j of JObj kvs \<Rightarrow> kvs | _ \<Rightarrow> [])"

text \<open>Property access \<open>o.k\<close> on a value: \<open>None\<close> is \<open>undefined\<close>.\<close>

definition field :: "string \<Rightarrow> json \<Rightarrow> json option" where
  "field k j = map_of (entries j) k"

text \<open>Access on \<open>null\<close> throws; on any other value a missing property is \<open>undefined\<close>.\<close>

definition access :: "json option \<Rightarrow> string \<Rightarrow> exn + json option" where
  "access v k = (case v of None \<Rightarrow> Inl TypeError | Some JNull \<Rightarrow> Inl TypeError | Some j \<Rightarrow> Inr (field k j))"

text \<open>\<open>v?.k\<close>\<close>

definition opt_access :: "json option \<Rightarrow> string \<Rightarrow> json option" where
  "opt_access v k = (case v of None \<Rightarrow> None | Some j \<Rightarrow> if j = JNull then None else field k j)"

text \<open>The value of a property that an array method is called on.\<close>

definition the_array :: "json option \<Rightarrow> exn + json list" where
  "the_array v = (case v of Some (JArr js) \<Rightarrow> Inr js | _ \<Rightarrow> Inl TypeError)"

definition the_string :: "json option \<Rightarrow> exn + string" where
  "the_string v = (case v of Some (JStr s) \<Rightarrow> Inr s | _ \<Rightarrow> Inl TypeError)"

definition array_field :: "string \<Rightarrow> json \<Rightarrow> exn + json list" where
  "array_field k j = sbind (access (Some j) k) the_array"

definition string_field :: "string \<Rightarrow> json \<Rightarrow> exn + string" where
  "string_field k j = sbind (access (Some j) k) the_string"

text \<open>Object spread with one more property: \<open>{...o, k: v}\<close>. The key keeps its place.\<close>

fun put_entry :: "string \<Rightarrow> json \<Rightarrow> (string \<times> json) list \<Rightarrow> (string \<times> json) list" where
  "put_entry k v [] = [(k, v)]"
| "put_entry k v ((k', v') # kvs) = (if k = k' then (k, v) # kvs else (k', v') # put_entry k v kvs)"

definition spread :: "json \<Rightarrow> (string \<times> json) list \<Rightarrow> json" where
  "spread j upd = JObj (fold (\<lambda>(k, v). put_entry k v) upd (entries j))"

lemma map_of_put_entry [simp]: "map_of (put_entry k v kvs) = (map_of kvs)(k \<mapsto> v)"
  by (induction k v kvs rule: put_entry.induct) (auto simp: fun_eq_iff)

lemma entries_JObj [simp]: "entries (JObj kvs) = kvs"
  by (simp add: entries_def)

lemma field_JObj [simp]: "field k (JObj kvs) = map_of kvs k"
  by (simp add: field_def)

lemma field_not_obj [simp]:
  "field k JNull = None" "field k (JBool b) = None" "field k (JNum r) = None"
  "field k (JStr s) = None" "field k (JArr js) = None"
  by (simp_all add: field_def entries_def)

lemma field_spread:
  "field k (spread j upd) = (map_of (entries j) ++ map_of (rev upd)) k"
proof -
  have "map_of (fold (\<lambda>(k, v). put_entry k v) upd kvs) = map_of kvs ++ map_of (rev upd)" for kvs
    by (induction upd arbitrary: kvs) (auto simp: map_add_def fun_eq_iff split: option.splits)
  then show ?thesis by (simp add: spread_def)
qed

lemma field_spread_one [simp]: "field k (spread j [(k', v)]) = (if k = k' then Some v else field k j)"
  by (simp only: field_spread) (simp add: field_def map_add_def)

lemma array_field_JObj [simp]:
  "array_field k (JObj kvs) = (case map_of kvs k of Some (JArr js) \<Rightarrow> Inr js | _ \<Rightarrow> Inl TypeError)"
  by (simp add: array_field_def access_def the_array_def)

lemma string_field_JObj [simp]:
  "string_field k (JObj kvs) = (case map_of kvs k of Some (JStr s) \<Rightarrow> Inr s | _ \<Rightarrow> Inl TypeError)"
  by (simp add: string_field_def access_def the_string_def)

lemma the_string_Inr [simp]: "the_string v = Inr s \<longleftrightarrow> v = Some (JStr s)"
  by (auto simp: the_string_def split: option.splits json.splits)

lemma the_array_Inr [simp]: "the_array v = Inr js \<longleftrightarrow> v = Some (JArr js)"
  by (auto simp: the_array_def split: option.splits json.splits)

lemma the_simps [simp]:
  "the_string (Some (JStr s)) = Inr s" "the_array (Some (JArr js)) = Inr js"
  by (simp_all add: the_string_def the_array_def)

lemma array_field_Inr: "array_field k j = Inr js \<longleftrightarrow> field k j = Some (JArr js)"
  by (cases j; cases "field k j" rule: option.exhaust)
     (auto simp: array_field_def access_def the_array_def split: json.splits)

lemma string_field_Inr: "string_field k j = Inr s \<longleftrightarrow> field k j = Some (JStr s)"
  by (cases j; cases "field k j" rule: option.exhaust)
     (auto simp: string_field_def access_def the_string_def split: json.splits)

text \<open>Truthiness, and \<open>a || b\<close> on properties.\<close>

fun truthy :: "json option \<Rightarrow> bool" where
  "truthy None = False"
| "truthy (Some JNull) = False"
| "truthy (Some (JBool b)) = b"
| "truthy (Some (JNum r)) = (r \<noteq> 0)"
| "truthy (Some (JStr s)) = (s \<noteq> [])"
| "truthy (Some (JArr js)) = True"
| "truthy (Some (JObj kvs)) = True"

definition js_or :: "json option \<Rightarrow> json option \<Rightarrow> json option" where
  "js_or a b = (if truthy a then a else b)"

text \<open>\<open>a || b\<close> on conditions whose evaluation may throw.\<close>

definition sor :: "exn + bool \<Rightarrow> exn + bool \<Rightarrow> exn + bool" where
  "sor a b = sbind a (\<lambda>x. if x then Inr True else b)"

lemma sor_True: "sor a b = Inr True \<longleftrightarrow> a = Inr True \<or> (a = Inr False \<and> b = Inr True)"
  by (auto simp: sor_def sbind_def split: sum.splits if_splits)

lemma sor_total [simp]: "sor (Inr x) (Inr y) = Inr (x \<or> y)"
  by (simp add: sor_def)

text \<open>The properties that every object inherits from \<open>Object.prototype\<close>.\<close>

definition object_prototype :: "string list" where
  "object_prototype =
     [''constructor'', ''__defineGetter__'', ''__defineSetter__'', ''hasOwnProperty'', ''__lookupGetter__'',
      ''__lookupSetter__'', ''isPrototypeOf'', ''propertyIsEnumerable'', ''toString'', ''valueOf'',
      ''__proto__'', ''toLocaleString'']"

definition list_head :: "'a list \<Rightarrow> 'a option" where
  "list_head xs = (case xs of [] \<Rightarrow> None | x # _ \<Rightarrow> Some x)"

section \<open>Schemas\<close>

text \<open>
  \<open>SStr f\<close> is \<open>z.string()\<close> with the checks and the transformation \<open>f\<close> (\<open>None\<close> when a check fails);
  \<open>SObj True\<close> is an object with \<open>passthrough\<close>, \<open>SObj False\<close> one that strips unknown keys;
  \<open>SCatchall\<close> is an object whose other properties are checked by a schema of their own.
\<close>

datatype schema =
    SAny
  | SStr "string \<Rightarrow> string option"
  | SNum
  | SCoerceNum "json \<Rightarrow> rat option"
  | SBool
  | SLit string
  | SNullable schema
  | SOptional schema
  | SArr schema
  | STupleRest "schema list"
  | SObj bool "(string \<times> schema) list"
  | SCatchall "(string \<times> schema) list" schema
  | SRecord "string \<Rightarrow> string option" schema
  | SUnion "schema list"

abbreviation SString :: schema where
  "SString \<equiv> SStr Some"

definition check :: "(string \<Rightarrow> bool) \<Rightarrow> string \<Rightarrow> string option" where
  "check p s = (if p s then Some s else None)"

abbreviation SEnum :: "string list \<Rightarrow> schema" where
  "SEnum xs \<equiv> SStr (check (\<lambda>s. s \<in> set xs))"

text \<open>All answers of a list of checks, or \<open>None\<close> when one of them fails.\<close>

fun all_some :: "'a option list \<Rightarrow> 'a list option" where
  "all_some [] = Some []"
| "all_some (x # xs) = (case x of None \<Rightarrow> None | Some a \<Rightarrow> map_option ((#) a) (all_some xs))"

definition required :: "json option option \<Rightarrow> json option" where
  "required r = (case r of Some (Some j) \<Rightarrow> Some j | _ \<Rightarrow> None)"

text \<open>
  The interpreter. A validator's input \<open>None\<close> is \<open>undefined\<close>; its result is \<open>None\<close> when it rejects,
  \<open>Some None\<close> for the value \<open>undefined\<close> (of an optional property) and \<open>Some (Some j)\<close> otherwise.
\<close>

type_synonym validator = "json option \<Rightarrow> json option option"

definition z_string :: "(string \<Rightarrow> string option) \<Rightarrow> validator" where
  "z_string f v = (case v of Some (JStr s) \<Rightarrow> map_option (\<lambda>t. Some (JStr t)) (f s) | _ \<Rightarrow> None)"

definition z_array :: "validator \<Rightarrow> validator" where
  "z_array f v =
     (case v of
        Some (JArr js) \<Rightarrow> map_option (\<lambda>ks. Some (JArr ks)) (all_some (map (\<lambda>j. required (f (Some j))) js))
      | _ \<Rightarrow> None)"

fun tuple_items :: "validator list \<Rightarrow> json list \<Rightarrow> json list option" where
  "tuple_items [] js = Some js"
| "tuple_items (f # fs) [] = None"
| "tuple_items (f # fs) (j # js) =
     (case required (f (Some j)) of None \<Rightarrow> None | Some j' \<Rightarrow> map_option ((#) j') (tuple_items fs js))"

definition z_tuple :: "validator list \<Rightarrow> validator" where
  "z_tuple fs v = (case v of Some (JArr js) \<Rightarrow> map_option (\<lambda>ks. Some (JArr ks)) (tuple_items fs js) | _ \<Rightarrow> None)"

fun object_fields :: "(string \<times> validator) list \<Rightarrow> (string \<times> json) list \<Rightarrow> (string \<times> json) list option" where
  "object_fields [] kvs = Some []"
| "object_fields ((k, f) # fs) kvs =
     (case f (map_of kvs k) of
        None \<Rightarrow> None
      | Some None \<Rightarrow> object_fields fs kvs
      | Some (Some j) \<Rightarrow> map_option ((#) (k, j)) (object_fields fs kvs))"

definition other_entries :: "(string \<times> 'f) list \<Rightarrow> (string \<times> json) list \<Rightarrow> (string \<times> json) list" where
  "other_entries fs kvs = filter (\<lambda>(k, _). k \<notin> set (map fst fs)) kvs"

definition z_object :: "bool \<Rightarrow> (string \<times> validator) list \<Rightarrow> validator" where
  "z_object passthrough fs v =
     (case v of
        Some (JObj kvs) \<Rightarrow>
          map_option (\<lambda>out. Some (JObj (out @ (if passthrough then other_entries fs kvs else []))))
            (object_fields fs kvs)
      | _ \<Rightarrow> None)"

definition z_entries :: "(string \<Rightarrow> string option) \<Rightarrow> validator \<Rightarrow> (string \<times> json) list \<Rightarrow> (string \<times> json) list option" where
  "z_entries key f kvs =
     all_some (map (\<lambda>(k, j). case key k of None \<Rightarrow> None
       | Some k' \<Rightarrow> map_option (Pair k') (required (f (Some j)))) kvs)"

definition z_catchall :: "(string \<times> validator) list \<Rightarrow> validator \<Rightarrow> validator" where
  "z_catchall fs f v =
     (case v of
        Some (JObj kvs) \<Rightarrow>
          (case object_fields fs kvs of None \<Rightarrow> None
           | Some out \<Rightarrow>
               map_option (\<lambda>rest. Some (JObj (out @ rest))) (z_entries Some f (other_entries fs kvs)))
      | _ \<Rightarrow> None)"

definition z_record :: "(string \<Rightarrow> string option) \<Rightarrow> validator \<Rightarrow> validator" where
  "z_record key f v =
     (case v of Some (JObj kvs) \<Rightarrow> map_option (\<lambda>out. Some (JObj out)) (z_entries key f kvs) | _ \<Rightarrow> None)"

fun z_union :: "validator list \<Rightarrow> validator" where
  "z_union [] v = None"
| "z_union (f # fs) v = (case f v of None \<Rightarrow> z_union fs v | Some r \<Rightarrow> Some r)"

primrec zod :: "schema \<Rightarrow> validator" where
  "zod SAny = Some"
| "zod (SStr f) = z_string f"
| "zod SNum = (\<lambda>v. case v of Some (JNum r) \<Rightarrow> Some v | _ \<Rightarrow> None)"
| "zod (SCoerceNum f) =
     (\<lambda>v. case v of Some j \<Rightarrow> map_option (\<lambda>r. Some (JNum r)) (f j) | None \<Rightarrow> None)"
| "zod SBool = (\<lambda>v. case v of Some (JBool b) \<Rightarrow> Some v | _ \<Rightarrow> None)"
| "zod (SLit s) = (\<lambda>v. if v = Some (JStr s) then Some v else None)"
| "zod (SNullable s) = (\<lambda>v. if v = Some JNull then Some v else zod s v)"
| "zod (SOptional s) = (\<lambda>v. if v = None then Some None else zod s v)"
| "zod (SArr s) = z_array (zod s)"
| "zod (STupleRest ss) = z_tuple (map zod ss)"
| "zod (SObj passthrough fs) = z_object passthrough (map (map_prod id zod) fs)"
| "zod (SCatchall fs s) = z_catchall (map (map_prod id zod) fs) (zod s)"
| "zod (SRecord key s) = z_record key (zod s)"
| "zod (SUnion ss) = z_union (map zod ss)"

lemmas zod_defs =
  z_string_def z_array_def z_tuple_def z_object_def z_entries_def z_catchall_def z_record_def
  other_entries_def

lemma all_some_Some: "all_some xs = Some ys \<longleftrightarrow> xs = map Some ys"
  by (induction xs arbitrary: ys) (auto split: option.splits simp: Cons_eq_map_conv)

lemma zod_array_elems:
  assumes "zod (SArr s) (Some j) = Some (Some r)"
  obtains js ks where "j = JArr js" "r = JArr ks" "length ks = length js"
    "\<And>i. i < length js \<Longrightarrow> zod s (Some (js ! i)) = Some (Some (ks ! i))"
proof -
  from assms obtain js ks where j: "j = JArr js" and r: "r = JArr ks"
    and ks: "map (\<lambda>j. required (zod s (Some j))) js = map Some ks"
    by (auto split: json.splits option.splits simp: all_some_Some z_array_def)
  from ks have len: "length ks = length js" by (metis length_map)
  have "zod s (Some (js ! i)) = Some (Some (ks ! i))" if i: "i < length js" for i
  proof -
    have "map (\<lambda>j. required (zod s (Some j))) js ! i = map Some ks ! i" by (simp only: ks)
    with i len show ?thesis by (auto simp: required_def split: option.splits)
  qed
  with j r len show ?thesis by (rule that)
qed

lemma z_array_Some:
  "z_array f v = Some r \<longleftrightarrow>
     (\<exists>js ks. v = Some (JArr js) \<and> r = Some (JArr ks) \<and> map (\<lambda>j. required (f (Some j))) js = map Some ks)"
  by (auto simp: z_array_def all_some_Some split: option.splits json.splits)

lemma z_array_elem:
  assumes "map (\<lambda>j. required (f (Some j))) js = map Some ks" "k \<in> set ks"
  obtains j where "j \<in> set js" "f (Some j) = Some (Some k)"
proof -
  from assms(2) have "Some k \<in> set (map Some ks)" by simp
  then have "Some k \<in> set (map (\<lambda>j. required (f (Some j))) js)" by (simp only: assms(1))
  then show ?thesis using that by (auto simp: required_def split: option.splits)
qed

lemma z_object_Some:
  "z_object p fs v = Some r \<longleftrightarrow>
     (\<exists>kvs out. v = Some (JObj kvs) \<and> object_fields fs kvs = Some out \<and>
        r = Some (JObj (out @ (if p then other_entries fs kvs else []))))"
  by (auto simp: z_object_def split: option.splits json.splits)

lemma z_string_Some:
  "z_string f v = Some r \<longleftrightarrow> (\<exists>s t. v = Some (JStr s) \<and> f s = Some t \<and> r = Some (JStr t))"
  by (auto simp: z_string_def split: option.splits json.splits)

lemma object_fields_Cons:
  "object_fields ((k, f) # fs) kvs = Some out \<longleftrightarrow>
     (\<exists>r out'. f (map_of kvs k) = Some r \<and> object_fields fs kvs = Some out' \<and>
        out = (case r of None \<Rightarrow> out' | Some j \<Rightarrow> (k, j) # out'))"
  by (auto split: option.splits)

declare object_fields.simps(2) [simp del]

lemmas zod_run = zod_defs object_fields.simps

lemmas zod_Some = z_array_Some z_object_Some z_string_Some object_fields_Cons

end
