(* ===== verification/External.thy ===== *)
theory External
  imports Json
begin

text \<open>
  What the code calls and does not contain: the functions of the library viem on addresses,
  function definitions and transactions, the interpreter of the zod schemas, and the servers
  reached over the network. All of it is a parameter: a record \<open>lib\<close> of functions, and a world that
  answers outbound requests. The predicates on \<open>lib\<close> below are the documented behaviour that some
  theorems assume; \<open>demo_lib\<close> is a concrete instance that satisfies them.
\<close>

section \<open>Libraries\<close>

text \<open>
  \<open>thrownValue\<close> is the error object a \<open>catch\<close> clause sees (the properties \<open>code\<close>, \<open>message\<close>, \<open>data\<close>).
  \<open>None\<close> is a throw. The type \<open>'abi\<close> is viem's \<open>AbiFunction\<close>, which the code only passes around.
  A decoded argument list is \<open>None\<close> (\<open>undefined\<close>) for a function without inputs.
\<close>

record tx =
  tx_to :: "json option"
  tx_data :: "string option"

record 'abi lib =
  zodParse :: "schema \<Rightarrow> json option \<Rightarrow> json option"
  getAddress :: "string \<Rightarrow> string option"
  isAddress :: "string \<Rightarrow> bool"
  isAddressEqual :: "string \<Rightarrow> string \<Rightarrow> bool option"
  padHex :: "string \<Rightarrow> string option"
  toFunctionSelector :: "string \<Rightarrow> string option"
  parseAbi :: "string \<Rightarrow> 'abi option"
  decodeFunctionData :: "'abi \<Rightarrow> string \<Rightarrow> json list option option"
  decodeAbiParameters :: "'abi \<Rightarrow> string \<Rightarrow> json list option"
  parseTransaction :: "string \<Rightarrow> tx option"
  recoverTransactionAddress :: "string \<Rightarrow> string option"
  thrownValue :: "exn \<Rightarrow> json"

abbreviation lib_error :: exn where
  "lib_error \<equiv> LibError (JObj [(''message'', JStr ''library error'')])"

text \<open>Schema runs: \<open>parse\<close> throws, \<open>safeParse\<close> returns the failure.\<close>

definition parse_sum :: "'abi lib \<Rightarrow> schema \<Rightarrow> json option \<Rightarrow> exn + json" where
  "parse_sum L s v = (case zodParse L s v of None \<Rightarrow> Inl ZodError | Some r \<Rightarrow> Inr r)"

definition parse_string :: "'abi lib \<Rightarrow> schema \<Rightarrow> json option \<Rightarrow> exn + string" where
  "parse_string L s v = sbind (parse_sum L s v) (\<lambda>r. the_string (Some r))"

definition lib_sum :: "'a option \<Rightarrow> exn + 'a" where
  "lib_sum x = (case x of None \<Rightarrow> Inl lib_error | Some a \<Rightarrow> Inr a)"

lemma lib_sum_simps [simp]:
  "lib_sum None = Inl lib_error"
  "lib_sum (Some a) = Inr a"
  "lib_sum x = Inr a \<longleftrightarrow> x = Some a"
  by (simp_all add: lib_sum_def split: option.splits)

lemma parse_sum_Inr [simp]: "parse_sum L s v = Inr r \<longleftrightarrow> zodParse L s v = Some r"
  by (simp add: parse_sum_def split: option.splits)

lemma parse_string_Inr [simp]: "parse_string L s v = Inr t \<longleftrightarrow> zodParse L s v = Some (JStr t)"
  by (auto simp: parse_string_def sbind_def the_string_def parse_sum_def split: option.splits json.splits)

section \<open>Documented behaviour\<close>

definition zod_documented :: "'abi lib \<Rightarrow> bool" where
  "zod_documented L \<longleftrightarrow> (\<forall>s v. zodParse L s v = required (zod s v))"

text \<open>
  \<open>getAddress\<close> returns the checksummed form: \<open>0x\<close> and forty hexadecimal digits, which depend on the
  address only, differ from the argument in letter case only, and are kept by a second call; an
  address in lower case (which has no checksum) is accepted.
\<close>

definition address_documented :: "'abi lib \<Rightarrow> bool" where
  "address_documented L \<longleftrightarrow>
     (\<forall>s a. getAddress L s = Some a \<longrightarrow>
        hex_regex a \<and> length a = 42 \<and> lower a = lower s \<and> getAddress L a = Some a) \<and>
     (\<forall>s t a b. getAddress L s = Some a \<longrightarrow> getAddress L t = Some b \<longrightarrow> lower s = lower t \<longrightarrow> a = b) \<and>
     (\<forall>s a. getAddress L s = Some a \<longrightarrow> getAddress L (lower s) = Some a) \<and>
     (\<forall>a b r. isAddressEqual L a b = Some r \<longrightarrow> (r \<longleftrightarrow> lower a = lower b))"

text \<open>
  The addresses that \<open>getAddress\<close> can return; users of the private RPC and of the proxy are among
  them, since every one of them went through it.
\<close>

definition checksummed :: "'abi lib \<Rightarrow> string \<Rightarrow> bool" where
  "checksummed L a \<longleftrightarrow> getAddress L a = Some a"

lemma zod_documentedD: "zod_documented L \<Longrightarrow> zodParse L s v = required (zod s v)"
  by (simp add: zod_documented_def)

lemma getAddress_checksummed:
  "address_documented L \<Longrightarrow> getAddress L s = Some a \<Longrightarrow> checksummed L a"
  unfolding address_documented_def checksummed_def by blast

lemma checksummed_eq:
  "address_documented L \<Longrightarrow> checksummed L a \<Longrightarrow> checksummed L b \<Longrightarrow> lower a = lower b \<Longrightarrow> a = b"
  unfolding address_documented_def checksummed_def by blast

lemma getAddress_hex:
  "address_documented L \<Longrightarrow> getAddress L s = Some a \<Longrightarrow> hex_regex a \<and> length a = 42 \<and> lower a = lower s"
  unfolding address_documented_def by blast

lemma getAddress_lower:
  "address_documented L \<Longrightarrow> getAddress L s = Some a \<Longrightarrow> getAddress L (lower s) = Some a"
  unfolding address_documented_def by blast

lemma isAddressEqualD:
  "address_documented L \<Longrightarrow> isAddressEqual L a b = Some r \<Longrightarrow> r \<longleftrightarrow> lower a = lower b"
  unfolding address_documented_def by blast

section \<open>The network\<close>

text \<open>
  An outbound request. \<open>ReadContract\<close> is viem's \<open>readContract\<close> on an RPC endpoint: the endpoint, the
  contract and the function.
\<close>

datatype outbound =
    HttpGet string
  | HttpPost string json
  | ReadContract string string string

text \<open>
  The answer: a network failure, or a body. \<open>res.json()\<close> succeeds on a body that is JSON text.
  The two headers are the ones the proxy passes on.
\<close>

datatype body = JsonBody json | OtherBody string

record answer =
  contentType :: "string option"
  contentLength :: "string option"
  content :: body

text \<open>
  The world may answer the same request differently at different times: it sees what was asked so
  far. The trace is the list of requests made, in order.
\<close>

type_synonym world = "outbound list \<Rightarrow> outbound \<Rightarrow> answer option"

record net =
  trace :: "outbound list"

definition fetch :: "world \<Rightarrow> outbound \<Rightarrow> ('z net_scheme, answer) act" where
  "fetch w r = (\<lambda>s. (s\<lparr>trace := trace s @ [r]\<rparr>,
      case w (trace s) r of None \<Rightarrow> Inl lib_error | Some a \<Rightarrow> Inr a))"

definition res_json :: "answer \<Rightarrow> ('s, json) act" where
  "res_json a = (case content a of JsonBody j \<Rightarrow> ret j | OtherBody _ \<Rightarrow> throw lib_error)"

lemma fetch_returned:
  "fetch w r s = (t, Inr a) \<longleftrightarrow> w (trace s) r = Some a \<and> t = s\<lparr>trace := trace s @ [r]\<rparr>"
  by (auto simp: fetch_def split: option.splits)

lemma fetch_trace: "trace (fst (fetch w r s)) = trace s @ [r]"
  by (simp add: fetch_def)

lemma res_json_returned: "res_json a s = (t, Inr j) \<longleftrightarrow> t = s \<and> content a = JsonBody j"
  by (auto simp: res_json_def act_simps split: body.splits)

lemma effect_free_res_json [intro]: "effect_free (res_json a)"
  by (auto simp: res_json_def split: body.splits)

subsection \<open>What a computation may send\<close>

text \<open>
  \<open>sends P m\<close>: whatever the state and the world, the computation changes nothing but the trace, to
  which it appends requests that satisfy \<open>P\<close>. Every handler's footprint is stated with it.
\<close>

definition sends :: "(outbound \<Rightarrow> bool) \<Rightarrow> ('z net_scheme, 'a) act \<Rightarrow> bool" where
  "sends P m \<longleftrightarrow> (\<forall>s. \<exists>rs. fst (m s) = s\<lparr>trace := trace s @ rs\<rparr> \<and> (\<forall>r \<in> set rs. P r))"

abbreviation silent :: "('z net_scheme, 'a) act \<Rightarrow> bool" where
  "silent m \<equiv> sends (\<lambda>_. False) m"

lemma sends_mono: "sends P m \<Longrightarrow> (\<And>r. P r \<Longrightarrow> Q r) \<Longrightarrow> sends Q m"
  unfolding sends_def by blast

lemma trace_update_eq [simp]: "s\<lparr>trace := a\<rparr> = s\<lparr>trace := b\<rparr> \<longleftrightarrow> a = b"
  by (metis net.select_convs(1) net.surjective net.update_convs(1))

lemma trace_update_same [simp]: "s\<lparr>trace := trace s\<rparr> = s"
  by simp

lemma sends_effect_free: "effect_free m \<Longrightarrow> sends P m"
  unfolding sends_def effect_free_def by (intro allI exI [of _ "[]"]) simp

lemma sends_basic [intro, simp]:
  "sends P (ret a)" "sends P (throw e)" "sends P (gets f)" "sends P (of_sum x)" "sends P (of_opt e y)"
  "sends P (res_json b)"
  by (auto intro: sends_effect_free)

lemma sends_fetch [simp]: "sends P (fetch w r) \<longleftrightarrow> P r"
  by (auto simp: sends_def fetch_def)

lemma sends_bind [intro!]:
  assumes m: "sends P m" and f: "\<And>a. sends P (f a)"
  shows "sends P (bind m f)"
  unfolding sends_def
proof
  fix s
  obtain t r where mt: "m s = (t, r)" by force
  from m obtain rs where rs: "t = s\<lparr>trace := trace s @ rs\<rparr>" "\<forall>r \<in> set rs. P r"
    unfolding sends_def by (metis fst_conv mt)
  show "\<exists>rs. fst (bind m f s) = s\<lparr>trace := trace s @ rs\<rparr> \<and> (\<forall>r \<in> set rs. P r)"
  proof (cases r)
    case (Inl e)
    with mt rs show ?thesis by (auto simp: bind_def)
  next
    case (Inr a)
    from f [of a] obtain us where "fst (f a t) = t\<lparr>trace := trace t @ us\<rparr>" "\<forall>r \<in> set us. P r"
      unfolding sends_def by blast
    with rs mt Inr show ?thesis by (intro exI [of _ "rs @ us"]) (auto simp: bind_def)
  qed
qed

lemma sends_catch [intro!]:
  assumes m: "sends P m" and h: "\<And>e. sends P (h e)"
  shows "sends P (catch m h)"
  unfolding sends_def
proof
  fix s
  obtain t r where mt: "m s = (t, r)" by force
  from m obtain rs where rs: "t = s\<lparr>trace := trace s @ rs\<rparr>" "\<forall>r \<in> set rs. P r"
    unfolding sends_def by (metis fst_conv mt)
  show "\<exists>rs. fst (catch m h s) = s\<lparr>trace := trace s @ rs\<rparr> \<and> (\<forall>r \<in> set rs. P r)"
  proof (cases r)
    case (Inl e)
    from h [of e] obtain us where "fst (h e t) = t\<lparr>trace := trace t @ us\<rparr>" "\<forall>r \<in> set us. P r"
      unfolding sends_def by blast
    with rs mt Inl show ?thesis by (intro exI [of _ "rs @ us"]) (auto simp: catch_def)
  next
    case (Inr a)
    with mt rs show ?thesis by (auto simp: catch_def)
  qed
qed

lemma sends_if [intro!]: "(c \<Longrightarrow> sends P m) \<Longrightarrow> (\<not> c \<Longrightarrow> sends P m') \<Longrightarrow> sends P (if c then m else m')"
  by simp

lemma sends_case_option [intro!]:
  "sends P m \<Longrightarrow> (\<And>a. sends P (f a)) \<Longrightarrow> sends P (case x of None \<Rightarrow> m | Some a \<Rightarrow> f a)"
  by (simp split: option.split)

lemma silent_state: "silent m \<Longrightarrow> fst (m s) = s"
  by (fastforce simp: sends_def)

lemma sends_trace:
  assumes "sends P m" "m s = (t, r)"
  obtains rs where "t = s\<lparr>trace := trace s @ rs\<rparr>" "\<forall>r \<in> set rs. P r"
  using assms unfolding sends_def by (metis fst_conv)

section \<open>A concrete instance of the libraries\<close>

text \<open>
  Addresses are \<open>0x\<close> and forty hexadecimal digits, in lower case when checksummed; an ABI function is
  its signature; calldata is not decoded. Only the witnesses use it.
\<close>

definition demo_lib :: "string lib" where
  "demo_lib = \<lparr>
     zodParse = (\<lambda>s v. required (zod s v)),
     getAddress = (\<lambda>s. if hex_regex s \<and> length s = 42 then Some (lower s) else None),
     isAddress = (\<lambda>s. hex_regex s \<and> length s = 42),
     isAddressEqual = (\<lambda>a b. if length a = 42 \<and> length b = 42 then Some (lower a = lower b) else None),
     padHex = (\<lambda>s. if length s \<le> 66 then Some (''0x'' @ replicate (66 - length s) CHR ''0'' @ drop 2 s) else None),
     toFunctionSelector = (\<lambda>s. Some ''0x12345678''),
     parseAbi = Some,
     decodeFunctionData = (\<lambda>abi d. Some (Some [JStr (''0x'' @ drop 34 (take 74 d))])),
     decodeAbiParameters = (\<lambda>abi d. Some [JStr d]),
     parseTransaction = (\<lambda>d. Some \<lparr>tx_to = Some (JStr (take 42 d)), tx_data = Some (''0x'' @ drop 82 d)\<rparr>),
     recoverTransactionAddress = (\<lambda>d. Some (''0x'' @ take 40 (drop 42 d))),
     thrownValue = (\<lambda>e. case e of LibError j \<Rightarrow> j | _ \<Rightarrow> JObj [(''message'', JStr ''error'')])\<rparr>"

lemma hex_regex_lower: "hex_regex s \<Longrightarrow> hex_regex (lower s)"
proof -
  have tk: "take 2 (lower s) = lower (take 2 s)" and dr: "drop 2 (lower s) = lower (drop 2 s)"
    by (simp_all add: lower_def take_map drop_map)
  have hx: "list_all is_hex_digit (lower t) = list_all is_hex_digit t" for t
    by (induction t) auto
  assume "hex_regex s"
  then show ?thesis by (simp add: hex_regex_def tk dr hx)
qed

lemma demo_lib_simps [simp]:
  "zodParse demo_lib s v = required (zod s v)"
  "getAddress demo_lib a = (if hex_regex a \<and> length a = 42 then Some (lower a) else None)"
  "isAddress demo_lib a = (hex_regex a \<and> length a = 42)"
  "isAddressEqual demo_lib a b = (if length a = 42 \<and> length b = 42 then Some (lower a = lower b) else None)"
  "padHex demo_lib a =
     (if length a \<le> 66 then Some (''0x'' @ replicate (66 - length a) CHR ''0'' @ drop 2 a) else None)"
  "toFunctionSelector demo_lib a = Some ''0x12345678''"
  "parseAbi demo_lib a = Some a"
  "decodeFunctionData demo_lib a d = Some (Some [JStr (''0x'' @ drop 34 (take 74 d))])"
  "decodeAbiParameters demo_lib a d = Some [JStr d]"
  "parseTransaction demo_lib d = Some \<lparr>tx_to = Some (JStr (take 42 d)), tx_data = Some (''0x'' @ drop 82 d)\<rparr>"
  "recoverTransactionAddress demo_lib d = Some (''0x'' @ take 40 (drop 42 d))"
  by (simp_all add: demo_lib_def)

lemma demo_lib_documented: "zod_documented demo_lib" "address_documented demo_lib"
  by (auto simp: zod_documented_def address_documented_def hex_regex_lower required_def)

end
