(* ===== verification/Permissions.thy ===== *)
theory Permissions
  imports External
begin

text \<open>
  The permission system of the private RPC: packages/private-rpc/src/permissions (access rules,
  response filters, the authorizer and its YAML configuration) and src/schemas.
  The authorizer is a pair of maps from string keys; the locale \<open>rule_table\<close> states what the parser
  and the checks rely on when they write and read those maps, and is interpreted three times on the
  authorizer's own operations (read rules, write rules, post-read filters).
\<close>

section \<open>Schemas: src/schemas\<close>

definition addressSchema :: "'abi lib \<Rightarrow> schema" where
  "addressSchema L = SStr (getAddress L)"

definition hexSchema :: schema where
  "hexSchema = SStr (check hex_regex)"

text \<open>\<open>extractSelector\<close> and \<open>areHexEqual\<close> of src/rpc/methods/utils.ts\<close>

definition extractSelector :: "string \<Rightarrow> string" where
  "extractSelector calldata = take 10 calldata"

definition areHexEqual :: "string \<Rightarrow> string \<Rightarrow> bool" where
  "areHexEqual a b \<longleftrightarrow> lower a = lower b"

section \<open>Access rules: access-rules.ts\<close>

text \<open>The classes that implement \<open>AccessRule\<close>; \<open>members\<close> is the set of a group rule.\<close>

datatype 'abi access_rule =
    PublicRule
  | AccessDeniedRule
  | GroupRule "string list"
  | OneOfRule "'abi access_rule list"
  | ArgumentIsCaller rat 'abi

definition is_address_equal :: "'abi lib \<Rightarrow> string \<Rightarrow> string \<Rightarrow> exn + bool" where
  "is_address_equal L a b = lib_sum (isAddressEqual L a b)"

definition argument_is_caller :: "'abi lib \<Rightarrow> rat \<Rightarrow> 'abi \<Rightarrow> string \<Rightarrow> string \<Rightarrow> exn + bool" where
  "argument_is_caller L argIndex functionDef user callData =
     (case decodeFunctionData L functionDef callData of
        None \<Rightarrow> Inl lib_error
      | Some None \<Rightarrow> Inl TypeError
      | Some (Some args) \<Rightarrow>
          sbind (parse_string L (addressSchema L) (array_get args argIndex))
            (\<lambda>arg. is_address_equal L arg user))"

fun can_do :: "'abi lib \<Rightarrow> 'abi access_rule \<Rightarrow> string \<Rightarrow> string \<Rightarrow> exn + bool" where
  "can_do L PublicRule user calldata = Inr True"
| "can_do L AccessDeniedRule user calldata = Inr False"
| "can_do L (GroupRule members) user calldata = Inr (user \<in> set members)"
| "can_do L (OneOfRule rules) user calldata = some_act (\<lambda>rule. can_do L rule user calldata) rules"
| "can_do L (ArgumentIsCaller i def) user calldata = argument_is_caller L i def user calldata"

section \<open>Response filters: filter-response.ts\<close>

datatype 'abi response_filter = ResponseIsCaller 'abi rat

fun can_read :: "'abi lib \<Rightarrow> 'abi response_filter \<Rightarrow> string \<Rightarrow> string \<Rightarrow> exn + bool" where
  "can_read L (ResponseIsCaller abi index) user response =
     sbind (lib_sum (decodeAbiParameters L abi response)) (\<lambda>res.
       case zodParse L hexSchema (array_get res index) of
         None \<Rightarrow> Inr False
       | Some parsed \<Rightarrow>
           sbind (lib_sum (padHex L user)) (\<lambda>u.
           sbind (the_string (Some parsed)) (\<lambda>p.
           sbind (lib_sum (padHex L p)) (\<lambda>p'. Inr (areHexEqual u p')))))"

section \<open>Permissions and the authorizer: permission.ts, group.ts, authorizer.ts\<close>

record group =
  group_name :: string
  group_members :: "string list"

definition read_key :: "string \<Rightarrow> string \<Rightarrow> string" where
  "read_key addr method = ''read_contract:'' @ addr @ '':'' @ method"

definition write_key :: "string \<Rightarrow> string \<Rightarrow> string" where
  "write_key addr method = ''write_contract:'' @ addr @ '':'' @ method"

definition filter_key :: "string \<Rightarrow> string \<Rightarrow> string" where
  "filter_key addr method = addr @ '':'' @ method"

record 'abi permission =
  perm_key :: string
  perm_rule :: "'abi access_rule"

definition contractRead :: "string \<Rightarrow> string \<Rightarrow> 'abi access_rule \<Rightarrow> 'abi permission" where
  "contractRead addr method rule = \<lparr>perm_key = read_key addr method, perm_rule = rule\<rparr>"

definition contractWrite :: "string \<Rightarrow> string \<Rightarrow> 'abi access_rule \<Rightarrow> 'abi permission" where
  "contractWrite addr method rule = \<lparr>perm_key = write_key addr method, perm_rule = rule\<rparr>"

record 'abi authorizer =
  permissions :: "string \<rightharpoonup> 'abi access_rule"
  postReadFilters :: "string \<rightharpoonup> 'abi response_filter"

definition new_authorizer :: "'abi authorizer" where
  "new_authorizer = \<lparr>permissions = Map.empty, postReadFilters = Map.empty\<rparr>"

definition addReadRule :: "string \<Rightarrow> string \<Rightarrow> 'abi access_rule \<Rightarrow> 'abi authorizer \<Rightarrow> 'abi authorizer" where
  "addReadRule address method rule a =
     a\<lparr>permissions := (permissions a)(read_key address method \<mapsto> rule)\<rparr>"

definition addWriteRule :: "string \<Rightarrow> string \<Rightarrow> 'abi access_rule \<Rightarrow> 'abi authorizer \<Rightarrow> 'abi authorizer" where
  "addWriteRule address method rule a =
     a\<lparr>permissions := (permissions a)(write_key address method \<mapsto> rule)\<rparr>"

definition addPostReadFilter ::
  "string \<Rightarrow> string \<Rightarrow> 'abi response_filter \<Rightarrow> 'abi authorizer \<Rightarrow> 'abi authorizer" where
  "addPostReadFilter address method rule a =
     a\<lparr>postReadFilters := (postReadFilters a)(filter_key address method \<mapsto> rule)\<rparr>"

text \<open>The rule of a key, or \<open>AccessDeniedRule\<close> when there is none.\<close>

definition rule_or_denied :: "'abi authorizer \<Rightarrow> string \<Rightarrow> 'abi access_rule" where
  "rule_or_denied a key = (case permissions a key of Some rule \<Rightarrow> rule | None \<Rightarrow> AccessDeniedRule)"

definition checkContractRead :: "'abi lib \<Rightarrow> 'abi authorizer \<Rightarrow> string \<Rightarrow> string \<Rightarrow> string \<Rightarrow> exn + bool" where
  "checkContractRead L a address data user =
     can_do L (rule_or_denied a (read_key address (extractSelector data))) user data"

definition checkContractWrite :: "'abi lib \<Rightarrow> 'abi authorizer \<Rightarrow> string \<Rightarrow> string \<Rightarrow> string \<Rightarrow> exn + bool" where
  "checkContractWrite L a address data user =
     can_do L (rule_or_denied a (write_key address (extractSelector data))) user data"

definition checkPostReadFilter :: "'abi authorizer \<Rightarrow> string \<Rightarrow> string \<Rightarrow> 'abi response_filter option" where
  "checkPostReadFilter a address data = postReadFilters a (filter_key address (extractSelector data))"

section \<open>The YAML configuration: yaml-parser.ts\<close>

definition publicSchema :: schema where
  "publicSchema = SObj False [(''type'', SLit ''public'')]"

definition closedSchema :: schema where
  "closedSchema = SObj False [(''type'', SLit ''closed'')]"

definition groupSchema :: schema where
  "groupSchema = SObj False [(''type'', SLit ''group''), (''groups'', SArr SString)]"

definition checkArgumentSchema :: schema where
  "checkArgumentSchema = SObj False [(''type'', SLit ''checkArgument''), (''argIndex'', SNum)]"

definition oneOfSchema :: schema where
  "oneOfSchema = SObj False
     [(''type'', SLit ''oneOf''),
      (''rules'', SArr (SUnion [publicSchema, groupSchema, checkArgumentSchema]))]"

definition ruleSchema :: schema where
  "ruleSchema = SUnion [publicSchema, closedSchema, groupSchema, checkArgumentSchema, oneOfSchema]"

definition methodSchema :: schema where
  "methodSchema = SObj False
     [(''signature'', SString),
      (''read'', ruleSchema),
      (''postRead'', SOptional (SObj False [(''type'', SLit ''responseIsCurrentUser''), (''index'', SNum)])),
      (''write'', ruleSchema)]"

definition yamlSchema :: "'abi lib \<Rightarrow> schema" where
  "yamlSchema L = SObj False
     [(''groups'', SArr (SObj False [(''name'', SString), (''members'', SArr (addressSchema L))])),
      (''contracts'', SArr (SObj False [(''address'', addressSchema L), (''methods'', SArr methodSchema)]))]"

text \<open>The types \<open>z.infer\<close> gives the parsed document.\<close>

datatype rule_yaml =
    YPublic
  | YClosed
  | YGroup "string list"
  | YCheckArgument rat
  | YOneOf "rule_yaml list"

record method_yaml =
  y_signature :: string
  y_read :: rule_yaml
  y_postRead :: "rat option"
  y_write :: rule_yaml

record contract_yaml =
  y_address :: string
  y_methods :: "method_yaml list"

record yaml_doc =
  y_groups :: "group list"
  y_contracts :: "contract_yaml list"

text \<open>Reading the JSON that the schema returns at these types.\<close>

definition strings_of :: "json list \<Rightarrow> string list option" where
  "strings_of js = all_some (map (\<lambda>j. case j of JStr s \<Rightarrow> Some s | _ \<Rightarrow> None) js)"

definition decode_base_rule :: "json \<Rightarrow> rule_yaml option" where
  "decode_base_rule j =
     (case (field ''type'' j, field ''groups'' j, field ''argIndex'' j) of
        (Some (JStr t), gs, i) \<Rightarrow>
          if t = ''public'' then Some YPublic
          else if t = ''closed'' then Some YClosed
          else if t = ''group'' then (case gs of Some (JArr js) \<Rightarrow> map_option YGroup (strings_of js) | _ \<Rightarrow> None)
          else if t = ''checkArgument'' then (case i of Some (JNum r) \<Rightarrow> Some (YCheckArgument r) | _ \<Rightarrow> None)
          else None
      | _ \<Rightarrow> None)"

definition decode_rule :: "json \<Rightarrow> rule_yaml option" where
  "decode_rule j =
     (if field ''type'' j = Some (JStr ''oneOf'')
      then (case field ''rules'' j of
              Some (JArr js) \<Rightarrow> map_option YOneOf (all_some (map decode_base_rule js))
            | _ \<Rightarrow> None)
      else decode_base_rule j)"

definition decode_method :: "json \<Rightarrow> method_yaml option" where
  "decode_method j =
     (case (field ''signature'' j, Option.bind (field ''read'' j) decode_rule, field ''postRead'' j,
            Option.bind (field ''write'' j) decode_rule) of
        (Some (JStr sig), Some r, p, Some w) \<Rightarrow>
          (case p of
             None \<Rightarrow> Some \<lparr>y_signature = sig, y_read = r, y_postRead = None, y_write = w\<rparr>
           | Some f \<Rightarrow>
               (case field ''index'' f of
                  Some (JNum i) \<Rightarrow> Some \<lparr>y_signature = sig, y_read = r, y_postRead = Some i, y_write = w\<rparr>
                | _ \<Rightarrow> None))
      | _ \<Rightarrow> None)"

definition decode_group :: "json \<Rightarrow> group option" where
  "decode_group j =
     (case (field ''name'' j, field ''members'' j) of
        (Some (JStr n), Some (JArr js)) \<Rightarrow>
          map_option (\<lambda>ms. \<lparr>group_name = n, group_members = ms\<rparr>) (strings_of js)
      | _ \<Rightarrow> None)"

definition decode_contract :: "json \<Rightarrow> contract_yaml option" where
  "decode_contract j =
     (case (field ''address'' j, field ''methods'' j) of
        (Some (JStr a), Some (JArr js)) \<Rightarrow>
          map_option (\<lambda>ms. \<lparr>y_address = a, y_methods = ms\<rparr>) (all_some (map decode_method js))
      | _ \<Rightarrow> None)"

definition decode_yaml :: "json \<Rightarrow> yaml_doc option" where
  "decode_yaml j =
     (case (field ''groups'' j, field ''contracts'' j) of
        (Some (JArr gs), Some (JArr cs)) \<Rightarrow>
          (case (all_some (map decode_group gs), all_some (map decode_contract cs)) of
             (Some gs', Some cs') \<Rightarrow> Some \<lparr>y_groups = gs', y_contracts = cs'\<rparr>
           | _ \<Rightarrow> None)
      | _ \<Rightarrow> None)"

text \<open>The constructor: validation, then the groups as \<open>Group\<close> objects.\<close>

definition new_YamlParser :: "'abi lib \<Rightarrow> json \<Rightarrow> exn + yaml_doc" where
  "new_YamlParser L raw =
     sbind (parse_sum L (yamlSchema L) (Some raw)) (\<lambda>j.
       case decode_yaml j of Some doc \<Rightarrow> Inr doc | None \<Rightarrow> Inl TypeError)"

definition membersForGroup :: "'abi lib \<Rightarrow> group list \<Rightarrow> string \<Rightarrow> exn + string list" where
  "membersForGroup L groups groupName =
     map_act (\<lambda>a. parse_string L (addressSchema L) (Some (JStr a)))
       (concat (map group_members (filter (\<lambda>g. group_name g = groupName) groups)))"

fun hidrateRule :: "'abi lib \<Rightarrow> group list \<Rightarrow> rule_yaml \<Rightarrow> string \<Rightarrow> exn + 'abi access_rule" where
  "hidrateRule L groups YPublic fnSignature = Inr PublicRule"
| "hidrateRule L groups YClosed fnSignature = Inr AccessDeniedRule"
| "hidrateRule L groups (YGroup names) fnSignature =
     sbind (map_act (membersForGroup L groups) names) (\<lambda>members. Inr (GroupRule (concat members)))"
| "hidrateRule L groups (YCheckArgument argIndex) fnSignature =
     sbind (lib_sum (parseAbi L fnSignature)) (\<lambda>fnDef. Inr (ArgumentIsCaller argIndex fnDef))"
| "hidrateRule L groups (YOneOf rules) fnSignature =
     sbind (map_act (\<lambda>r. hidrateRule L groups r fnSignature) rules) (\<lambda>rs. Inr (OneOfRule rs))"

text \<open>One method of one contract: the body of the inner callback of \<open>parse\<close>.\<close>

definition parse_method ::
  "'abi lib \<Rightarrow> group list \<Rightarrow> string \<Rightarrow> method_yaml \<Rightarrow> 'abi authorizer \<Rightarrow> exn + 'abi authorizer" where
  "parse_method L groups address m a =
     sbind (lib_sum (toFunctionSelector L (y_signature m))) (\<lambda>selector.
     sbind (hidrateRule L groups (y_read m) (y_signature m)) (\<lambda>readRule.
     sbind (hidrateRule L groups (y_write m) (y_signature m)) (\<lambda>writeRule.
     let a' = addWriteRule address selector writeRule (addReadRule address selector readRule a) in
     case y_postRead m of
       None \<Rightarrow> Inr a'
     | Some index \<Rightarrow>
         sbind (lib_sum (parseAbi L (y_signature m))) (\<lambda>fnDef.
           Inr (addPostReadFilter address selector (ResponseIsCaller fnDef index) a')))))"

definition parse_contract ::
  "'abi lib \<Rightarrow> group list \<Rightarrow> contract_yaml \<Rightarrow> 'abi authorizer \<Rightarrow> exn + 'abi authorizer" where
  "parse_contract L groups c a = fold_act (parse_method L groups (y_address c)) (y_methods c) a"

definition parse_yaml :: "'abi lib \<Rightarrow> yaml_doc \<Rightarrow> exn + 'abi authorizer" where
  "parse_yaml L doc = fold_act (parse_contract L (y_groups doc)) (y_contracts doc) new_authorizer"

text \<open>\<open>Authorizer.fromBuffer\<close>; the argument is what \<open>YAML.parse\<close> made of the file.\<close>

definition fromBuffer :: "'abi lib \<Rightarrow> json \<Rightarrow> exn + 'abi authorizer" where
  "fromBuffer L raw = sbind (new_YamlParser L raw) (parse_yaml L)"

section \<open>The tables of the authorizer\<close>

text \<open>
  What \<open>parse_yaml\<close> does to the authorizer is a sequence of writes, and each of the three checks reads
  one table. The locale is that contract: a write either concerns the table (\<open>writes\<close> gives the key
  and the value) or leaves it alone, and a lookup sees the last write of its key.
\<close>

locale rule_table =
  fixes empty :: "'t"
    and store :: "'e \<Rightarrow> 't \<Rightarrow> 't"
    and writes :: "'e \<Rightarrow> ((string \<times> string) \<times> 'r) option"
    and lookup :: "'t \<Rightarrow> string \<Rightarrow> string \<Rightarrow> 'r option"
    and event_ok :: "'e \<Rightarrow> bool"
    and addr_ok :: "string \<Rightarrow> bool"
  assumes lookup_empty: "lookup empty addr m = None"
    and lookup_write: "event_ok e \<Longrightarrow> addr_ok addr \<Longrightarrow>
      lookup (store e t) addr m =
        (case writes e of
           Some (k, r) \<Rightarrow> if k = (addr, m) then Some r else lookup t addr m
         | None \<Rightarrow> lookup t addr m)"
begin

definition written :: "'e list \<Rightarrow> string \<Rightarrow> string \<Rightarrow> 'r option" where
  "written es addr m = map_of (rev (List.map_filter writes es)) (addr, m)"

lemma written_Nil [simp]: "written [] addr m = None"
  by (simp add: written_def List.map_filter_def)

lemma lookup_run:
  assumes "\<forall>e \<in> set es. event_ok e" "addr_ok addr"
  shows "lookup (fold store es t) addr m =
    (case written es addr m of Some r \<Rightarrow> Some r | None \<Rightarrow> lookup t addr m)"
  using assms(1)
proof (induction es arbitrary: t)
  case Nil
  then show ?case by simp
next
  case (Cons e es)
  then have "lookup (fold store (e # es) t) addr m =
      (case written es addr m of Some r \<Rightarrow> Some r | None \<Rightarrow> lookup (store e t) addr m)"
    by simp
  with Cons.prems assms(2) show ?case
    by (auto simp: lookup_write written_def List.map_filter_def map_add_def split: option.splits)
qed

lemma written_append:
  "written (es @ fs) addr m = (case written fs addr m of Some r \<Rightarrow> Some r | None \<Rightarrow> written es addr m)"
  by (simp add: written_def List.map_filter_def map_add_def split: option.splits)

lemma lookup_run_empty:
  "\<forall>e \<in> set es. event_ok e \<Longrightarrow> addr_ok addr \<Longrightarrow> lookup (fold store es empty) addr m = written es addr m"
  by (simp add: lookup_run lookup_empty split: option.split)

end

text \<open>The writes of the parser, as data.\<close>

datatype 'abi auth_event =
    AddRead string string "'abi access_rule"
  | AddWrite string string "'abi access_rule"
  | AddFilter string string "'abi response_filter"

fun apply_event :: "'abi auth_event \<Rightarrow> 'abi authorizer \<Rightarrow> 'abi authorizer" where
  "apply_event (AddRead address m r) = addReadRule address m r"
| "apply_event (AddWrite address m r) = addWriteRule address m r"
| "apply_event (AddFilter address m f) = addPostReadFilter address m f"

fun read_write_of :: "'abi auth_event \<Rightarrow> ((string \<times> string) \<times> 'abi access_rule) option" where
  "read_write_of (AddRead address m r) = Some ((address, m), r)"
| "read_write_of _ = None"

fun write_write_of :: "'abi auth_event \<Rightarrow> ((string \<times> string) \<times> 'abi access_rule) option" where
  "write_write_of (AddWrite address m r) = Some ((address, m), r)"
| "write_write_of _ = None"

fun filter_write_of :: "'abi auth_event \<Rightarrow> ((string \<times> string) \<times> 'abi response_filter) option" where
  "filter_write_of (AddFilter address m f) = Some ((address, m), f)"
| "filter_write_of _ = None"

fun event_address :: "'abi auth_event \<Rightarrow> string" where
  "event_address (AddRead address m r) = address"
| "event_address (AddWrite address m r) = address"
| "event_address (AddFilter address m f) = address"

text \<open>The separator of the keys does not occur in an address, so no two entries share a key.\<close>

definition colon_free :: "string \<Rightarrow> bool" where
  "colon_free s \<longleftrightarrow> CHR '':'' \<notin> set s"

lemma key_inject:
  assumes "colon_free a" "colon_free a'"
  shows "read_key a m = read_key a' m' \<longleftrightarrow> a = a' \<and> m = m'"
    and "write_key a m = write_key a' m' \<longleftrightarrow> a = a' \<and> m = m'"
    and "filter_key a m = filter_key a' m' \<longleftrightarrow> a = a' \<and> m = m'"
  using assms by (simp_all add: read_key_def write_key_def filter_key_def colon_free_def append_sep_inject)

lemma read_write_key_distinct [simp]: "read_key a m \<noteq> write_key a' m'" "write_key a' m' \<noteq> read_key a m"
  by (simp_all add: read_key_def write_key_def)

interpretation reads: rule_table new_authorizer apply_event read_write_of
  "\<lambda>a addr m. permissions a (read_key addr m)" "\<lambda>e. colon_free (event_address e)" colon_free
proof unfold_locales
  fix e :: "'a auth_event" and addr m t
  assume "colon_free (event_address e)" "colon_free addr"
  then show "permissions (apply_event e t) (read_key addr m) =
      (case read_write_of e of Some (k, r) \<Rightarrow> if k = (addr, m) then Some r else permissions t (read_key addr m)
       | None \<Rightarrow> permissions t (read_key addr m))"
    by (cases e) (auto simp: addReadRule_def addWriteRule_def addPostReadFilter_def key_inject)
qed (simp add: new_authorizer_def)

interpretation writes: rule_table new_authorizer apply_event write_write_of
  "\<lambda>a addr m. permissions a (write_key addr m)" "\<lambda>e. colon_free (event_address e)" colon_free
proof unfold_locales
  fix e :: "'a auth_event" and addr m t
  assume "colon_free (event_address e)" "colon_free addr"
  then show "permissions (apply_event e t) (write_key addr m) =
      (case write_write_of e of Some (k, r) \<Rightarrow> if k = (addr, m) then Some r else permissions t (write_key addr m)
       | None \<Rightarrow> permissions t (write_key addr m))"
    by (cases e) (auto simp: addReadRule_def addWriteRule_def addPostReadFilter_def key_inject)
qed (simp add: new_authorizer_def)

interpretation filters: rule_table new_authorizer apply_event filter_write_of
  "\<lambda>a addr m. postReadFilters a (filter_key addr m)" "\<lambda>e. colon_free (event_address e)" colon_free
proof unfold_locales
  fix e :: "'a auth_event" and addr m t
  assume "colon_free (event_address e)" "colon_free addr"
  then show "postReadFilters (apply_event e t) (filter_key addr m) =
      (case filter_write_of e of Some (k, r) \<Rightarrow> if k = (addr, m) then Some r else postReadFilters t (filter_key addr m)
       | None \<Rightarrow> postReadFilters t (filter_key addr m))"
    by (cases e) (auto simp: addReadRule_def addWriteRule_def addPostReadFilter_def key_inject)
qed (simp add: new_authorizer_def)

section \<open>The parser builds the tables the document declares\<close>

definition method_events ::
  "'abi lib \<Rightarrow> group list \<Rightarrow> string \<Rightarrow> method_yaml \<Rightarrow> exn + 'abi auth_event list" where
  "method_events L groups address m =
     sbind (lib_sum (toFunctionSelector L (y_signature m))) (\<lambda>selector.
     sbind (hidrateRule L groups (y_read m) (y_signature m)) (\<lambda>r.
     sbind (hidrateRule L groups (y_write m) (y_signature m)) (\<lambda>w.
     sbind (case y_postRead m of None \<Rightarrow> Inr []
            | Some i \<Rightarrow> sbind (lib_sum (parseAbi L (y_signature m)))
                (\<lambda>def. Inr [AddFilter address selector (ResponseIsCaller def i)])) (\<lambda>fs.
     Inr (AddRead address selector r # AddWrite address selector w # fs)))))"

lemma parse_method_events:
  "parse_method L groups address m a =
     sbind (method_events L groups address m) (\<lambda>es. Inr (fold apply_event es a))"
  by (auto simp: parse_method_def method_events_def sbind_def Let_def split: sum.splits option.splits)

text \<open>The methods of the document with the address of their contract, in document order.\<close>

definition methods_of :: "yaml_doc \<Rightarrow> (string \<times> method_yaml) list" where
  "methods_of doc = concat (map (\<lambda>c. map (Pair (y_address c)) (y_methods c)) (y_contracts doc))"

lemma parse_yaml_events:
  "parse_yaml L doc =
     sbind (map_act (\<lambda>(addr, m). method_events L (y_groups doc) addr m) (methods_of doc))
       (\<lambda>ess. Inr (fold apply_event (concat ess) new_authorizer))"
proof -
  let ?ev = "\<lambda>(addr, m). method_events L (y_groups doc) addr m"
  let ?cev = "\<lambda>c. sbind (map_act ?ev (map (Pair (y_address c)) (y_methods c))) (\<lambda>ess. Inr (concat ess))"
  have "parse_contract L (y_groups doc) c a = sbind (?cev c) (\<lambda>es. Inr (fold apply_event es a))" for c a
    unfolding parse_contract_def
    by (subst fold_act_events [where ev = "method_events L (y_groups doc) (y_address c)"])
       (auto simp: parse_method_events map_act_map sbind_def split: sum.splits)
  then have A: "parse_yaml L doc =
      sbind (map_act ?cev (y_contracts doc)) (\<lambda>ess. Inr (fold apply_event (concat ess) new_authorizer))"
    unfolding parse_yaml_def by (subst fold_act_events) auto
  have B: "map_act ?cev cs =
      sbind (map_act (map_act ?ev) (map (\<lambda>c. map (Pair (y_address c)) (y_methods c)) cs))
        (\<lambda>esss. Inr (map concat esss))" for cs
    by (induction cs) (auto simp: sbind_def split: sum.splits)
  show ?thesis
    unfolding A B methods_of_def map_act_concat
    by (cases "map_act (map_act ?ev) (map (\<lambda>c. map (Pair (y_address c)) (y_methods c)) (y_contracts doc))")
       (simp_all add: concat_concat)
qed

text \<open>
  Which method a request reaches: the last one of the document whose contract has the address and
  whose selector is the request's.
\<close>

definition reaches :: "'abi lib \<Rightarrow> string \<Rightarrow> string \<Rightarrow> string \<times> method_yaml \<Rightarrow> bool" where
  "reaches L addr sel am \<longleftrightarrow> fst am = addr \<and> toFunctionSelector L (y_signature (snd am)) = Some sel"

definition last_method :: "'abi lib \<Rightarrow> yaml_doc \<Rightarrow> string \<Rightarrow> string \<Rightarrow> method_yaml option" where
  "last_method L doc addr sel = map_option snd (find_last (reaches L addr sel) (methods_of doc))"

lemma written_method:
  assumes "method_events L groups a m = Inr es"
  shows "reads.written es addr sel =
      (if reaches L addr sel (a, m) then Some (projr (hidrateRule L groups (y_read m) (y_signature m))) else None)"
    and "writes.written es addr sel =
      (if reaches L addr sel (a, m) then Some (projr (hidrateRule L groups (y_write m) (y_signature m))) else None)"
    and "filters.written es addr sel =
      (if reaches L addr sel (a, m) \<and> y_postRead m \<noteq> None
       then Some (ResponseIsCaller (the (parseAbi L (y_signature m))) (the (y_postRead m))) else None)"
    and "\<forall>e \<in> set es. event_address e = a"
  using assms
  by (auto simp: method_events_def reaches_def reads.written_def writes.written_def filters.written_def
      List.map_filter_def split: option.splits elim!: sbind_returned)

lemma hidrated_of_method_events:
  assumes "method_events L groups a m = Inr es"
  shows "\<exists>r. hidrateRule L groups (y_read m) (y_signature m) = Inr r"
    and "\<exists>w. hidrateRule L groups (y_write m) (y_signature m) = Inr w"
  using assms by (auto simp: method_events_def elim!: sbind_returned)

lemma written_methods:
  assumes "map_act (\<lambda>(a, m). method_events L groups a m) ams = Inr ess"
  shows "reads.written (concat ess) addr sel =
      map_option (\<lambda>(a, m). projr (hidrateRule L groups (y_read m) (y_signature m)))
        (find_last (reaches L addr sel) ams)"
    and "writes.written (concat ess) addr sel =
      map_option (\<lambda>(a, m). projr (hidrateRule L groups (y_write m) (y_signature m)))
        (find_last (reaches L addr sel) ams)"
    and "filters.written (concat ess) addr sel =
      map_option (\<lambda>(a, m). ResponseIsCaller (the (parseAbi L (y_signature m))) (the (y_postRead m)))
        (find_last (\<lambda>am. reaches L addr sel am \<and> y_postRead (snd am) \<noteq> None) ams)"
    and "\<forall>e \<in> set (concat ess). event_address e \<in> fst ` set ams"
  using assms
proof (induction ams arbitrary: ess)
  case Nil
  {
    case 1 then show ?case by simp
  next
    case 2 then show ?case by simp
  next
    case 3 then show ?case by simp
  next
    case 4 then show ?case by simp
  }
next
  case (Cons am ams)
  obtain a m where am: "am = (a, m)" by force
  have step: "\<exists>es fss. ess = es # fss \<and> method_events L groups a m = Inr es \<and>
      map_act (\<lambda>(a, m). method_events L groups a m) ams = Inr fss"
    if "map_act (\<lambda>(a, m). method_events L groups a m) (am # ams) = Inr ess" for ess
    using that by (auto simp: am split: sum.splits)
  {
    case 1
    from step [OF this] obtain es fss where "ess = es # fss" "method_events L groups a m = Inr es"
      "map_act (\<lambda>(a, m). method_events L groups a m) ams = Inr fss" by blast
    with Cons.IH(1) show ?case
      by (simp add: am reads.written_append written_method(1) split: option.splits)
  next
    case 2
    from step [OF this] obtain es fss where "ess = es # fss" "method_events L groups a m = Inr es"
      "map_act (\<lambda>(a, m). method_events L groups a m) ams = Inr fss" by blast
    with Cons.IH(2) show ?case
      by (simp add: am writes.written_append written_method(2) split: option.splits)
  next
    case 3
    from step [OF this] obtain es fss where "ess = es # fss" "method_events L groups a m = Inr es"
      "map_act (\<lambda>(a, m). method_events L groups a m) ams = Inr fss" by blast
    with Cons.IH(3) show ?case
      by (simp add: am filters.written_append written_method(3) split: option.splits)
  next
    case 4
    from step [OF this] obtain es fss where "ess = es # fss" "method_events L groups a m = Inr es"
      "map_act (\<lambda>(a, m). method_events L groups a m) ams = Inr fss" by blast
    with Cons.IH(4) show ?case
      by (auto simp: am dest: written_method(4))
  }
qed

section \<open>What a configured rule means\<close>

text \<open>
  The abstract meaning of a rule of the document: a group rule admits the members of the named
  groups, an argument rule the user whose address is the named argument, \<open>oneOf\<close> any of its rules.
\<close>

definition caller_argument :: "'abi lib \<Rightarrow> string \<Rightarrow> string \<Rightarrow> rat \<Rightarrow> string option" where
  "caller_argument L sig data i =
     (case parseAbi L sig of
        None \<Rightarrow> None
      | Some def \<Rightarrow>
          (case decodeFunctionData L def data of
             Some (Some args) \<Rightarrow> (case array_get args i of Some (JStr a) \<Rightarrow> Some a | _ \<Rightarrow> None)
           | _ \<Rightarrow> None))"

fun yaml_permits :: "'abi lib \<Rightarrow> group list \<Rightarrow> rule_yaml \<Rightarrow> string \<Rightarrow> string \<Rightarrow> string \<Rightarrow> bool" where
  "yaml_permits L groups YPublic sig user data = True"
| "yaml_permits L groups YClosed sig user data = False"
| "yaml_permits L groups (YGroup names) sig user data =
     (\<exists>g \<in> set groups. group_name g \<in> set names \<and> user \<in> set (group_members g))"
| "yaml_permits L groups (YCheckArgument i) sig user data =
     (case caller_argument L sig data i of Some a \<Rightarrow> lower a = lower user | None \<Rightarrow> False)"
| "yaml_permits L groups (YOneOf rules) sig user data =
     (\<exists>r \<in> set rules. yaml_permits L groups r sig user data)"

definition yaml_valid :: "'abi lib \<Rightarrow> yaml_doc \<Rightarrow> bool" where
  "yaml_valid L doc \<longleftrightarrow>
     (\<forall>c \<in> set (y_contracts doc). checksummed L (y_address c)) \<and>
     (\<forall>g \<in> set (y_groups doc). \<forall>a \<in> set (group_members g). checksummed L a)"

lemma zod_addressSchema: "zod (addressSchema L) v = Some r \<longleftrightarrow>
    (\<exists>s a. v = Some (JStr s) \<and> getAddress L s = Some a \<and> r = Some (JStr a))"
  by (auto simp: addressSchema_def zod_Some)

lemma parse_address:
  "zod_documented L \<Longrightarrow> parse_string L (addressSchema L) v = Inr a \<longleftrightarrow>
     (\<exists>s. v = Some (JStr s) \<and> getAddress L s = Some a)"
  by (auto simp: zod_documentedD required_def zod_addressSchema split: option.splits)
     (auto simp: addressSchema_def z_string_def)

lemma argument_is_caller_meaning:
  assumes "zod_documented L" "address_documented L" "parseAbi L sig = Some def"
    and "argument_is_caller L i def user data = Inr b"
  shows "b \<longleftrightarrow> (case caller_argument L sig data i of Some a \<Rightarrow> lower a = lower user | None \<Rightarrow> False)"
proof -
  from assms(4) obtain args arg where d: "decodeFunctionData L def data = Some (Some args)"
    and p: "parse_string L (addressSchema L) (array_get args i) = Inr arg"
    and e: "isAddressEqual L arg user = Some b"
    by (auto simp: argument_is_caller_def is_address_equal_def split: option.splits elim!: sbind_returned)
  from p assms(1) obtain s where s: "array_get args i = Some (JStr s)" "getAddress L s = Some arg"
    by (auto simp: parse_address simp del: parse_string_Inr)
  then have "lower arg = lower s" using assms(2) getAddress_hex by blast
  moreover have "b \<longleftrightarrow> lower arg = lower user" using assms(2) e isAddressEqualD by blast
  ultimately show ?thesis using d s assms(3) by (simp add: caller_argument_def)
qed

lemma membersForGroup_checksummed:
  assumes "zod_documented L" "\<forall>g \<in> set groups. \<forall>a \<in> set (group_members g). checksummed L a"
  shows "membersForGroup L groups n =
    Inr (concat (map group_members (filter (\<lambda>g. group_name g = n) groups)))"
proof -
  let ?as = "concat (map group_members (filter (\<lambda>g. group_name g = n) groups))"
  have "map_act (\<lambda>a. parse_string L (addressSchema L) (Some (JStr a))) ?as = Inr (map id ?as)"
  proof (rule map_act_total)
    fix a assume "a \<in> set ?as"
    with assms(2) have "getAddress L a = Some a" by (auto simp: checksummed_def)
    with assms(1) show "parse_string L (addressSchema L) (Some (JStr a)) = Inr (id a)"
      by (simp add: parse_address del: parse_string_Inr)
  qed
  then show ?thesis by (simp add: membersForGroup_def)
qed

lemma hidrateRule_meaning:
  assumes "zod_documented L" "address_documented L"
    and "\<forall>g \<in> set groups. \<forall>a \<in> set (group_members g). checksummed L a"
    and "hidrateRule L groups rule sig = Inr r" "can_do L r user data = Inr b"
  shows "b \<longleftrightarrow> yaml_permits L groups rule sig user data"
  using assms(4,5)
proof (induction rule arbitrary: r b)
  case (YGroup names)
  have "map_act (membersForGroup L groups) names =
      Inr (map (\<lambda>n. concat (map group_members (filter (\<lambda>g. group_name g = n) groups))) names)"
    by (rule map_act_total) (rule membersForGroup_checksummed [OF assms(1,3)])
  with YGroup show ?case by auto
next
  case (YCheckArgument i)
  then obtain def where "parseAbi L sig = Some def" "argument_is_caller L i def user data = Inr b"
    by (auto elim!: sbind_returned)
  then show ?case using argument_is_caller_meaning [OF assms(1,2)] by simp
next
  case (YOneOf rules)
  then obtain rs where rs: "map_act (\<lambda>r. hidrateRule L groups r sig) rules = Inr rs"
    and some: "some_act (\<lambda>r. can_do L r user data) rs = Inr b"
    by (auto elim!: sbind_returned)
  have len: "length rs = length rules" using rs by (rule map_act_length)
  have each: "b' \<longleftrightarrow> yaml_permits L groups (rules ! i) sig user data"
    if "i < length rules" "can_do L (rs ! i) user data = Inr b'" for i b'
    using YOneOf.IH [of "rules ! i"] map_act_nth [OF rs] that by simp
  show ?case
  proof (cases b)
    case True
    with some obtain i where "i < length rs" "can_do L (rs ! i) user data = Inr True"
      by (metis (full_types) some_act_Inr_True in_set_conv_nth)
    with each len have "yaml_permits L groups (rules ! i) sig user data" "rules ! i \<in> set rules" by auto
    with True show ?thesis by auto
  next
    case False
    with some have all: "\<forall>x \<in> set rs. can_do L x user data = Inr False"
      by (simp add: some_act_Inr_False)
    have "\<not> yaml_permits L groups r sig user data" if "r \<in> set rules" for r
    proof -
      from that obtain i where "i < length rules" "r = rules ! i" by (auto simp: in_set_conv_nth)
      with each [of i False] all len show ?thesis by simp
    qed
    with False show ?thesis by auto
  qed
qed auto

lemma strings_of_Some: "strings_of js = Some ss \<longleftrightarrow> js = map JStr ss"
  unfolding strings_of_def
  by (induction js arbitrary: ss) (auto split: option.splits json.splits simp: Cons_eq_map_conv)

lemma parsed_yaml_valid:
  assumes Z: "zod_documented L" and A: "address_documented L"
    and new: "new_YamlParser L raw = Inr doc"
  shows "yaml_valid L doc"
proof -
  from new obtain j where j: "zod (yamlSchema L) (Some raw) = Some (Some j)" "decode_yaml j = Some doc"
    by (auto simp: new_YamlParser_def zod_documentedD [OF Z] required_def
        split: option.splits elim!: sbind_returned)
  let ?group = "z_object False [(''name'', z_string Some), (''members'', z_array (z_string (getAddress L)))]"
  let ?contract = "z_object False [(''address'', z_string (getAddress L)), (''methods'', z_array (zod methodSchema))]"
  from j obtain gs gs0 cs cs0 where
      gs: "map (\<lambda>j. required (?group (Some j))) gs0 = map Some gs"
    and cs: "map (\<lambda>j. required (?contract (Some j))) cs0 = map Some cs"
    and dg: "all_some (map decode_group gs) = Some (y_groups doc)"
    and dc: "all_some (map decode_contract cs) = Some (y_contracts doc)"
    by (auto simp: yamlSchema_def addressSchema_def zod_Some decode_yaml_def split: option.splits)
  have "checksummed L (y_address c)" if c: "c \<in> set (y_contracts doc)" for c
  proof -
    from dc c obtain k where k: "k \<in> set cs" "decode_contract k = Some c"
      by (auto simp: all_some_Some map_eq_conv) (metis in_set_conv_nth length_map nth_map)
    from cs k(1) obtain j where "?contract (Some j) = Some (Some k)" by (rule z_array_elem)
    then obtain a s where "field ''address'' k = Some (JStr a)" "getAddress L s = Some a"
      by (auto simp: zod_Some)
    with k(2) A show ?thesis
      by (auto simp: decode_contract_def getAddress_checksummed split: option.splits json.splits)
  qed
  moreover have "checksummed L a" if g: "g \<in> set (y_groups doc)" and a: "a \<in> set (group_members g)" for g a
  proof -
    from dg g obtain k where k: "k \<in> set gs" "decode_group k = Some g"
      by (auto simp: all_some_Some map_eq_conv) (metis in_set_conv_nth length_map nth_map)
    from gs k(1) obtain j where "?group (Some j) = Some (Some k)" by (rule z_array_elem)
    then obtain ms0 ms where ms: "field ''members'' k = Some (JArr ms)"
      and el: "map (\<lambda>j. required (z_string (getAddress L) (Some j))) ms0 = map Some ms"
      by (fastforce simp: zod_Some)
    from k(2) ms a have "JStr a \<in> set ms"
      by (auto simp: decode_group_def strings_of_Some split: option.splits json.splits)
    with el obtain j where "z_string (getAddress L) (Some j) = Some (Some (JStr a))" by (rule z_array_elem)
    with A show ?thesis by (auto simp: zod_Some getAddress_checksummed)
  qed
  ultimately show ?thesis by (auto simp: yaml_valid_def)
qed

section \<open>Correctness of the configured authorizer\<close>

lemma checksummed_colon_free: "address_documented L \<Longrightarrow> checksummed L a \<Longrightarrow> colon_free a"
  using getAddress_hex hex_regex_no_colon by (fastforce simp: checksummed_def colon_free_def)

lemma parsed_tables:
  assumes "address_documented L" "yaml_valid L doc" "parse_yaml L doc = Inr a" "checksummed L addr"
  shows "permissions a (read_key addr sel) =
      map_option (\<lambda>m. projr (hidrateRule L (y_groups doc) (y_read m) (y_signature m))) (last_method L doc addr sel)"
    and "permissions a (write_key addr sel) =
      map_option (\<lambda>m. projr (hidrateRule L (y_groups doc) (y_write m) (y_signature m))) (last_method L doc addr sel)"
    and "postReadFilters a (filter_key addr sel) =
      map_option (\<lambda>(a, m). ResponseIsCaller (the (parseAbi L (y_signature m))) (the (y_postRead m)))
        (find_last (\<lambda>am. reaches L addr sel am \<and> y_postRead (snd am) \<noteq> None) (methods_of doc))"
proof -
  from assms(3) obtain ess where
      ess: "map_act (\<lambda>(a, m). method_events L (y_groups doc) a m) (methods_of doc) = Inr ess"
    and a: "a = fold apply_event (concat ess) new_authorizer"
    by (auto simp: parse_yaml_events elim!: sbind_returned)
  have addrs: "colon_free b" if "b \<in> fst ` set (methods_of doc)" for b
    using that assms(1,2) by (auto simp: methods_of_def yaml_valid_def intro: checksummed_colon_free)
  then have ok: "\<forall>e \<in> set (concat ess). colon_free (event_address e)"
    using written_methods(4) [OF ess] by auto
  have addr: "colon_free addr" using assms(1,4) by (rule checksummed_colon_free)
  show "permissions a (read_key addr sel) =
      map_option (\<lambda>m. projr (hidrateRule L (y_groups doc) (y_read m) (y_signature m))) (last_method L doc addr sel)"
    using reads.lookup_run_empty [OF ok addr] written_methods(1) [OF ess]
    by (simp add: a last_method_def option.map_comp comp_def case_prod_unfold)
  show "permissions a (write_key addr sel) =
      map_option (\<lambda>m. projr (hidrateRule L (y_groups doc) (y_write m) (y_signature m))) (last_method L doc addr sel)"
    using writes.lookup_run_empty [OF ok addr] written_methods(2) [OF ess]
    by (simp add: a last_method_def option.map_comp comp_def case_prod_unfold)
  show "postReadFilters a (filter_key addr sel) =
      map_option (\<lambda>(a, m). ResponseIsCaller (the (parseAbi L (y_signature m))) (the (y_postRead m)))
        (find_last (\<lambda>am. reaches L addr sel am \<and> y_postRead (snd am) \<noteq> None) (methods_of doc))"
    using filters.lookup_run_empty [OF ok addr] written_methods(3) [OF ess] by (simp add: a)
qed

text \<open>Every method of a document that parses has been hydrated without an error.\<close>

lemma parsed_rules_hidrate:
  assumes "parse_yaml L doc = Inr a" "last_method L doc addr sel = Some m"
  shows "\<exists>r. hidrateRule L (y_groups doc) (y_read m) (y_signature m) = Inr r"
    and "\<exists>w. hidrateRule L (y_groups doc) (y_write m) (y_signature m) = Inr w"
proof -
  from assms(1) obtain ess where
      ess: "map_act (\<lambda>(a, m). method_events L (y_groups doc) a m) (methods_of doc) = Inr ess"
    by (auto simp: parse_yaml_events elim!: sbind_returned)
  from assms(2) obtain b where "(b, m) \<in> set (methods_of doc)"
    by (auto simp: last_method_def dest!: find_last_Some)
  then obtain i where i: "i < length (methods_of doc)" "methods_of doc ! i = (b, m)"
    by (auto simp: in_set_conv_nth)
  then have ev: "method_events L (y_groups doc) b m = Inr (ess ! i)" using map_act_nth [OF ess] by fastforce
  show "\<exists>r. hidrateRule L (y_groups doc) (y_read m) (y_signature m) = Inr r"
    using ev by (rule hidrated_of_method_events(1))
  show "\<exists>w. hidrateRule L (y_groups doc) (y_write m) (y_signature m) = Inr w"
    using ev by (rule hidrated_of_method_events(2))
qed

text \<open>
  C5: The authorizer that \<open>YamlParser.parse\<close> builds refines the document: a read (write) check of a
  checksummed contract address runs the read (write) rule of the last method of the document whose
  contract has that address and whose selector is the first four bytes of the calldata, and denies
  when there is none; the post-read filter is the one of the last such method that declares one.
\<close>

theorem authorizer_refines_document:
  assumes "zod_documented L" "address_documented L"
    and "new_YamlParser L raw = Inr doc" "parse_yaml L doc = Inr a" "checksummed L addr"
  shows "checkContractRead L a addr data user =
      (case last_method L doc addr (extractSelector data) of None \<Rightarrow> Inr False
       | Some m \<Rightarrow> sbind (hidrateRule L (y_groups doc) (y_read m) (y_signature m)) (\<lambda>r. can_do L r user data))
    \<and> checkContractWrite L a addr data user =
      (case last_method L doc addr (extractSelector data) of None \<Rightarrow> Inr False
       | Some m \<Rightarrow> sbind (hidrateRule L (y_groups doc) (y_write m) (y_signature m)) (\<lambda>r. can_do L r user data))
    \<and> checkPostReadFilter a addr data =
      map_option (\<lambda>(b, m). ResponseIsCaller (the (parseAbi L (y_signature m))) (the (y_postRead m)))
        (find_last (\<lambda>bm. reaches L addr (extractSelector data) bm \<and> y_postRead (snd bm) \<noteq> None) (methods_of doc))"
proof -
  have "yaml_valid L doc" using assms(1-3) by (rule parsed_yaml_valid)
  note tables = parsed_tables [OF assms(2) this assms(4,5)]
  show ?thesis
    using parsed_rules_hidrate [OF assms(4), of addr "extractSelector data"]
    by (auto simp: checkContractRead_def checkContractWrite_def checkPostReadFilter_def rule_or_denied_def
        tables split: option.splits)
qed

text \<open>
  A check that returns decides exactly what the document says: true if and only if a method is
  declared for the contract and selector and its rule permits the user (public; a member of one of
  the named groups; the user's own address as the named argument; any rule of \<open>oneOf\<close>). In
  particular what the document does not declare is denied to everyone.
\<close>

theorem check_decides_as_declared:
  assumes "zod_documented L" "address_documented L"
    and "new_YamlParser L raw = Inr doc" "parse_yaml L doc = Inr a" "checksummed L addr"
  shows "(checkContractRead L a addr data user = Inr b \<longrightarrow>
      b = (case last_method L doc addr (extractSelector data) of None \<Rightarrow> False
           | Some m \<Rightarrow> yaml_permits L (y_groups doc) (y_read m) (y_signature m) user data))
    \<and> (checkContractWrite L a addr data user = Inr b \<longrightarrow>
      b = (case last_method L doc addr (extractSelector data) of None \<Rightarrow> False
           | Some m \<Rightarrow> yaml_permits L (y_groups doc) (y_write m) (y_signature m) user data))"
proof -
  have valid: "yaml_valid L doc" using assms(1-3) by (rule parsed_yaml_valid)
  then have members: "\<forall>g \<in> set (y_groups doc). \<forall>a \<in> set (group_members g). checksummed L a"
    by (simp add: yaml_valid_def)
  note tables = parsed_tables [OF assms(2) valid assms(4,5)]
  show ?thesis
    using parsed_rules_hidrate [OF assms(4), of addr "extractSelector data"]
      hidrateRule_meaning [OF assms(1,2) members]
    by (auto simp: checkContractRead_def checkContractWrite_def rule_or_denied_def tables split: option.splits)
qed

section \<open>A concrete configuration\<close>

definition demo_user :: string where
  "demo_user = ''0x'' @ replicate 40 CHR ''a''"

definition demo_contract :: string where
  "demo_contract = ''0x'' @ replicate 40 CHR ''c''"

definition demo_config :: json where
  "demo_config = JObj
     [(''groups'', JArr [JObj [(''name'', JStr ''staff''), (''members'', JArr [JStr demo_user])]]),
      (''contracts'', JArr [JObj [(''address'', JStr demo_contract),
         (''methods'', JArr [JObj
            [(''signature'', JStr ''function balance()''),
             (''read'', JObj [(''type'', JStr ''group''), (''groups'', JArr [JStr ''staff''])]),
             (''postRead'', JObj [(''type'', JStr ''responseIsCurrentUser''), (''index'', JNum 0)]),
             (''write'', JObj [(''type'', JStr ''group''), (''groups'', JArr [JStr ''staff''])])]])]])]"

definition demo_doc :: yaml_doc where
  "demo_doc = \<lparr>y_groups = [\<lparr>group_name = ''staff'', group_members = [demo_user]\<rparr>],
     y_contracts = [\<lparr>y_address = demo_contract,
        y_methods = [\<lparr>y_signature = ''function balance()'', y_read = YGroup [''staff''],
                       y_postRead = Some 0, y_write = YGroup [''staff'']\<rparr>]\<rparr>]\<rparr>"

definition demo_authorizer :: "string authorizer" where
  "demo_authorizer = projr (parse_yaml demo_lib demo_doc)"

lemma demo_addresses:
  "getAddress demo_lib demo_user = Some demo_user" "getAddress demo_lib demo_contract = Some demo_contract"
  "length demo_user = 42" "length demo_contract = 42"
  by code_simp+

lemma demo_checksummed: "checksummed demo_lib demo_contract" "checksummed demo_lib demo_user"
  by (simp_all only: checksummed_def demo_addresses)

lemma demo_new: "new_YamlParser demo_lib demo_config = Inr demo_doc"
  by code_simp

lemma demo_parse: "parse_yaml demo_lib demo_doc = Inr demo_authorizer"
proof -
  have "isl (parse_yaml demo_lib demo_doc) = False" by code_simp
  then show ?thesis by (simp add: demo_authorizer_def)
qed

theorem authorizer_refines_document_witness:
  "checkContractRead demo_lib demo_authorizer demo_contract ''0x12345678'' demo_user = Inr True \<and>
   checkPostReadFilter demo_authorizer demo_contract ''0x12345678'' = Some (ResponseIsCaller ''function balance()'' 0)"
proof -
  have "last_method demo_lib demo_doc demo_contract (extractSelector ''0x12345678'') =
      Some (hd (y_methods (hd (y_contracts demo_doc))))"
    by code_simp
  moreover have "sbind (hidrateRule demo_lib (y_groups demo_doc) (YGroup [''staff'']) ''function balance()'')
      (\<lambda>r. can_do demo_lib r demo_user ''0x12345678'') = Inr True"
    by code_simp
  ultimately show ?thesis
    using authorizer_refines_document [OF demo_lib_documented demo_new demo_parse demo_checksummed(1),
        of "''0x12345678''" demo_user]
    by (simp add: demo_doc_def methods_of_def reaches_def extractSelector_def)
qed

theorem check_decides_as_declared_witness:
  "checkContractRead demo_lib demo_authorizer demo_contract ''0x12345678'' demo_user = Inr True \<and>
   (case last_method demo_lib demo_doc demo_contract (extractSelector ''0x12345678'') of None \<Rightarrow> False
    | Some m \<Rightarrow> yaml_permits demo_lib (y_groups demo_doc) (y_read m) (y_signature m) demo_user ''0x12345678'')"
proof -
  have r: "checkContractRead demo_lib demo_authorizer demo_contract ''0x12345678'' demo_user = Inr True"
    by code_simp
  then show ?thesis
    using check_decides_as_declared [OF demo_lib_documented demo_new demo_parse demo_checksummed(1),
        of "''0x12345678''" demo_user True]
    by simp
qed

end
