(* ===== verification/Rpc_Methods.thy ===== *)
theory Rpc_Methods
  imports Permissions
begin

text \<open>
  The JSON-RPC methods of the private RPC: packages/private-rpc/src/rpc (json-rpc.ts,
  delegate-call.ts and methods/). Every handler is a computation over the trace of requests to the
  target node; its reply is a JSON value of its own or the node's response body passed on as it is.
\<close>

section \<open>Messages: json-rpc.ts\<close>

definition unauthorized_with :: "json \<Rightarrow> string \<Rightarrow> json" where
  "unauthorized_with rid message = JObj
     [(''jsonrpc'', JStr ''2.0''), (''id'', rid),
      (''error'', JObj [(''code'', JNum (-32090)), (''message'', JStr message)])]"

abbreviation unauthorized :: "json \<Rightarrow> json" where
  "unauthorized rid \<equiv> unauthorized_with rid ''Unauthorized''"

definition invalidRequest :: "json \<Rightarrow> json" where
  "invalidRequest rid = JObj
     [(''jsonrpc'', JStr ''2.0''), (''id'', rid),
      (''error'', JObj [(''code'', JNum (-32600)), (''message'', JStr ''Invalid Request'')])]"

definition rpc_request :: "json \<Rightarrow> string \<Rightarrow> json list \<Rightarrow> json" where
  "rpc_request rid method params = JObj
     [(''jsonrpc'', JStr ''2.0''), (''id'', rid), (''method'', JStr method), (''params'', JArr params)]"

definition rpc_response :: "json \<Rightarrow> json \<Rightarrow> json" where
  "rpc_response rid result = JObj [(''jsonrpc'', JStr ''2.0''), (''id'', rid), (''result'', result)]"

definition errorResponse :: "json \<Rightarrow> json \<Rightarrow> json" where
  "errorResponse rid err = JObj [(''jsonrpc'', JStr ''2.0''), (''id'', rid), (''error'', err)]"

section \<open>Contexts, replies, handlers: rpc-service.ts\<close>

record 'abi request_context =
  authorizer :: "'abi authorizer"
  targetRpcUrl :: string
  currentUser :: string

datatype reply = ReplyJson json | ReplyBody body

type_synonym ('abi, 's) handle_fun =
  "'abi request_context \<Rightarrow> string \<Rightarrow> json list \<Rightarrow> json \<Rightarrow> ('s, reply) act"

record ('abi, 's) method_handler =
  handler_name :: string
  handle :: "('abi, 's) handle_fun"

section \<open>Calls to the target node: delegate-call.ts, methods/utils.ts\<close>

definition delegateCall :: "world \<Rightarrow> string \<Rightarrow> json \<Rightarrow> string \<Rightarrow> json list \<Rightarrow> ('z net_scheme, reply) act" where
  "delegateCall w url rid method params =
     bind (fetch w (HttpPost url (rpc_request rid method params))) (\<lambda>response. ret (ReplyBody (content response)))"

definition sendToTargetRpc ::
  "'abi lib \<Rightarrow> world \<Rightarrow> string \<Rightarrow> json \<Rightarrow> string \<Rightarrow> json list \<Rightarrow> schema \<Rightarrow> ('z net_scheme, json) act" where
  "sendToTargetRpc L w url rid method params schema =
     bind (fetch w (HttpPost url (rpc_request rid method params))) (\<lambda>res.
     bind (res_json res) (\<lambda>j. of_sum (parse_sum L schema (Some j))))"

definition forbiddenMethod :: "string \<Rightarrow> ('abi, 's) method_handler" where
  "forbiddenMethod name =
     \<lparr>handler_name = name, handle = (\<lambda>ctx method params rid. ret (ReplyJson (unauthorized rid)))\<rparr>"

definition onlyUserParamsSchema :: "'abi lib \<Rightarrow> schema" where
  "onlyUserParamsSchema L = STupleRest [addressSchema L]"

definition onlyCurrentUser :: "'abi lib \<Rightarrow> world \<Rightarrow> string \<Rightarrow> ('abi, 'z net_scheme) method_handler" where
  "onlyCurrentUser L w name =
     \<lparr>handler_name = name, handle = (\<lambda>ctx method params rid.
        bind (of_sum (parse_sum L (onlyUserParamsSchema L) (Some (JArr params)))) (\<lambda>parsed.
        bind (of_sum (the_array (Some parsed))) (\<lambda>items.
        if list_head items \<noteq> Some (JStr (currentUser ctx))
        then ret (ReplyJson (unauthorized rid))
        else delegateCall w (targetRpcUrl ctx) rid method params)))\<rparr>"

section \<open>eth\_call.ts\<close>

definition callReqSchema :: "'abi lib \<Rightarrow> schema" where
  "callReqSchema L = SObj True
     [(''from'', SOptional (addressSchema L)), (''to'', addressSchema L),
      (''data'', SOptional hexSchema), (''input'', SOptional hexSchema)]"

definition callResponseSchema :: schema where
  "callResponseSchema = SObj False
     [(''jsonrpc'', SLit ''2.0''), (''id'', SAny), (''result'', SOptional hexSchema)]"

text \<open>The guards before any request is sent: the sender, then the read rule on the calldata.\<close>

definition call_sender_ok :: "'abi lib \<Rightarrow> 'abi request_context \<Rightarrow> json \<Rightarrow> exn + bool" where
  "call_sender_ok L ctx call =
     (case field ''from'' call of
        None \<Rightarrow> Inr True
      | Some from \<Rightarrow> sbind (the_string (Some from)) (\<lambda>f. is_address_equal L f (currentUser ctx)))"

text \<open>A call whose answer has a post-read filter: the answer is read, and returned if the filter agrees.\<close>

definition filtered_call ::
  "'abi lib \<Rightarrow> world \<Rightarrow> 'abi response_filter \<Rightarrow> ('abi, 'z net_scheme) handle_fun" where
  "filtered_call L w rule ctx method params rid =
     bind (sendToTargetRpc L w (targetRpcUrl ctx) rid method params callResponseSchema) (\<lambda>res.
     if \<not> truthy (field ''result'' res) then ret (ReplyJson (unauthorized rid))
     else
       bind (of_sum (string_field ''result'' res)) (\<lambda>result.
       bind (of_sum (can_read L rule (currentUser ctx) result)) (\<lambda>readable.
       if readable then ret (ReplyJson res) else ret (ReplyJson (unauthorized rid)))))"

definition eth_call_handle :: "'abi lib \<Rightarrow> world \<Rightarrow> ('abi, 'z net_scheme) handle_fun" where
  "eth_call_handle L w ctx method params rid =
     bind (of_sum (parse_sum L (callReqSchema L) (list_head params))) (\<lambda>call.
     bind (of_sum (call_sender_ok L ctx call)) (\<lambda>sender_ok.
     if \<not> sender_ok then ret (ReplyJson (unauthorized rid))
     else let data = js_or (field ''data'' call) (field ''input'' call) in
       if \<not> truthy data then delegateCall w (targetRpcUrl ctx) rid method params
       else
         bind (of_sum (the_string data)) (\<lambda>d.
         bind (of_sum (string_field ''to'' call)) (\<lambda>to.
         bind (of_sum (checkContractRead L (authorizer ctx) to d (currentUser ctx))) (\<lambda>allowed.
         if \<not> allowed then ret (ReplyJson (unauthorized rid))
         else
           (case checkPostReadFilter (authorizer ctx) to d of
              None \<Rightarrow> delegateCall w (targetRpcUrl ctx) rid method params
            | Some rule \<Rightarrow> filtered_call L w rule ctx method params rid))))))"

definition eth_call :: "'abi lib \<Rightarrow> world \<Rightarrow> ('abi, 'z net_scheme) method_handler" where
  "eth_call L w = \<lparr>handler_name = ''eth_call'', handle = eth_call_handle L w\<rparr>"

section \<open>eth\_getBlockByNumber.ts\<close>

definition blockSchema :: schema where
  "blockSchema = SObj True [(''result'', SObj True [(''transactions'', SAny)])]"

definition filterTransactions_handle :: "'abi lib \<Rightarrow> world \<Rightarrow> ('abi, 'z net_scheme) handle_fun" where
  "filterTransactions_handle L w ctx method params rid =
     bind (sendToTargetRpc L w (targetRpcUrl ctx) rid method params blockSchema) (\<lambda>data.
     bind (of_sum (access (Some data) ''result'')) (\<lambda>result.
     ret (ReplyJson (spread data
       [(''result'', spread (case result of Some r \<Rightarrow> r | None \<Rightarrow> JNull) [(''transactions'', JArr [])])]))))"

text \<open>Both exported handlers are the same object, with the name \<open>eth_getBlockByNumber\<close>.\<close>

definition filterTransactions :: "'abi lib \<Rightarrow> world \<Rightarrow> ('abi, 'z net_scheme) method_handler" where
  "filterTransactions L w =
     \<lparr>handler_name = ''eth_getBlockByNumber'', handle = filterTransactions_handle L w\<rparr>"

definition eth_getBlockByNumber :: "'abi lib \<Rightarrow> world \<Rightarrow> ('abi, 'z net_scheme) method_handler" where
  "eth_getBlockByNumber L w = filterTransactions L w"

definition eth_getBlockByHash :: "'abi lib \<Rightarrow> world \<Rightarrow> ('abi, 'z net_scheme) method_handler" where
  "eth_getBlockByHash L w = filterTransactions L w"

section \<open>Visibility of logs and receipts\<close>

text \<open>\<open>areHexEqual(padHex(user), t)\<close> on one topic, and \<open>log.topics.some(...)\<close>.\<close>

definition topic_is_user :: "'abi lib \<Rightarrow> string \<Rightarrow> json \<Rightarrow> exn + bool" where
  "topic_is_user L user t =
     sbind (lib_sum (padHex L user)) (\<lambda>p. sbind (the_string (Some t)) (\<lambda>s. Inr (areHexEqual p s)))"

definition log_mentions :: "'abi lib \<Rightarrow> string \<Rightarrow> json \<Rightarrow> exn + bool" where
  "log_mentions L user entry = sbind (array_field ''topics'' entry) (some_act (topic_is_user L user))"

definition address_field_is :: "'abi lib \<Rightarrow> string \<Rightarrow> string \<Rightarrow> json \<Rightarrow> exn + bool" where
  "address_field_is L k user j = sbind (string_field k j) (\<lambda>a. is_address_equal L a user)"

text \<open>The condition of both receipt methods: recipient, sender, or named by a log.\<close>

definition receipt_visible :: "'abi lib \<Rightarrow> string \<Rightarrow> json \<Rightarrow> exn + bool" where
  "receipt_visible L user receipt =
     sor (address_field_is L ''to'' user receipt)
      (sor (address_field_is L ''from'' user receipt)
        (sbind (array_field ''logs'' receipt) (some_act (log_mentions L user))))"

definition receiptSchema :: "'abi lib \<Rightarrow> schema" where
  "receiptSchema L = SObj True
     [(''from'', addressSchema L), (''to'', addressSchema L),
      (''logs'', SArr (SObj True [(''topics'', SArr hexSchema)]))]"

text \<open>
  The shape shared by the three list methods: ask the node, filter \<open>data.result\<close>, return the
  answer with the filtered list in its place.
\<close>

definition filtered_list_handle ::
  "'abi lib \<Rightarrow> world \<Rightarrow> schema \<Rightarrow> (string \<Rightarrow> json \<Rightarrow> exn + bool) \<Rightarrow> ('abi, 'z net_scheme) handle_fun" where
  "filtered_list_handle L w schema visible ctx method params rid =
     bind (sendToTargetRpc L w (targetRpcUrl ctx) rid method params schema) (\<lambda>data.
     bind (of_sum (array_field ''result'' data)) (\<lambda>items.
     bind (of_sum (filter_act (visible (currentUser ctx)) items)) (\<lambda>filtered.
     ret (ReplyJson (spread data [(''result'', JArr filtered)])))))"

section \<open>eth\_getBlockReceipts.ts, eth\_getLogs.ts, zks\_getRawBlockTransactions.ts\<close>

definition blockReceiptsSchema :: "'abi lib \<Rightarrow> schema" where
  "blockReceiptsSchema L = SObj True [(''result'', SArr (receiptSchema L))]"

definition eth_getBlockReceipts :: "'abi lib \<Rightarrow> world \<Rightarrow> ('abi, 'z net_scheme) method_handler" where
  "eth_getBlockReceipts L w =
     \<lparr>handler_name = ''eth_getBlockReceipts'',
      handle = filtered_list_handle L w (blockReceiptsSchema L) (receipt_visible L)\<rparr>"

definition logsSchema :: schema where
  "logsSchema = SObj True
     [(''jsonrpc'', SLit ''2.0''), (''id'', SAny),
      (''result'', SArr (SObj True [(''topics'', SArr hexSchema)]))]"

definition eth_getLogs :: "'abi lib \<Rightarrow> world \<Rightarrow> ('abi, 'z net_scheme) method_handler" where
  "eth_getLogs L w =
     \<lparr>handler_name = ''eth_getLogs'', handle = filtered_list_handle L w logsSchema (log_mentions L)\<rparr>"

definition rawBlockSchema :: "'abi lib \<Rightarrow> schema" where
  "rawBlockSchema L = SObj True
     [(''jsonrpc'', SLit ''2.0''), (''id'', SAny),
      (''result'', SArr (SObj True
         [(''common_data'', SObj True [(''L2'', SObj True [(''initiatorAddress'', addressSchema L)])])]))]"

definition raw_tx_visible :: "'abi lib \<Rightarrow> string \<Rightarrow> json \<Rightarrow> exn + bool" where
  "raw_tx_visible L user r =
     sbind (access (Some r) ''common_data'') (\<lambda>c.
     sbind (access c ''L2'') (\<lambda>l2.
     sbind (access l2 ''initiatorAddress'') (\<lambda>a.
     sbind (the_string a) (\<lambda>s. is_address_equal L s user))))"

definition zks_getRawBlockTransactions :: "'abi lib \<Rightarrow> world \<Rightarrow> ('abi, 'z net_scheme) method_handler" where
  "zks_getRawBlockTransactions L w =
     \<lparr>handler_name = ''zks_getRawBlockTransactions'',
      handle = filtered_list_handle L w (rawBlockSchema L) (raw_tx_visible L)\<rparr>"

section \<open>eth\_getTransactionReceipt.ts\<close>

definition txReceiptSchema :: "'abi lib \<Rightarrow> schema" where
  "txReceiptSchema L = SObj True [(''result'', SNullable (receiptSchema L))]"

definition eth_getTransactionReceipt_handle :: "'abi lib \<Rightarrow> world \<Rightarrow> ('abi, 'z net_scheme) handle_fun" where
  "eth_getTransactionReceipt_handle L w ctx method params rid =
     bind (sendToTargetRpc L w (targetRpcUrl ctx) rid method params (txReceiptSchema L)) (\<lambda>data.
     if field ''result'' data = Some JNull then ret (ReplyJson data)
     else
       bind (of_sum (case field ''result'' data of
                       None \<Rightarrow> Inl TypeError
                     | Some receipt \<Rightarrow> receipt_visible L (currentUser ctx) receipt)) (\<lambda>hasAccess.
       if \<not> hasAccess then ret (ReplyJson (unauthorized rid)) else ret (ReplyJson data)))"

definition eth_getTransactionReceipt :: "'abi lib \<Rightarrow> world \<Rightarrow> ('abi, 'z net_scheme) method_handler" where
  "eth_getTransactionReceipt L w =
     \<lparr>handler_name = ''eth_getTransactionReceipt'', handle = eth_getTransactionReceipt_handle L w\<rparr>"

section \<open>eth\_newFilter.ts, who-am-i.ts\<close>

definition newFilterSchema :: schema where
  "newFilterSchema = SObj True [(''topics'', SArr hexSchema)]"

text \<open>The schema is run on the parameter array itself. (The server registers a forbidden method instead.)\<close>

definition eth_newFilter_handle :: "'abi lib \<Rightarrow> world \<Rightarrow> ('abi, 'z net_scheme) handle_fun" where
  "eth_newFilter_handle L w ctx method params rid =
     bind (of_sum (parse_sum L newFilterSchema (Some (JArr params)))) (\<lambda>parsed.
     bind (of_sum (array_field ''topics'' parsed)) (\<lambda>topics.
     bind (of_sum (some_act (\<lambda>param. sbind (the_string (Some param)) (\<lambda>p.
              if isAddress L p then is_address_equal L p (currentUser ctx) else Inr False)) topics)) (\<lambda>isTargetToUser.
     if \<not> isTargetToUser then ret (ReplyJson (unauthorized rid))
     else delegateCall w (targetRpcUrl ctx) rid method params)))"

definition eth_newFilter :: "'abi lib \<Rightarrow> world \<Rightarrow> ('abi, 'z net_scheme) method_handler" where
  "eth_newFilter L w = \<lparr>handler_name = ''eth_newFilter'', handle = eth_newFilter_handle L w\<rparr>"

definition whoAmI :: "('abi, 's) method_handler" where
  "whoAmI =
     \<lparr>handler_name = ''who_am_i'',
      handle = (\<lambda>ctx method params rid. ret (ReplyJson (rpc_response rid (JStr (currentUser ctx)))))\<rparr>"

section \<open>zks\_sendRawTransaction.ts\<close>

definition send_raw_handle :: "'abi lib \<Rightarrow> world \<Rightarrow> ('abi, 'z net_scheme) handle_fun" where
  "send_raw_handle L w ctx method params rid =
     bind (of_sum (parse_string L hexSchema (list_head params))) (\<lambda>rawTx.
     bind (of_sum (lib_sum (parseTransaction L rawTx))) (\<lambda>tx.
     bind (of_sum (lib_sum (recoverTransactionAddress L rawTx))) (\<lambda>address.
     bind (of_sum (is_address_equal L address (currentUser ctx))) (\<lambda>own.
     if \<not> own then ret (ReplyJson (unauthorized_with rid ''Cannot impersonate other users''))
     else
       (case zodParse L (addressSchema L) (tx_to tx) of
          None \<Rightarrow> ret (ReplyJson (invalidRequest rid))
        | Some txTo \<Rightarrow>
            bind (of_sum (case tx_data tx of
                None \<Rightarrow> Inr True
              | Some data \<Rightarrow>
                  if data = [] then Inr True
                  else sbind (the_string (Some txTo)) (\<lambda>to.
                    checkContractWrite L (authorizer ctx) to data (currentUser ctx)))) (\<lambda>allowed.
            if \<not> allowed then ret (ReplyJson (unauthorized rid))
            else delegateCall w (targetRpcUrl ctx) rid method [JStr rawTx]))))))"

definition zks_sendRawTransactionWithDetailedOutput ::
  "'abi lib \<Rightarrow> world \<Rightarrow> ('abi, 'z net_scheme) method_handler" where
  "zks_sendRawTransactionWithDetailedOutput L w =
     \<lparr>handler_name = ''zks_sendRawTransactionWithDetailedOutput'', handle = send_raw_handle L w\<rparr>"

definition eth_sendRawTransaction :: "'abi lib \<Rightarrow> world \<Rightarrow> ('abi, 'z net_scheme) method_handler" where
  "eth_sendRawTransaction L w =
     (zks_sendRawTransactionWithDetailedOutput L w)\<lparr>handler_name := ''eth_sendRawTransaction''\<rparr>"

section \<open>Footprints\<close>

text \<open>
  Every request a handler may send goes to the target node, for the method and the identifier of the
  call. The locale is the contract the dispatcher relies on; \<open>listing_handler\<close> extends it for the
  methods whose answer is a list of items that only their parties may see.
\<close>

definition to_node :: "'abi request_context \<Rightarrow> string \<Rightarrow> json \<Rightarrow> outbound \<Rightarrow> bool" where
  "to_node ctx method rid r \<longleftrightarrow> (\<exists>params. r = HttpPost (targetRpcUrl ctx) (rpc_request rid method params))"

locale node_handler =
  fixes handler :: "('abi, 'z net_scheme) handle_fun"
  assumes footprint: "sends (to_node ctx method rid) (handler ctx method params rid)"
begin

lemma trace_grows:
  assumes "handler ctx method params rid s = (t, r)"
  obtains rs where "t = s\<lparr>trace := trace s @ rs\<rparr>" "\<forall>q \<in> set rs. to_node ctx method rid q"
  using footprint assms by (rule sends_trace)

end

locale listing_handler = node_handler handler
  for handler :: "('abi, 'z net_scheme) handle_fun" +
  fixes visible :: "string \<Rightarrow> json \<Rightarrow> exn + bool"
  assumes filtered_reply: "handler ctx method params rid s = (t, Inr r) \<Longrightarrow>
    \<exists>data items. field ''result'' data = Some (JArr items) \<and>
      r = ReplyJson (spread data [(''result'', JArr (filter (\<lambda>x. visible (currentUser ctx) x = Inr True) items))])"
begin

lemma only_visible:
  assumes "handler ctx method params rid s = (t, Inr r)"
  obtains j xs where "r = ReplyJson j" "field ''result'' j = Some (JArr xs)"
    "\<forall>x \<in> set xs. visible (currentUser ctx) x = Inr True"
proof -
  from filtered_reply [OF assms] obtain data items where
    "r = ReplyJson (spread data [(''result'', JArr (filter (\<lambda>x. visible (currentUser ctx) x = Inr True) items))])"
    by blast
  then show ?thesis by (intro that) auto
qed

end

lemma delegateCall_run:
  "delegateCall w url rid method params s =
     (let r = HttpPost url (rpc_request rid method params) in
      (s\<lparr>trace := trace s @ [r]\<rparr>,
       case w (trace s) r of None \<Rightarrow> Inl lib_error | Some a \<Rightarrow> Inr (ReplyBody (content a))))"
  by (simp add: delegateCall_def fetch_def bind_def act_simps Let_def split: option.splits)

lemma sends_delegateCall [simp]:
  "P (HttpPost url (rpc_request rid method params)) \<Longrightarrow> sends P (delegateCall w url rid method params)"
  by (auto simp: delegateCall_def)

lemma sends_sendToTargetRpc [simp]:
  "P (HttpPost url (rpc_request rid method params)) \<Longrightarrow> sends P (sendToTargetRpc L w url rid method params schema)"
  by (auto simp: sendToTargetRpc_def)

lemma sendToTargetRpc_returned:
  assumes "sendToTargetRpc L w url rid method params schema s = (t, Inr data)"
  shows "t = s\<lparr>trace := trace s @ [HttpPost url (rpc_request rid method params)]\<rparr>"
    and "\<exists>a j. w (trace s) (HttpPost url (rpc_request rid method params)) = Some a \<and> content a = JsonBody j \<and>
      zodParse L schema (Some j) = Some data"
  using assms
  by (auto simp: sendToTargetRpc_def res_json_returned fetch_returned act_simps elim!: bind_returned)

lemma sendToTargetRpc_trace:
  "trace (fst (sendToTargetRpc L w url rid method params schema s)) =
     trace s @ [HttpPost url (rpc_request rid method params)]"
  by (auto simp: sendToTargetRpc_def bind_def res_json_def fetch_def act_simps
      split: prod.splits sum.splits option.splits body.splits)

lemma to_node_request [simp]: "to_node ctx method rid (HttpPost (targetRpcUrl ctx) (rpc_request rid method params))"
  by (auto simp: to_node_def)

lemma filtered_list_footprint: "sends (to_node ctx method rid) (filtered_list_handle L w schema vis ctx method params rid)"
  by (auto simp: filtered_list_handle_def)

lemma filtered_list_reply:
  assumes "filtered_list_handle L w schema vis ctx method params rid s = (t, Inr r)"
  shows "\<exists>data items. field ''result'' data = Some (JArr items) \<and>
      r = ReplyJson (spread data [(''result'', JArr (filter (\<lambda>x. vis (currentUser ctx) x = Inr True) items))])"
  using assms
  by (auto simp: filtered_list_handle_def act_simps array_field_Inr elim!: bind_returned dest!: filter_act_sound)
     blast

interpretation receipts: listing_handler "handle (eth_getBlockReceipts L w)" "receipt_visible L" for L w
  by unfold_locales (auto simp: eth_getBlockReceipts_def filtered_list_footprint dest: filtered_list_reply)

interpretation logs: listing_handler "handle (eth_getLogs L w)" "log_mentions L" for L w
  by unfold_locales (auto simp: eth_getLogs_def filtered_list_footprint dest: filtered_list_reply)

interpretation raw_block: listing_handler "handle (zks_getRawBlockTransactions L w)" "raw_tx_visible L" for L w
  by unfold_locales (auto simp: zks_getRawBlockTransactions_def filtered_list_footprint dest: filtered_list_reply)

interpretation forbidden: node_handler "handle (forbiddenMethod name)" for name
  by unfold_locales (simp add: forbiddenMethod_def)

interpretation only_user: node_handler "handle (onlyCurrentUser L w name)" for L w name
  by unfold_locales (auto simp: onlyCurrentUser_def)

lemma filtered_call_footprint: "sends (to_node ctx method rid) (filtered_call L w rule ctx method params rid)"
  by (auto simp: filtered_call_def)

lemma filtered_call_trace:
  "trace (fst (filtered_call L w rule ctx method params rid s)) =
     trace s @ [HttpPost (targetRpcUrl ctx) (rpc_request rid method params)]"
  unfolding filtered_call_def by (subst bind_effect_free_state) (auto simp: sendToTargetRpc_trace)

lemma delegateCall_trace:
  "trace (fst (delegateCall w url rid method params s)) = trace s @ [HttpPost url (rpc_request rid method params)]"
  by (simp add: delegateCall_run Let_def)

interpretation call_method: node_handler "handle (eth_call L w)" for L w
  by unfold_locales (auto simp: eth_call_def eth_call_handle_def filtered_call_footprint Let_def)

interpretation block_method: node_handler "handle (filterTransactions L w)" for L w
  by unfold_locales (auto simp: filterTransactions_def filterTransactions_handle_def)

interpretation receipt_method: node_handler "handle (eth_getTransactionReceipt L w)" for L w
  by unfold_locales (auto simp: eth_getTransactionReceipt_def eth_getTransactionReceipt_handle_def)

interpretation new_filter: node_handler "handle (eth_newFilter L w)" for L w
  by unfold_locales (auto simp: eth_newFilter_def eth_newFilter_handle_def)

interpretation who_am_i: node_handler "handle whoAmI"
  by unfold_locales (simp add: whoAmI_def)

interpretation send_raw: node_handler "handle (zks_sendRawTransactionWithDetailedOutput L w)" for L w
  by unfold_locales (auto simp: zks_sendRawTransactionWithDetailedOutput_def send_raw_handle_def)

section \<open>What the methods let through\<close>

text \<open>The guards of \<open>eth_call\<close>, as a condition on the call object that the schema returned.\<close>

definition call_permitted :: "'abi lib \<Rightarrow> 'abi request_context \<Rightarrow> json \<Rightarrow> bool" where
  "call_permitted L ctx call \<longleftrightarrow>
     (case field ''from'' call of
        None \<Rightarrow> True
      | Some from \<Rightarrow> \<exists>f. from = JStr f \<and> isAddressEqual L f (currentUser ctx) = Some True) \<and>
     (let data = js_or (field ''data'' call) (field ''input'' call) in
      truthy data \<longrightarrow>
        (\<exists>d to. data = Some (JStr d) \<and> field ''to'' call = Some (JStr to) \<and>
           checkContractRead L (authorizer ctx) to d (currentUser ctx) = Inr True))"

lemma call_sender_ok_True:
  "call_sender_ok L ctx call = Inr True \<longleftrightarrow>
     (case field ''from'' call of
        None \<Rightarrow> True
      | Some from \<Rightarrow> \<exists>f. from = JStr f \<and> isAddressEqual L f (currentUser ctx) = Some True)"
  by (auto simp: call_sender_ok_def the_string_def is_address_equal_def sbind_def
      split: option.splits json.splits sum.splits)

text \<open>
  C6: \<open>eth_call\<close> contacts the node only for a call that passes every guard: a \<open>from\<close> that is the
  current user (or absent), and, when there is calldata, a read rule of the called contract and
  selector that admits the user. The one request it then sends carries the caller's parameters
  unchanged.
\<close>

theorem eth_call_guarded:
  assumes "handle (eth_call L w) ctx method params rid s = (t, r)" and "trace t \<noteq> trace s"
  shows "\<exists>call. zodParse L (callReqSchema L) (list_head params) = Some call \<and> call_permitted L ctx call \<and>
    trace t = trace s @ [HttpPost (targetRpcUrl ctx) (rpc_request rid method params)]"
proof -
  let ?h = "eth_call_handle L w ctx method params rid s"
  have h: "trace (fst ?h) = trace t" and changed: "trace (fst ?h) \<noteq> trace s"
    using assms by (simp_all add: eth_call_def)
  from changed obtain call where call: "zodParse L (callReqSchema L) (list_head params) = Some call"
    by (auto simp: eth_call_handle_def bind_of_sum split: sum.splits)
  from changed call have ok: "call_sender_ok L ctx call = Inr True"
    by (auto simp: eth_call_handle_def parse_sum_def bind_of_sum act_simps split: sum.splits if_splits)
  let ?data = "js_or (field ''data'' call) (field ''input'' call)"
  from changed call ok have data: "truthy ?data \<longrightarrow> (\<exists>d to. ?data = Some (JStr d) \<and>
      field ''to'' call = Some (JStr to) \<and> checkContractRead L (authorizer ctx) to d (currentUser ctx) = Inr True)"
    by (auto simp: eth_call_handle_def parse_sum_def bind_of_sum act_simps string_field_Inr Let_def
        split: sum.splits if_splits)
  from changed call ok have "trace (fst ?h) = trace s @ [HttpPost (targetRpcUrl ctx) (rpc_request rid method params)]"
    by (auto simp: eth_call_handle_def parse_sum_def bind_of_sum act_simps Let_def
        delegateCall_trace filtered_call_trace split: sum.splits if_splits option.splits)
  with call ok data h show ?thesis
    by (auto simp: call_permitted_def call_sender_ok_True Let_def)
qed

text \<open>
  When a post-read filter is configured for the called contract and selector, \<open>eth_call\<close> never
  passes the node's body on: it replies \<open>Unauthorized\<close>, or with an answer whose result the filter
  has read for the current user.
\<close>

theorem eth_call_post_read_filter:
  assumes "handle (eth_call L w) ctx method params rid s = (t, Inr reply)"
    and "zodParse L (callReqSchema L) (list_head params) = Some call"
    and "js_or (field ''data'' call) (field ''input'' call) = Some (JStr d)" "d \<noteq> []"
    and "field ''to'' call = Some (JStr to)" "checkPostReadFilter (authorizer ctx) to d = Some rule"
  shows "reply = ReplyJson (unauthorized rid) \<or>
    (\<exists>res result. reply = ReplyJson res \<and> field ''result'' res = Some (JStr result) \<and>
       can_read L rule (currentUser ctx) result = Inr True)"
proof -
  have filtered: "?thesis" if "filtered_call L w rule ctx method params rid s = (t, Inr reply)"
    using that
    by (auto simp: filtered_call_def act_simps string_field_Inr split: if_splits elim!: bind_returned)
  have "string_field ''to'' call = Inr to"
    using assms(5) by (simp add: string_field_Inr)
  then show ?thesis
    using assms(1-4,6) filtered
    by (auto simp: eth_call_def eth_call_handle_def parse_sum_def bind_of_sum act_simps Let_def
        split: sum.splits if_splits)
qed

text \<open>
  C21: A raw transaction reaches the node only when the address recovered from its signature is the
  current user, its recipient is an address, and the write rule of that recipient admits the user
  when the transaction has calldata. What is sent is that transaction and nothing else.
\<close>

theorem send_raw_guarded:
  assumes "handle (zks_sendRawTransactionWithDetailedOutput L w) ctx method params rid s = (t, r)"
    and "trace t \<noteq> trace s"
  shows "\<exists>rawTx tx signer to.
    zodParse L hexSchema (list_head params) = Some (JStr rawTx) \<and>
    parseTransaction L rawTx = Some tx \<and> recoverTransactionAddress L rawTx = Some signer \<and>
    isAddressEqual L signer (currentUser ctx) = Some True \<and>
    zodParse L (addressSchema L) (tx_to tx) = Some to \<and>
    (\<forall>data. tx_data tx = Some data \<longrightarrow> data \<noteq> [] \<longrightarrow>
       (\<exists>a. to = JStr a \<and> checkContractWrite L (authorizer ctx) a data (currentUser ctx) = Inr True)) \<and>
    trace t = trace s @ [HttpPost (targetRpcUrl ctx) (rpc_request rid method [JStr rawTx])]"
proof -
  let ?h = "send_raw_handle L w ctx method params rid s"
  have h: "trace (fst ?h) = trace t" and changed: "trace (fst ?h) \<noteq> trace s"
    using assms by (simp_all add: zks_sendRawTransactionWithDetailedOutput_def)
  from changed obtain rawTx where raw: "parse_string L hexSchema (list_head params) = Inr rawTx"
    by (auto simp: send_raw_handle_def bind_of_sum simp del: parse_string_Inr split: sum.splits)
  from changed raw obtain tx where tx: "parseTransaction L rawTx = Some tx"
    by (auto simp: send_raw_handle_def bind_of_sum simp del: parse_string_Inr split: sum.splits)
  from changed raw tx obtain signer where signer: "recoverTransactionAddress L rawTx = Some signer"
    by (auto simp: send_raw_handle_def bind_of_sum simp del: parse_string_Inr split: sum.splits)
  from changed raw tx signer have own: "is_address_equal L signer (currentUser ctx) = Inr True"
    by (auto simp: send_raw_handle_def bind_of_sum act_simps simp del: parse_string_Inr
        split: sum.splits if_splits)
  from changed raw tx signer own obtain to where to: "zodParse L (addressSchema L) (tx_to tx) = Some to"
    by (auto simp: send_raw_handle_def bind_of_sum act_simps simp del: parse_string_Inr
        split: sum.splits if_splits option.splits)
  have "\<exists>a. to = JStr a \<and> checkContractWrite L (authorizer ctx) a data (currentUser ctx) = Inr True"
    if "tx_data tx = Some data" "data \<noteq> []" for data
    using changed raw tx signer own to that
    by (auto simp: send_raw_handle_def bind_of_sum act_simps sbind_def simp del: parse_string_Inr
        split: sum.splits if_splits option.splits)
  moreover have "trace t = trace s @ [HttpPost (targetRpcUrl ctx) (rpc_request rid method [JStr rawTx])]"
    using changed raw tx signer own to h [symmetric]
    by (auto simp: send_raw_handle_def bind_of_sum act_simps delegateCall_trace simp del: parse_string_Inr
        split: sum.splits if_splits option.splits)
  ultimately show ?thesis
    using raw tx signer own to by (auto simp: is_address_equal_def)
qed

text \<open>What it means for a log, a receipt, a raw transaction to concern a user.\<close>

definition names_user :: "'abi lib \<Rightarrow> string \<Rightarrow> json \<Rightarrow> bool" where
  "names_user L user entry \<longleftrightarrow>
     (\<exists>p topics t. padHex L user = Some p \<and> field ''topics'' entry = Some (JArr topics) \<and>
        JStr t \<in> set topics \<and> lower t = lower p)"

definition involves_user :: "'abi lib \<Rightarrow> string \<Rightarrow> json \<Rightarrow> bool" where
  "involves_user L user receipt \<longleftrightarrow>
     (\<exists>k a. k \<in> {''to'', ''from''} \<and> field k receipt = Some (JStr a) \<and> isAddressEqual L a user = Some True) \<or>
     (\<exists>logs entry. field ''logs'' receipt = Some (JArr logs) \<and> entry \<in> set logs \<and> names_user L user entry)"

definition initiated_by :: "'abi lib \<Rightarrow> string \<Rightarrow> json \<Rightarrow> bool" where
  "initiated_by L user r \<longleftrightarrow>
     (\<exists>c l2 a. field ''common_data'' r = Some c \<and> field ''L2'' c = Some l2 \<and>
        field ''initiatorAddress'' l2 = Some (JStr a) \<and> isAddressEqual L a user = Some True)"

lemma log_mentions_names: "log_mentions L user entry = Inr True \<Longrightarrow> names_user L user entry"
  by (auto simp: log_mentions_def topic_is_user_def names_user_def areHexEqual_def array_field_Inr
      elim!: sbind_returned dest!: some_act_Inr_True) fastforce

lemma receipt_visible_involves: "receipt_visible L user receipt = Inr True \<Longrightarrow> involves_user L user receipt"
  by (auto simp: receipt_visible_def sor_True address_field_is_def involves_user_def is_address_equal_def
      string_field_Inr array_field_Inr elim!: sbind_returned dest!: some_act_Inr_True log_mentions_names)

lemma raw_tx_visible_initiated: "raw_tx_visible L user r = Inr True \<Longrightarrow> initiated_by L user r"
  by (auto simp: raw_tx_visible_def access_def initiated_by_def is_address_equal_def
      elim!: sbind_returned split: option.splits json.splits)

text \<open>
  The list methods return only what concerns the current user: logs with a topic that is the
  padded user, receipts sent by, sent to or with a log naming the user, raw transactions initiated
  by the user.
\<close>

theorem list_methods_show_only_own:
  assumes "(h, own) \<in> set [(eth_getLogs L w, names_user L), (eth_getBlockReceipts L w, involves_user L),
      (zks_getRawBlockTransactions L w, initiated_by L)]"
    and "handle h ctx method params rid s = (t, Inr r)"
  shows "\<exists>j xs. r = ReplyJson j \<and> field ''result'' j = Some (JArr xs) \<and> (\<forall>x \<in> set xs. own (currentUser ctx) x)"
  using assms
  by (auto elim!: logs.only_visible receipts.only_visible raw_block.only_visible
      dest: log_mentions_names receipt_visible_involves raw_tx_visible_initiated)

text \<open>
  A receipt is returned only to a user it involves; the other answers are \<open>Unauthorized\<close> and the
  node's \<open>null\<close>.
\<close>

theorem receipt_only_for_parties:
  assumes "handle (eth_getTransactionReceipt L w) ctx method params rid s = (t, Inr r)"
  shows "\<exists>j. r = ReplyJson j \<and>
    (j = unauthorized rid \<or> field ''result'' j = Some JNull \<or>
     (\<exists>receipt. field ''result'' j = Some receipt \<and> involves_user L (currentUser ctx) receipt))"
  using assms
  by (auto simp: eth_getTransactionReceipt_def eth_getTransactionReceipt_handle_def act_simps
      elim!: bind_returned split: if_splits option.splits dest!: receipt_visible_involves)

text \<open>
  The block method replies with the node's block in which the transaction list is empty, for
  every block and every answer of the node; no other property of the block changes.
\<close>

theorem block_without_transactions:
  assumes "handle (filterTransactions L w) ctx method params rid s = (t, Inr r)"
  shows "\<exists>data b j b'. zodParse L blockSchema (Some data) = Some j \<and> field ''result'' j = b \<and>
    r = ReplyJson (spread j [(''result'', b')]) \<and>
    field ''transactions'' b' = Some (JArr []) \<and>
    (\<forall>k. k \<noteq> ''transactions'' \<longrightarrow> field k b' = Option.bind b (field k))"
proof -
  from assms obtain t' j b where sent: "sendToTargetRpc L w (targetRpcUrl ctx) rid method params blockSchema s = (t', Inr j)"
    and b: "access (Some j) ''result'' = Inr b"
    and r: "r = ReplyJson (spread j [(''result'', spread (case b of Some x \<Rightarrow> x | None \<Rightarrow> JNull)
        [(''transactions'', JArr [])])])"
    by (auto simp: filterTransactions_def filterTransactions_handle_def act_simps elim!: bind_returned)
  from b have "field ''result'' j = b" by (auto simp: access_def split: json.splits)
  with r sendToTargetRpc_returned(2) [OF sent] show ?thesis
    by (cases b) (fastforce)+
qed

section \<open>The methods on a concrete node\<close>

definition demo_ctx :: "string request_context" where
  "demo_ctx = \<lparr>authorizer = demo_authorizer, targetRpcUrl = ''http://node'', currentUser = demo_user\<rparr>"

text \<open>A node that answers every request with the given result.\<close>

definition demo_node :: "json \<Rightarrow> world" where
  "demo_node result = (\<lambda>_ _. Some \<lparr>contentType = None, contentLength = None, content = JsonBody
     (JObj [(''jsonrpc'', JStr ''2.0''), (''id'', JNum 1), (''result'', result)])\<rparr>)"

definition demo_call :: json where
  "demo_call = JObj [(''from'', JStr demo_user), (''to'', JStr demo_contract), (''data'', JStr ''0x12345678'')]"

definition demo_log :: json where
  "demo_log = JObj [(''topics'', JArr [JStr (''0x'' @ replicate 24 CHR ''0'' @ replicate 40 CHR ''A'')])]"

definition demo_receipt :: json where
  "demo_receipt = JObj [(''from'', JStr demo_contract), (''to'', JStr demo_contract), (''logs'', JArr [demo_log])]"

definition demo_run :: "(string, net) method_handler \<Rightarrow> string \<Rightarrow> json \<Rightarrow> net \<times> (exn + reply)" where
  "demo_run h method param = handle h demo_ctx method [param] (JNum 1) \<lparr>trace = []\<rparr>"


lemma demo_run_pair:
  "handle h demo_ctx method [param] (JNum 1) \<lparr>trace = []\<rparr> = (fst (demo_run h method param), snd (demo_run h method param))"
  by (simp add: demo_run_def)

lemma demo_run_returned:
  assumes "\<not> isl (snd (demo_run h method param))"
  obtains reply where "handle h demo_ctx method [param] (JNum 1) \<lparr>trace = []\<rparr> = (fst (demo_run h method param), Inr reply)"
    "snd (demo_run h method param) = Inr reply"
  using assms by (cases "snd (demo_run h method param)") (auto simp: demo_run_pair)

theorem eth_call_guarded_witness:
  "\<exists>call. zodParse demo_lib (callReqSchema demo_lib) (Some demo_call) = Some call \<and>
     call_permitted demo_lib demo_ctx call"
proof -
  have "trace (fst (demo_run (eth_call demo_lib (demo_node (JStr demo_user))) ''eth_call'' demo_call)) \<noteq> []"
    by code_simp
  then show ?thesis
    using eth_call_guarded [OF demo_run_pair] by (force simp: list_head_def)
qed

theorem eth_call_post_read_filter_witness:
  "\<exists>reply. snd (demo_run (eth_call demo_lib (demo_node (JStr demo_user))) ''eth_call'' demo_call) = Inr reply \<and>
    (reply = ReplyJson (unauthorized (JNum 1)) \<or>
     (\<exists>res result. reply = ReplyJson res \<and> field ''result'' res = Some (JStr result) \<and>
       can_read demo_lib (ResponseIsCaller ''function balance()'' 0) demo_user result = Inr True))"
proof -
  let ?h = "eth_call demo_lib (demo_node (JStr demo_user))"
  have "\<not> isl (snd (demo_run ?h ''eth_call'' demo_call))" by code_simp
  then obtain reply where run: "handle ?h demo_ctx ''eth_call'' [demo_call] (JNum 1) \<lparr>trace = []\<rparr> =
      (fst (demo_run ?h ''eth_call'' demo_call), Inr reply)"
      and out: "snd (demo_run ?h ''eth_call'' demo_call) = Inr reply"
    by (rule demo_run_returned)
  have "zodParse demo_lib (callReqSchema demo_lib) (list_head [demo_call]) = Some demo_call"
    "js_or (field ''data'' demo_call) (field ''input'' demo_call) = Some (JStr ''0x12345678'')"
    "''0x12345678'' \<noteq> []" "field ''to'' demo_call = Some (JStr demo_contract)"
    "checkPostReadFilter (authorizer demo_ctx) demo_contract ''0x12345678'' = Some (ResponseIsCaller ''function balance()'' 0)"
    by code_simp+
  from eth_call_post_read_filter [OF run this] out show ?thesis
    by (simp add: demo_ctx_def)
qed

definition demo_raw :: string where
  "demo_raw = demo_contract @ drop 2 demo_user @ ''12345678''"

theorem send_raw_guarded_witness:
  "\<exists>rawTx tx signer. parseTransaction demo_lib rawTx = Some tx \<and>
     recoverTransactionAddress demo_lib rawTx = Some signer \<and>
     isAddressEqual demo_lib signer demo_user = Some True \<and> tx_data tx = Some ''0x12345678'' \<and>
     checkContractWrite demo_lib demo_authorizer demo_contract ''0x12345678'' demo_user = Inr True"
proof -
  let ?h = "zks_sendRawTransactionWithDetailedOutput demo_lib (demo_node JNull)"
  have "trace (fst (demo_run ?h ''eth_sendRawTransaction'' (JStr demo_raw))) \<noteq> []"
    by code_simp
  from send_raw_guarded [OF demo_run_pair] this obtain rawTx tx signer to where *:
    "zodParse demo_lib hexSchema (list_head [JStr demo_raw]) = Some (JStr rawTx)"
    "parseTransaction demo_lib rawTx = Some tx" "recoverTransactionAddress demo_lib rawTx = Some signer"
    "isAddressEqual demo_lib signer (currentUser demo_ctx) = Some True"
    "zodParse demo_lib (addressSchema demo_lib) (tx_to tx) = Some to"
    "\<forall>data. tx_data tx = Some data \<longrightarrow> data \<noteq> [] \<longrightarrow>
       (\<exists>a. to = JStr a \<and> checkContractWrite demo_lib (authorizer demo_ctx) a data (currentUser demo_ctx) = Inr True)"
    by force
  have "zodParse demo_lib hexSchema (list_head [JStr demo_raw]) = Some (JStr demo_raw)" by code_simp
  with *(1) have raw: "rawTx = demo_raw" by simp
  have "parseTransaction demo_lib demo_raw = Some \<lparr>tx_to = Some (JStr demo_contract), tx_data = Some ''0x12345678''\<rparr>"
    by code_simp
  with *(2) raw have tx: "tx = \<lparr>tx_to = Some (JStr demo_contract), tx_data = Some ''0x12345678''\<rparr>" by simp
  have "zodParse demo_lib (addressSchema demo_lib) (Some (JStr demo_contract)) = Some (JStr demo_contract)"
    by code_simp
  with *(5) tx have "to = JStr demo_contract" by simp
  with * tx show ?thesis by (force simp: demo_ctx_def simp del: demo_lib_simps)
qed

theorem list_methods_show_only_own_witness:
  "\<exists>j xs. snd (demo_run (eth_getLogs demo_lib (demo_node (JArr [demo_log, JObj [(''topics'', JArr [])]])))
       ''eth_getLogs'' (JObj [])) = Inr (ReplyJson j) \<and>
     field ''result'' j = Some (JArr xs) \<and> (\<forall>x \<in> set xs. names_user demo_lib demo_user x)"
proof -
  let ?w = "demo_node (JArr [demo_log, JObj [(''topics'', JArr [])]])"
  have "\<not> isl (snd (demo_run (eth_getLogs demo_lib ?w) ''eth_getLogs'' (JObj [])))" by code_simp
  then obtain r where run: "handle (eth_getLogs demo_lib ?w) demo_ctx ''eth_getLogs'' [JObj []] (JNum 1) \<lparr>trace = []\<rparr> =
      (fst (demo_run (eth_getLogs demo_lib ?w) ''eth_getLogs'' (JObj [])), Inr r)"
      and out: "snd (demo_run (eth_getLogs demo_lib ?w) ''eth_getLogs'' (JObj [])) = Inr r"
    by (rule demo_run_returned)
  from list_methods_show_only_own [OF _ run, of "names_user demo_lib" demo_lib ?w] out
  show ?thesis by (auto simp: demo_ctx_def)
qed

theorem receipt_only_for_parties_witness:
  "\<exists>j. snd (demo_run (eth_getTransactionReceipt demo_lib (demo_node demo_receipt))
       ''eth_getTransactionReceipt'' (JStr ''0x01'')) = Inr (ReplyJson j) \<and>
     (j = unauthorized (JNum 1) \<or> field ''result'' j = Some JNull \<or>
      (\<exists>receipt. field ''result'' j = Some receipt \<and> involves_user demo_lib demo_user receipt))"
proof -
  let ?h = "eth_getTransactionReceipt demo_lib (demo_node demo_receipt)"
  have "\<not> isl (snd (demo_run ?h ''eth_getTransactionReceipt'' (JStr ''0x01'')))" by code_simp
  then obtain r where run: "handle ?h demo_ctx ''eth_getTransactionReceipt'' [JStr ''0x01''] (JNum 1) \<lparr>trace = []\<rparr> =
      (fst (demo_run ?h ''eth_getTransactionReceipt'' (JStr ''0x01'')), Inr r)"
      and out: "snd (demo_run ?h ''eth_getTransactionReceipt'' (JStr ''0x01'')) = Inr r"
    by (rule demo_run_returned)
  from receipt_only_for_parties [OF run] out show ?thesis by (auto simp: demo_ctx_def)
qed

theorem block_without_transactions_witness:
  "\<exists>j b'. snd (demo_run (filterTransactions demo_lib (demo_node (JObj [(''hash'', JStr ''0x01''), (''transactions'', JArr [JStr ''0x02''])])))
       ''eth_getBlockByNumber'' (JStr ''latest'')) = Inr (ReplyJson (spread j [(''result'', b')])) \<and>
     field ''transactions'' b' = Some (JArr [])"
proof -
  let ?h = "filterTransactions demo_lib (demo_node (JObj [(''hash'', JStr ''0x01''), (''transactions'', JArr [JStr ''0x02''])]))"
  have "\<not> isl (snd (demo_run ?h ''eth_getBlockByNumber'' (JStr ''latest'')))" by code_simp
  then obtain r where run: "handle ?h demo_ctx ''eth_getBlockByNumber'' [JStr ''latest''] (JNum 1) \<lparr>trace = []\<rparr> =
      (fst (demo_run ?h ''eth_getBlockByNumber'' (JStr ''latest'')), Inr r)"
      and out: "snd (demo_run ?h ''eth_getBlockByNumber'' (JStr ''latest'')) = Inr r"
    by (rule demo_run_returned)
  from block_without_transactions [OF run] out show ?thesis by auto
qed

end
