(* ===== verification/Bytes.thy ===== *)
theory Bytes
  imports Prelude "HOL-Library.Word"
begin

text \<open>
  Node's \<open>Buffer\<close> between bytes and hexadecimal text, as the column codecs of the private RPC and of
  the worker use it, with its round trip.
\<close>

type_synonym u8 = "8 word"

definition nibble :: "char \<Rightarrow> nat" where
  "nibble c = (if is_digit c then code c - 48 else if code c \<le> 70 then code c - 55 else code c - 87)"

definition hex_char :: "nat \<Rightarrow> char" where
  "hex_char n = (if n < 10 then char_of (48 + n) else char_of (87 + n))"

text \<open>
  \<open>Buffer.from(s, 'hex')\<close> reads pairs of hexadecimal digits up to the first pair that is not one; a
  last odd digit is ignored. \<open>buf.toString('hex')\<close> writes lower-case digits.
\<close>

fun buffer_from_hex :: "string \<Rightarrow> u8 list" where
  "buffer_from_hex (a # b # s) =
     (if is_hex_digit a \<and> is_hex_digit b
      then word_of_nat (16 * nibble a + nibble b) # buffer_from_hex s else [])"
| "buffer_from_hex s = []"

fun buffer_to_hex :: "u8 list \<Rightarrow> string" where
  "buffer_to_hex [] = []"
| "buffer_to_hex (w # ws) = hex_char (unat w div 16) # hex_char (unat w mod 16) # buffer_to_hex ws"

lemma nibble_bound: "is_hex_digit c \<Longrightarrow> nibble c < 16"
  by (auto simp: is_hex_digit_def is_digit_def nibble_def)

lemma hex_char_nibble: "is_hex_digit c \<Longrightarrow> hex_char (nibble c) = lower_char c"
proof -
  assume h: "is_hex_digit c"
  have c: "char_of (code c) = c" by (simp add: code_def)
  have "code (hex_char (nibble c)) = code (lower_char c)"
    using h by (auto simp: is_hex_digit_def is_digit_def nibble_def hex_char_def lower_char_def)
  then show ?thesis by (simp add: code_def)
qed

lemma byte_of_nat: "n < 256 \<Longrightarrow> unat (word_of_nat n :: u8) = n"
  by (simp add: unsigned_of_nat take_bit_nat_eq_self)

lemma buffer_round_trip:
  "list_all is_hex_digit s \<Longrightarrow> even (length s) \<Longrightarrow> buffer_to_hex (buffer_from_hex s) = lower s"
proof (induction s rule: buffer_from_hex.induct)
  case (1 a b s)
  then have "nibble a < 16" "nibble b < 16" by (auto simp: nibble_bound)
  then have "unat (word_of_nat (16 * nibble a + nibble b) :: u8) = 16 * nibble a + nibble b"
    by (intro byte_of_nat) simp
  with 1 \<open>nibble b < 16\<close> show ?case by (simp add: hex_char_nibble)
qed auto

lemma hex_regex_digits: "hex_regex s \<Longrightarrow> list_all is_hex_digit (drop 2 s)"
  by (simp add: hex_regex_def)

lemma hex_regex_prefix: "hex_regex s \<Longrightarrow> s = ''0x'' @ drop 2 s"
  by (metis append_take_drop_id hex_regex_def)


end
