(* ===== verification/Rpc_Service.thy ===== *)
theory Rpc_Service
  imports Rpc_Methods Bytes
begin

text \<open>
  The private RPC server of packages/private-rpc/src: the dispatcher \<open>RpcCallHandler\<close>
  (rpc/rpc-service.ts) over the handler table (rpc/rpc-method-handlers.ts), the users table with its
  column codecs (db/), and the two routes (routes/). The server's state is the trace of requests to
  the node together with the users table.
\<close>

section \<open>Column codecs: db/custom-types.ts\<close>

definition hexRow_toDriver :: "'abi lib \<Rightarrow> string \<Rightarrow> exn + u8 list" where
  "hexRow_toDriver L val =
     sbind (parse_string L hexSchema (Some (JStr val))) (\<lambda>parsed.
       let hex = drop 2 parsed;
           prefix = (if length hex mod 2 = 0 then '''' else ''0'')
       in Inr (buffer_from_hex (prefix @ hex)))"

definition hexRow_fromDriver :: "'abi lib \<Rightarrow> u8 list \<Rightarrow> exn + string" where
  "hexRow_fromDriver L val = parse_string L hexSchema (Some (JStr (''0x'' @ buffer_to_hex val)))"

definition addressRow_toDriver :: "'abi lib \<Rightarrow> string \<Rightarrow> exn + u8 list" where
  "addressRow_toDriver L val =
     sbind (parse_string L (addressSchema L) (Some (JStr val))) (\<lambda>parsed. Inr (buffer_from_hex (drop 2 parsed)))"

definition addressRow_fromDriver :: "'abi lib \<Rightarrow> u8 list \<Rightarrow> exn + string" where
  "addressRow_fromDriver L val = parse_string L (addressSchema L) (Some (JStr (''0x'' @ buffer_to_hex val)))"

subsection \<open>Round trips\<close>

lemma hexSchema_parse:
  "zod_documented L \<Longrightarrow> parse_string L hexSchema (Some (JStr s)) = (if hex_regex s then Inr s else Inl ZodError)"
  by (simp add: parse_string_def parse_sum_def zod_documentedD hexSchema_def z_string_def check_def required_def)

lemma parse_address_eq:
  "zod_documented L \<Longrightarrow> getAddress L s = Some a \<Longrightarrow> parse_string L (addressSchema L) (Some (JStr s)) = Inr a"
  using parse_address [of L "Some (JStr s)" a] by simp

lemma address_column_round_trip:
  assumes "zod_documented L" "address_documented L" "checksummed L a"
  shows "sbind (addressRow_toDriver L a) (addressRow_fromDriver L) = Inr a"
proof -
  from assms(3) have g: "getAddress L a = Some a" by (simp add: checksummed_def)
  with assms(2) have a: "hex_regex a" "length a = 42" using getAddress_hex by blast+
  have "buffer_to_hex (buffer_from_hex (drop 2 a)) = lower (drop 2 a)"
    using a by (intro buffer_round_trip) (simp_all add: hex_regex_digits)
  moreover have "''0x'' @ lower (drop 2 a) = lower a"
    using hex_regex_prefix [OF a(1)] by (metis lower_append lower_Cons lower_Nil lower_char_0x)
  moreover have "getAddress L (lower a) = Some a" using getAddress_lower [OF assms(2) g] .
  ultimately show ?thesis
    using g assms(1) by (simp add: addressRow_toDriver_def addressRow_fromDriver_def parse_address_eq)
qed

lemma address_column:
  assumes "zod_documented L" "address_documented L" "checksummed L a"
  obtains bytes where "addressRow_toDriver L a = Inr bytes" "addressRow_fromDriver L bytes = Inr a"
  by (rule sbind_returned [OF address_column_round_trip [OF assms]]) (rule that)

lemma hex_column_round_trip:
  assumes "zod_documented L" "hex_regex v"
  shows "sbind (hexRow_toDriver L v) (hexRow_fromDriver L) =
    Inr (''0x'' @ (if even (length v) then '''' else ''0'') @ lower (drop 2 v))"
proof -
  let ?p = "if length (drop 2 v) mod 2 = 0 then '''' else ''0''"
  have v2: "2 \<le> length v"
    using assms(2) by (metis hex_regex_prefix le_add1 length_append length_Cons list.size(3) numeral_2_eq_2)
  have zero: "is_hex_digit CHR ''0''" by code_simp
  have dig: "list_all is_hex_digit (?p @ drop 2 v)"
    using hex_regex_digits [OF assms(2)] zero by simp
  have ev: "even (length (?p @ drop 2 v))" by (simp add: even_iff_mod_2_eq_zero) presburger
  have again: "buffer_to_hex (buffer_from_hex (?p @ drop 2 v)) = ?p @ lower (drop 2 v)"
    using buffer_round_trip [OF dig ev] by simp
  have "list_all is_hex_digit (lower (drop 2 v))"
    using hex_regex_digits [OF assms(2)] by (simp add: lower_def list_all_iff)
  then have ok: "hex_regex (''0x'' @ ?p @ lower (drop 2 v))" using zero by (simp add: hex_regex_def)
  have par: "(length (drop 2 v) mod 2 = 0) = even (length v)" using v2 by simp presburger
  show ?thesis
    using again ok assms par by (simp add: hexRow_toDriver_def hexRow_fromDriver_def hexSchema_parse Let_def)
qed

text \<open>
  C36: The column codecs lose nothing: a hexadecimal value comes back from the database in lower case,
  with a leading zero digit when its length was odd, and a checksummed address comes back unchanged.
\<close>

theorem codec_round_trip:
  assumes "zod_documented L" "address_documented L" "hex_regex v" "checksummed L a"
  shows "sbind (hexRow_toDriver L v) (hexRow_fromDriver L) =
      Inr (''0x'' @ (if even (length v) then '''' else ''0'') @ lower (drop 2 v))
    \<and> sbind (addressRow_toDriver L a) (addressRow_fromDriver L) = Inr a"
  using hex_column_round_trip [OF assms(1,3)] address_column_round_trip [OF assms(1,2,4)] by simp

section \<open>The dispatcher: rpc/rpc-service.ts\<close>

definition rpcReqSchema :: schema where
  "rpcReqSchema = SObj False
     [(''id'', SUnion [SNum, SString]), (''jsonrpc'', SLit ''2.0''), (''method'', SString),
      (''params'', SOptional (SArr SAny))]"

text \<open>\<open>hasProperty\<close> guards each of the three accessors; a caught value is seen through \<open>thrownValue\<close>.\<close>

definition hasProperty :: "json \<Rightarrow> string \<Rightarrow> bool" where
  "hasProperty obj prop \<longleftrightarrow> field prop obj \<noteq> None"

definition getErrorCode :: "json \<Rightarrow> json" where
  "getErrorCode err = (case field ''code'' err of Some (JNum c) \<Rightarrow> JNum c | _ \<Rightarrow> JNum (-32603))"

definition getErrorMessage :: "json \<Rightarrow> json" where
  "getErrorMessage err = (case field ''message'' err of Some (JStr m) \<Rightarrow> JStr m | _ \<Rightarrow> JStr [])"

text \<open>Printing and parsing the data again is the identity on a JSON value.\<close>

definition getErrorData :: "json \<Rightarrow> json option" where
  "getErrorData err = (if hasProperty err ''data'' then field ''data'' err else None)"

definition error_object :: "json \<Rightarrow> json" where
  "error_object err = JObj
     ([(''code'', getErrorCode err), (''message'', getErrorMessage err)] @
      (case getErrorData err of None \<Rightarrow> [] | Some d \<Rightarrow> [(''data'', d)]))"

text \<open>
  The handler table is an object literal filled by \<open>reduce\<close>; a name that is not in it still finds
  the properties of \<open>Object.prototype\<close>, which have no \<open>handle\<close> method.
\<close>

record ('abi, 's) rpc_call_handler =
  handlers :: "string \<rightharpoonup> ('abi, 's) method_handler"
  context_of :: "'abi request_context"

definition new_RpcCallHandler ::
  "('abi, 's) method_handler list \<Rightarrow> 'abi request_context \<Rightarrow> ('abi, 's) rpc_call_handler" where
  "new_RpcCallHandler hs ctx =
     \<lparr>handlers = foldl (\<lambda>acum current. acum(handler_name current \<mapsto> current)) Map.empty hs, context_of = ctx\<rparr>"

definition defaultHandler :: "world \<Rightarrow> ('abi, 'z net_scheme) method_handler" where
  "defaultHandler w =
     \<lparr>handler_name = ''default-handler'',
      handle = (\<lambda>ctx method params rid. delegateCall w (targetRpcUrl ctx) rid method params)\<rparr>"

definition tryCall ::
  "world \<Rightarrow> ('abi, 'z net_scheme) rpc_call_handler \<Rightarrow> string \<Rightarrow> json list option \<Rightarrow> json \<Rightarrow> ('z net_scheme, reply) act" where
  "tryCall w h method params rid =
     (case handlers h method of
        Some m \<Rightarrow> handle m (context_of h) method (case params of None \<Rightarrow> [] | Some ps \<Rightarrow> ps) rid
      | None \<Rightarrow>
          if method \<in> set object_prototype then throw TypeError
          else handle (defaultHandler w) (context_of h) method (case params of None \<Rightarrow> [] | Some ps \<Rightarrow> ps) rid)"

definition opt_array :: "json option \<Rightarrow> exn + json list option" where
  "opt_array v = (case v of None \<Rightarrow> Inr None | Some j \<Rightarrow> sbind (the_array (Some j)) (\<lambda>js. Inr (Some js)))"

definition rpc_id :: "json \<Rightarrow> json" where
  "rpc_id data = (case field ''id'' data of Some j \<Rightarrow> j | None \<Rightarrow> JNull)"

definition try_parsed :: "world \<Rightarrow> ('abi, 'z net_scheme) rpc_call_handler \<Rightarrow> json \<Rightarrow> ('z net_scheme, reply) act" where
  "try_parsed w h data =
     bind (of_sum (string_field ''method'' data)) (\<lambda>method.
     bind (of_sum (opt_array (field ''params'' data))) (\<lambda>params.
     tryCall w h method params (rpc_id data)))"

definition RpcCallHandler_handle ::
  "'abi lib \<Rightarrow> world \<Rightarrow> ('abi, 'z net_scheme) rpc_call_handler \<Rightarrow> json option \<Rightarrow> ('z net_scheme, reply) act" where
  "RpcCallHandler_handle L w h rawBody =
     (case zodParse L rpcReqSchema rawBody of
        None \<Rightarrow> ret (ReplyJson (invalidRequest JNull))
      | Some data \<Rightarrow>
          catch (try_parsed w h data)
            (\<lambda>e. ret (ReplyJson (errorResponse (rpc_id data) (error_object (thrownValue L e))))))"

section \<open>The handler table: rpc/rpc-method-handlers.ts\<close>

definition allHandlers :: "'abi lib \<Rightarrow> world \<Rightarrow> ('abi, 'z net_scheme) method_handler list" where
  "allHandlers L w =
     [forbiddenMethod ''debug_traceBlockByHash'',
      forbiddenMethod ''debug_traceBlockByNumber'',
      forbiddenMethod ''debug_traceCall'',
      forbiddenMethod ''debug_traceTransaction'',
      forbiddenMethod ''eth_accounts'',
      forbiddenMethod ''eth_getStorageAt'',
      forbiddenMethod ''eth_getTransactionByBlockHashAndIndex'',
      forbiddenMethod ''eth_newFilter'',
      forbiddenMethod ''eth_newPendingTransactionFilter'',
      forbiddenMethod ''zks_getProof'',
      onlyCurrentUser L w ''eth_getBalance'',
      onlyCurrentUser L w ''eth_getTransactionCount'',
      onlyCurrentUser L w ''zks_getAllAccountBalances'',
      eth_call L w,
      eth_getBlockByHash L w,
      eth_getBlockByNumber L w,
      eth_getBlockReceipts L w,
      eth_getLogs L w,
      eth_getTransactionReceipt L w,
      eth_sendRawTransaction L w,
      whoAmI,
      zks_getRawBlockTransactions L w,
      zks_sendRawTransactionWithDetailedOutput L w]"

section \<open>The users table: db/schema.ts, query/user.ts\<close>

text \<open>The address column holds bytes. A token is unique; inserting one twice is a database error.\<close>

record user_row =
  row_id :: nat
  row_token :: string
  row_address :: "u8 list"

record rpc_state = net +
  users :: "user_row list"
  next_id :: nat

record user =
  user_id :: nat
  user_token :: string
  user_address :: string

definition insert_user :: "'abi lib \<Rightarrow> string \<Rightarrow> string \<Rightarrow> (rpc_state, unit) act" where
  "insert_user L address token =
     bind (of_sum (addressRow_toDriver L address)) (\<lambda>bytes.
     bind (gets users) (\<lambda>us.
     if token \<in> row_token ` set us then throw lib_error
     else modify (\<lambda>s. s\<lparr>
       users := us @ [\<lparr>row_id = next_id s, row_token = token, row_address = bytes\<rparr>],
       next_id := next_id s + 1\<rparr>)))"

definition getUserByToken :: "'abi lib \<Rightarrow> string \<Rightarrow> (rpc_state, user option) act" where
  "getUserByToken L token =
     bind (gets users) (\<lambda>us.
     case find (\<lambda>r. row_token r = token) us of
       None \<Rightarrow> ret None
     | Some r \<Rightarrow>
         bind (of_sum (addressRow_fromDriver L (row_address r))) (\<lambda>a.
         ret (Some \<lparr>user_id = row_id r, user_token = row_token r, user_address = a\<rparr>)))"

section \<open>Routes: build-app.ts, routes/\<close>

record 'abi app_context =
  targetRpc :: string
  app_authorizer :: "'abi authorizer"
  createTokenSecret :: string

definition unauthorizedError :: exn where
  "unauthorizedError = HttpError ''Unauthorized'' 401"

definition rpc_route :: "'abi lib \<Rightarrow> world \<Rightarrow> 'abi app_context \<Rightarrow> string \<Rightarrow> json option \<Rightarrow> (rpc_state, reply) act" where
  "rpc_route L w app token body =
     bind (bind (getUserByToken L token) (of_opt unauthorizedError)) (\<lambda>user.
     bind (of_sum (access body ''method'')) (\<lambda>method.
     if method = Some (JStr ''eth_chainId'')
     then bind (of_sum (access body ''id'')) (\<lambda>rid.
       ret (ReplyJson (JObj ([(''jsonrpc'', JStr ''2.0'')] @
         (case rid of None \<Rightarrow> [] | Some j \<Rightarrow> [(''id'', j)]) @ [(''result'', JStr ''0xd596'')]))))
     else
       RpcCallHandler_handle L w
         (new_RpcCallHandler (allHandlers L w)
            \<lparr>authorizer = app_authorizer app, targetRpcUrl = targetRpc app, currentUser = user_address user\<rparr>)
         body))"

definition createUserSchema :: "'abi lib \<Rightarrow> schema" where
  "createUserSchema L = SObj False [(''address'', addressSchema L), (''secret'', SString)]"

text \<open>\<open>nanoid(32)\<close> is the argument \<open>token\<close>.\<close>

definition users_route :: "'abi lib \<Rightarrow> 'abi app_context \<Rightarrow> string \<Rightarrow> json option \<Rightarrow> (rpc_state, reply) act" where
  "users_route L app token body =
     bind (of_sum (parse_sum L (createUserSchema L) body)) (\<lambda>b.
     bind (of_sum (string_field ''address'' b)) (\<lambda>address.
     bind (of_sum (string_field ''secret'' b)) (\<lambda>secret.
     if secret \<noteq> createTokenSecret app then throw (HttpError ''forbidden'' 403)
     else bind (insert_user L address token) (\<lambda>_.
       ret (ReplyJson (JObj [(''ok'', JBool True), (''token'', JStr token)]))))))"

text \<open>The requests the server gets.\<close>

datatype server_request = PostUsers string "json option" | PostRpc string "json option"

definition serve :: "'abi lib \<Rightarrow> world \<Rightarrow> 'abi app_context \<Rightarrow> server_request \<Rightarrow> (rpc_state, reply) act" where
  "serve L w app q =
     (case q of PostUsers token body \<Rightarrow> users_route L app token body | PostRpc token body \<Rightarrow> rpc_route L w app token body)"

definition serve_all :: "'abi lib \<Rightarrow> world \<Rightarrow> 'abi app_context \<Rightarrow> server_request list \<Rightarrow> rpc_state \<Rightarrow> rpc_state" where
  "serve_all L w app qs s = foldl (\<lambda>s q. fst (serve L w app q s)) s qs"

section \<open>Dispatch\<close>

lemma handler_table:
  "handlers (new_RpcCallHandler hs ctx) = map_of (rev (map (\<lambda>h. (handler_name h, h)) hs))"
proof -
  have "foldl (\<lambda>acum c. acum(handler_name c \<mapsto> c)) m hs =
      m ++ map_of (rev (map (\<lambda>h. (handler_name h, h)) hs))" for m
    by (induction hs arbitrary: m) (auto simp: map_add_def fun_eq_iff split: option.splits)
  from this [of Map.empty] show ?thesis by (simp add: new_RpcCallHandler_def)
qed

lemma new_handler_context [simp]: "context_of (new_RpcCallHandler hs ctx) = ctx"
  by (simp add: new_RpcCallHandler_def)

lemma registered_handler:
  "handlers (new_RpcCallHandler hs ctx) m = Some h \<Longrightarrow> h \<in> set hs"
  by (auto simp: handler_table dest!: map_of_SomeD)

lemma unregistered_iff:
  "handlers (new_RpcCallHandler hs ctx) m = None \<longleftrightarrow> m \<notin> handler_name ` set hs"
  by (force simp: handler_table map_of_eq_None_iff)

lemma raw_alias_handle: "handle (eth_sendRawTransaction L w) = handle (zks_sendRawTransactionWithDetailedOutput L w)"
  by (simp add: eth_sendRawTransaction_def)

lemma all_handlers_footprint:
  assumes "h \<in> set (allHandlers L w)"
  shows "sends (to_node ctx m rid) (handle h ctx m params rid)"
  using assms unfolding allHandlers_def eth_getBlockByHash_def eth_getBlockByNumber_def
  by (auto simp: raw_alias_handle intro: forbidden.footprint only_user.footprint call_method.footprint
      block_method.footprint receipts.footprint logs.footprint receipt_method.footprint who_am_i.footprint
      raw_block.footprint send_raw.footprint)

interpretation default_handler: node_handler "handle (defaultHandler w)" for w
  by unfold_locales (simp add: defaultHandler_def)

lemma tryCall_footprint:
  "sends (to_node ctx m rid) (tryCall w (new_RpcCallHandler (allHandlers L w) ctx) m params rid)"
  by (auto simp: tryCall_def split: option.splits
      intro: all_handlers_footprint default_handler.footprint dest: registered_handler)

lemma try_parsed_footprint:
  "\<exists>m rs. fst (try_parsed w (new_RpcCallHandler (allHandlers L w) ctx) data s) = s\<lparr>trace := trace s @ rs\<rparr> \<and>
     list_all (to_node ctx m (rpc_id data)) rs"
proof -
  have "\<exists>m. sends (to_node ctx m (rpc_id data)) (\<lambda>s. try_parsed w (new_RpcCallHandler (allHandlers L w) ctx) data s)"
    unfolding try_parsed_def
    by (cases "string_field ''method'' data") (auto intro: tryCall_footprint)
  then show ?thesis unfolding sends_def list_all_iff by blast
qed

lemma catch_total:
  "(\<And>e t. \<exists>r. h e t = (t, Inr r)) \<Longrightarrow> \<exists>r. catch m h s = (fst (m s), Inr r)"
  by (cases "m s") (auto simp: catch_def split: sum.splits prod.splits)

lemma RpcCallHandler_total:
  assumes "zodParse L rpcReqSchema body = Some data"
  obtains reply where "RpcCallHandler_handle L w h body s = (fst (try_parsed w h data s), Inr reply)"
  using catch_total [of "\<lambda>e. ret (ReplyJson (errorResponse (rpc_id data) (error_object (thrownValue L e))))"
      "try_parsed w h data" s] assms
  by (auto simp: RpcCallHandler_handle_def act_simps)


definition forbidden_names :: "string list" where
  "forbidden_names =
     [''debug_traceBlockByHash'', ''debug_traceBlockByNumber'', ''debug_traceCall'', ''debug_traceTransaction'',
      ''eth_accounts'', ''eth_getStorageAt'', ''eth_getTransactionByBlockHashAndIndex'', ''eth_newFilter'',
      ''eth_newPendingTransactionFilter'', ''zks_getProof'']"

text \<open>The table, last entry first, with the names written out.\<close>

lemma allHandlers_table:
  "handlers (new_RpcCallHandler (allHandlers L w) ctx) = map_of (
     [(''zks_sendRawTransactionWithDetailedOutput'', zks_sendRawTransactionWithDetailedOutput L w),
      (''zks_getRawBlockTransactions'', zks_getRawBlockTransactions L w),
      (''who_am_i'', whoAmI),
      (''eth_sendRawTransaction'', eth_sendRawTransaction L w),
      (''eth_getTransactionReceipt'', eth_getTransactionReceipt L w),
      (''eth_getLogs'', eth_getLogs L w),
      (''eth_getBlockReceipts'', eth_getBlockReceipts L w),
      (''eth_getBlockByNumber'', filterTransactions L w),
      (''eth_getBlockByNumber'', filterTransactions L w),
      (''eth_call'', eth_call L w)] @
     map (\<lambda>m. (m, onlyCurrentUser L w m)) [''zks_getAllAccountBalances'', ''eth_getTransactionCount'', ''eth_getBalance''] @
     map (\<lambda>m. (m, forbiddenMethod m)) (rev forbidden_names))"
  unfolding handler_table
  by (simp only: allHandlers_def forbidden_names_def list.map rev.simps append.simps
      eth_getBlockByHash_def eth_getBlockByNumber_def)
     (simp only: forbiddenMethod_def onlyCurrentUser_def eth_call_def filterTransactions_def
      eth_getBlockReceipts_def eth_getLogs_def eth_getTransactionReceipt_def eth_sendRawTransaction_def
      whoAmI_def zks_getRawBlockTransactions_def zks_sendRawTransactionWithDetailedOutput_def
      method_handler.simps)

lemma map_of_map_key: "m \<in> set ns \<Longrightarrow> map_of (map (\<lambda>n. (n, f n)) ns) m = Some (f m)"
  by (induction ns) auto

text \<open>
  The methods that expose traces, storage, accounts and filters are answered \<open>Unauthorized\<close> for
  every user and every parameter list, and nothing is sent to the node.
\<close>

theorem forbidden_methods_refused:
  assumes "m \<in> set forbidden_names"
  shows "tryCall w (new_RpcCallHandler (allHandlers L w) ctx) m params rid s =
    (s, Inr (ReplyJson (unauthorized rid)))"
proof -
  have "m \<notin> fst ` set [(''zks_sendRawTransactionWithDetailedOutput'', ())]" using assms by (auto simp: forbidden_names_def)
  show ?thesis
  using assms by (auto simp: tryCall_def allHandlers_table forbidden_names_def forbiddenMethod_def act_simps)
qed

text \<open>
  The table has no entry for \<open>eth_getBlockByHash\<close>: the block handler is registered twice under
  the name \<open>eth_getBlockByNumber\<close>, so a block asked for by its hash is the node's answer passed on
  unfiltered.
\<close>

theorem block_by_hash_delegated:
  "tryCall w (new_RpcCallHandler (allHandlers L w) ctx) ''eth_getBlockByHash'' params rid =
     delegateCall w (targetRpcUrl ctx) rid ''eth_getBlockByHash'' (case params of None \<Rightarrow> [] | Some ps \<Rightarrow> ps)
   \<and> tryCall w (new_RpcCallHandler (allHandlers L w) ctx) ''eth_getBlockByNumber'' params rid =
     filterTransactions_handle L w ctx ''eth_getBlockByNumber'' (case params of None \<Rightarrow> [] | Some ps \<Rightarrow> ps) rid"
  by (simp add: tryCall_def allHandlers_table forbidden_names_def object_prototype_def defaultHandler_def
      filterTransactions_def)

section \<open>Users and tokens\<close>

text \<open>
  The contract of the users table, as the routes rely on it: what a token resolves to after a
  creation, that a failed creation changes nothing, and that reading neither throws nor writes.
  \<open>view\<close> is the map from tokens to addresses that the table stands for.
\<close>

locale token_store =
  fixes create :: "string \<Rightarrow> string \<Rightarrow> ('s, unit) act"
    and look :: "string \<Rightarrow> ('s, 'u option) act"
    and owner :: "'u \<Rightarrow> string"
    and view :: "'s \<Rightarrow> string \<rightharpoonup> string"
    and wf :: "'s \<Rightarrow> bool"
    and valid :: "string \<Rightarrow> bool"
  assumes create_ok: "wf s \<Longrightarrow> valid a \<Longrightarrow> create a k s = (t, Inr ()) \<Longrightarrow>
      wf t \<and> view s k = None \<and> view t = (view s)(k \<mapsto> a)"
    and create_throws: "create a k s = (t, Inl e) \<Longrightarrow> t = s"
    and look_reads: "wf s \<Longrightarrow> \<exists>u. look k s = (s, Inr u) \<and> map_option owner u = view s k"
begin

lemma look_owner:
  assumes "wf s" "view s k = Some a"
  obtains u where "look k s = (s, Inr (Some u))" "owner u = a"
  using look_reads [OF assms(1), of k] assms(2) by auto

lemma look_unknown: "wf s \<Longrightarrow> view s k = None \<Longrightarrow> look k s = (s, Inr None)"
  using look_reads [of s k] by auto

lemma create_extends:
  assumes "wf s" "valid a"
  shows "wf (fst (create a k s)) \<and> view s \<subseteq>\<^sub>m view (fst (create a k s))"
proof (cases "create a k s")
  case (Pair t r)
  then show ?thesis
    using create_ok [OF assms, of k t] create_throws [of a k s t] assms(1)
    by (cases r) (auto simp: map_le_def)
qed

text \<open>Along any sequence of steps that keep the invariant and the entries, an entry stays.\<close>

lemma entry_persists:
  assumes "wf s" "view s k = Some a"
    and "\<And>x s. x \<in> set xs \<Longrightarrow> wf s \<Longrightarrow> wf (step s x) \<and> view s \<subseteq>\<^sub>m view (step s x)"
  shows "wf (foldl step s xs) \<and> view (foldl step s xs) k = Some a"
  using assms
proof (induction xs arbitrary: s)
  case Nil
  then show ?case by simp
next
  case (Cons x xs)
  from Cons.prems(3) [of x s] Cons.prems(1,2) have "wf (step s x)" "view (step s x) k = Some a"
    by (auto simp: map_le_def) (metis domI)
  with Cons show ?case by simp
qed

end

definition row_user :: "'abi lib \<Rightarrow> user_row \<Rightarrow> string option" where
  "row_user L r = (case addressRow_fromDriver L (row_address r) of Inl e \<Rightarrow> None | Inr a \<Rightarrow> Some a)"

definition token_view :: "'abi lib \<Rightarrow> rpc_state \<Rightarrow> string \<rightharpoonup> string" where
  "token_view L s k = Option.bind (find (\<lambda>r. row_token r = k) (users s)) (row_user L)"

text \<open>Tokens are unique, identifiers are below the next one, and every address column is a checksummed address.\<close>

definition users_ok :: "'abi lib \<Rightarrow> rpc_state \<Rightarrow> bool" where
  "users_ok L s \<longleftrightarrow> zod_documented L \<and> address_documented L \<and> distinct (map row_token (users s)) \<and>
     (\<forall>r \<in> set (users s). row_id r < next_id s \<and> (\<exists>a. row_user L r = Some a \<and> checksummed L a))"

lemma find_append: "find P (xs @ ys) = (case find P xs of None \<Rightarrow> find P ys | Some x \<Rightarrow> Some x)"
  by (induction xs) auto

lemma insert_user_ok:
  assumes wf: "users_ok L s" and a: "checksummed L a" and run: "insert_user L a k s = (t, Inr ())"
  shows "users_ok L t \<and> token_view L s k = None \<and> token_view L t = (token_view L s)(k \<mapsto> a)"
proof -
  from wf a obtain bytes where b: "addressRow_toDriver L a = Inr bytes" "addressRow_fromDriver L bytes = Inr a"
    by (auto simp: users_ok_def elim: address_column)
  from run b have new: "k \<notin> row_token ` set (users s)"
    and t: "t = s\<lparr>users := users s @ [\<lparr>row_id = next_id s, row_token = k, row_address = bytes\<rparr>],
        next_id := next_id s + 1\<rparr>"
    by (auto simp: insert_user_def act_simps split: if_splits)
  from new have no: "find (\<lambda>r. row_token r = k) (users s) = None" by (auto simp: find_None_iff)
  have "token_view L t = (token_view L s)(k \<mapsto> a)"
    using no b by (auto simp: token_view_def t find_append row_user_def fun_eq_iff split: option.splits)
  moreover have "users_ok L t"
    using wf new a b by (auto simp: users_ok_def t row_user_def less_Suc_eq)
  ultimately show ?thesis using no by (simp add: token_view_def)
qed

lemma getUserByToken_reads:
  assumes "users_ok L s"
  shows "\<exists>u. getUserByToken L k s = (s, Inr u) \<and> map_option user_address u = token_view L s k"
proof (cases "find (\<lambda>r. row_token r = k) (users s)")
  case None
  then show ?thesis by (simp add: getUserByToken_def token_view_def act_simps)
next
  case (Some r)
  then have "r \<in> set (users s)" by (auto simp: find_Some_iff)
  with assms obtain a where "row_user L r = Some a" by (auto simp: users_ok_def)
  with Some show ?thesis
    by (auto simp: getUserByToken_def token_view_def row_user_def act_simps split: sum.splits)
qed

interpretation tokens: token_store "insert_user L" "getUserByToken L" user_address "token_view L" "users_ok L" "checksummed L"
  for L
proof
  show "t = s" if "insert_user L a k s = (t, Inl e)" for a k s t e
    using that by (auto simp: insert_user_def act_simps bind_of_sum split: if_splits sum.splits)
qed (auto simp: insert_user_ok getUserByToken_reads)

section \<open>Routes\<close>

lemma dispatcher_state:
  obtains rs reply where
    "RpcCallHandler_handle L w (new_RpcCallHandler (allHandlers L w) ctx) body s =
       (s\<lparr>trace := trace s @ rs\<rparr>, Inr reply)"
proof (cases "zodParse L rpcReqSchema body")
  case None
  then show ?thesis
    using that [of "[]"] by (simp add: RpcCallHandler_handle_def act_simps)
next
  case (Some data)
  obtain m rs where "fst (try_parsed w (new_RpcCallHandler (allHandlers L w) ctx) data s) = s\<lparr>trace := trace s @ rs\<rparr>"
    using try_parsed_footprint by blast
  with that [of rs] show ?thesis
    using RpcCallHandler_total [OF Some] by metis
qed

lemma getUserByToken_state: "fst (getUserByToken L k s) = s"
  by (auto simp: getUserByToken_def bind_of_sum act_simps split: option.splits sum.splits)

lemma rpc_route_state:
  "\<exists>tr. fst (rpc_route L w app k body s) = s\<lparr>trace := tr\<rparr>"
proof (cases "bind (getUserByToken L k) (of_opt unauthorizedError) s")
  case (Pair t r)
  then have t: "t = s"
    using getUserByToken_state [of L k s]
    by (auto simp: bind_def of_opt_def act_simps split: prod.splits sum.splits option.splits)
  have same: "\<exists>tr. s = s\<lparr>trace := tr\<rparr>" by (rule exI [of _ "trace s"]) simp
  show ?thesis
  proof (cases r)
    case (Inl e)
    with Pair t same show ?thesis by (simp add: rpc_route_def bind_def)
  next
    case (Inr u)
    let ?ctx = "\<lparr>authorizer = app_authorizer app, targetRpcUrl = targetRpc app, currentUser = user_address u\<rparr>"
    obtain rs reply where "RpcCallHandler_handle L w (new_RpcCallHandler (allHandlers L w) ?ctx) body s =
        (s\<lparr>trace := trace s @ rs\<rparr>, Inr reply)"
      by (rule dispatcher_state)
    then have "\<exists>tr. fst (RpcCallHandler_handle L w (new_RpcCallHandler (allHandlers L w) ?ctx) body s) = s\<lparr>trace := tr\<rparr>"
      by auto
    with Inr Pair t same show ?thesis
      by (simp add: rpc_route_def bind_Inr bind_of_sum act_simps split: sum.splits)
  qed
qed

text \<open>The parts of an accepted body of \<open>POST /users\<close>.\<close>

lemma createUser_parsed:
  assumes "zod_documented L" "address_documented L" "zodParse L (createUserSchema L) body = Some b"
    and "field ''address'' b = Some (JStr a)"
  shows "checksummed L a"
proof -
  from assms(1,3) obtain s a' sec where "getAddress L s = Some a'" "b = JObj [(''address'', JStr a'), (''secret'', JStr sec)]"
    by (auto simp: zod_documentedD required_def createUserSchema_def addressSchema_def zod_Some
        split: option.splits)
  with assms(2,4) show ?thesis by (auto intro: getAddress_checksummed)
qed

text \<open>
  A token that was never issued gets \<open>401 Unauthorized\<close>: no handler runs, nothing is sent to the
  node and the database is not changed, for every body, the chain id request included.
\<close>

theorem unknown_token_rejected:
  assumes "users_ok L s" "token_view L s k = None"
  shows "rpc_route L w app k body s = (s, Inl (HttpError ''Unauthorized'' 401))"
  using tokens.look_unknown [OF assms]
  by (simp add: rpc_route_def bind_def act_simps unauthorizedError_def)

lemma users_route_cases:
  assumes "users_route L app k body s = (t, r)"
  shows "(t = s \<and> (\<exists>e. r = Inl e)) \<or>
    (\<exists>b a. zodParse L (createUserSchema L) body = Some b \<and> field ''address'' b = Some (JStr a) \<and>
       field ''secret'' b = Some (JStr (createTokenSecret app)) \<and>
       k \<notin> row_token ` set (users s) \<and> k \<in> row_token ` set (users t) \<and>
       insert_user L a k s = (t, Inr ()) \<and>
       r = Inr (ReplyJson (JObj [(''ok'', JBool True), (''token'', JStr k)])))"
proof (cases "fst (users_route L app k body s) = s \<and> (\<exists>e. r = Inl e)")
  case True
  with assms show ?thesis by simp
next
  case False
  from False assms obtain b where b: "zodParse L (createUserSchema L) body = Some b"
    by (auto simp: users_route_def bind_of_sum split: sum.splits)
  with False assms obtain a secret where f: "string_field ''address'' b = Inr a" "string_field ''secret'' b = Inr secret"
    by (cases "string_field ''address'' b"; cases "string_field ''secret'' b")
       (auto simp: users_route_def parse_sum_def act_simps)
  with b False assms have sec: "secret = createTokenSecret app"
    by (auto simp: users_route_def parse_sum_def act_simps split: if_splits)
  with b f assms have run: "bind (insert_user L a k)
      (\<lambda>_. ret (ReplyJson (JObj [(''ok'', JBool True), (''token'', JStr k)]))) s = (t, r)"
    by (simp add: users_route_def parse_sum_def)
  have "insert_user L a k s = (t, Inr ()) \<and> r = Inr (ReplyJson (JObj [(''ok'', JBool True), (''token'', JStr k)]))"
  proof (cases "insert_user L a k s")
    case (Pair u v)
    with run False assms tokens.create_throws [of L a k s u] show ?thesis
      by (cases v) (auto simp: bind_def act_simps)
  qed
  with b f sec have *: "zodParse L (createUserSchema L) body = Some b"
      "string_field ''address'' b = Inr a" "string_field ''secret'' b = Inr (createTokenSecret app)"
      "insert_user L a k s = (t, Inr ())" "r = Inr (ReplyJson (JObj [(''ok'', JBool True), (''token'', JStr k)]))"
    by auto
  from *(4) have "k \<notin> row_token ` set (users s) \<and> k \<in> row_token ` set (users t)"
    by (auto simp: insert_user_def act_simps elim!: bind_returned split: if_splits)
  with * show ?thesis by (auto simp: string_field_Inr)
qed

text \<open>
  A user row is created only by a request that carries the server's secret and a valid address;
  the reply then names the token, which was not in use. A request that fails changes nothing.
\<close>

theorem create_user_needs_secret:
  assumes "users_route L app k body s = (t, r)"
  shows "(t = s \<and> (\<exists>e. r = Inl e)) \<or>
    (\<exists>b a. zodParse L (createUserSchema L) body = Some b \<and> field ''address'' b = Some (JStr a) \<and>
       field ''secret'' b = Some (JStr (createTokenSecret app)) \<and>
       k \<notin> row_token ` set (users s) \<and> k \<in> row_token ` set (users t) \<and>
       insert_user L a k s = (t, Inr ()) \<and>
       r = Inr (ReplyJson (JObj [(''ok'', JBool True), (''token'', JStr k)])))"
  using assms by (rule users_route_cases)

lemma serve_extends:
  assumes "users_ok L s"
  shows "users_ok L (fst (serve L w app q s)) \<and> token_view L s \<subseteq>\<^sub>m token_view L (fst (serve L w app q s))"
proof (cases q)
  case (PostRpc k body)
  obtain tr where "fst (rpc_route L w app k body s) = s\<lparr>trace := tr\<rparr>" using rpc_route_state by blast
  with PostRpc assms show ?thesis by (simp add: serve_def users_ok_def token_view_def [abs_def])
next
  case (PostUsers k body)
  obtain t r where run: "users_route L app k body s = (t, r)" by force
  from users_route_cases [OF run] consider "t = s"
    | b a where "zodParse L (createUserSchema L) body = Some b" "field ''address'' b = Some (JStr a)"
        "insert_user L a k s = (t, Inr ())"
    by blast
  then show ?thesis
  proof cases
    case 1
    with PostUsers run assms show ?thesis by (simp add: serve_def)
  next
    case 2
    from assms have "checksummed L a"
      using createUser_parsed [OF _ _ 2(1,2)] by (simp add: users_ok_def)
    from tokens.create_extends [OF assms this, of k] 2(3) PostUsers run show ?thesis by (simp add: serve_def)
  qed
qed

lemma token_persists:
  assumes "users_ok L s" "token_view L s k = Some a"
  shows "users_ok L (serve_all L w app later s) \<and> token_view L (serve_all L w app later s) k = Some a"
  unfolding serve_all_def by (rule tokens.entry_persists [OF assms]) (rule serve_extends)

definition who_am_i_request :: json where
  "who_am_i_request = JObj [(''id'', JNum 1), (''jsonrpc'', JStr ''2.0''), (''method'', JStr ''who_am_i'')]"

lemma who_am_i_registered: "handlers (new_RpcCallHandler (allHandlers L w) ctx) ''who_am_i'' = Some whoAmI"
  by (simp add: allHandlers_table)

lemma who_am_i_answer:
  assumes "users_ok L s" "token_view L s k = Some a"
  shows "snd (rpc_route L w app k (Some who_am_i_request) s) = Inr (ReplyJson (rpc_response (JNum 1) (JStr a)))"
proof -
  from tokens.look_owner [OF assms] obtain u where u: "getUserByToken L k s = (s, Inr (Some u))" "user_address u = a" .
  have "zodParse L rpcReqSchema (Some who_am_i_request) = Some who_am_i_request"
    using assms by (simp add: users_ok_def zod_documentedD rpcReqSchema_def who_am_i_request_def zod_run required_def)
  moreover have "try_parsed w (new_RpcCallHandler (allHandlers L w) ctx) who_am_i_request s =
      (s, Inr (ReplyJson (rpc_response (JNum 1) (JStr (currentUser ctx)))))" for ctx
    by (simp add: try_parsed_def who_am_i_request_def opt_array_def tryCall_def who_am_i_registered rpc_id_def)
       (simp add: whoAmI_def act_simps)
  ultimately have "RpcCallHandler_handle L w (new_RpcCallHandler (allHandlers L w) ctx) (Some who_am_i_request) s =
      (s, Inr (ReplyJson (rpc_response (JNum 1) (JStr (currentUser ctx)))))" for ctx
    by (simp add: RpcCallHandler_handle_def catch_def)
  with u show ?thesis
    by (simp add: rpc_route_def bind_Inr access_def who_am_i_request_def act_simps)
qed

text \<open>
  C33: A token keeps resolving to the address it was issued for: after a creation succeeded and any
  later requests to the server, by anyone, the token's owner asks \<open>who_am_i\<close> and is answered with
  that address.
\<close>

theorem token_keeps_resolving:
  assumes "users_ok L s" "users_route L app k body s = (t, Inr reply)"
  shows "\<exists>b a. zodParse L (createUserSchema L) body = Some b \<and> field ''address'' b = Some (JStr a) \<and>
    snd (rpc_route L w app k (Some who_am_i_request) (serve_all L w app later t)) =
      Inr (ReplyJson (rpc_response (JNum 1) (JStr a)))"
proof -
  from users_route_cases [OF assms(2)] obtain b a where b: "zodParse L (createUserSchema L) body = Some b"
      "field ''address'' b = Some (JStr a)" "insert_user L a k s = (t, Inr ())"
    by auto
  from assms(1) have "checksummed L a"
    using createUser_parsed [OF _ _ b(1,2)] by (simp add: users_ok_def)
  from tokens.create_ok [OF assms(1) this b(3)] have "users_ok L t" "token_view L t k = Some a" by auto
  then have "users_ok L (serve_all L w app later t) \<and> token_view L (serve_all L w app later t) k = Some a"
    by (rule token_persists)
  then have "users_ok L (serve_all L w app later t)" "token_view L (serve_all L w app later t) k = Some a" by auto
  from who_am_i_answer [OF this] b show ?thesis by blast
qed

section \<open>The server on a concrete state\<close>

definition demo_app :: "string app_context" where
  "demo_app = \<lparr>targetRpc = ''http://node'', app_authorizer = demo_authorizer, createTokenSecret = ''secret''\<rparr>"

definition demo_state :: rpc_state where
  "demo_state = \<lparr>trace = [], users = [], next_id = 1\<rparr>"

definition demo_signup :: json where
  "demo_signup = JObj [(''address'', JStr demo_user), (''secret'', JStr ''secret'')]"

lemma demo_users_ok: "users_ok demo_lib demo_state"
  using demo_lib_documented by (simp add: users_ok_def demo_state_def)

theorem codec_round_trip_witness:
  "sbind (hexRow_toDriver demo_lib ''0xABC'') (hexRow_fromDriver demo_lib) = Inr ''0x0abc'' \<and>
   sbind (addressRow_toDriver demo_lib demo_user) (addressRow_fromDriver demo_lib) = Inr demo_user"
proof -
  have "hex_regex ''0xABC''" and low: "''0x'' @ ''0'' @ lower (drop 2 ''0xABC'') = ''0x0abc''" by code_simp+
  from codec_round_trip [OF demo_lib_documented this(1) demo_checksummed(2)] low show ?thesis by simp
qed

theorem forbidden_methods_refused_witness:
  "tryCall (demo_node JNull) (new_RpcCallHandler (allHandlers demo_lib (demo_node JNull)) demo_ctx)
     ''eth_getStorageAt'' None (JNum 1) demo_state = (demo_state, Inr (ReplyJson (unauthorized (JNum 1))))"
  by (rule forbidden_methods_refused) (simp add: forbidden_names_def)

theorem unknown_token_rejected_witness:
  "rpc_route demo_lib (demo_node JNull) demo_app ''nobody'' (Some JNull) demo_state =
     (demo_state, Inl (HttpError ''Unauthorized'' 401))"
  by (rule unknown_token_rejected [OF demo_users_ok]) (simp add: token_view_def demo_state_def)

theorem create_user_needs_secret_witness:
  "\<exists>t. users_route demo_lib demo_app ''tok'' (Some demo_signup) demo_state =
     (t, Inr (ReplyJson (JObj [(''ok'', JBool True), (''token'', JStr ''tok'')]))) \<and> ''tok'' \<in> row_token ` set (users t)"
proof -
  have "\<not> isl (snd (users_route demo_lib demo_app ''tok'' (Some demo_signup) demo_state))" by code_simp
  with create_user_needs_secret [OF surjective_pairing, of demo_lib demo_app "''tok''" "Some demo_signup" demo_state]
  show ?thesis by (force simp: prod_eq_iff)
qed

theorem token_keeps_resolving_witness:
  "\<exists>t reply. users_route demo_lib demo_app ''tok'' (Some demo_signup) demo_state = (t, Inr reply) \<and>
     (\<exists>a. snd (rpc_route demo_lib (demo_node JNull) demo_app ''tok'' (Some who_am_i_request)
        (serve_all demo_lib (demo_node JNull) demo_app
          [PostUsers ''tok2'' (Some demo_signup), PostRpc ''tok2'' (Some who_am_i_request)] t)) =
        Inr (ReplyJson (rpc_response (JNum 1) (JStr a))))"
proof -
  have "\<not> isl (snd (users_route demo_lib demo_app ''tok'' (Some demo_signup) demo_state))" by code_simp
  then obtain t reply where "users_route demo_lib demo_app ''tok'' (Some demo_signup) demo_state = (t, Inr reply)"
    by (metis prod.collapse sum.collapse(2))
  from this token_keeps_resolving [OF demo_users_ok this] show ?thesis by blast
qed

end
