(* ===== verification/Worker_Entities.thy ===== *)
theory Worker_Entities
  imports Bytes Json
begin

text \<open>
  The worker's data: what the data fetcher delivers (packages/worker/src/dataFetcher/types.ts), the
  rows of the database tables (packages/worker/src/entities) and the column transformers
  (packages/worker/src/transformers).

  Block numbers, indexes and types are integers; wei amounts stay the decimal strings they are.
  Points in time are milliseconds; an ISO date string is the instant it names. The bookkeeping columns
  \<open>createdAt\<close> and \<open>updatedAt\<close> are left out. A row extends the data it is made of by the number
  the database generates.
\<close>

section \<open>Enumerations\<close>

datatype TokenType = BaseToken | ERC20 | ERC721

datatype TransferType = Deposit | Transfer | Withdrawal | Fee | Mint | Refund

datatype BatchState = New | Committed | Proven | Executed

section \<open>Transformers\<close>

text \<open>The falsy string is \<open>null\<close>; a leading \<open>0x\<close> is dropped.\<close>

definition hexTransformer_to :: "string option \<Rightarrow> u8 list option" where
  "hexTransformer_to v =
     (case v of
        None \<Rightarrow> None
      | Some s \<Rightarrow>
          if s = [] then None
          else Some (buffer_from_hex (if starts_with s ''0x'' then drop 2 s else s)))"

definition hexTransformer_from :: "u8 list option \<Rightarrow> string option" where
  "hexTransformer_from hex = map_option (\<lambda>b. ''0x'' @ buffer_to_hex b) hex"

text \<open>What a hexadecimal column gives back for the value that was stored.\<close>

definition hex_col :: "string option \<Rightarrow> string option" where
  "hex_col v = hexTransformer_from (hexTransformer_to v)"

definition ZERO_HASH_64 :: string where
  "ZERO_HASH_64 = ''0x'' @ replicate 64 CHR ''0''"

definition hash64HexTransformer_to :: "string option \<Rightarrow> u8 list option" where
  "hash64HexTransformer_to v = (if v = Some ZERO_HASH_64 then None else hexTransformer_to v)"

definition hash64_col :: "string option \<Rightarrow> string option" where
  "hash64_col v = hexTransformer_from (hash64HexTransformer_to v)"

text \<open>A column that may not be \<open>null\<close>; the empty text stands for the \<open>null\<close> that Postgres refuses.\<close>

definition hexc :: "string \<Rightarrow> string" where
  "hexc s = (case hex_col (Some s) of None \<Rightarrow> [] | Some t \<Rightarrow> t)"

definition hexArrayTransformer_to :: "string list option \<Rightarrow> u8 list option list option" where
  "hexArrayTransformer_to v = map_option (map (\<lambda>s. hexTransformer_to (Some s))) v"

definition hexArrayTransformer_from :: "u8 list option list option \<Rightarrow> string option list option" where
  "hexArrayTransformer_from v = map_option (map hexTransformer_from) v"

text \<open>Postgres cannot store zero bytes in a string.\<close>

definition stringTransformer_to :: "string option \<Rightarrow> string option" where
  "stringTransformer_to v = map_option (\<lambda>s. filter (\<lambda>c. c \<noteq> CHR 0x00) s) v"

lemma hex_col_lower:
  assumes "hex_regex s" "even (length s)"
  shows "hex_col (Some s) = Some (lower s)"
proof -
  from assms(1) have s: "s = ''0x'' @ drop 2 s" by (rule hex_regex_prefix)
  then obtain d where d: "s = CHR ''0'' # CHR ''x'' # d" by (metis append_Cons append_Nil)
  with assms have "list_all is_hex_digit d" "even (length d)" by (auto simp: hex_regex_def)
  then have "buffer_to_hex (buffer_from_hex d) = lower d" by (rule buffer_round_trip)
  moreover have "lower_char CHR ''0'' = CHR ''0''" "lower_char CHR ''x'' = CHR ''x''" by code_simp+
  ultimately show ?thesis
    by (simp add: hex_col_def hexTransformer_to_def hexTransformer_from_def starts_with_def d)
qed

text \<open>
  The hexadecimal columns give back what was stored, in lower case, with or without the \<open>0x\<close>
  prefix; \<open>null\<close> and the empty string come back as \<open>null\<close>; arrays of topics element by element.
\<close>

theorem hex_transformer_round_trip:
  assumes "list_all is_hex_digit d" "even (length d)" "d \<noteq> []"
  shows "hexTransformer_from (hexTransformer_to (Some d)) = Some (''0x'' @ lower d)
    \<and> hexTransformer_from (hexTransformer_to (Some (''0x'' @ d))) = Some (''0x'' @ lower d)
    \<and> hexTransformer_from (hexTransformer_to None) = None
    \<and> hexTransformer_from (hexTransformer_to (Some '''')) = None
    \<and> hexArrayTransformer_from (hexArrayTransformer_to (Some [''0x'' @ d, d])) =
        Some [Some (''0x'' @ lower d), Some (''0x'' @ lower d)]"
proof -
  have again: "buffer_to_hex (buffer_from_hex d) = lower d"
    using assms(1,2) by (rule buffer_round_trip)
  have "\<not> starts_with d ''0x''"
  proof
    assume "starts_with d ''0x''"
    then obtain a b e where "d = a # b # e" "b = CHR ''x''"
      by (cases d; cases "tl d") (auto simp: starts_with_def)
    with assms(1) have "is_hex_digit CHR ''x''" by simp
    moreover have "\<not> is_hex_digit CHR ''x''" by code_simp
    ultimately show False by simp
  qed
  with again assms(3) show ?thesis
    by (simp add: hexTransformer_to_def hexTransformer_from_def hexArrayTransformer_to_def
        hexArrayTransformer_from_def starts_with_def)
qed

theorem hex_transformer_round_trip_witness:
  "hexTransformer_from (hexTransformer_to (Some ''ABcd'')) = Some ''0xabcd''"
proof -
  have "list_all is_hex_digit ''ABcd''" "lower ''ABcd'' = ''abcd''" by code_simp+
  then show ?thesis using hex_transformer_round_trip [of "''ABcd''"] by simp
qed

section \<open>Fetched data: dataFetcher/types.ts\<close>

record changed_balance =
  cb_address :: string
  cb_tokenAddress :: string
  cb_blockNumber :: int
  cb_balance :: string
  cb_tokenType :: TokenType

record transfer_data =
  tf_from :: string
  tf_to :: string
  tf_blockNumber :: int
  tf_transactionHash :: "string option"
  tf_transactionIndex :: int
  tf_timestamp :: int
  tf_amount :: "string option"
  tf_tokenAddress :: "string option"
  tf_type :: TransferType
  tf_tokenType :: TokenType
  tf_isFeeOrRefund :: bool
  tf_logIndex :: int
  tf_fields :: "string option"
  tf_isInternal :: bool

record token_data =
  tk_l2Address :: string
  tk_l1Address :: "string option"
  tk_symbol :: string
  tk_name :: "string option"
  tk_decimals :: int
  tk_blockNumber :: int
  tk_transactionHash :: string
  tk_logIndex :: int

record contract_address =
  ca_address :: string
  ca_blockNumber :: int
  ca_transactionHash :: string
  ca_creatorAddress :: string
  ca_logIndex :: int
  ca_bytecode :: "string option"

record log_data =
  lg_address :: string
  lg_data :: string
  lg_topics :: "string list"
  lg_index :: int
  lg_blockNumber :: int
  lg_transactionHash :: "string option"
  lg_transactionIndex :: int
  lg_removed :: "bool option"

record transaction_info =
  tr_hash :: string
  tr_to :: string
  tr_from :: string
  tr_nonce :: int
  tr_index :: int
  tr_gasLimit :: string
  tr_gasPrice :: string
  tr_maxFeePerGas :: "string option"
  tr_maxPriorityFeePerGas :: "string option"
  tr_data :: string
  tr_value :: string
  tr_chainId :: int
  tr_blockNumber :: int
  tr_blockHash :: string
  tr_type :: int
  tr_accessList :: "json option"
  tr_l1BatchNumber :: int
  tr_fee :: string
  tr_gasPerPubdata :: "string option"
  tr_isL1Originated :: bool
  tr_receivedAt :: int
  tr_receiptStatus :: int
  tr_error :: "string option"
  tr_revertReason :: "string option"

record receipt_data =
  rc_hash :: string
  rc_to :: string
  rc_from :: string
  rc_contractAddress :: "string option"
  rc_index :: int
  rc_root :: "string option"
  rc_gasUsed :: string
  rc_gasPrice :: string
  rc_logsBloom :: string
  rc_blockHash :: string
  rc_blockNumber :: int
  rc_cumulativeGasUsed :: string
  rc_status :: int

record transaction_data =
  td_transaction :: transaction_info
  td_receipt :: receipt_data
  td_logs :: "log_data list"
  td_transfers :: "transfer_data list"
  td_contractAddresses :: "contract_address list"
  td_tokens :: "token_data list"

record block_dto =
  bk_number :: int
  bk_hash :: string
  bk_parentHash :: "string option"
  bk_nonce :: string
  bk_difficulty :: int
  bk_gasLimit :: string
  bk_gasUsed :: string
  bk_baseFeePerGas :: string
  bk_miner :: string
  bk_extraData :: string

record block_details =
  bd_timestamp :: int
  bd_l1BatchNumber :: int
  bd_l1TxCount :: int
  bd_l2TxCount :: int

text \<open>A block that the node does not know is \<open>None\<close> (\<open>null\<close>).\<close>

record block_data =
  d_block :: "block_dto option"
  d_blockDetails :: "block_details option"
  d_transactions :: "transaction_data list"
  d_blockLogs :: "log_data list"
  d_blockTransfers :: "transfer_data list"
  d_changedBalances :: "changed_balance list"

section \<open>Rows: entities\<close>

record block_row = block_dto +
  b_timestamp :: int
  b_l1BatchNumber :: int
  b_l1TxCount :: int
  b_l2TxCount :: int

record batch_row =
  bt_number :: int
  bt_rootHash :: "string option"
  bt_timestamp :: int
  bt_l1GasPrice :: int
  bt_l2FairGasPrice :: int
  bt_commitTxHash :: "string option"
  bt_committedAt :: "int option"
  bt_proveTxHash :: "string option"
  bt_provenAt :: "int option"
  bt_executeTxHash :: "string option"
  bt_executedAt :: "int option"
  bt_l1TxCount :: int
  bt_l2TxCount :: int

record transaction_row = transaction_info +
  t_number :: int

record receipt_row =
  r_transactionHash :: string
  r_number :: int
  r_to :: string
  r_from :: string
  r_contractAddress :: "string option"
  r_transactionIndex :: int
  r_type :: int
  r_root :: string
  r_gasUsed :: string
  r_effectiveGasPrice :: string
  r_logsBloom :: string
  r_blockHash :: string
  r_blockNumber :: int
  r_cumulativeGasUsed :: string
  r_status :: int

record log_row = log_data +
  l_timestamp :: int
  l_number :: int

record transfer_row = transfer_data +
  f_number :: int

record address_transfer =
  at_number :: int
  at_transferNumber :: int
  at_address :: string
  at_tokenAddress :: "string option"
  at_blockNumber :: int
  at_timestamp :: int
  at_type :: TransferType
  at_tokenType :: TokenType
  at_isFeeOrRefund :: bool
  at_fields :: "string option"
  at_logIndex :: int
  at_isInternal :: bool

record address_transaction =
  ax_number :: int
  ax_transactionHash :: string
  ax_address :: string
  ax_blockNumber :: int
  ax_receivedAt :: int
  ax_transactionIndex :: int

record address_row =
  ad_address :: string
  ad_bytecode :: "string option"
  ad_createdInBlockNumber :: "int option"
  ad_creatorTxHash :: "string option"
  ad_createdInLogIndex :: "int option"
  ad_creatorAddress :: "string option"

text \<open>A token row keeps the off-chain data across updates of the on-chain data.\<close>

record token_row =
  k_token :: token_data
  k_number :: int
  k_usdPrice :: "rat option"
  k_liquidity :: "rat option"
  k_iconURL :: "string option"
  k_offChainDataUpdatedAt :: "int option"

record balance_row =
  bl_address :: string
  bl_tokenAddress :: string
  bl_blockNumber :: int
  bl_balance :: string

end
