(* ===== verification/Worker_Db.thy ===== *)
theory Worker_Db
  imports Worker_Entities
begin

text \<open>
  The worker's database and the repositories over it (packages/worker/src/repositories). A table is
  the list of its rows in insertion order; the constraints that the entities declare (primary and
  unique keys, references to blocks, transactions and transfers, deletion cascading from blocks) are
  checked by every statement, and a statement that violates one throws and changes nothing.
\<close>

section \<open>The database\<close>

record counter_row =
  c_tableName :: string
  c_queryString :: string
  c_count :: int

record db =
  blocks :: "block_row list"
  batches :: "batch_row list"
  transactions :: "transaction_row list"
  receipts :: "receipt_row list"
  logs :: "log_row list"
  transfers :: "transfer_row list"
  address_transfers :: "address_transfer list"
  address_transactions :: "address_transaction list"
  addresses :: "address_row list"
  tokens :: "token_row list"
  balances :: "balance_row list"
  counters :: "counter_row list"
  counter_states :: "(string \<times> int) list"
  delete_balances_from :: int
  sequences :: "string \<Rightarrow> int"

abbreviation db_error :: exn where
  "db_error \<equiv> LibError (JObj [(''message'', JStr ''constraint violation'')])"

definition has_block :: "('z db_scheme) \<Rightarrow> int \<Rightarrow> bool" where
  "has_block s n \<longleftrightarrow> n \<in> bk_number ` set (blocks s)"

definition has_tx :: "('z db_scheme) \<Rightarrow> string \<Rightarrow> bool" where
  "has_tx s h \<longleftrightarrow> h \<in> tr_hash ` set (transactions s)"

definition has_transfer :: "('z db_scheme) \<Rightarrow> int \<Rightarrow> bool" where
  "has_transfer s n \<longleftrightarrow> n \<in> f_number ` set (transfers s)"

definition opt_ref :: "('a \<Rightarrow> bool) \<Rightarrow> 'a option \<Rightarrow> bool" where
  "opt_ref P v = (case v of None \<Rightarrow> True | Some a \<Rightarrow> P a)"

definition next_of :: "('z db_scheme) \<Rightarrow> string \<Rightarrow> int" where
  "next_of s t = sequences s t"

definition bump :: "string \<Rightarrow> ('z db_scheme) \<Rightarrow> ('z db_scheme)" where
  "bump t s = s\<lparr>sequences := (sequences s)(t := sequences s t + 1)\<rparr>"

section \<open>Rows\<close>

text \<open>What the column transformers make of the data.\<close>

definition block_row_of :: "block_dto \<Rightarrow> block_details \<Rightarrow> block_row" where
  "block_row_of b d = \<lparr>bk_number = bk_number b, bk_hash = hexc (bk_hash b),
     bk_parentHash = hash64_col (bk_parentHash b), bk_nonce = bk_nonce b, bk_difficulty = bk_difficulty b,
     bk_gasLimit = bk_gasLimit b, bk_gasUsed = bk_gasUsed b, bk_baseFeePerGas = bk_baseFeePerGas b,
     bk_miner = hexc (bk_miner b), bk_extraData = hexc (bk_extraData b),
     b_timestamp = bd_timestamp d * 1000, b_l1BatchNumber = bd_l1BatchNumber d,
     b_l1TxCount = bd_l1TxCount d, b_l2TxCount = bd_l2TxCount d\<rparr>"

definition transaction_columns :: "transaction_info \<Rightarrow> transaction_info" where
  "transaction_columns t = t\<lparr>tr_hash := hexc (tr_hash t), tr_to := hexc (tr_to t), tr_from := hexc (tr_from t),
     tr_data := hexc (tr_data t), tr_blockHash := hexc (tr_blockHash t),
     tr_error := stringTransformer_to (tr_error t), tr_revertReason := stringTransformer_to (tr_revertReason t)\<rparr>"

definition log_columns :: "log_data \<Rightarrow> log_data" where
  "log_columns l = l\<lparr>lg_address := hexc (lg_address l), lg_data := hexc (lg_data l),
     lg_topics := map hexc (lg_topics l), lg_transactionHash := hash64_col (lg_transactionHash l)\<rparr>"

definition transfer_columns :: "transfer_data \<Rightarrow> transfer_data" where
  "transfer_columns t = t\<lparr>tf_from := hexc (tf_from t), tf_to := hexc (tf_to t),
     tf_transactionHash := hash64_col (tf_transactionHash t), tf_tokenAddress := hex_col (tf_tokenAddress t)\<rparr>"

definition receipt_columns :: "receipt_row \<Rightarrow> receipt_row" where
  "receipt_columns r = r\<lparr>r_transactionHash := hexc (r_transactionHash r), r_to := hexc (r_to r),
     r_from := hexc (r_from r), r_contractAddress := hex_col (r_contractAddress r), r_root := hexc (r_root r),
     r_logsBloom := hexc (r_logsBloom r), r_blockHash := hexc (r_blockHash r)\<rparr>"

definition address_columns :: "address_row \<Rightarrow> address_row" where
  "address_columns a = a\<lparr>ad_address := hexc (ad_address a), ad_bytecode := hex_col (ad_bytecode a),
     ad_creatorTxHash := hash64_col (ad_creatorTxHash a), ad_creatorAddress := hex_col (ad_creatorAddress a)\<rparr>"

definition token_columns :: "token_data \<Rightarrow> token_data" where
  "token_columns t = t\<lparr>tk_l2Address := hexc (tk_l2Address t), tk_l1Address := hex_col (tk_l1Address t),
     tk_symbol := the (stringTransformer_to (Some (tk_symbol t))), tk_name := stringTransformer_to (tk_name t),
     tk_transactionHash := hexc (tk_transactionHash t)\<rparr>"

definition balance_row_of :: "changed_balance \<Rightarrow> balance_row" where
  "balance_row_of c = \<lparr>bl_address = hexc (cb_address c), bl_tokenAddress = hexc (cb_tokenAddress c),
     bl_blockNumber = cb_blockNumber c, bl_balance = cb_balance c\<rparr>"

section \<open>Statements\<close>

text \<open>An insert of one row: \<open>None\<close> when a constraint is violated.\<close>

definition ins_block :: "block_row \<Rightarrow> 'z db_scheme \<Rightarrow> 'z db_scheme option" where
  "ins_block r s =
     (if has_block s (bk_number r) \<or> bk_hash r \<in> bk_hash ` set (blocks s) then None
      else Some (s\<lparr>blocks := blocks s @ [r]\<rparr>))"

definition ins_transaction :: "transaction_info \<Rightarrow> 'z db_scheme \<Rightarrow> 'z db_scheme option" where
  "ins_transaction t s =
     (let r = transaction_columns t in
      if has_tx s (tr_hash r) \<or> \<not> has_block s (tr_blockNumber r) then None
      else Some (bump ''transactions'' (s\<lparr>transactions := transactions s @
        [transaction_info.extend r (transaction_row.fields (next_of s ''transactions''))]\<rparr>)))"

definition ins_receipt :: "receipt_row \<Rightarrow> 'z db_scheme \<Rightarrow> 'z db_scheme option" where
  "ins_receipt x s =
     (let r = receipt_columns x in
      if r_transactionHash r \<in> r_transactionHash ` set (receipts s) \<or>
         \<not> has_tx s (r_transactionHash r) \<or> \<not> has_block s (r_blockNumber r) then None
      else Some (bump ''receipts'' (s\<lparr>receipts := receipts s @ [r\<lparr>r_number := next_of s ''receipts''\<rparr>]\<rparr>)))"

definition ins_log :: "log_data \<times> int \<Rightarrow> 'z db_scheme \<Rightarrow> 'z db_scheme option" where
  "ins_log x s =
     (let r = log_columns (fst x) in
      if \<not> opt_ref (has_tx s) (lg_transactionHash r) \<or> \<not> has_block s (lg_blockNumber r) then None
      else Some (bump ''logs'' (s\<lparr>logs := logs s @ [log_data.extend r (log_row.fields (snd x) (next_of s ''logs''))]\<rparr>)))"

definition ins_transfer :: "transfer_data \<Rightarrow> 'z db_scheme \<Rightarrow> 'z db_scheme option" where
  "ins_transfer t s =
     (let r = transfer_columns t in
      if \<not> opt_ref (has_tx s) (tf_transactionHash r) \<or> \<not> has_block s (tf_blockNumber r) then None
      else Some (bump ''transfers'' (s\<lparr>transfers := transfers s @
        [transfer_data.extend r (transfer_row.fields (next_of s ''transfers''))]\<rparr>)))"

definition ins_address_transfer :: "address_transfer \<Rightarrow> 'z db_scheme \<Rightarrow> 'z db_scheme option" where
  "ins_address_transfer a s =
     (if \<not> has_transfer s (at_transferNumber a) \<or> \<not> has_block s (at_blockNumber a) then None
      else Some (bump ''addressTransfers'' (s\<lparr>address_transfers := address_transfers s @
        [a\<lparr>at_number := next_of s ''addressTransfers'', at_address := hexc (at_address a),
           at_tokenAddress := hex_col (at_tokenAddress a)\<rparr>]\<rparr>)))"

definition ins_address_transaction :: "address_transaction \<Rightarrow> 'z db_scheme \<Rightarrow> 'z db_scheme option" where
  "ins_address_transaction a s =
     (let r = a\<lparr>ax_transactionHash := hexc (ax_transactionHash a), ax_address := hexc (ax_address a)\<rparr> in
      if \<not> has_tx s (ax_transactionHash r) \<or> \<not> has_block s (ax_blockNumber r) then None
      else Some (bump ''addressTransactions'' (s\<lparr>address_transactions := address_transactions s @
        [r\<lparr>ax_number := next_of s ''addressTransactions''\<rparr>]\<rparr>)))"

definition ins_balance :: "changed_balance \<Rightarrow> 'z db_scheme \<Rightarrow> 'z db_scheme option" where
  "ins_balance c s =
     (let r = balance_row_of c in
      if (\<exists>b \<in> set (balances s). bl_address b = bl_address r \<and> bl_tokenAddress b = bl_tokenAddress r \<and>
            bl_blockNumber b = bl_blockNumber r) \<or> \<not> has_block s (bl_blockNumber r) then None
      else Some (s\<lparr>balances := balances s @ [r]\<rparr>))"

text \<open>One \<open>INSERT\<close> statement with several rows: all of them or none.\<close>

fun insert_all :: "('r \<Rightarrow> 's \<Rightarrow> 's option) \<Rightarrow> 'r list \<Rightarrow> 's \<Rightarrow> 's option" where
  "insert_all ins [] s = Some s"
| "insert_all ins (r # rs) s = Option.bind (ins r s) (insert_all ins rs)"

definition insert_stmt :: "('r \<Rightarrow> 's \<Rightarrow> 's option) \<Rightarrow> 'r list \<Rightarrow> ('s, unit) act" where
  "insert_stmt ins rs s = (case insert_all ins rs s of None \<Rightarrow> (s, Inl db_error) | Some t \<Rightarrow> (t, Inr ()))"

section \<open>base.repository.ts\<close>

definition BATCH_SIZE :: nat where
  "BATCH_SIZE = 1000"

text \<open>
  The loop of \<open>addMany\<close>, and of the worker's other batched loops: records are collected until the
  batch is full or the last one has been seen.
\<close>

fun batch_loop :: "nat \<Rightarrow> 'a list \<Rightarrow> 'a list \<Rightarrow> 'a list list" where
  "batch_loop n acc [] = []"
| "batch_loop n acc (x # xs) =
     (if length (acc @ [x]) = n \<or> xs = [] then (acc @ [x]) # batch_loop n [] xs
      else batch_loop n (acc @ [x]) xs)"

definition batches_of :: "nat \<Rightarrow> 'a list \<Rightarrow> 'a list list" where
  "batches_of n xs = batch_loop n [] xs"

definition addMany :: "('r \<Rightarrow> 's \<Rightarrow> 's option) \<Rightarrow> 'r list \<Rightarrow> ('s, unit) act" where
  "addMany ins records =
     (if records = [] then ret () else for_each (insert_stmt ins) (batches_of BATCH_SIZE records))"

definition add :: "('r \<Rightarrow> 's \<Rightarrow> 's option) \<Rightarrow> 'r \<Rightarrow> ('s, unit) act" where
  "add ins record = insert_stmt ins [record]"

lemma batch_loop_concat: "concat (batch_loop n acc xs) = (if xs = [] then [] else acc @ xs)"
  by (induction n acc xs rule: batch_loop.induct) auto

lemma batches_of_concat: "concat (batches_of n xs) = xs"
  by (simp add: batches_of_def batch_loop_concat)

lemma batch_loop_sizes:
  "length acc < n \<Longrightarrow> b \<in> set (batch_loop n acc xs) \<Longrightarrow> b \<noteq> [] \<and> length b \<le> n"
  by (induction n acc xs rule: batch_loop.induct) (auto split: if_splits)

lemma batches_of_sizes: "0 < n \<Longrightarrow> b \<in> set (batches_of n xs) \<Longrightarrow> b \<noteq> [] \<and> length b \<le> n"
  unfolding batches_of_def by (rule batch_loop_sizes) auto

lemma insert_all_append:
  "insert_all ins (xs @ ys) s = Option.bind (insert_all ins xs s) (insert_all ins ys)"
  by (induction xs arbitrary: s) (auto split: bind_splits)

lemma for_each_insert_stmt:
  "snd (for_each (insert_stmt ins) bs s) = Inr () \<longleftrightarrow> insert_all ins (concat bs) s \<noteq> None"
  "snd (for_each (insert_stmt ins) bs s) = Inr () \<Longrightarrow>
     insert_all ins (concat bs) s = Some (fst (for_each (insert_stmt ins) bs s))"
  by (induction bs arbitrary: s)
     (auto simp: insert_stmt_def insert_all_append bind_def act_simps split: option.splits)

text \<open>
  \<open>addMany\<close> in batches of a thousand inserts exactly the records it is given, in their order: it
  succeeds if and only if inserting them one after the other does, and then with the same database.
\<close>

theorem addMany_inserts_all:
  "case insert_all ins records s of
     None \<Rightarrow> \<exists>t. addMany ins records s = (t, Inl db_error)
   | Some t \<Rightarrow> addMany ins records s = (t, Inr ())"
proof -
  have thrown: "e = db_error" if "for_each (insert_stmt ins) bs s = (t, Inl e)" for bs e t s
    using that by (induction bs arbitrary: s)
      (auto simp: insert_stmt_def act_simps split: option.splits elim!: bind_thrown)
  show ?thesis
    using for_each_insert_stmt [of ins "batches_of BATCH_SIZE records" s] thrown
    by (cases "for_each (insert_stmt ins) (batches_of BATCH_SIZE records) s";
        cases "snd (for_each (insert_stmt ins) (batches_of BATCH_SIZE records) s)")
       (auto simp: addMany_def batches_of_concat act_simps split: option.splits)
qed

end
