(* ===== verification/Worker_Repositories.thy ===== *)
theory Worker_Repositories
  imports Worker_Db
begin

text \<open>
  The repositories of packages/worker/src/repositories, one group of operations per table, with the
  integrity invariant of the database that every one of them keeps.
\<close>

section \<open>transaction.repository.ts, transfer.repository.ts\<close>

definition address_transaction_of :: "transaction_info \<Rightarrow> string \<Rightarrow> address_transaction" where
  "address_transaction_of t a = \<lparr>ax_number = 0, ax_transactionHash = tr_hash t, ax_address = a,
     ax_blockNumber = tr_blockNumber t, ax_receivedAt = tr_receivedAt t, ax_transactionIndex = tr_index t\<rparr>"

definition address_transactions_of :: "transaction_info \<Rightarrow> address_transaction list" where
  "address_transactions_of t = address_transaction_of t (tr_from t) #
     (if tr_from t \<noteq> tr_to t then [address_transaction_of t (tr_to t)] else [])"

definition TransactionRepository_add :: "transaction_info \<Rightarrow> ('z db_scheme, unit) act" where
  "TransactionRepository_add t =
     bind (add ins_transaction t) (\<lambda>_. addMany ins_address_transaction (address_transactions_of t))"

definition address_transfer_of :: "transfer_data \<Rightarrow> int \<Rightarrow> string \<Rightarrow> address_transfer" where
  "address_transfer_of t n a = \<lparr>at_number = 0, at_transferNumber = n, at_address = a,
     at_tokenAddress = tf_tokenAddress t, at_blockNumber = tf_blockNumber t, at_timestamp = tf_timestamp t,
     at_type = tf_type t, at_tokenType = tf_tokenType t, at_isFeeOrRefund = tf_isFeeOrRefund t,
     at_fields = tf_fields t, at_logIndex = tf_logIndex t, at_isInternal = tf_isInternal t\<rparr>"

definition address_transfers_of :: "transfer_data \<times> int \<Rightarrow> address_transfer list" where
  "address_transfers_of = (\<lambda>(t, n).
     if tf_from t = tf_to t then [address_transfer_of t n (tf_from t)]
     else [address_transfer_of t n (tf_from t), address_transfer_of t n (tf_to t)])"

text \<open>
  The insert fills in the generated \<open>number\<close> of each record it is given; the numbers are consecutive
  from the sequence.
\<close>

definition TransferRepository_addMany :: "transfer_data list \<Rightarrow> ('z db_scheme, unit) act" where
  "TransferRepository_addMany records =
     bind (gets (\<lambda>s. next_of s ''transfers'')) (\<lambda>n.
     bind (addMany ins_transfer records) (\<lambda>_.
     addMany ins_address_transfer
       (concat (map address_transfers_of (zip records (map (\<lambda>i. n + int i) [0..<length records]))))))"

section \<open>block.repository.ts, batch.repository.ts\<close>

definition BlockRepository_add :: "block_dto \<Rightarrow> block_details \<Rightarrow> ('z db_scheme, unit) act" where
  "BlockRepository_add b d = insert_stmt ins_block [block_row_of b d]"

text \<open>\<open>findOne\<close> with \<open>order: { number: "DESC" }\<close>.\<close>

fun last_by :: "('r \<Rightarrow> int) \<Rightarrow> 'r list \<Rightarrow> 'r option" where
  "last_by key [] = None"
| "last_by key (r # rs) =
     (case last_by key rs of None \<Rightarrow> Some r | Some q \<Rightarrow> Some (if key q \<le> key r then r else q))"

definition getLastBlock :: "(block_row \<Rightarrow> bool) \<Rightarrow> ('z db_scheme, block_row option) act" where
  "getLastBlock wher = gets (\<lambda>s. last_by bk_number (filter wher (blocks s)))"

definition getLastBatch :: "(batch_row \<Rightarrow> bool) \<Rightarrow> ('z db_scheme, batch_row option) act" where
  "getLastBatch wher = gets (\<lambda>s. last_by bt_number (filter wher (batches s)))"

definition block_executed :: "'z db_scheme \<Rightarrow> block_row \<Rightarrow> bool" where
  "block_executed s b \<longleftrightarrow> (\<exists>t \<in> set (batches s). bt_number t = b_l1BatchNumber b \<and> bt_executedAt t \<noteq> None)"

definition last_executed :: "'z db_scheme \<Rightarrow> int" where
  "last_executed s =
     (case last_by bk_number (filter (block_executed s) (blocks s)) of None \<Rightarrow> 0 | Some b \<Rightarrow> bk_number b)"

definition getLastExecutedBlockNumber :: "('z db_scheme, int) act" where
  "getLastExecutedBlockNumber = gets last_executed"

text \<open>
  The references between the tables. Deleting blocks deletes what belongs to them; the statement is
  refused when a row would be left that refers to a deleted one.
\<close>

definition fk_ok :: "'z db_scheme \<Rightarrow> bool" where
  "fk_ok s \<longleftrightarrow>
     (\<forall>t \<in> set (transactions s). has_block s (tr_blockNumber t)) \<and>
     (\<forall>r \<in> set (receipts s). has_block s (r_blockNumber r) \<and> has_tx s (r_transactionHash r)) \<and>
     (\<forall>l \<in> set (logs s). has_block s (lg_blockNumber l) \<and> opt_ref (has_tx s) (lg_transactionHash l)) \<and>
     (\<forall>t \<in> set (transfers s). has_block s (tf_blockNumber t) \<and> opt_ref (has_tx s) (tf_transactionHash t)) \<and>
     (\<forall>a \<in> set (address_transfers s). has_block s (at_blockNumber a) \<and> has_transfer s (at_transferNumber a)) \<and>
     (\<forall>a \<in> set (address_transactions s). has_block s (ax_blockNumber a) \<and> has_tx s (ax_transactionHash a)) \<and>
     (\<forall>a \<in> set (addresses s). opt_ref (has_block s) (ad_createdInBlockNumber a) \<and> opt_ref (has_tx s) (ad_creatorTxHash a)) \<and>
     (\<forall>k \<in> set (tokens s). has_block s (tk_blockNumber (k_token k)) \<and> has_tx s (tk_transactionHash (k_token k))) \<and>
     (\<forall>b \<in> set (balances s). has_block s (bl_blockNumber b))"

definition cascade :: "(block_row \<Rightarrow> bool) \<Rightarrow> 'z db_scheme \<Rightarrow> 'z db_scheme" where
  "cascade wher s =
     (let gone = (\<lambda>n. n \<in> bk_number ` set (filter wher (blocks s))) in
      s\<lparr>blocks := filter (\<lambda>b. \<not> wher b) (blocks s),
        transactions := filter (\<lambda>t. \<not> gone (tr_blockNumber t)) (transactions s),
        receipts := filter (\<lambda>r. \<not> gone (r_blockNumber r)) (receipts s),
        logs := filter (\<lambda>l. \<not> gone (lg_blockNumber l)) (logs s),
        transfers := filter (\<lambda>t. \<not> gone (tf_blockNumber t)) (transfers s),
        address_transfers := filter (\<lambda>a. \<not> gone (at_blockNumber a)) (address_transfers s),
        address_transactions := filter (\<lambda>a. \<not> gone (ax_blockNumber a)) (address_transactions s),
        addresses := filter (\<lambda>a. case ad_createdInBlockNumber a of None \<Rightarrow> True | Some n \<Rightarrow> \<not> gone n) (addresses s),
        tokens := filter (\<lambda>k. \<not> gone (tk_blockNumber (k_token k))) (tokens s),
        balances := filter (\<lambda>b. \<not> gone (bl_blockNumber b)) (balances s)\<rparr>)"

definition BlockRepository_delete :: "(block_row \<Rightarrow> bool) \<Rightarrow> ('z db_scheme, unit) act" where
  "BlockRepository_delete wher s = (let t = cascade wher s in if fk_ok t then (t, Inr ()) else (s, Inl db_error))"

definition BatchRepository_delete :: "(batch_row \<Rightarrow> bool) \<Rightarrow> ('z db_scheme, unit) act" where
  "BatchRepository_delete wher = modify (\<lambda>s. s\<lparr>batches := filter (\<lambda>b. \<not> wher b) (batches s)\<rparr>)"

text \<open>
  \<open>upsert\<close> of a batch: null columns are left out, so that an existing row keeps what it has there. The
  root hash is unique.
\<close>

definition or_else :: "'a option \<Rightarrow> 'a option \<Rightarrow> 'a option" where
  "or_else a b = (case a of None \<Rightarrow> b | Some x \<Rightarrow> Some x)"

definition batch_columns :: "batch_row \<Rightarrow> batch_row" where
  "batch_columns b = b\<lparr>bt_rootHash := hex_col (bt_rootHash b), bt_commitTxHash := hex_col (bt_commitTxHash b),
     bt_proveTxHash := hex_col (bt_proveTxHash b), bt_executeTxHash := hex_col (bt_executeTxHash b)\<rparr>"

definition batch_update :: "batch_row \<Rightarrow> batch_row \<Rightarrow> batch_row" where
  "batch_update new old = new\<lparr>
     bt_rootHash := or_else (bt_rootHash new) (bt_rootHash old),
     bt_commitTxHash := or_else (bt_commitTxHash new) (bt_commitTxHash old),
     bt_committedAt := or_else (bt_committedAt new) (bt_committedAt old),
     bt_proveTxHash := or_else (bt_proveTxHash new) (bt_proveTxHash old),
     bt_provenAt := or_else (bt_provenAt new) (bt_provenAt old),
     bt_executeTxHash := or_else (bt_executeTxHash new) (bt_executeTxHash old),
     bt_executedAt := or_else (bt_executedAt new) (bt_executedAt old)\<rparr>"

definition BatchRepository_upsert :: "batch_row \<Rightarrow> ('z db_scheme, unit) act" where
  "BatchRepository_upsert b s =
     (let new = batch_columns b;
          rows = (if bt_number new \<in> bt_number ` set (batches s)
                  then map (\<lambda>old. if bt_number old = bt_number new then batch_update new old else old) (batches s)
                  else batches s @ [new])
      in if bt_rootHash new \<noteq> None \<and>
            (\<exists>r \<in> set (batches s). bt_number r \<noteq> bt_number new \<and> bt_rootHash r = bt_rootHash new)
         then (s, Inl db_error) else (s\<lparr>batches := rows\<rparr>, Inr ()))"

section \<open>address.repository.ts, token.repository.ts\<close>

text \<open>The \<open>ON CONFLICT ... DO UPDATE ... WHERE\<close> scripts: a row gives way to a later version only.\<close>

definition address_newer :: "address_row \<Rightarrow> address_row \<Rightarrow> bool" where
  "address_newer new old \<longleftrightarrow>
     (case ad_createdInBlockNumber old of
        None \<Rightarrow> True
      | Some m \<Rightarrow> (case ad_createdInBlockNumber new of
          None \<Rightarrow> False
        | Some n \<Rightarrow> n > m \<or> (n = m \<and>
            (case (ad_createdInLogIndex new, ad_createdInLogIndex old) of (Some i, Some j) \<Rightarrow> i > j | _ \<Rightarrow> False))))"

definition upsert_address_rows :: "address_row \<Rightarrow> address_row list \<Rightarrow> address_row list" where
  "upsert_address_rows a rows =
     (if ad_address a \<in> ad_address ` set rows
      then map (\<lambda>old. if ad_address old = ad_address a \<and> address_newer a old then a else old) rows
      else rows @ [a])"

definition AddressRepository_upsert :: "address_row \<Rightarrow> ('z db_scheme, unit) act" where
  "AddressRepository_upsert x s =
     (let a = address_columns x in
      if opt_ref (has_block s) (ad_createdInBlockNumber a) \<and> opt_ref (has_tx s) (ad_creatorTxHash a)
      then (s\<lparr>addresses := upsert_address_rows a (addresses s)\<rparr>, Inr ())
      else (s, Inl db_error))"

definition token_newer :: "token_data \<Rightarrow> token_data \<Rightarrow> bool" where
  "token_newer new old \<longleftrightarrow> tk_blockNumber new > tk_blockNumber old \<or>
     (tk_blockNumber new = tk_blockNumber old \<and> tk_logIndex new > tk_logIndex old)"

definition upsert_token_rows :: "int \<Rightarrow> token_data \<Rightarrow> token_row list \<Rightarrow> token_row list" where
  "upsert_token_rows n t rows =
     (if tk_l2Address t \<in> (\<lambda>k. tk_l2Address (k_token k)) ` set rows
      then map (\<lambda>k. if tk_l2Address (k_token k) = tk_l2Address t \<and> token_newer t (k_token k)
                    then k\<lparr>k_token := t\<rparr> else k) rows
      else rows @ [\<lparr>k_token = t, k_number = n, k_usdPrice = None, k_liquidity = None, k_iconURL = None,
                     k_offChainDataUpdatedAt = None\<rparr>])"

definition TokenRepository_upsert :: "token_data \<Rightarrow> ('z db_scheme, unit) act" where
  "TokenRepository_upsert x s =
     (let t = token_columns x in
      if tk_symbol t \<noteq> [] \<and> tk_name t \<noteq> None \<and> has_block s (tk_blockNumber t) \<and> has_tx s (tk_transactionHash t)
      then (bump ''tokens'' (s\<lparr>tokens := upsert_token_rows (next_of s ''tokens'') t (tokens s)\<rparr>), Inr ())
      else (s, Inl db_error))"

definition getOffChainDataLastUpdatedAt :: "('z db_scheme, int option) act" where
  "getOffChainDataLastUpdatedAt = gets (\<lambda>s.
     map_option (\<lambda>k. the (k_offChainDataUpdatedAt k))
       (last_by (\<lambda>k. the (k_offChainDataUpdatedAt k)) (filter (\<lambda>k. k_offChainDataUpdatedAt k \<noteq> None) (tokens s))))"

definition getBridgedTokens :: "('z db_scheme, token_row list) act" where
  "getBridgedTokens = gets (\<lambda>s. filter (\<lambda>k. tk_l1Address (k_token k) \<noteq> None) (tokens s))"

record off_chain_data =
  oc_l1Address :: "string option"
  oc_l2Address :: "string option"
  oc_liquidity :: "rat option"
  oc_usdPrice :: "rat option"
  oc_iconURL :: "string option"

definition falsy :: "string option \<Rightarrow> bool" where
  "falsy v \<longleftrightarrow> v = None \<or> v = Some []"

text \<open>An undefined column of an \<open>update\<close> is left as it is.\<close>

definition updateTokenOffChainData :: "off_chain_data \<Rightarrow> int \<Rightarrow> ('z db_scheme, unit) act" where
  "updateTokenOffChainData d updatedAt =
     (if falsy (oc_l1Address d) \<and> falsy (oc_l2Address d) then throw (LibError (JObj [(''message'', JStr ''l1Address or l2Address must be provided'')]))
      else modify (\<lambda>s. s\<lparr>tokens := map (\<lambda>k.
        if (if falsy (oc_l1Address d) then hex_col (oc_l2Address d) = Some (tk_l2Address (k_token k))
            else tk_l1Address (k_token k) = hex_col (oc_l1Address d))
        then k\<lparr>k_liquidity := or_else (oc_liquidity d) (k_liquidity k),
               k_usdPrice := or_else (oc_usdPrice d) (k_usdPrice k),
               k_offChainDataUpdatedAt := Some updatedAt,
               k_iconURL := (if falsy (oc_iconURL d) then k_iconURL k else oc_iconURL d)\<rparr>
        else k) (tokens s)\<rparr>))"

section \<open>Integrity\<close>

text \<open>The keys of the tables.\<close>

definition keys_ok :: "'z db_scheme \<Rightarrow> bool" where
  "keys_ok s \<longleftrightarrow>
     distinct (map bk_number (blocks s)) \<and> distinct (map bk_hash (blocks s)) \<and>
     distinct (map tr_hash (transactions s)) \<and> distinct (map r_transactionHash (receipts s)) \<and>
     distinct (map bt_number (batches s)) \<and> distinct (map ad_address (addresses s)) \<and>
     distinct (map (\<lambda>k. tk_l2Address (k_token k)) (tokens s)) \<and>
     distinct (map (\<lambda>b. (bl_address b, bl_tokenAddress b, bl_blockNumber b)) (balances s))"

definition db_ok :: "'z db_scheme \<Rightarrow> bool" where
  "db_ok s \<longleftrightarrow> fk_ok s \<and> keys_ok s"

text \<open>
  A table that rows are inserted into, and the invariant its inserts keep: the contract under which
  every batched insert keeps it too.
\<close>

locale table =
  fixes ins :: "'r \<Rightarrow> 's \<Rightarrow> 's option" and I :: "'s \<Rightarrow> bool"
  assumes ins_keeps: "I s \<Longrightarrow> ins r s = Some t \<Longrightarrow> I t"
begin

lemma insert_all_keeps: "I s \<Longrightarrow> insert_all ins rs s = Some t \<Longrightarrow> I t"
  by (induction rs arbitrary: s) (auto simp: bind_eq_Some_conv intro: ins_keeps)

lemma insert_stmt_keeps [intro!]: "keeps I (insert_stmt ins rs)"
  by (auto simp: keeps_def insert_stmt_def insert_all_keeps split: option.splits)

lemma add_keeps [intro!]: "keeps I (add ins r)"
  by (auto simp: add_def)

lemma addMany_keeps [intro!]: "keeps I (addMany ins rs)"
  by (auto simp: addMany_def)

end

text \<open>Which statement changes which references.\<close>

lemma has_block_update [simp]:
  "has_block (s\<lparr>batches := x1\<rparr>) = has_block s"
  "has_block (s\<lparr>transactions := x2\<rparr>) = has_block s"
  "has_block (s\<lparr>receipts := x3\<rparr>) = has_block s"
  "has_block (s\<lparr>logs := x4\<rparr>) = has_block s"
  "has_block (s\<lparr>transfers := x5\<rparr>) = has_block s"
  "has_block (s\<lparr>address_transfers := x6\<rparr>) = has_block s"
  "has_block (s\<lparr>address_transactions := x7\<rparr>) = has_block s"
  "has_block (s\<lparr>addresses := x8\<rparr>) = has_block s"
  "has_block (s\<lparr>tokens := x9\<rparr>) = has_block s"
  "has_block (s\<lparr>balances := x10\<rparr>) = has_block s"
  "has_block (s\<lparr>counters := x11\<rparr>) = has_block s"
  "has_block (s\<lparr>counter_states := x12\<rparr>) = has_block s"
  "has_block (s\<lparr>delete_balances_from := x13\<rparr>) = has_block s"
  "has_block (s\<lparr>sequences := x14\<rparr>) = has_block s"
  by (simp_all add: has_block_def fun_eq_iff)

lemma has_tx_update [simp]:
  "has_tx (s\<lparr>blocks := x0\<rparr>) = has_tx s"
  "has_tx (s\<lparr>batches := x1\<rparr>) = has_tx s"
  "has_tx (s\<lparr>receipts := x3\<rparr>) = has_tx s"
  "has_tx (s\<lparr>logs := x4\<rparr>) = has_tx s"
  "has_tx (s\<lparr>transfers := x5\<rparr>) = has_tx s"
  "has_tx (s\<lparr>address_transfers := x6\<rparr>) = has_tx s"
  "has_tx (s\<lparr>address_transactions := x7\<rparr>) = has_tx s"
  "has_tx (s\<lparr>addresses := x8\<rparr>) = has_tx s"
  "has_tx (s\<lparr>tokens := x9\<rparr>) = has_tx s"
  "has_tx (s\<lparr>balances := x10\<rparr>) = has_tx s"
  "has_tx (s\<lparr>counters := x11\<rparr>) = has_tx s"
  "has_tx (s\<lparr>counter_states := x12\<rparr>) = has_tx s"
  "has_tx (s\<lparr>delete_balances_from := x13\<rparr>) = has_tx s"
  "has_tx (s\<lparr>sequences := x14\<rparr>) = has_tx s"
  by (simp_all add: has_tx_def fun_eq_iff)

lemma has_transfer_update [simp]:
  "has_transfer (s\<lparr>blocks := x0\<rparr>) = has_transfer s"
  "has_transfer (s\<lparr>batches := x1\<rparr>) = has_transfer s"
  "has_transfer (s\<lparr>transactions := x2\<rparr>) = has_transfer s"
  "has_transfer (s\<lparr>receipts := x3\<rparr>) = has_transfer s"
  "has_transfer (s\<lparr>logs := x4\<rparr>) = has_transfer s"
  "has_transfer (s\<lparr>address_transfers := x6\<rparr>) = has_transfer s"
  "has_transfer (s\<lparr>address_transactions := x7\<rparr>) = has_transfer s"
  "has_transfer (s\<lparr>addresses := x8\<rparr>) = has_transfer s"
  "has_transfer (s\<lparr>tokens := x9\<rparr>) = has_transfer s"
  "has_transfer (s\<lparr>balances := x10\<rparr>) = has_transfer s"
  "has_transfer (s\<lparr>counters := x11\<rparr>) = has_transfer s"
  "has_transfer (s\<lparr>counter_states := x12\<rparr>) = has_transfer s"
  "has_transfer (s\<lparr>delete_balances_from := x13\<rparr>) = has_transfer s"
  "has_transfer (s\<lparr>sequences := x14\<rparr>) = has_transfer s"
  by (simp_all add: has_transfer_def fun_eq_iff)

lemma has_grows [simp]:
  "has_block (s\<lparr>blocks := blocks s @ [b]\<rparr>) n \<longleftrightarrow> n = bk_number b \<or> has_block s n"
  "has_tx (s\<lparr>transactions := transactions s @ [t]\<rparr>) h \<longleftrightarrow> h = tr_hash t \<or> has_tx s h"
  "has_transfer (s\<lparr>transfers := transfers s @ [f]\<rparr>) m \<longleftrightarrow> m = f_number f \<or> has_transfer s m"
  by (auto simp: has_block_def has_tx_def has_transfer_def)

lemma opt_ref_mono: "opt_ref P v \<Longrightarrow> (\<And>a. P a \<Longrightarrow> Q a) \<Longrightarrow> opt_ref Q v"
  by (auto simp: opt_ref_def split: option.splits)

lemma opt_ref_or [intro]: "opt_ref P v \<Longrightarrow> opt_ref (\<lambda>a. a = b \<or> P a) v"
  by (erule opt_ref_mono) simp

text \<open>Adding a row that others refer to keeps the references.\<close>

lemma fk_more_blocks: "fk_ok s \<Longrightarrow> fk_ok (s\<lparr>blocks := blocks s @ [b]\<rparr>)"
  unfolding fk_ok_def by (simp add: opt_ref_or has_grows [abs_def])

lemma fk_more_transactions:
  "fk_ok s \<Longrightarrow> has_block s (tr_blockNumber t) \<Longrightarrow> fk_ok (s\<lparr>transactions := transactions s @ [t]\<rparr>)"
  unfolding fk_ok_def by (simp add: opt_ref_or has_grows [abs_def] ball_Un)

lemma fk_more_transfers:
  "fk_ok s \<Longrightarrow> has_block s (tf_blockNumber t) \<Longrightarrow> opt_ref (has_tx s) (tf_transactionHash t) \<Longrightarrow>
     fk_ok (s\<lparr>transfers := transfers s @ [t]\<rparr>)"
  unfolding fk_ok_def by (simp add: ball_Un)

lemma ok_bump [simp]: "fk_ok (bump t s) = fk_ok s" "keys_ok (bump t s) = keys_ok s"
  unfolding bump_def fk_ok_def keys_ok_def by simp_all

interpretation block_table: table ins_block db_ok
  by unfold_locales
     (auto simp: ins_block_def db_ok_def fk_more_blocks keys_ok_def has_block_def split: if_splits)

interpretation transaction_table: table ins_transaction db_ok
  by unfold_locales
     (clarsimp simp: ins_transaction_def db_ok_def Let_def fk_more_transactions transaction_info.defs
       transaction_row.defs split: if_splits, simp add: keys_ok_def has_tx_def)

interpretation receipt_table: table ins_receipt db_ok
  by unfold_locales
     (clarsimp simp: ins_receipt_def db_ok_def Let_def ball_Un split: if_splits, simp add: fk_ok_def keys_ok_def ball_Un)

interpretation log_table: table ins_log db_ok
  by unfold_locales
     (clarsimp simp: ins_log_def db_ok_def Let_def split: if_splits,
      simp add: fk_ok_def keys_ok_def ball_Un log_data.defs log_row.defs)

interpretation transfer_table: table ins_transfer db_ok
  by unfold_locales
     (clarsimp simp: ins_transfer_def db_ok_def Let_def fk_more_transfers transfer_data.defs transfer_row.defs
       split: if_splits, simp add: keys_ok_def)

interpretation address_transfer_table: table ins_address_transfer db_ok
  by unfold_locales
     (clarsimp simp: ins_address_transfer_def db_ok_def Let_def split: if_splits, simp add: fk_ok_def keys_ok_def ball_Un)

interpretation address_transaction_table: table ins_address_transaction db_ok
  by unfold_locales
     (clarsimp simp: ins_address_transaction_def db_ok_def Let_def split: if_splits, simp add: fk_ok_def keys_ok_def ball_Un)

interpretation balance_table: table ins_balance db_ok
  by unfold_locales
     (clarsimp simp: ins_balance_def db_ok_def Let_def split: if_splits, auto simp: fk_ok_def keys_ok_def ball_Un)

lemma map_key_update:
  assumes "\<And>x. x \<in> set xs \<Longrightarrow> key (f x) = key x"
  shows "map key (map f xs) = map key xs"
  using assms by (simp add: map_eq_conv)

lemma upsert_address_keys: "map ad_address (upsert_address_rows a rows) =
    map ad_address rows @ (if ad_address a \<in> ad_address ` set rows then [] else [ad_address a])"
  by (auto simp: upsert_address_rows_def)

lemma upsert_token_keys: "map (\<lambda>k. tk_l2Address (k_token k)) (upsert_token_rows n t rows) =
    map (\<lambda>k. tk_l2Address (k_token k)) rows @
    (if tk_l2Address t \<in> (\<lambda>k. tk_l2Address (k_token k)) ` set rows then [] else [tk_l2Address t])"
  by (auto simp: upsert_token_rows_def)

lemma upsert_address_members: "x \<in> set (upsert_address_rows a rows) \<Longrightarrow> x = a \<or> x \<in> set rows"
  by (auto simp: upsert_address_rows_def split: if_splits)

lemma upsert_token_members:
  "x \<in> set (upsert_token_rows n t rows) \<Longrightarrow> k_token x = t \<or> k_token x \<in> k_token ` set rows"
  by (auto simp: upsert_token_rows_def split: if_splits)

lemma address_upsert_keeps [intro!]: "keeps db_ok (AddressRepository_upsert a)"
proof (unfold keeps_def, intro allI impI)
  fix s :: "'a db_scheme" assume s: "db_ok s"
  let ?a = "address_columns a"
  let ?ok = "\<lambda>x. opt_ref (has_block s) (ad_createdInBlockNumber x) \<and> opt_ref (has_tx s) (ad_creatorTxHash x)"
  have keys: "distinct (map ad_address (upsert_address_rows ?a (addresses s)))"
    using s by (simp add: upsert_address_keys db_ok_def keys_ok_def)
  show "db_ok (fst (AddressRepository_upsert a s))"
  proof (cases "?ok ?a")
    case True
    have "\<forall>x \<in> set (addresses s). ?ok x" using s by (simp add: db_ok_def fk_ok_def)
    with True have refs: "\<forall>x \<in> set (upsert_address_rows ?a (addresses s)). ?ok x"
      by (intro ballI) (drule upsert_address_members, elim disjE, simp_all)
    have "db_ok (s\<lparr>addresses := upsert_address_rows ?a (addresses s)\<rparr>)"
      using s keys refs unfolding db_ok_def fk_ok_def keys_ok_def by simp
    with True show ?thesis by (simp only: AddressRepository_upsert_def Let_def if_True simp_thms fst_conv)
  next
    case False
    with s show ?thesis by (simp only: AddressRepository_upsert_def Let_def if_False fst_conv)
  qed
qed

lemma token_upsert_keeps [intro!]: "keeps db_ok (TokenRepository_upsert x)"
proof (unfold keeps_def, intro allI impI)
  fix s :: "'a db_scheme" assume s: "db_ok s"
  let ?t = "token_columns x" and ?n = "next_of s ''tokens''"
  have "distinct (map (\<lambda>k. tk_l2Address (k_token k)) (upsert_token_rows ?n ?t (tokens s)))"
    using s by (simp add: upsert_token_keys db_ok_def keys_ok_def)
  moreover have "\<forall>k \<in> set (upsert_token_rows ?n ?t (tokens s)). k_token k = ?t \<or> k_token k \<in> k_token ` set (tokens s)"
    by (auto dest: upsert_token_members)
  moreover have "\<forall>k \<in> set (tokens s). has_block s (tk_blockNumber (k_token k)) \<and> has_tx s (tk_transactionHash (k_token k))"
    using s by (simp add: db_ok_def fk_ok_def)
  ultimately have keys: "distinct (map (\<lambda>k. tk_l2Address (k_token k)) (upsert_token_rows ?n ?t (tokens s)))"
    and refs: "has_block s (tk_blockNumber ?t) \<Longrightarrow> has_tx s (tk_transactionHash ?t) \<Longrightarrow>
      \<forall>k \<in> set (upsert_token_rows ?n ?t (tokens s)). has_block s (tk_blockNumber (k_token k)) \<and> has_tx s (tk_transactionHash (k_token k))"
    by fastforce+
  show "db_ok (fst (TokenRepository_upsert x s))"
  proof (cases "tk_symbol ?t \<noteq> [] \<and> tk_name ?t \<noteq> None \<and> has_block s (tk_blockNumber ?t) \<and> has_tx s (tk_transactionHash ?t)")
    case True
    then have "\<forall>k \<in> set (upsert_token_rows ?n ?t (tokens s)). has_block s (tk_blockNumber (k_token k)) \<and> has_tx s (tk_transactionHash (k_token k))"
      using refs by blast
    then have "db_ok (s\<lparr>tokens := upsert_token_rows ?n ?t (tokens s)\<rparr>)"
      using s keys unfolding db_ok_def fk_ok_def keys_ok_def by simp
    with True show ?thesis by (simp add: TokenRepository_upsert_def Let_def db_ok_def)
  next
    case False
    with s show ?thesis by (simp only: TokenRepository_upsert_def Let_def if_False fst_conv)
  qed
qed

lemma batch_upsert_keeps [intro!]: "keeps db_ok (BatchRepository_upsert b)"
proof (unfold keeps_def, intro allI impI)
  fix s :: "'a db_scheme" assume s: "db_ok s"
  let ?b = "batch_columns b"
  have "map bt_number (map (\<lambda>old. if bt_number old = bt_number ?b then batch_update ?b old else old) (batches s)) =
      map bt_number (batches s)"
    by (rule map_key_update) (simp add: batch_update_def)
  with s show "db_ok (fst (BatchRepository_upsert b s))"
    by (simp add: BatchRepository_upsert_def db_ok_def Let_def del: map_map) (simp add: fk_ok_def keys_ok_def del: map_map)
qed

lemma block_delete_keeps [intro!]: "keeps db_ok (BlockRepository_delete wher)"
  by (auto simp: keeps_def BlockRepository_delete_def db_ok_def keys_ok_def cascade_def Let_def distinct_map_filter)

lemma batch_delete_keeps [intro!]: "keeps db_ok (BatchRepository_delete wher)"
  by (auto simp: keeps_def BatchRepository_delete_def act_simps db_ok_def fk_ok_def keys_ok_def distinct_map_filter)

lemma block_add_keeps [intro!]: "keeps db_ok (BlockRepository_add b d)"
  by (auto simp: BlockRepository_add_def)

lemma transaction_add_keeps [intro!]: "keeps db_ok (TransactionRepository_add t)"
  by (auto simp: TransactionRepository_add_def)

lemma transfer_addMany_keeps [intro!]: "keeps db_ok (TransferRepository_addMany ts)"
  by (auto simp: TransferRepository_addMany_def)

section \<open>Versioned rows\<close>

text \<open>
  Blocks are processed concurrently, so the upserts of one contract or token arrive in any order. The
  contract of the two scripts: an entry is created, replaced by a newer one, or left alone.
\<close>

locale versioned_upsert =
  fixes upsert :: "'x \<Rightarrow> 'r list \<Rightarrow> 'r list"
    and datum :: "'x \<Rightarrow> 'd"
    and content_of :: "'r \<Rightarrow> 'd"
    and key :: "'d \<Rightarrow> 'k"
    and newer :: "'d \<Rightarrow> 'd \<Rightarrow> bool"
    and valid :: "'d \<Rightarrow> bool"
    and entry_of :: "'r list \<Rightarrow> 'k \<Rightarrow> 'd option"
  assumes upsert_entry: "entry_of (upsert x rows) k =
      (if k = key (datum x)
       then Some (case entry_of rows k of None \<Rightarrow> datum x | Some e \<Rightarrow> if newer (datum x) e then datum x else e)
       else entry_of rows k)"
    and newer_trans: "valid a \<Longrightarrow> valid b \<Longrightarrow> valid c \<Longrightarrow> newer a b \<Longrightarrow> newer b c \<Longrightarrow> newer a c"
    and newer_asym: "valid a \<Longrightarrow> valid b \<Longrightarrow> newer a b \<Longrightarrow> \<not> newer b a"
begin

text \<open>No two different candidates for an entry have the same version.\<close>

definition comparable :: "'d set \<Rightarrow> bool" where
  "comparable C \<longleftrightarrow> (\<forall>d \<in> C. valid d) \<and>
     (\<forall>d \<in> C. \<forall>e \<in> C. key d = key e \<longrightarrow> d = e \<or> newer d e \<or> newer e d)"

definition best :: "'d set \<Rightarrow> 'd \<Rightarrow> bool" where
  "best C e \<longleftrightarrow> e \<in> C \<and> (\<forall>d \<in> C. d = e \<or> newer e d)"

definition settled :: "'d set \<Rightarrow> 'd option \<Rightarrow> bool" where
  "settled C v \<longleftrightarrow> (case v of None \<Rightarrow> C = {} | Some e \<Rightarrow> best C e)"

lemma best_unique: "\<forall>d \<in> C. valid d \<Longrightarrow> best C a \<Longrightarrow> best C b \<Longrightarrow> a = b"
  unfolding best_def by (metis newer_asym)

lemma settled_unique: "\<forall>d \<in> C. valid d \<Longrightarrow> settled C v \<Longrightarrow> settled C w \<Longrightarrow> v = w"
  by (cases v; cases w) (auto simp: settled_def best_def [of _ undefined] intro: best_unique, auto simp: best_def)

lemma settled_set_option: "settled (set_option v) v"
  by (auto simp: settled_def best_def split: option.splits)

definition candidates :: "'x list \<Rightarrow> 'k \<Rightarrow> 'd set" where
  "candidates xs k = {d \<in> datum ` set xs. key d = k}"

lemma settled_upsert:
  assumes valid: "\<forall>d \<in> insert (datum x) C. valid d"
    and cmp: "\<forall>d \<in> C. datum x = d \<or> newer (datum x) d \<or> newer d (datum x)"
    and key: "key (datum x) = k" and start: "settled C (entry_of rows k)"
  shows "settled (insert (datum x) C) (entry_of (upsert x rows) k)"
proof (cases "entry_of rows k")
  case None
  with key start show ?thesis by (simp add: upsert_entry settled_def best_def)
next
  case (Some e)
  with start have e: "e \<in> C" "\<forall>d \<in> C. d = e \<or> newer e d" by (auto simp: settled_def best_def)
  have up: "newer (datum x) e \<Longrightarrow> d \<in> C \<Longrightarrow> newer (datum x) d" for d
    using e newer_trans [of "datum x" e d] valid by (metis insert_iff)
  show ?thesis
  proof (cases "newer (datum x) e")
    case True
    with up Some key show ?thesis by (simp add: upsert_entry settled_def best_def)
  next
    case False
    with e cmp Some key show ?thesis by (auto simp: upsert_entry settled_def best_def)
  qed
qed

lemma fold_settled:
  assumes "comparable (datum ` set xs \<union> C)" "\<forall>d \<in> C. key d = k" "settled C (entry_of rows k)"
  shows "settled (C \<union> candidates xs k) (entry_of (fold upsert xs rows) k)"
  using assms
proof (induction xs arbitrary: rows C)
  case Nil
  then show ?case by (simp add: candidates_def)
next
  case (Cons x xs)
  let ?C = "if key (datum x) = k then insert (datum x) C else C"
  have "settled ?C (entry_of (upsert x rows) k)"
  proof (cases "key (datum x) = k")
    case True
    with Cons.prems show ?thesis by (simp add: comparable_def settled_upsert)
  next
    case False
    with Cons.prems show ?thesis by (simp add: upsert_entry)
  qed
  moreover have "comparable (datum ` set xs \<union> ?C)" using Cons.prems(1) by (auto simp: comparable_def)
  moreover have "\<forall>d \<in> ?C. key d = k" using Cons.prems(2) by simp
  ultimately have "settled (?C \<union> candidates xs k) (entry_of (fold upsert xs (upsert x rows)) k)"
    by (intro Cons.IH)
  moreover have "?C \<union> candidates xs k = C \<union> candidates (x # xs) k" by (auto simp: candidates_def)
  ultimately show ?case by simp
qed

lemma order_irrelevant:
  assumes "set xs = set ys" "comparable (datum ` set xs \<union> set_option (entry_of rows k))"
    and "\<forall>d \<in> set_option (entry_of rows k). key d = k"
  shows "entry_of (fold upsert xs rows) k = entry_of (fold upsert ys rows) k"
proof -
  let ?C = "set_option (entry_of rows k)"
  have "candidates xs k = candidates ys k" by (simp add: candidates_def assms(1))
  moreover have "settled (?C \<union> candidates zs k) (entry_of (fold upsert zs rows) k)" if "set zs = set xs" for zs
    using assms(2,3) that by (intro fold_settled settled_set_option) simp_all
  moreover have "\<forall>d \<in> ?C \<union> candidates xs k. valid d"
    using assms(2) by (auto simp: comparable_def candidates_def)
  ultimately show ?thesis using settled_unique assms(1) by metis
qed

end

definition address_entry :: "address_row list \<Rightarrow> string \<Rightarrow> address_row option" where
  "address_entry rows k = find (\<lambda>a. ad_address a = k) rows"

definition token_entry :: "token_row list \<Rightarrow> string \<Rightarrow> token_data option" where
  "token_entry rows k = map_option k_token (find (\<lambda>r. tk_l2Address (k_token r) = k) rows)"

lemma find_map_guarded:
  "find (\<lambda>r. key r = k) (map (\<lambda>r. if key r = k' \<and> c r then f r else r) rows) =
     (if k = k' then map_option (\<lambda>r. if c r then f r else r) (find (\<lambda>r. key r = k) rows)
      else find (\<lambda>r. key r = k) rows)"
  if "\<And>r. key r = k' \<Longrightarrow> key (f r) = k'"
  using that by (induction rows) auto

lemma find_append_one: "find P (xs @ [y]) = (case find P xs of None \<Rightarrow> if P y then Some y else None | Some x \<Rightarrow> Some x)"
  by (induction xs) auto

lemma find_key_None: "k \<notin> key ` set rows \<Longrightarrow> find (\<lambda>r. key r = k) rows = None"
  by (auto simp: find_None_iff)

lemma find_key_Some: "k \<in> key ` set rows \<Longrightarrow> \<exists>r. find (\<lambda>r. key r = k) rows = Some r"
  by (cases "find (\<lambda>r. key r = k) rows") (auto simp: find_None_iff)

interpretation address_versions: versioned_upsert upsert_address_rows "\<lambda>a. a" "\<lambda>a. a" ad_address address_newer
    "\<lambda>a. ad_createdInBlockNumber a \<noteq> None \<and> ad_createdInLogIndex a \<noteq> None" address_entry
proof
  fix x rows k
  show "address_entry (upsert_address_rows x rows) k =
    (if k = ad_address x
     then Some (case address_entry rows k of None \<Rightarrow> x | Some e \<Rightarrow> if address_newer x e then x else e)
     else address_entry rows k)"
  proof (cases "ad_address x \<in> ad_address ` set rows")
    case True
    then show ?thesis
      using find_map_guarded [of ad_address "ad_address x" "\<lambda>_. x" k "\<lambda>r. address_newer x r" rows]
        find_key_Some [OF True]
      by (auto simp: upsert_address_rows_def address_entry_def)
  next
    case False
    then show ?thesis
      by (auto simp: upsert_address_rows_def address_entry_def find_append_one find_key_None split: option.splits)
  qed
qed (auto simp: address_newer_def split: option.splits)

interpretation token_versions: versioned_upsert "\<lambda>(n, t). upsert_token_rows n t" snd k_token tk_l2Address token_newer
    "\<lambda>_. True" token_entry
proof
  fix x :: "int \<times> token_data" and rows k
  obtain n t where x: "x = (n, t)" by force
  show "token_entry ((case x of (n, t) \<Rightarrow> upsert_token_rows n t) rows) k =
    (if k = tk_l2Address (snd x)
     then Some (case token_entry rows k of None \<Rightarrow> snd x | Some e \<Rightarrow> if token_newer (snd x) e then snd x else e)
     else token_entry rows k)"
  proof (cases "tk_l2Address t \<in> (\<lambda>k. tk_l2Address (k_token k)) ` set rows")
    case True
    obtain r where r: "find (\<lambda>r. tk_l2Address (k_token r) = tk_l2Address t) rows = Some r"
      using find_key_Some [OF True] by blast
    have "find (\<lambda>r. tk_l2Address (k_token r) = k) (upsert_token_rows n t rows) =
        (if k = tk_l2Address t then map_option (\<lambda>r. if token_newer t (k_token r) then r\<lparr>k_token := t\<rparr> else r)
           (find (\<lambda>r. tk_l2Address (k_token r) = k) rows)
         else find (\<lambda>r. tk_l2Address (k_token r) = k) rows)"
      using find_map_guarded [of "\<lambda>r. tk_l2Address (k_token r)" "tk_l2Address t" "\<lambda>r. r\<lparr>k_token := t\<rparr>" k
          "\<lambda>r. token_newer t (k_token r)" rows]
      unfolding upsert_token_rows_def if_P [OF True] by simp
    with r show ?thesis by (simp add: x token_entry_def)
  next
    case False
    then show ?thesis
      by (auto simp: x upsert_token_rows_def token_entry_def find_append_one find_key_None split: option.splits)
  qed
qed (auto simp: token_newer_def)

text \<open>
  The upserts of tokens may run in any order, as the concurrent processing of blocks makes them:
  when different data for one token have different positions in the chain, every order leaves the
  same on-chain data in the token's row.
\<close>

theorem token_upserts_any_order:
  assumes "set xs = set ys"
    and "\<forall>d \<in> snd ` set xs \<union> set_option (token_entry rows k).
         \<forall>e \<in> snd ` set xs \<union> set_option (token_entry rows k).
           tk_l2Address d = tk_l2Address e \<longrightarrow> d \<noteq> e \<longrightarrow>
           (tk_blockNumber d, tk_logIndex d) \<noteq> (tk_blockNumber e, tk_logIndex e)"
  shows "token_entry (fold (\<lambda>(n, t). upsert_token_rows n t) xs rows) k =
    token_entry (fold (\<lambda>(n, t). upsert_token_rows n t) ys rows) k"
proof (rule token_versions.order_irrelevant [OF assms(1)])
  show "token_versions.comparable (snd ` set xs \<union> set_option (token_entry rows k))"
    unfolding token_versions.comparable_def
  proof (intro conjI ballI impI)
    fix d e assume "d \<in> snd ` set xs \<union> set_option (token_entry rows k)"
      "e \<in> snd ` set xs \<union> set_option (token_entry rows k)" "tk_l2Address d = tk_l2Address e"
    with assms(2) have "d = e \<or> (tk_blockNumber d, tk_logIndex d) \<noteq> (tk_blockNumber e, tk_logIndex e)" by blast
    then show "d = e \<or> token_newer d e \<or> token_newer e d" by (auto simp: token_newer_def)
  qed simp
  show "\<forall>d \<in> set_option (token_entry rows k). tk_l2Address d = k"
    by (auto simp: token_entry_def find_Some_iff)
qed

definition demo_token :: "int \<Rightarrow> token_data" where
  "demo_token n = \<lparr>tk_l2Address = ''0x0a'', tk_l1Address = None, tk_symbol = ''T'', tk_name = None,
     tk_decimals = 18, tk_blockNumber = n, tk_transactionHash = ''0x0b'', tk_logIndex = 0\<rparr>"

theorem token_upserts_any_order_witness:
  "token_entry (fold (\<lambda>(n, t). upsert_token_rows n t) [(1, demo_token 5), (2, demo_token 7)] []) ''0x0a'' =
   token_entry (fold (\<lambda>(n, t). upsert_token_rows n t) [(2, demo_token 7), (1, demo_token 5)] []) ''0x0a''"
  by (rule token_upserts_any_order) (auto simp: token_entry_def demo_token_def)

lemma contract_upserts_any_order:
  assumes "set xs = set ys"
    and "\<forall>d \<in> set xs \<union> set_option (address_entry rows k). ad_createdInBlockNumber d \<noteq> None \<and> ad_createdInLogIndex d \<noteq> None"
    and "\<forall>d \<in> set xs \<union> set_option (address_entry rows k). \<forall>e \<in> set xs \<union> set_option (address_entry rows k).
           ad_address d = ad_address e \<longrightarrow> d \<noteq> e \<longrightarrow>
           (ad_createdInBlockNumber d, ad_createdInLogIndex d) \<noteq> (ad_createdInBlockNumber e, ad_createdInLogIndex e)"
  shows "address_entry (fold upsert_address_rows xs rows) k = address_entry (fold upsert_address_rows ys rows) k"
proof (rule address_versions.order_irrelevant [OF assms(1)])
  show "address_versions.comparable ((\<lambda>a. a) ` set xs \<union> set_option (address_entry rows k))"
    unfolding address_versions.comparable_def
  proof (intro conjI ballI impI)
    fix d e assume de: "d \<in> (\<lambda>a. a) ` set xs \<union> set_option (address_entry rows k)"
      "e \<in> (\<lambda>a. a) ` set xs \<union> set_option (address_entry rows k)" "ad_address d = ad_address e"
    with assms(3) have "d = e \<or> (ad_createdInBlockNumber d, ad_createdInLogIndex d) \<noteq>
        (ad_createdInBlockNumber e, ad_createdInLogIndex e)" by simp blast
    moreover have "ad_createdInBlockNumber d \<noteq> None" "ad_createdInLogIndex d \<noteq> None"
      "ad_createdInBlockNumber e \<noteq> None" "ad_createdInLogIndex e \<noteq> None"
      using assms(2) de by auto
    ultimately show "d = e \<or> address_newer d e \<or> address_newer e d" by (auto simp: address_newer_def)
  qed (use assms(2) in auto)
  show "\<forall>d \<in> set_option (address_entry rows k). ad_address d = k"
    by (auto simp: address_entry_def find_Some_iff)
qed

section \<open>The rows behind a transfer\<close>

definition transfer_row_of :: "transfer_data \<times> int \<Rightarrow> transfer_row" where
  "transfer_row_of = (\<lambda>(t, n). transfer_data.extend (transfer_columns t) (transfer_row.fields n))"

lemma transfer_row_number [simp]: "f_number (transfer_row_of (t, n)) = n"
  by (simp add: transfer_row_of_def transfer_data.defs transfer_row.defs)

lemma ins_transfer_result:
  "ins_transfer r s = Some t \<Longrightarrow>
     transfers t = transfers s @ [transfer_row_of (r, next_of s ''transfers'')] \<and>
     next_of t ''transfers'' = next_of s ''transfers'' + 1 \<and> address_transfers t = address_transfers s"
  by (auto simp: ins_transfer_def Let_def bump_def next_of_def transfer_row_of_def split: if_splits)

definition numbered :: "'a list \<Rightarrow> int \<Rightarrow> ('a \<times> int) list" where
  "numbered xs n = zip xs (map (\<lambda>i. n + int i) [0..<length xs])"

lemma numbered_Cons: "numbered (x # xs) n = (x, n) # numbered xs (n + 1)"
proof -
  have "map (\<lambda>i. n + int i) [0..<length (x # xs)] = n # map (\<lambda>i. (n + 1) + int i) [0..<length xs]"
    by (simp add: upt_conv_Cons map_Suc_upt [symmetric] add.commute add.left_commute comp_def del: upt_Suc map_Suc_upt)
  then show ?thesis by (simp add: numbered_def)
qed

lemma insert_transfers_result:
  "insert_all ins_transfer rs s = Some t \<Longrightarrow>
     transfers t = transfers s @ map transfer_row_of (numbered rs (next_of s ''transfers'')) \<and>
     address_transfers t = address_transfers s"
proof (induction rs arbitrary: s)
  case Nil
  then show ?case by (simp add: numbered_def)
next
  case (Cons r rs)
  then obtain u where u: "ins_transfer r s = Some u" "insert_all ins_transfer rs u = Some t"
    by (auto simp: bind_eq_Some_conv)
  from ins_transfer_result [OF u(1)] Cons.IH [OF u(2)] show ?case by (simp add: numbered_Cons)
qed

lemma insert_address_transfers_result:
  "insert_all ins_address_transfer as s = Some t \<Longrightarrow>
     transfers t = transfers s \<and>
     (\<exists>new. address_transfers t = address_transfers s @ new \<and>
        map (\<lambda>a. (at_transferNumber a, at_address a)) new = map (\<lambda>a. (at_transferNumber a, hexc (at_address a))) as)"
proof (induction as arbitrary: s)
  case Nil
  then show ?case by simp
next
  case (Cons a as)
  then obtain u where u: "ins_address_transfer a s = Some u" "insert_all ins_address_transfer as u = Some t"
    by (auto simp: bind_eq_Some_conv)
  from u(1) obtain b where "address_transfers u = address_transfers s @ [b]" "transfers u = transfers s"
      "at_transferNumber b = at_transferNumber a" "at_address b = hexc (at_address a)"
    by (auto simp: ins_address_transfer_def bump_def split: if_splits)
  with Cons.IH [OF u(2)] show ?case by (auto simp: exI [of _ "b # _"])
qed

lemma addMany_returned: "addMany ins rs s = (t, Inr ()) \<Longrightarrow> insert_all ins rs s = Some t"
  using for_each_insert_stmt [of ins "batches_of BATCH_SIZE rs" s]
  by (cases "rs = []") (auto simp: addMany_def batches_of_concat act_simps)

text \<open>
  Saving transfers adds one row for each, in order, and for each row exactly the address rows of
  its sender and its recipient (one row when they are the same), tied to it by the generated number.
\<close>

theorem transfer_address_rows:
  assumes "TransferRepository_addMany records s = (t, Inr ())"
  shows "\<exists>new new'. transfers t = transfers s @ new \<and> address_transfers t = address_transfers s @ new' \<and>
    map f_number new = map (\<lambda>i. next_of s ''transfers'' + int i) [0..<length records] \<and>
    map (\<lambda>a. (at_transferNumber a, at_address a)) new' =
      concat (map (\<lambda>(r, n). (n, hexc (tf_from r)) # (if tf_from r = tf_to r then [] else [(n, hexc (tf_to r))]))
        (zip records (map f_number new)))"
proof -
  let ?n = "next_of s ''transfers''"
  let ?as = "concat (map address_transfers_of (numbered records ?n))"
  from assms obtain u where u: "addMany ins_transfer records s = (u, Inr ())" "addMany ins_address_transfer ?as u = (t, Inr ())"
    by (auto simp: TransferRepository_addMany_def numbered_def elim!: bind_returned)
  note a = insert_transfers_result [OF addMany_returned [OF u(1)]]
  from insert_address_transfers_result [OF addMany_returned [OF u(2)]] obtain new where
    b: "transfers t = transfers u" "address_transfers t = address_transfers u @ new"
      "map (\<lambda>a. (at_transferNumber a, at_address a)) new = map (\<lambda>a. (at_transferNumber a, hexc (at_address a))) ?as"
    by blast
  have nums: "map f_number (map transfer_row_of (numbered records ?n)) = map (\<lambda>i. ?n + int i) [0..<length records]"
  proof -
    have "f_number \<circ> transfer_row_of = snd" by (auto simp: fun_eq_iff)
    then show ?thesis by (simp add: numbered_def)
  qed
  have "map (\<lambda>a. (at_transferNumber a, hexc (at_address a))) ?as =
      concat (map (\<lambda>(r, n). (n, hexc (tf_from r)) # (if tf_from r = tf_to r then [] else [(n, hexc (tf_to r))]))
        (numbered records ?n))"
    by (simp add: map_concat comp_def case_prod_unfold address_transfers_of_def address_transfer_of_def if_distrib cong: if_cong)
  with a b nums show ?thesis
    by (intro exI [of _ "map transfer_row_of (numbered records ?n)"] exI [of _ new]) (simp add: numbered_def)
qed

definition empty_db :: db where
  "empty_db = \<lparr>blocks = [], batches = [], transactions = [], receipts = [], logs = [], transfers = [],
     address_transfers = [], address_transactions = [], addresses = [], tokens = [], balances = [],
     counters = [], counter_states = [], delete_balances_from = 0, sequences = (\<lambda>_. 1)\<rparr>"

definition demo_block :: "int \<Rightarrow> string \<Rightarrow> string \<Rightarrow> block_dto" where
  "demo_block n h p = \<lparr>bk_number = n, bk_hash = h, bk_parentHash = Some p, bk_nonce = ''0x00'', bk_difficulty = 0,
     bk_gasLimit = ''1'', bk_gasUsed = ''1'', bk_baseFeePerGas = ''1'', bk_miner = ''0x00'', bk_extraData = ''0x''\<rparr>"

definition demo_details :: block_details where
  "demo_details = \<lparr>bd_timestamp = 1, bd_l1BatchNumber = 0, bd_l1TxCount = 0, bd_l2TxCount = 0\<rparr>"

definition demo_db :: db where
  "demo_db = empty_db\<lparr>blocks := [block_row_of (demo_block 1 ''0x01'' ''0x00'') demo_details]\<rparr>"

definition demo_transfer :: "string \<Rightarrow> transfer_data" where
  "demo_transfer receiver = \<lparr>tf_from = ''0x0A'', tf_to = receiver, tf_blockNumber = 1, tf_transactionHash = None,
     tf_transactionIndex = 0, tf_timestamp = 0, tf_amount = Some ''5'', tf_tokenAddress = None,
     tf_type = Deposit, tf_tokenType = BaseToken, tf_isFeeOrRefund = False, tf_logIndex = 0,
     tf_fields = None, tf_isInternal = False\<rparr>"

theorem transfer_address_rows_witness:
  "map at_address (address_transfers (fst (TransferRepository_addMany [demo_transfer ''0x0B'', demo_transfer ''0x0A''] demo_db)))
     = [''0x0a'', ''0x0b'', ''0x0a'']"
proof -
  let ?rs = "[demo_transfer ''0x0B'', demo_transfer ''0x0A'']"
  have "snd (TransferRepository_addMany ?rs demo_db) = Inr ()" by code_simp
  then have "TransferRepository_addMany ?rs demo_db = (fst (TransferRepository_addMany ?rs demo_db), Inr ())"
    by (simp add: prod_eq_iff)
  from transfer_address_rows [OF this] obtain new :: "transfer_row list" and new' where *:
    "address_transfers (fst (TransferRepository_addMany ?rs demo_db)) = address_transfers demo_db @ new'"
    "map f_number new = map (\<lambda>i. next_of demo_db ''transfers'' + int i) [0..<length ?rs]"
    "map (\<lambda>a. (at_transferNumber a, at_address a)) new' =
      concat (map (\<lambda>(r, n). (n, hexc (tf_from r)) # (if tf_from r = tf_to r then [] else [(n, hexc (tf_to r))]))
        (zip ?rs (map f_number new)))"
    by blast
  have "map snd (map (\<lambda>a. (at_transferNumber a, at_address a)) new') = [''0x0a'', ''0x0b'', ''0x0a'']"
    unfolding *(3) *(2) by code_simp
  moreover have "address_transfers demo_db = []" by code_simp
  ultimately show ?thesis using *(1) by (simp add: comp_def)
qed

end
