(* ===== verification/Worker_Counters.thy ===== *)
theory Worker_Counters
  imports Worker_Repositories "HOL-Library.List_Lexorder" "HOL-Library.Char_ord" "HOL-Library.Multiset"
begin

text \<open>
  The counters of packages/worker/src/counter and repositories/counter.repository.ts: how many
  transactions (transfers) match each combination of field values. The counters are kept up to date
  in batches of new records and taken back when blocks are reverted.
\<close>

section \<open>Query strings: counter.utils.ts\<close>

text \<open>
  A field of a selected record: \<open>record[field]\<close>. Building a query string prints it as text.
\<close>

datatype field_value = FUndefined | FNull | FStr string | FNum int

fun field_text :: "field_value \<Rightarrow> string" where
  "field_text FUndefined = ''undefined''"
| "field_text FNull = ''null''"
| "field_text (FStr s) = s"
| "field_text (FNum n) = show_int n"

text \<open>\<open>URLSearchParams.toString\<close>: \<open>application/x-www-form-urlencoded\<close>.\<close>

definition url_plain :: "char \<Rightarrow> bool" where
  "url_plain c \<longleftrightarrow> is_digit c \<or> (65 \<le> code c \<and> code c \<le> 90) \<or> (97 \<le> code c \<and> code c \<le> 122) \<or>
     c \<in> set ''*-._''"

definition url_char :: "char \<Rightarrow> string" where
  "url_char c = (if url_plain c then [c] else if c = CHR '' '' then ''+''
     else [CHR ''%'', hex_upper (code c div 16), hex_upper (code c mod 16)])"

definition url_encode :: "string \<Rightarrow> string" where
  "url_encode s = concat (map url_char s)"

type_synonym counter_query = "(string \<times> field_value) list"

definition getQueryString :: "counter_query \<Rightarrow> string" where
  "getQueryString query =
     join_with ''&'' (map (\<lambda>(k, v). url_encode k @ ''='' @ url_encode (field_text v)) (sort_key fst query))"

section \<open>Counting a batch of records: counter.utils.ts\<close>

record countable =
  cn_number :: int
  cn_blockNumber :: int
  cn_fields :: "string \<Rightarrow> field_value"

type_synonym criteria = "string list"

fun put_pair :: "'k \<Rightarrow> 'v \<Rightarrow> ('k \<times> 'v) list \<Rightarrow> ('k \<times> 'v) list" where
  "put_pair k v [] = [(k, v)]"
| "put_pair k v ((k', v') # kvs) = (if k = k' then (k, v) # kvs else (k', v') # put_pair k v kvs)"

text \<open>
  The inner loop: the values of the fields of one condition (\<open>from|to\<close>), each taken once; every
  counter found so far is extended by each value.
\<close>

fun extend_counters ::
  "string \<Rightarrow> countable \<Rightarrow> counter_query list \<Rightarrow> field_value list \<Rightarrow> string list \<Rightarrow> counter_query list" where
  "extend_counters cond rec toExtend seen [] = []"
| "extend_counters cond rec toExtend seen (f # fs) =
     (let v = cn_fields rec f in
      if v \<in> set seen then extend_counters cond rec toExtend seen fs
      else (if toExtend = [] then [[(cond, v)]] else []) @ map (put_pair cond v) toExtend @
        extend_counters cond rec toExtend (v # seen) fs)"

definition record_counters :: "criteria \<Rightarrow> countable \<Rightarrow> counter_query list" where
  "record_counters crit rec =
     foldl (\<lambda>counters cond. extend_counters cond rec counters [] (split_on CHR ''|'' cond)) [] crit"

fun count_up :: "string \<Rightarrow> (string \<times> int) list \<Rightarrow> (string \<times> int) list" where
  "count_up q [] = [(q, 1)]"
| "count_up q ((k, n) # m) = (if k = q then (k, n + 1) # m else (k, n) # count_up q m)"

definition counters_map :: "countable list \<Rightarrow> criteria list \<Rightarrow> (string \<times> int) list" where
  "counters_map records criteriaList =
     fold (\<lambda>crit. fold (\<lambda>rec. fold (\<lambda>c. count_up (getQueryString c)) (record_counters crit rec)) records)
       criteriaList []"

definition calculateCounters :: "string \<Rightarrow> countable list \<Rightarrow> criteria list \<Rightarrow> counter_row list" where
  "calculateCounters tableName records criteriaList =
     \<lparr>c_tableName = tableName, c_queryString = getQueryString [], c_count = int (length records)\<rparr> #
     map (\<lambda>(q, n). \<lparr>c_tableName = tableName, c_queryString = q, c_count = n\<rparr>) (counters_map records criteriaList)"

subsection \<open>What it counts\<close>

text \<open>The reference: how often a query string arises from a record, summed over the records.\<close>

definition record_count :: "criteria list \<Rightarrow> string \<Rightarrow> countable \<Rightarrow> int" where
  "record_count criteriaList q rec = (if q = [] then 1 else 0) +
     int (sum_list (map (\<lambda>crit. count_list (map getQueryString (record_counters crit rec)) q) criteriaList))"

definition ref_count :: "criteria list \<Rightarrow> string \<Rightarrow> countable list \<Rightarrow> int" where
  "ref_count criteriaList q records = sum_list (map (record_count criteriaList q) records)"

definition count_in :: "counter_row list \<Rightarrow> string \<Rightarrow> int" where
  "count_in rows q = sum_list (map c_count (filter (\<lambda>r. c_queryString r = q) rows))"

definition map_count :: "(string \<times> int) list \<Rightarrow> string \<Rightarrow> int" where
  "map_count m q = sum_list (map snd (filter (\<lambda>p. fst p = q) m))"

lemma count_up_count [simp]: "map_count (count_up q m) p = map_count m p + (if p = q then 1 else 0)"
  by (induction q m rule: count_up.induct) (auto simp: map_count_def)

lemma fold_count_up:
  "map_count (fold (\<lambda>c. count_up (f c)) cs m) p = map_count m p + int (count_list (map f cs) p)"
  by (induction cs arbitrary: m) auto

lemma fold_records_count:
  "map_count (fold (\<lambda>rec. fold (\<lambda>c. count_up (f c)) (g rec)) recs m) p =
     map_count m p + int (sum_list (map (\<lambda>rec. count_list (map f (g rec)) p) recs))"
  by (induction recs arbitrary: m) (auto simp: fold_count_up)

lemma counters_map_count:
  "map_count (counters_map recs crits) q =
     int (sum_list (map (\<lambda>crit. sum_list (map (\<lambda>rec. count_list (map getQueryString (record_counters crit rec)) q) recs)) crits))"
proof -
  have "map_count (fold (\<lambda>crit. fold (\<lambda>rec. fold (\<lambda>c. count_up (getQueryString c)) (record_counters crit rec)) recs) crits m) q =
      map_count m q +
      int (sum_list (map (\<lambda>crit. sum_list (map (\<lambda>rec. count_list (map getQueryString (record_counters crit rec)) q) recs)) crits))" for m
    by (induction crits arbitrary: m) (auto simp: fold_records_count)
  then show ?thesis by (simp add: counters_map_def map_count_def)
qed

lemma sum_list_swap:
  "sum_list (map (\<lambda>x. sum_list (map (\<lambda>y. f x y) ys)) xs) = (sum_list (map (\<lambda>y. sum_list (map (\<lambda>x. f x y) xs)) ys) :: nat)"
  by (induction xs) (simp_all add: sum_list_addf)

lemma query_string_empty [simp]: "getQueryString [] = []"
  by (simp add: getQueryString_def)

lemma calculateCounters_count:
  "count_in (calculateCounters tn recs crits) q = ref_count crits q recs"
proof -
  have rows: "sum_list (map c_count (filter (\<lambda>r. c_queryString r = q)
      (map (\<lambda>(q, n). \<lparr>c_tableName = tn, c_queryString = q, c_count = n\<rparr>) m))) = map_count m q" for m q
    by (induction m) (auto simp: map_count_def)
  have "ref_count crits q recs = (if q = [] then int (length recs) else 0) +
      int (sum_list (map (\<lambda>rec. sum_list (map (\<lambda>crit. count_list (map getQueryString (record_counters crit rec)) q) crits)) recs))"
    unfolding ref_count_def record_count_def by (induction recs) auto
  moreover have "sum_list (map (\<lambda>crit. sum_list (map (\<lambda>rec. count_list (map getQueryString (record_counters crit rec)) q) recs)) crits) =
      sum_list (map (\<lambda>rec. sum_list (map (\<lambda>crit. count_list (map getQueryString (record_counters crit rec)) q) crits)) recs)"
    by (rule sum_list_swap)
  ultimately show ?thesis
    by (cases "q = []") (simp_all add: count_in_def calculateCounters_def rows counters_map_count)
qed

lemma ref_count_append [simp]: "ref_count c q (xs @ ys) = ref_count c q xs + ref_count c q ys"
  by (simp add: ref_count_def)

lemma ref_count_nonneg: "0 \<le> ref_count c q recs"
  unfolding ref_count_def by (intro sum_list_nonneg) (auto simp: record_count_def)

lemma ref_count_partition: "ref_count c q (filter P xs) + ref_count c q (filter (\<lambda>x. \<not> P x) xs) = ref_count c q xs"
  by (induction xs) (auto simp: ref_count_def)

lemma ref_count_mset: "mset xs = mset ys \<Longrightarrow> ref_count c q xs = ref_count c q ys"
  unfolding ref_count_def by (metis mset_map sum_mset_sum_list)

section \<open>counter.repository.ts\<close>

definition getLastProcessedRecordNumber :: "string \<Rightarrow> 'z db_scheme \<Rightarrow> int" where
  "getLastProcessedRecordNumber tn s = (case map_of (counter_states s) tn of None \<Rightarrow> -1 | Some n \<Rightarrow> n)"

text \<open>\<open>ON CONFLICT (tableName, queryString) DO UPDATE SET count = counters.count + EXCLUDED.count\<close>\<close>

definition same_counter :: "counter_row \<Rightarrow> counter_row \<Rightarrow> bool" where
  "same_counter a b \<longleftrightarrow> c_tableName a = c_tableName b \<and> c_queryString a = c_queryString b"

definition insertOrIncrement :: "counter_row \<Rightarrow> 'z db_scheme \<Rightarrow> 'z db_scheme" where
  "insertOrIncrement c s =
     (if \<exists>r \<in> set (counters s). same_counter r c
      then s\<lparr>counters := map (\<lambda>r. if same_counter r c then r\<lparr>c_count := c_count r + c_count c\<rparr> else r) (counters s)\<rparr>
      else s\<lparr>counters := counters s @ [c]\<rparr>)"

definition decrement :: "counter_row \<Rightarrow> 'z db_scheme \<Rightarrow> 'z db_scheme" where
  "decrement c s =
     s\<lparr>counters := map (\<lambda>r. if same_counter r c then r\<lparr>c_count := c_count r - c_count c\<rparr> else r) (counters s)\<rparr>"

definition incrementCounters :: "counter_row list \<Rightarrow> int \<Rightarrow> ('z db_scheme, unit) act" where
  "incrementCounters cs n =
     bind (for_each (\<lambda>c. modify (insertOrIncrement c)) cs) (\<lambda>_.
     bind (of_opt TypeError (list_head cs)) (\<lambda>c.
     modify (\<lambda>s. s\<lparr>counter_states := put_pair (c_tableName c) n (counter_states s)\<rparr>)))"

definition decrementCounters :: "counter_row list \<Rightarrow> 'z db_scheme \<Rightarrow> 'z db_scheme" where
  "decrementCounters cs s = fold decrement cs s"

definition delete_zero_counters :: "'z db_scheme \<Rightarrow> 'z db_scheme" where
  "delete_zero_counters s = s\<lparr>counters := filter (\<lambda>c. c_count c \<noteq> 0) (counters s)\<rparr>"

section \<open>counter.processor.ts, counter.service.ts\<close>

text \<open>
  A processor: its table (the name, and the rows as records) and criteria, and the batch size.
\<close>

record 'z counter_config =
  cc_tableName :: string
  cc_criteriaList :: "criteria list"
  cc_recordsBatchSize :: nat
  cc_records :: "'z db_scheme \<Rightarrow> countable list"

text \<open>\<open>repository.find\<close> with the processor's order and limit.\<close>

definition find_records :: "'z counter_config \<Rightarrow> (countable \<Rightarrow> bool) \<Rightarrow> 'z db_scheme \<Rightarrow> countable list" where
  "find_records C wher s = take (cc_recordsBatchSize C) (sort_key cn_number (filter wher (cc_records C s)))"

text \<open>
  A database transaction that is committed at its end: if the action throws, or the commit fails,
  nothing of it remains.
\<close>

definition in_transaction :: "bool \<Rightarrow> ('s, 'a) act \<Rightarrow> ('s, 'a) act" where
  "in_transaction fails m s =
     (case m s of (t, Inl e) \<Rightarrow> (s, Inl e) | (t, Inr a) \<Rightarrow> if fails then (s, Inl db_error) else (t, Inr a))"

text \<open>
  \<open>lastProcessedRecordNumber\<close> is the processor's own field; it is an argument, and its new value is
  returned with the boolean.
\<close>

definition next_batch ::
  "'z counter_config \<Rightarrow> bool \<Rightarrow> int option \<Rightarrow> ('z db_scheme, bool \<times> int option) act" where
  "next_batch C fails lastProcessed =
     bind (gets (\<lambda>s. case lastProcessed of None \<Rightarrow> getLastProcessedRecordNumber (cc_tableName C) s | Some n \<Rightarrow> n)) (\<lambda>n.
     bind (gets (find_records C (\<lambda>r. cn_number r \<ge> n + 1))) (\<lambda>records.
     if records = [] then ret (False, Some n)
     else
       let cs = calculateCounters (cc_tableName C) records (cc_criteriaList C);
           new = cn_number (last records)
       in bind (in_transaction fails (incrementCounters cs new)) (\<lambda>_.
          ret (length records = cc_recordsBatchSize C, Some new))))"

definition processNextRecordsBatch ::
  "'z counter_config \<Rightarrow> bool \<Rightarrow> int option \<Rightarrow> ('z db_scheme, bool \<times> int option) act" where
  "processNextRecordsBatch C fails lastProcessed =
     catch (next_batch C fails lastProcessed) (\<lambda>_. ret (False, None))"

text \<open>The do-while loop of \<open>revert\<close>. Every round moves the lower bound of the next one up.\<close>

lemma find_records_last:
  assumes "find_records C wher s \<noteq> []"
  shows "wher (last (find_records C wher s))"
proof -
  have "set (find_records C wher s) \<subseteq> {r. wher r}"
    unfolding find_records_def by (auto dest!: in_set_takeD)
  then show ?thesis using last_in_set [OF assms] by auto
qed

function (sequential) revert_loop ::
  "'z counter_config \<Rightarrow> int \<Rightarrow> int \<Rightarrow> int \<Rightarrow> 'z db_scheme \<Rightarrow> 'z db_scheme" where
  "revert_loop C lastCorrect lastProcessed lastReverted s =
     (if lastProcessed \<le> lastReverted then s
      else
        let records = find_records C (\<lambda>r. cn_blockNumber r > lastCorrect \<and>
              lastReverted + 1 \<le> cn_number r \<and> cn_number r \<le> lastProcessed) s
        in if records = [] then s
           else
             let t = decrementCounters (calculateCounters (cc_tableName C) records (cc_criteriaList C)) s
             in if length records = cc_recordsBatchSize C
                then revert_loop C lastCorrect lastProcessed (cn_number (last records)) t
                else t)"
  by pat_completeness auto
termination
proof (relation "measure (\<lambda>(C, lc, p, r, s). nat (p - r))", goal_cases)
  case (2 C lc p r s records t)
  have "lc < cn_blockNumber (last records) \<and> r + 1 \<le> cn_number (last records) \<and> cn_number (last records) \<le> p"
    using find_records_last [of C "\<lambda>x. cn_blockNumber x > lc \<and> r + 1 \<le> cn_number x \<and> cn_number x \<le> p" s] 2
    by simp
  with 2 show ?case by simp
qed simp

declare revert_loop.simps [simp del]

definition CounterProcessor_revert :: "'z counter_config \<Rightarrow> int \<Rightarrow> 'z db_scheme \<Rightarrow> 'z db_scheme" where
  "CounterProcessor_revert C lastCorrect s =
     revert_loop C lastCorrect (getLastProcessedRecordNumber (cc_tableName C) s) (-1) s"

text \<open>The two workers: counter.module.ts.\<close>

definition transaction_fields :: "transaction_row \<Rightarrow> string \<Rightarrow> field_value" where
  "transaction_fields t f =
     (if f = ''from'' then FStr (tr_from t) else if f = ''to'' then FStr (tr_to t)
      else if f = ''blockNumber'' then FNum (tr_blockNumber t) else FUndefined)"

definition transfer_fields :: "transfer_row \<Rightarrow> string \<Rightarrow> field_value" where
  "transfer_fields t f =
     (if f = ''from'' then FStr (tf_from t) else if f = ''to'' then FStr (tf_to t)
      else if f = ''tokenAddress'' then (case tf_tokenAddress t of None \<Rightarrow> FNull | Some a \<Rightarrow> FStr a)
      else if f = ''blockNumber'' then FNum (tf_blockNumber t) else FUndefined)"

definition transaction_counters :: "nat \<Rightarrow> 'z counter_config" where
  "transaction_counters n = \<lparr>cc_tableName = ''transactions'', cc_criteriaList = [[''from|to'']],
     cc_recordsBatchSize = n,
     cc_records = (\<lambda>s. map (\<lambda>t. \<lparr>cn_number = t_number t, cn_blockNumber = tr_blockNumber t,
       cn_fields = transaction_fields t\<rparr>) (transactions s))\<rparr>"

definition transfer_counters :: "nat \<Rightarrow> 'z counter_config" where
  "transfer_counters n = \<lparr>cc_tableName = ''transfers'',
     cc_criteriaList = [[''tokenAddress''], [''from|to''], [''tokenAddress'', ''from|to'']],
     cc_recordsBatchSize = n,
     cc_records = (\<lambda>s. map (\<lambda>t. \<lparr>cn_number = f_number t, cn_blockNumber = tf_blockNumber t,
       cn_fields = transfer_fields t\<rparr>) (transfers s))\<rparr>"

definition CounterService_revert :: "nat \<Rightarrow> int \<Rightarrow> 'z db_scheme \<Rightarrow> 'z db_scheme" where
  "CounterService_revert n lastCorrect s =
     delete_zero_counters (CounterProcessor_revert (transfer_counters n) lastCorrect
       (CounterProcessor_revert (transaction_counters n) lastCorrect s))"

section \<open>A store of counters\<close>

text \<open>
  What the processor relies on: an increment adds, a decrement subtracts where there is something to
  subtract from, and nothing else changes.
\<close>

locale counter_store =
  fixes up down :: "'c \<Rightarrow> 's \<Rightarrow> 's" and cnt :: "'s \<Rightarrow> 'k \<Rightarrow> int" and key :: "'c \<Rightarrow> 'k" and amount :: "'c \<Rightarrow> int"
  assumes up_cnt: "cnt (up c s) k = cnt s k + (if key c = k then amount c else 0)"
    and down_cnt: "amount c = 0 \<or> cnt s (key c) \<noteq> 0 \<Longrightarrow>
      cnt (down c s) k = cnt s k - (if key c = k then amount c else 0)"
begin

definition total :: "'c list \<Rightarrow> 'k \<Rightarrow> int" where
  "total cs k = sum_list (map amount (filter (\<lambda>c. key c = k) cs))"

lemma total_Cons: "total (c # cs) k = (if key c = k then amount c else 0) + total cs k"
  by (simp add: total_def)

lemma total_nonneg: "\<forall>c \<in> set cs. 0 \<le> amount c \<Longrightarrow> 0 \<le> total cs k"
  unfolding total_def by (intro sum_list_nonneg) auto

lemma fold_up: "cnt (fold up cs s) k = cnt s k + total cs k"
  by (induction cs arbitrary: s) (auto simp: total_def up_cnt)

lemma fold_down:
  assumes "\<forall>c \<in> set cs. 0 \<le> amount c" "\<And>k. total cs k \<le> cnt s k"
  shows "cnt (fold down cs s) k = cnt s k - total cs k"
  using assms
proof (induction cs arbitrary: s)
  case Nil
  then show ?case by (simp add: total_def)
next
  case (Cons c cs)
  have rest: "0 \<le> total cs (key c)" using Cons.prems(1) by (intro total_nonneg) simp
  have "total (c # cs) (key c) = amount c + total cs (key c)" by (simp add: total_Cons)
  with Cons.prems(2) [of "key c"] rest Cons.prems(1) have "amount c = 0 \<or> cnt s (key c) \<noteq> 0" by auto
  note down = down_cnt [OF this]
  have "total cs k' \<le> cnt (down c s) k'" for k'
    using Cons.prems(2) [of k'] by (simp add: down total_Cons split: if_splits)
  with Cons.IH [of "down c s"] Cons.prems(1) show ?case by (simp add: down total_Cons)
qed

text \<open>Taking back what was added restores every count.\<close>

lemma down_after_up:
  assumes "\<forall>c \<in> set cs. 0 \<le> amount c" "\<And>k. 0 \<le> cnt s k"
  shows "cnt (fold down cs (fold up cs s)) k = cnt s k"
  using fold_down [OF assms(1), of "fold up cs s"] assms(2) by (simp add: fold_up)

end

definition counter_key :: "counter_row \<Rightarrow> string \<times> string" where
  "counter_key c = (c_tableName c, c_queryString c)"

definition count_of :: "'z db_scheme \<Rightarrow> string \<times> string \<Rightarrow> int" where
  "count_of s k = (case find (\<lambda>r. counter_key r = k) (counters s) of None \<Rightarrow> 0 | Some r \<Rightarrow> c_count r)"

lemma same_counter_key: "same_counter a b \<longleftrightarrow> counter_key a = counter_key b"
  by (simp add: same_counter_def counter_key_def)

lemma counter_key_count [simp]: "counter_key (r\<lparr>c_count := n\<rparr>) = counter_key r"
  by (simp add: counter_key_def)

lemma find_counter_update:
  "find (\<lambda>r. counter_key r = k) (map (\<lambda>r. if counter_key r = k' then r\<lparr>c_count := f (c_count r)\<rparr> else r) rows) =
     (if k = k' then map_option (\<lambda>r. r\<lparr>c_count := f (c_count r)\<rparr>) (find (\<lambda>r. counter_key r = k) rows)
      else find (\<lambda>r. counter_key r = k) rows)"
  using find_map_guarded [of counter_key k' "\<lambda>r. r\<lparr>c_count := f (c_count r)\<rparr>" k "\<lambda>_. True" rows] by simp

interpretation db_counters: counter_store insertOrIncrement decrement count_of counter_key c_count
proof
  fix c :: counter_row and s :: "'a db_scheme" and k
  show "count_of (insertOrIncrement c s) k = count_of s k + (if counter_key c = k then c_count c else 0)"
  proof (cases "\<exists>r \<in> set (counters s). counter_key r = counter_key c")
    case True
    then have "counter_key c \<in> counter_key ` set (counters s)" by (metis imageI)
    from find_key_Some [OF this] obtain r where "find (\<lambda>r. counter_key r = counter_key c) (counters s) = Some r" ..
    then show ?thesis
      using True find_counter_update [of k "counter_key c" "\<lambda>n. n + c_count c" "counters s"]
      by (cases "counter_key c = k") (auto simp: insertOrIncrement_def count_of_def same_counter_key)
  next
    case False
    then have "find (\<lambda>r. counter_key r = counter_key c) (counters s) = None" by (simp add: find_None_iff)
    with False show ?thesis
      by (cases "counter_key c = k")
         (auto simp: insertOrIncrement_def count_of_def same_counter_key find_append_one split: option.splits)
  qed
next
  fix c :: counter_row and s :: "'a db_scheme" and k
  assume "c_count c = 0 \<or> count_of s (counter_key c) \<noteq> 0"
  then show "count_of (decrement c s) k = count_of s k - (if counter_key c = k then c_count c else 0)"
    using find_counter_update [of k "counter_key c" "\<lambda>n. n - c_count c" "counters s"]
    by (auto simp: decrement_def count_of_def same_counter_key split: option.splits)
qed

subsection \<open>Frames\<close>

lemma decrement_frame: "\<exists>cs. decrement c s = s\<lparr>counters := cs\<rparr>"
  by (auto simp: decrement_def)

lemma fold_decrement_frame: "\<exists>x. fold decrement cs s = s\<lparr>counters := x\<rparr>"
proof (induction cs arbitrary: s)
  case Nil
  show ?case by (rule exI [of _ "counters s"]) simp
next
  case (Cons c cs)
  from Cons [of "decrement c s"] obtain x where "fold decrement cs (decrement c s) = (decrement c s)\<lparr>counters := x\<rparr>" ..
  moreover from decrement_frame obtain y where "decrement c s = s\<lparr>counters := y\<rparr>" by blast
  ultimately show ?case by (intro exI [of _ x]) simp
qed

lemma revert_loop_frame: "\<exists>x. revert_loop C lc p r s = s\<lparr>counters := x\<rparr>"
proof (induction C lc p r s rule: revert_loop.induct)
  case (1 C lc p r s)
  have same: "\<exists>x. s = s\<lparr>counters := x\<rparr>" by (rule exI [of _ "counters s"]) simp
  let ?records = "find_records C (\<lambda>x. cn_blockNumber x > lc \<and> r + 1 \<le> cn_number x \<and> cn_number x \<le> p) s"
  let ?t = "decrementCounters (calculateCounters (cc_tableName C) ?records (cc_criteriaList C)) s"
  obtain x where t: "?t = s\<lparr>counters := x\<rparr>"
    using fold_decrement_frame unfolding decrementCounters_def by blast
  show ?case
  proof (cases "p \<le> r \<or> ?records = []")
    case True
    with same show ?thesis by (subst revert_loop.simps) (auto simp: Let_def)
  next
    case False
    then have "\<exists>x. revert_loop C lc p (cn_number (last ?records)) ?t = ?t\<lparr>counters := x\<rparr>"
      if "length ?records = cc_recordsBatchSize C"
      using that "1.IH" by (simp add: Let_def)
    with False t show ?thesis by (subst revert_loop.simps) (auto simp: Let_def)
  qed
qed

text \<open>The rows a processor counts do not depend on the counters.\<close>

definition reads_rows :: "'z counter_config \<Rightarrow> bool" where
  "reads_rows C \<longleftrightarrow> (\<forall>s x y. cc_records C (s\<lparr>counters := x\<rparr>) = cc_records C s \<and>
     cc_records C (s\<lparr>counter_states := y\<rparr>) = cc_records C s)"

lemma reads_rows [simp]: "reads_rows (transaction_counters n)" "reads_rows (transfer_counters n)"
  by (simp_all add: reads_rows_def transaction_counters_def transfer_counters_def)

section \<open>The counters are exact\<close>

text \<open>
  The counters of a table are exact when every counter has the value the reference gives for the rows
  processed so far. The first argument bounds the rows: those of the blocks up to it are counted.
\<close>

definition counted :: "'z counter_config \<Rightarrow> 'z db_scheme \<Rightarrow> countable list" where
  "counted C s = filter (\<lambda>r. cn_number r \<le> getLastProcessedRecordNumber (cc_tableName C) s) (cc_records C s)"

definition counters_exact :: "'z counter_config \<Rightarrow> 'z db_scheme \<Rightarrow> bool" where
  "counters_exact C s \<longleftrightarrow>
     (\<forall>q. count_of s (cc_tableName C, q) = ref_count (cc_criteriaList C) q (counted C s))"

definition numbers_distinct :: "'z counter_config \<Rightarrow> 'z db_scheme \<Rightarrow> bool" where
  "numbers_distinct C s \<longleftrightarrow> distinct (map cn_number (cc_records C s)) \<and> (\<forall>r \<in> set (cc_records C s). 0 \<le> cn_number r)"

lemma count_up_positive: "\<forall>p \<in> set m. 0 < snd p \<Longrightarrow> \<forall>p \<in> set (count_up q m). 0 < snd p"
  by (induction q m rule: count_up.induct) auto

lemma fold_preserves: "(\<And>x m. P m \<Longrightarrow> P (f x m)) \<Longrightarrow> P m \<Longrightarrow> P (fold f xs m)"
  by (induction xs arbitrary: m) auto

lemma counters_map_positive: "\<forall>p \<in> set (counters_map recs crits). 0 < snd p"
  unfolding counters_map_def
  by (rule fold_preserves, rule fold_preserves, rule fold_preserves) (auto simp: count_up_positive)

lemma calculateCounters_nonneg: "\<forall>c \<in> set (calculateCounters tn recs crits). 0 \<le> c_count c"
  using counters_map_positive [of recs crits] by (fastforce simp: calculateCounters_def)

lemma calculateCounters_table: "c \<in> set (calculateCounters tn recs crits) \<Longrightarrow> c_tableName c = tn"
  by (auto simp: calculateCounters_def)

lemma calculateCounters_total:
  "db_counters.total (calculateCounters tn recs crits) (tn', q) = (if tn' = tn then ref_count crits q recs else 0)"
proof (cases "tn' = tn")
  case True
  have "filter (\<lambda>c. counter_key c = (tn', q)) (calculateCounters tn recs crits) =
      filter (\<lambda>c. c_queryString c = q) (calculateCounters tn recs crits)"
    using True calculateCounters_table [of _ tn recs crits] by (intro filter_cong) (auto simp: counter_key_def)
  with True show ?thesis
    using calculateCounters_count [of tn recs crits q] by (simp add: db_counters.total_def count_in_def)
next
  case False
  then have "filter (\<lambda>c. counter_key c = (tn', q)) (calculateCounters tn recs crits) = []"
    using calculateCounters_table [of _ tn recs crits] by (auto simp: counter_key_def filter_empty_conv)
  with False show ?thesis by (simp add: db_counters.total_def)
qed

text \<open>A batch of a sorted table is everything up to its last number.\<close>

lemma take_sorted_prefix:
  fixes key :: "'a \<Rightarrow> int"
  assumes "sorted_wrt (<) (map key ys)" "take n ys \<noteq> []"
  shows "filter (\<lambda>y. key y \<le> key (last (take n ys))) ys = take n ys"
proof -
  let ?l = "last (take n ys)"
  have w: "sorted_wrt (<) (map key (take n ys) @ map key (drop n ys))"
    using assms(1) by (metis append_take_drop_id map_append)
  have le: "key y \<le> key ?l" if "y \<in> set (take n ys)" for y
  proof -
    have tk: "take n ys = butlast (take n ys) @ [?l]" using assms(2) by simp
    then have "sorted_wrt (<) (map key (butlast (take n ys)) @ [key ?l])"
      using w by (metis list.simps(8) list.simps(9) map_append sorted_wrt_append)
    moreover from that tk have "y \<in> set (butlast (take n ys)) \<or> y = ?l"
      by (metis Un_iff empty_iff list.set(1) list.set(2) insert_iff set_append)
    ultimately show ?thesis by (auto simp: sorted_wrt_append)
  qed
  have gt: "key ?l < key y" if "y \<in> set (drop n ys)" for y
    using w that last_in_set [OF assms(2)] by (auto simp: sorted_wrt_append)
  have "filter (\<lambda>y. key y \<le> key ?l) (take n ys) = take n ys"
    using le by (simp add: filter_id_conv)
  moreover have "filter (\<lambda>y. key y \<le> key ?l) (drop n ys) = []"
    using gt by (fastforce simp: filter_empty_conv)
  ultimately show ?thesis
    using filter_append [of "\<lambda>y. key y \<le> key ?l" "take n ys" "drop n ys"] by simp
qed

lemma sort_key_strict:
  assumes "distinct (map key xs)"
  shows "sorted_wrt (<) (map key (sort_key key xs))"
proof -
  have "sorted (map key (sort_key key xs))" by simp
  moreover have "distinct (map key (sort_key key xs))"
    using assms by (simp add: distinct_map)
  ultimately show ?thesis by (simp add: strict_sorted_iff)
qed

lemma find_records_filter:
  assumes "numbers_distinct C s" "find_records C wher s \<noteq> []"
  defines "l \<equiv> cn_number (last (find_records C wher s))"
  shows "mset (find_records C wher s) = mset (filter (\<lambda>r. wher r \<and> cn_number r \<le> l) (cc_records C s))"
proof -
  let ?ys = "sort_key cn_number (filter wher (cc_records C s))"
  have "distinct (map cn_number (filter wher (cc_records C s)))"
    using assms(1) by (simp add: numbers_distinct_def distinct_map_filter)
  note strict = sort_key_strict [OF this]
  have "find_records C wher s = filter (\<lambda>y. cn_number y \<le> l) ?ys"
    using take_sorted_prefix [OF strict, of "cc_recordsBatchSize C"] assms(2)
    by (simp add: find_records_def l_def)
  then have "mset (find_records C wher s) = filter_mset (\<lambda>y. cn_number y \<le> l) (mset (filter wher (cc_records C s)))"
    by (metis mset_filter mset_sort)
  then show ?thesis by (simp add: filter_filter_mset conj_commute)
qed

lemma find_records_all:
  assumes "length (find_records C wher s) \<noteq> cc_recordsBatchSize C"
  shows "mset (find_records C wher s) = mset (filter wher (cc_records C s))"
  using assms by (auto simp: find_records_def min_def split: if_splits)

lemma filter_count_split:
  "(\<And>r. r \<in> set xs \<Longrightarrow> P r = (Q r \<or> R r)) \<Longrightarrow> (\<And>r. r \<in> set xs \<Longrightarrow> Q r \<Longrightarrow> \<not> R r) \<Longrightarrow>
     ref_count c q (filter P xs) = ref_count c q (filter Q xs) + ref_count c q (filter R xs)"
  by (induction xs) (auto simp: ref_count_def)

lemma sort_key_empty: "sort_key k xs = [] \<longleftrightarrow> xs = []"
  by (metis length_0_conv length_sort)

lemma ref_count_batch:
  assumes "numbers_distinct C s" "find_records C wher s \<noteq> []"
  shows "ref_count c q (find_records C wher s) =
    ref_count c q (filter (\<lambda>r. wher r \<and> cn_number r \<le> cn_number (last (find_records C wher s))) (cc_records C s))"
  using find_records_filter [OF assms] by (rule ref_count_mset)

lemma for_each_modify: "for_each (\<lambda>x. modify (f x)) xs s = (fold f xs s, Inr ())"
  by (induction xs arbitrary: s) (simp_all add: act_simps)

lemma increment_frame: "\<exists>y. insertOrIncrement c s = s\<lparr>counters := y\<rparr>"
  unfolding insertOrIncrement_def by (split if_split) blast

lemma fold_increment_frame: "\<exists>x. fold insertOrIncrement cs s = s\<lparr>counters := x\<rparr>"
proof (induction cs arbitrary: s)
  case Nil
  show ?case by (rule exI [of _ "counters s"]) simp
next
  case (Cons c cs)
  from Cons [of "insertOrIncrement c s"] obtain x
    where "fold insertOrIncrement cs (insertOrIncrement c s) = (insertOrIncrement c s)\<lparr>counters := x\<rparr>" ..
  moreover obtain y where "insertOrIncrement c s = s\<lparr>counters := y\<rparr>" using increment_frame by blast
  ultimately show ?case by (intro exI [of _ x]) simp
qed

lemma map_of_put_pair [simp]: "map_of (put_pair k v m) = (map_of m)(k \<mapsto> v)"
  by (induction k v m rule: put_pair.induct) (auto simp: fun_eq_iff)

lemma incrementCounters_run:
  "incrementCounters (calculateCounters tn recs crits) n s =
     ((fold insertOrIncrement (calculateCounters tn recs crits) s)\<lparr>counter_states := put_pair tn n (counter_states s)\<rparr>, Inr ())"
proof -
  obtain x where "fold insertOrIncrement (calculateCounters tn recs crits) s = s\<lparr>counters := x\<rparr>"
    using fold_increment_frame by blast
  then show ?thesis
    unfolding incrementCounters_def bind_Inr [OF for_each_modify]
    by (simp add: calculateCounters_def list_head_def act_simps)
qed

lemma count_of_states [simp]: "count_of (s\<lparr>counter_states := x\<rparr>) k = count_of s k"
  by (simp add: count_of_def)

text \<open>One batch of new records: counted after it are exactly those up to the last one of the batch.\<close>

lemma increment_keeps_exact:
  assumes C: "reads_rows C" "numbers_distinct C s" and exact: "counters_exact C s"
    and n: "n = getLastProcessedRecordNumber (cc_tableName C) s"
    and recs: "recs = find_records C (\<lambda>r. cn_number r \<ge> n + 1) s" "recs \<noteq> []"
    and run: "incrementCounters (calculateCounters (cc_tableName C) recs (cc_criteriaList C)) (cn_number (last recs)) s = (t, r)"
  shows "counters_exact C t"
proof -
  let ?new = "cn_number (last recs)"
  have bound: "n + 1 \<le> ?new"
    using find_records_last [of C "\<lambda>r. cn_number r \<ge> n + 1" s] recs by simp
  obtain x where frame: "fold insertOrIncrement (calculateCounters (cc_tableName C) recs (cc_criteriaList C)) s = s\<lparr>counters := x\<rparr>"
    using fold_increment_frame by blast
  have t: "t = (s\<lparr>counters := x\<rparr>)\<lparr>counter_states := put_pair (cc_tableName C) ?new (counter_states s)\<rparr>"
    using run by (simp add: incrementCounters_run frame)
  have rows: "cc_records C t = cc_records C s" using C(1) by (simp add: reads_rows_def t)
  have last: "getLastProcessedRecordNumber (cc_tableName C) t = ?new"
    by (simp add: getLastProcessedRecordNumber_def t)
  have "count_of t (cc_tableName C, q) = ref_count (cc_criteriaList C) q (counted C t)" for q
  proof -
    have "count_of t (cc_tableName C, q) = count_of s (cc_tableName C, q) + ref_count (cc_criteriaList C) q recs"
      using db_counters.fold_up [of "calculateCounters (cc_tableName C) recs (cc_criteriaList C)" s "(cc_tableName C, q)"]
      by (simp add: t frame [symmetric] calculateCounters_total)
    also have "ref_count (cc_criteriaList C) q recs =
        ref_count (cc_criteriaList C) q (filter (\<lambda>r. cn_number r \<ge> n + 1 \<and> cn_number r \<le> ?new) (cc_records C s))"
      using ref_count_batch [OF C(2)] recs by simp
    also have "count_of s (cc_tableName C, q) + \<dots> = ref_count (cc_criteriaList C) q (counted C t)"
    proof -
      have "ref_count (cc_criteriaList C) q (filter (\<lambda>r. cn_number r \<le> ?new) (cc_records C s)) =
          ref_count (cc_criteriaList C) q (filter (\<lambda>r. cn_number r \<le> n) (cc_records C s)) +
          ref_count (cc_criteriaList C) q (filter (\<lambda>r. cn_number r \<ge> n + 1 \<and> cn_number r \<le> ?new) (cc_records C s))"
        using bound by (intro filter_count_split) auto
      with exact show ?thesis by (simp add: counters_exact_def counted_def n [symmetric] rows last)
    qed
    finally show ?thesis .
  qed
  then show ?thesis by (simp add: counters_exact_def)
qed

lemma next_batch_keeps_exact:
  assumes C: "reads_rows C" "numbers_distinct C s" and exact: "counters_exact C s"
    and lp: "lastProcessed = None \<or> lastProcessed = Some (getLastProcessedRecordNumber (cc_tableName C) s)"
    and run: "next_batch C fails lastProcessed s = (t, r)"
  shows "counters_exact C t \<and>
    (\<forall>full last'. r = Inr (full, last') \<longrightarrow> last' = Some (getLastProcessedRecordNumber (cc_tableName C) t))"
proof -
  define n where "n = getLastProcessedRecordNumber (cc_tableName C) s"
  define recs where "recs = find_records C (\<lambda>r. cn_number r \<ge> n + 1) s"
  have start: "(case lastProcessed of None \<Rightarrow> getLastProcessedRecordNumber (cc_tableName C) s | Some m \<Rightarrow> m) = n"
    using lp by (auto simp: n_def)
  show ?thesis
  proof (cases "recs = []")
    case True
    with run start exact show ?thesis by (auto simp: next_batch_def act_simps recs_def n_def)
  next
    case False
    obtain u where u: "incrementCounters (calculateCounters (cc_tableName C) recs (cc_criteriaList C)) (cn_number (last recs)) s = (u, Inr ())"
      by (simp add: incrementCounters_run)
    have "counters_exact C u"
      using increment_keeps_exact [OF C exact n_def recs_def False u] .
    moreover have "getLastProcessedRecordNumber (cc_tableName C) u = cn_number (last recs)"
      using u by (auto simp: incrementCounters_run getLastProcessedRecordNumber_def)
    ultimately show ?thesis
      using run start exact False u
      by (cases fails) (auto simp: next_batch_def act_simps Let_def in_transaction_def recs_def [symmetric] bind_def)
  qed
qed

text \<open>
  C7: Counting is exact: if before a batch every counter of the table equals the reference count over
  the rows processed so far, so it does afterwards, whether the batch is committed or fails, and the
  processor's own position is the stored one (or is forgotten).
\<close>

theorem process_batch_exact:
  assumes "C = transaction_counters k \<or> C = transfer_counters k"
    and "numbers_distinct C s" "counters_exact C s"
    and "lastProcessed = None \<or> lastProcessed = Some (getLastProcessedRecordNumber (cc_tableName C) s)"
    and "processNextRecordsBatch C fails lastProcessed s = (t, Inr (full, last'))"
  shows "counters_exact C t \<and>
    (last' = None \<or> last' = Some (getLastProcessedRecordNumber (cc_tableName C) t))"
proof -
  have C: "reads_rows C" using assms(1) by auto
  obtain u r where u: "next_batch C fails lastProcessed s = (u, r)" by force
  from next_batch_keeps_exact [OF C assms(2-4) u] assms(5) u show ?thesis
    by (cases r) (auto simp: processNextRecordsBatch_def catch_def act_simps)
qed

subsection \<open>Reverting\<close>

definition to_revert :: "'z counter_config \<Rightarrow> int \<Rightarrow> int \<Rightarrow> int \<Rightarrow> 'z db_scheme \<Rightarrow> countable list" where
  "to_revert C lc p r s = filter (\<lambda>x. cn_blockNumber x > lc \<and> r + 1 \<le> cn_number x \<and> cn_number x \<le> p) (cc_records C s)"

lemma revert_loop_counts:
  assumes "reads_rows C" "numbers_distinct C s" "0 < cc_recordsBatchSize C"
    and "\<And>q. ref_count (cc_criteriaList C) q (to_revert C lc p r s) \<le> count_of s (cc_tableName C, q)"
    and "\<And>k. 0 \<le> count_of s k"
  shows "count_of (revert_loop C lc p r s) (tn, q) = count_of s (tn, q) -
    (if tn = cc_tableName C then ref_count (cc_criteriaList C) q (to_revert C lc p r s) else 0)"
  using assms
proof (induction C lc p r s rule: revert_loop.induct)
  case (1 C lc p r s)
  let ?wher = "\<lambda>x. cn_blockNumber x > lc \<and> r + 1 \<le> cn_number x \<and> cn_number x \<le> p"
  let ?recs = "find_records C ?wher s"
  let ?cs = "calculateCounters (cc_tableName C) ?recs (cc_criteriaList C)"
  let ?t = "decrementCounters ?cs s"
  let ?l = "cn_number (last ?recs)"
  let ?ref = "ref_count (cc_criteriaList C)"
  show ?case
  proof (cases "p \<le> r \<or> ?recs = []")
    case True
    have "to_revert C lc p r s = []" if "?recs = []"
      using that "1.prems"(3) by (simp add: find_records_def to_revert_def sort_key_empty)
    moreover have "to_revert C lc p r s = []" if "p \<le> r"
      using that by (auto simp: to_revert_def filter_empty_conv)
    ultimately have "to_revert C lc p r s = []" using True by blast
    moreover have "revert_loop C lc p r s = s" using True by (subst revert_loop.simps) (auto simp: Let_def)
    ultimately show ?thesis by (simp add: ref_count_def)
  next
    case False
    note one = "1.prems"
    have some: "?recs \<noteq> []" using False by blast
    have last: "?wher (last ?recs)" using find_records_last [of C ?wher s, OF some] .
    have batch: "?ref q ?recs = ?ref q (filter (\<lambda>x. ?wher x \<and> cn_number x \<le> ?l) (cc_records C s))" for q
      using ref_count_batch [OF one(2) some] .
    have split: "?ref q (to_revert C lc p r s) = ?ref q ?recs + ?ref q (to_revert C lc p ?l s)" for q
      unfolding batch to_revert_def using last by (intro filter_count_split) auto
    have total: "db_counters.total ?cs (tn', q') = (if tn' = cc_tableName C then ?ref q' ?recs else 0)" for tn' q'
      by (rule calculateCounters_total)
    have below: "db_counters.total ?cs k \<le> count_of s k" for k
      using one(4) [of "snd k"] one(5) [of k] split [of "snd k"]
        ref_count_nonneg [of "cc_criteriaList C" "snd k" "to_revert C lc p ?l s"]
      by (cases k) (simp add: total)
    have t: "count_of ?t k = count_of s k - db_counters.total ?cs k" for k
      unfolding decrementCounters_def using calculateCounters_nonneg below by (rule db_counters.fold_down)
    obtain x where tx: "?t = s\<lparr>counters := x\<rparr>"
      using fold_decrement_frame unfolding decrementCounters_def by blast
    have rows: "cc_records C ?t = cc_records C s" using one(1) by (simp add: reads_rows_def tx)
    show ?thesis
    proof (cases "length ?recs = cc_recordsBatchSize C")
      case True
      have "count_of (revert_loop C lc p ?l ?t) (tn, q) = count_of ?t (tn, q) -
          (if tn = cc_tableName C then ?ref q (to_revert C lc p ?l ?t) else 0)"
      proof (rule "1.IH" [OF _ refl _ refl])
        show "\<not> p \<le> r" "?recs \<noteq> []" "length ?recs = cc_recordsBatchSize C" "reads_rows C" "0 < cc_recordsBatchSize C"
          using False True one by auto
        show "numbers_distinct C ?t" using one(2) by (simp add: numbers_distinct_def rows)
        show "?ref q (to_revert C lc p ?l ?t) \<le> count_of ?t (cc_tableName C, q)" for q
          using one(4) [of q] split [of q] by (simp add: t total to_revert_def rows)
        show "0 \<le> count_of ?t k" for k using below [of k] by (simp add: t)
      qed
      moreover have "to_revert C lc p ?l ?t = to_revert C lc p ?l s" by (simp add: to_revert_def rows)
      moreover have "revert_loop C lc p r s = revert_loop C lc p ?l ?t"
        using False True by (subst revert_loop.simps) (simp add: Let_def)
      ultimately show ?thesis using split [of q] by (simp add: t total)
    next
      case small: False
      have "?ref q ?recs = ?ref q (to_revert C lc p r s)"
        unfolding to_revert_def using find_records_all [OF small] by (rule ref_count_mset)
      moreover have "revert_loop C lc p r s = ?t"
        using False small by (subst revert_loop.simps) (simp add: Let_def)
      ultimately show ?thesis by (simp add: t total)
    qed
  qed
qed

lemma revert_counts:
  assumes "reads_rows C" "numbers_distinct C s" "0 < cc_recordsBatchSize C"
    and "counters_exact C s" "\<And>k. 0 \<le> count_of s k"
  shows "count_of (CounterProcessor_revert C lc s) (tn, q) =
    (if tn = cc_tableName C then ref_count (cc_criteriaList C) q (filter (\<lambda>r. cn_blockNumber r \<le> lc) (counted C s))
     else count_of s (tn, q))"
proof -
  let ?p = "getLastProcessedRecordNumber (cc_tableName C) s"
  have parts: "ref_count (cc_criteriaList C) q (counted C s) =
      ref_count (cc_criteriaList C) q (filter (\<lambda>r. cn_blockNumber r \<le> lc) (counted C s)) +
      ref_count (cc_criteriaList C) q (to_revert C lc ?p (- 1) s)" for q
    unfolding counted_def to_revert_def filter_filter
    using assms(2) by (intro filter_count_split) (auto simp: numbers_distinct_def)
  have "ref_count (cc_criteriaList C) q (to_revert C lc ?p (- 1) s) \<le> count_of s (cc_tableName C, q)" for q
    using assms(4) parts [of q]
      ref_count_nonneg [of "cc_criteriaList C" q "filter (\<lambda>r. cn_blockNumber r \<le> lc) (counted C s)"]
    by (simp add: counters_exact_def)
  from revert_loop_counts [OF assms(1-3) this assms(5)] assms(4) parts [of q] show ?thesis
    by (simp add: CounterProcessor_revert_def counters_exact_def)
qed

definition counter_keys_ok :: "'z db_scheme \<Rightarrow> bool" where
  "counter_keys_ok s \<longleftrightarrow> distinct (map counter_key (counters s)) \<and> (\<forall>k. 0 \<le> count_of s k)"

lemma decrement_keys [simp]: "map counter_key (counters (decrement c s)) = map counter_key (counters s)"
  by (simp add: decrement_def comp_def if_distrib cong: if_cong)

lemma fold_decrement_keys [simp]: "map counter_key (counters (fold decrement cs s)) = map counter_key (counters s)"
  by (induction cs arbitrary: s) auto

lemma revert_loop_keys: "map counter_key (counters (revert_loop C lc p r s)) = map counter_key (counters s)"
proof (induction C lc p r s rule: revert_loop.induct)
  case (1 C lc p r s)
  show ?case
    using 1 by (subst revert_loop.simps) (auto simp: Let_def decrementCounters_def)
qed

lemma find_filter_key:
  "distinct (map key xs) \<Longrightarrow> find (\<lambda>x. key x = k) (filter P xs) =
     (case find (\<lambda>x. key x = k) xs of None \<Rightarrow> None | Some x \<Rightarrow> if P x then Some x else None)"
proof (induction xs)
  case (Cons x xs)
  show ?case
  proof (cases "key x = k")
    case True
    with Cons.prems have "k \<notin> key ` set (filter P xs)" by auto
    with True show ?thesis by (simp add: find_key_None)
  next
    case False
    with Cons show ?thesis by simp
  qed
qed simp

lemma delete_zero_count:
  "distinct (map counter_key (counters s)) \<Longrightarrow> count_of (delete_zero_counters s) k = count_of s k"
  by (auto simp: count_of_def delete_zero_counters_def find_filter_key split: option.splits)

lemma cascade_frame:
  "counters (cascade P s) = counters s" "counter_states (cascade P s) = counter_states s"
  "batches (cascade P s) = batches s"
  by (simp_all add: cascade_def Let_def)

lemma gone_above:
  "has_block s n \<Longrightarrow> n \<in> bk_number ` set (filter (\<lambda>b. lc < bk_number b) (blocks s)) \<longleftrightarrow> lc < n"
  by (auto simp: has_block_def)

lemma filter_gone:
  assumes "\<forall>x \<in> set xs. has_block s (g x)"
  shows "filter (\<lambda>x. g x \<notin> bk_number ` set (filter (\<lambda>b. lc < bk_number b) (blocks s))) xs = filter (\<lambda>x. g x \<le> lc) xs"
  using assms by (intro filter_cong refl) (simp only: gone_above not_less)

lemma transactions_after_cascade:
  assumes "fk_ok s"
  shows "transactions (cascade (\<lambda>b. lc < bk_number b) s) = filter (\<lambda>t. tr_blockNumber t \<le> lc) (transactions s)"
    "transfers (cascade (\<lambda>b. lc < bk_number b) s) = filter (\<lambda>t. tf_blockNumber t \<le> lc) (transfers s)"
proof -
  have "\<forall>t \<in> set (transactions s). has_block s (tr_blockNumber t)" "\<forall>t \<in> set (transfers s). has_block s (tf_blockNumber t)"
    using assms by (simp_all add: fk_ok_def)
  from this [THEN filter_gone] show
    "transactions (cascade (\<lambda>b. lc < bk_number b) s) = filter (\<lambda>t. tr_blockNumber t \<le> lc) (transactions s)"
    "transfers (cascade (\<lambda>b. lc < bk_number b) s) = filter (\<lambda>t. tf_blockNumber t \<le> lc) (transfers s)"
    by (simp_all add: cascade_def Let_def del: set_filter)
qed

lemma revert_counters_exact:
  fixes s :: "'z db_scheme"
  assumes "fk_ok s" "0 < k" "counter_keys_ok s"
    and "numbers_distinct (transaction_counters k) s" "numbers_distinct (transfer_counters k) s"
    and "counters_exact (transaction_counters k) s" "counters_exact (transfer_counters k) s"
  shows "counters_exact (transaction_counters k) (cascade (\<lambda>b. lc < bk_number b) (CounterService_revert k lc s))
    \<and> counters_exact (transfer_counters k) (cascade (\<lambda>b. lc < bk_number b) (CounterService_revert k lc s))"
proof -
  let ?T = "transaction_counters k :: 'z counter_config" and ?F = "transfer_counters k :: 'z counter_config"
  let ?u = "CounterProcessor_revert ?T lc s" and ?v = "CounterProcessor_revert ?F lc (CounterProcessor_revert ?T lc s)"
  let ?after = "cascade (\<lambda>b. lc < bk_number b) (CounterService_revert k lc s)"
  have names: "cc_tableName ?T = ''transactions''" "cc_tableName ?F = ''transfers''"
    "0 < cc_recordsBatchSize ?T" "0 < cc_recordsBatchSize ?F"
    using assms(2) by (simp_all add: transaction_counters_def transfer_counters_def)
  have nn: "0 \<le> count_of s key" for key using assms(3) unfolding counter_keys_ok_def by blast
  note T = revert_counts [OF reads_rows(1) assms(4) names(3) assms(6) nn, unfolded names]
  obtain x where u: "?u = s\<lparr>counters := x\<rparr>"
    using revert_loop_frame unfolding CounterProcessor_revert_def by blast
  have cu: "counted ?F ?u = counted ?F s" "numbers_distinct ?F ?u"
    using assms(5) by (simp_all add: u counted_def numbers_distinct_def transfer_counters_def getLastProcessedRecordNumber_def)
  have "counters_exact ?F ?u"
    using assms(7) by (simp add: counters_exact_def cu T names)
  moreover have "0 \<le> count_of ?u key" for key
    using nn [of key] ref_count_nonneg by (cases key) (simp add: T)
  ultimately have F: "count_of ?v (tn, q) =
      (if tn = ''transfers'' then ref_count (cc_criteriaList ?F) q (filter (\<lambda>r. cn_blockNumber r \<le> lc) (counted ?F s))
       else count_of ?u (tn, q))" for tn q
    using revert_counts [OF reads_rows(2) cu(2) names(4), of lc tn q] by (simp add: names cu)
  have keys: "distinct (map counter_key (counters ?v))"
    using assms(3) by (simp add: CounterProcessor_revert_def revert_loop_keys counter_keys_ok_def)
  obtain y where v: "?v = ?u\<lparr>counters := y\<rparr>"
    using revert_loop_frame unfolding CounterProcessor_revert_def by blast
  have "CounterService_revert k lc s = ?v\<lparr>counters := filter (\<lambda>c. c_count c \<noteq> 0) (counters ?v)\<rparr>"
    by (simp add: CounterService_revert_def delete_zero_counters_def)
  also have "\<dots> = s\<lparr>counters := filter (\<lambda>c. c_count c \<noteq> 0) (counters ?v)\<rparr>" by (subst v, subst u) simp
  finally obtain z where w: "CounterService_revert k lc s = s\<lparr>counters := z\<rparr>" by blast
  have counts: "count_of ?after key = count_of ?v key" for key
    using delete_zero_count [OF keys] by (simp add: count_of_def cascade_frame CounterService_revert_def)
  have "fk_ok (CounterService_revert k lc s)" using assms(1) by (simp add: w fk_ok_def)
  note rows = transactions_after_cascade [OF this, of lc, unfolded w]
  have cT: "counted ?T ?after = filter (\<lambda>r. cn_blockNumber r \<le> lc) (counted ?T s)"
    unfolding counted_def getLastProcessedRecordNumber_def cascade_frame
    by (simp add: transaction_counters_def rows w filter_map comp_def conj_commute)
  have cF: "counted ?F ?after = filter (\<lambda>r. cn_blockNumber r \<le> lc) (counted ?F s)"
    unfolding counted_def getLastProcessedRecordNumber_def cascade_frame
    by (simp add: transfer_counters_def rows w filter_map comp_def conj_commute)
  show ?thesis
    by (simp add: counters_exact_def counts F T names cT cF)
qed

text \<open>
  C8: Reverting blocks takes back exactly what they had contributed: if the counters of transactions
  and transfers are exact, they are exact again after the counters have been reverted to the last
  correct block and the later blocks, with all that belongs to them, have been deleted.
\<close>

theorem revert_restores_counters:
  fixes s :: "'z db_scheme"
  assumes "fk_ok s" "0 < k" "counter_keys_ok s"
    and "numbers_distinct (transaction_counters k) s" "numbers_distinct (transfer_counters k) s"
    and "counters_exact (transaction_counters k) s" "counters_exact (transfer_counters k) s"
  shows "counters_exact (transaction_counters k) (cascade (\<lambda>b. lc < bk_number b) (CounterService_revert k lc s))
    \<and> counters_exact (transfer_counters k) (cascade (\<lambda>b. lc < bk_number b) (CounterService_revert k lc s))"
  by (rule revert_counters_exact [OF assms])

section \<open>Concrete counters\<close>

definition demo_counted :: db where
  "demo_counted = fst (TransferRepository_addMany [demo_transfer ''0x0B''] demo_db)"

lemma demo_counted_rows:
  "counters demo_counted = []" "counter_states demo_counted = []" "transactions demo_counted = []"
  "map f_number (transfers demo_counted) = [1]"
  by code_simp+

lemma demo_counted_ok:
  "counters_exact (transfer_counters k) demo_counted" "counters_exact (transaction_counters k) demo_counted"
  "numbers_distinct (transfer_counters k) demo_counted" "numbers_distinct (transaction_counters k) demo_counted"
  "counter_keys_ok demo_counted"
proof -
  have nonneg: "\<not> f_number t \<le> -1" if "t \<in> set (transfers demo_counted)" for t
  proof -
    have "f_number t \<in> set (map f_number (transfers demo_counted))" using that by simp
    then show ?thesis unfolding demo_counted_rows by auto
  qed
  have last: "getLastProcessedRecordNumber n demo_counted = -1" for n
    by (simp add: getLastProcessedRecordNumber_def demo_counted_rows)
  have none: "count_of demo_counted key = 0" for key
    by (cases key) (simp add: count_of_def demo_counted_rows)
  have "counted (transfer_counters k) demo_counted = []"
    unfolding counted_def last using nonneg by (auto simp: transfer_counters_def filter_empty_conv)
  moreover have "counted (transaction_counters k) demo_counted = []"
    by (simp add: counted_def transaction_counters_def demo_counted_rows)
  moreover have "ref_count c q [] = 0" for c q by (simp add: ref_count_def)
  ultimately show "counters_exact (transfer_counters k) demo_counted" "counters_exact (transaction_counters k) demo_counted"
    by (simp_all add: counters_exact_def none)
  show "numbers_distinct (transfer_counters k) demo_counted" "numbers_distinct (transaction_counters k) demo_counted"
    using demo_counted_rows(4) nonneg
    by (auto simp: numbers_distinct_def transfer_counters_def transaction_counters_def demo_counted_rows(3) comp_def)
  show "counter_keys_ok demo_counted" by (simp add: counter_keys_ok_def none demo_counted_rows)
qed

lemma demo_db_ok: "db_ok demo_db"
  by (simp add: db_ok_def fk_ok_def keys_ok_def demo_db_def empty_db_def)

lemma demo_counted_fk: "fk_ok demo_counted"
proof -
  have "db_ok demo_counted" unfolding demo_counted_def
    by (rule keepsD [OF transfer_addMany_keeps demo_db_ok])
  then show ?thesis by (simp add: db_ok_def)
qed

lemma demo_batch: "snd (processNextRecordsBatch (transfer_counters 5) False None demo_counted) = Inr (False, Some 1)"
  by code_simp

theorem process_batch_exact_witness:
  "counters_exact (transfer_counters 5) (fst (processNextRecordsBatch (transfer_counters 5) False None demo_counted))"
proof -
  have "processNextRecordsBatch (transfer_counters 5) False None demo_counted =
      (fst (processNextRecordsBatch (transfer_counters 5) False None demo_counted), Inr (False, Some 1))"
    using demo_batch by (metis prod.collapse)
  then show ?thesis using process_batch_exact [OF _ demo_counted_ok(3,1)] by blast
qed

theorem revert_restores_counters_witness:
  "counters_exact (transfer_counters 5) (cascade (\<lambda>b. 0 < bk_number b) (CounterService_revert 5 0 demo_counted))"
  using revert_restores_counters [OF demo_counted_fk _ demo_counted_ok(5) demo_counted_ok(4,3,2,1), of 5 0] by simp

end
