(* ===== verification/Worker_Counter_Records.thy ===== *)
theory Worker_Counter_Records
  imports Worker_Counters
begin

text \<open>
  The counters of one record (\<open>src/packages/worker/src/counter/counter.utils.ts\<close>): which
  combinations of field values a record contributes to, and the counters of a batch against a reference
  count over (criterion, record, counter) triples.
\<close>

section \<open>Which counters a record contributes to\<close>

lemma put_pair_new: "k \<notin> fst ` set c \<Longrightarrow> put_pair k v c = c @ [(k, v)]"
  by (induction k v c rule: put_pair.induct) auto

text \<open>The distinct values of the fields of a condition.\<close>

definition condition_values :: "countable \<Rightarrow> string \<Rightarrow> field_value set" where
  "condition_values rec cond = cn_fields rec ` set (split_on CHR ''|'' cond)"

definition extensions :: "string \<Rightarrow> counter_query list \<Rightarrow> field_value set \<Rightarrow> counter_query set" where
  "extensions cond base V =
     {c @ [(cond, v)] | c v. (c \<in> set base \<or> (base = [] \<and> c = [])) \<and> v \<in> V}"

lemma extend_counters_spec:
  assumes "\<forall>c \<in> set base. cond \<notin> fst ` set c" "distinct base"
  shows "set (extend_counters cond rec base seen fs) = extensions cond base (cn_fields rec ` set fs - set seen) \<and>
    distinct (extend_counters cond rec base seen fs)"
proof (induction fs arbitrary: seen)
  case Nil
  then show ?case by (simp add: extensions_def)
next
  case (Cons f fs)
  let ?v = "cn_fields rec f"
  show ?case
  proof (cases "?v \<in> set seen")
    case True
    then have "cn_fields rec ` set (f # fs) - set seen = cn_fields rec ` set fs - set seen" by auto
    with True Cons [of seen] show ?thesis by simp
  next
    case False
    let ?new = "(if base = [] then [[(cond, ?v)]] else []) @ map (put_pair cond ?v) base"
    have put: "put_pair cond ?v c = c @ [(cond, ?v)]" if "c \<in> set base" for c
      using assms(1) that by (simp add: put_pair_new)
    have new: "set ?new = extensions cond base {?v}"
      using put by (auto simp: extensions_def)
    have "inj_on (put_pair cond ?v) (set base)"
      by (rule inj_onI) (simp add: put)
    then have dnew: "distinct ?new" using assms(2) by (auto simp: distinct_map)
    note IH = Cons [of "?v # seen"]
    have "set ?new \<inter> set (extend_counters cond rec base (?v # seen) fs) = {}"
      unfolding new using IH by (auto simp: extensions_def)
    moreover have "extensions cond base {?v} \<union> extensions cond base (cn_fields rec ` set fs - set (?v # seen)) =
        extensions cond base (cn_fields rec ` set (f # fs) - set seen)"
      using False by (auto simp: extensions_def)
    moreover have "extend_counters cond rec base seen (f # fs) = ?new @ extend_counters cond rec base (?v # seen) fs"
      using False by (simp add: Let_def)
    ultimately show ?thesis using IH dnew new by (simp only: set_append distinct_append)
  qed
qed

lemma split_on_nonempty: "split_on c s \<noteq> []"
  by (induction c s rule: split_on.induct) (auto split: list.splits)

definition choices :: "criteria \<Rightarrow> countable \<Rightarrow> counter_query set" where
  "choices crit rec = {q. map fst q = crit \<and> (\<forall>(cond, v) \<in> set q. v \<in> condition_values rec cond)}"

lemma choices_snoc: "choices (crit @ [cond]) rec = {q @ [(cond, v)] | q v. q \<in> choices crit rec \<and> v \<in> condition_values rec cond}"
proof (intro set_eqI iffI)
  fix q assume "q \<in> choices (crit @ [cond]) rec"
  then have q: "map fst q = crit @ [cond]" "\<forall>(cond, v) \<in> set q. v \<in> condition_values rec cond"
    by (simp_all add: choices_def)
  from q(1) obtain q' x where split: "q = q' @ [x]" by (cases q rule: rev_cases) auto
  with q show "q \<in> {q @ [(cond, v)] | q v. q \<in> choices crit rec \<and> v \<in> condition_values rec cond}"
    by (cases x) (auto simp: choices_def)
qed (auto simp: choices_def)

text \<open>
  A record contributes once to each combination of one value per condition: for the conditions of a
  criterion, each counter of the record pairs every condition with one of the values its fields have in
  the record, every such combination occurs, and none occurs twice (so that a transfer from an address
  to itself is counted once for it).
\<close>

theorem record_counters_choices:
  assumes "distinct crit" "crit \<noteq> []"
  shows "set (record_counters crit rec) = choices crit rec \<and> distinct (record_counters crit rec)"
proof -
  have "(if crit = [] then record_counters crit rec = []
      else set (record_counters crit rec) = choices crit rec \<and> record_counters crit rec \<noteq> [] \<and> distinct (record_counters crit rec))"
    using assms(1)
  proof (induction crit rule: rev_induct)
    case Nil
    then show ?case by (simp add: record_counters_def)
  next
    case (snoc cond crit)
    let ?base = "record_counters crit rec"
    have step: "record_counters (crit @ [cond]) rec = extend_counters cond rec ?base [] (split_on CHR ''|'' cond)"
      by (simp add: record_counters_def)
    have d: "distinct ?base" using snoc by (cases "crit = []") (simp_all add: record_counters_def)
    have eq: "(if crit = [] then ?base = [] else set ?base = choices crit rec \<and> ?base \<noteq> [])"
      using snoc by (cases "crit = []") simp_all
    have keys: "\<forall>c \<in> set ?base. cond \<notin> fst ` set c"
    proof
      fix c assume c: "c \<in> set ?base"
      show "cond \<notin> fst ` set c"
      proof (cases "crit = []")
        case True
        with c eq show ?thesis by simp
      next
        case False
        with c eq have "map fst c = crit" by (simp add: choices_def)
        then have "fst ` set c = set crit" by (metis list.set_map)
        with snoc.prems show ?thesis by simp
      qed
    qed
    have "set (record_counters (crit @ [cond]) rec) = extensions cond ?base (condition_values rec cond)"
      unfolding step using extend_counters_spec [OF keys d, of rec "[]"] by (simp add: condition_values_def)
    also have "\<dots> = choices (crit @ [cond]) rec"
      using eq unfolding choices_snoc extensions_def by (cases "crit = []") (auto simp: choices_def)
    finally have set: "set (record_counters (crit @ [cond]) rec) = choices (crit @ [cond]) rec" .
    have "condition_values rec cond \<noteq> {}" using split_on_nonempty by (simp add: condition_values_def)
    moreover have "crit \<noteq> [] \<Longrightarrow> choices crit rec \<noteq> {}" using eq by auto
    ultimately have "choices (crit @ [cond]) rec \<noteq> {}"
      unfolding choices_snoc by (cases "crit = []") (auto simp: choices_def)
    with set have "record_counters (crit @ [cond]) rec \<noteq> []" by auto
    with set extend_counters_spec [OF keys d, of rec "[]"] show ?case by (simp add: step)
  qed
  with assms(2) show ?thesis by simp
qed

text \<open>
  The counters computed for a batch of records agree with the reference count: for every query
  string, the number of (criterion, record, counter) triples that have it; the empty one counts the
  records.
\<close>

theorem calculate_counters_reference:
  "sum_list (map c_count (filter (\<lambda>r. c_queryString r = q) (calculateCounters tn recs crits))) =
     (if q = [] then int (length recs) else 0) +
     int (length [(crit, r, c). crit \<leftarrow> crits, r \<leftarrow> recs, c \<leftarrow> record_counters crit r, getQueryString c = q])"
proof -
  have one: "length [(crit, r, c). c \<leftarrow> cs, getQueryString c = q] = count_list (map getQueryString cs) q"
    for crit :: criteria and r :: countable and cs
    by (induction cs) auto
  have two: "length [(crit, r, c). r \<leftarrow> rs, c \<leftarrow> record_counters crit r, getQueryString c = q] =
      sum_list (map (\<lambda>r. count_list (map getQueryString (record_counters crit r)) q) rs)" for crit rs
    by (induction rs) (simp_all add: one)
  have three: "length [(crit, r, c). crit \<leftarrow> cs, r \<leftarrow> recs, c \<leftarrow> record_counters crit r, getQueryString c = q] =
      sum_list (map (\<lambda>crit. sum_list (map (\<lambda>r. count_list (map getQueryString (record_counters crit r)) q) recs)) cs)" for cs
    by (induction cs) (simp_all add: two)
  have swap: "sum_list (map (\<lambda>crit. sum_list (map (\<lambda>r. count_list (map getQueryString (record_counters crit r)) q) recs)) crits) =
      sum_list (map (\<lambda>r. sum_list (map (\<lambda>crit. count_list (map getQueryString (record_counters crit r)) q) crits)) recs)"
    by (rule sum_list_swap)
  have "ref_count crits q recs = (if q = [] then int (length recs) else 0) +
      int (sum_list (map (\<lambda>r. sum_list (map (\<lambda>crit. count_list (map getQueryString (record_counters crit r)) q) crits)) recs))"
    unfolding ref_count_def record_count_def by (induction recs) auto
  then show ?thesis
    using calculateCounters_count [of tn recs crits q] unfolding count_in_def three swap by simp
qed


theorem record_counters_choices_witness:
  "length (record_counters [''tokenAddress'', ''from|to'']
     \<lparr>cn_number = 1, cn_blockNumber = 1, cn_fields = (\<lambda>f. if f = ''tokenAddress'' then FNull else FStr ''0x0a'')\<rparr>) = 1 \<and>
   set (record_counters [''tokenAddress'', ''from|to'']
     \<lparr>cn_number = 1, cn_blockNumber = 1, cn_fields = (\<lambda>f. if f = ''tokenAddress'' then FNull else FStr ''0x0a'')\<rparr>) =
   choices [''tokenAddress'', ''from|to'']
     \<lparr>cn_number = 1, cn_blockNumber = 1, cn_fields = (\<lambda>f. if f = ''tokenAddress'' then FNull else FStr ''0x0a'')\<rparr>"
  (is "length (record_counters ?c ?r) = 1 \<and> _")
proof
  show "length (record_counters ?c ?r) = 1" by code_simp
  show "set (record_counters ?c ?r) = choices ?c ?r" using record_counters_choices [of ?c ?r] by simp
qed

end
