(* ===== verification/Worker_Unit_Of_Work.thy ===== *)
theory Worker_Unit_Of_Work
  imports Prelude
begin

text \<open>
  The unit of work (\<open>src/packages/worker/src/unitOfWork/unitOfWork.provider.ts\<close>): one query runner, the
  task that \<open>useTransaction\<close> starts on it, and the two functions its caller gets, \<open>commit\<close> and
  \<open>ensureRollbackIfNotCommitted\<close>. The caller may use them at any time, also while the action is still
  running, so the tasks interleave: a state holds what is left of each task, and a step is one call on
  the query runner. A call may fail.
\<close>

section \<open>States and steps\<close>

datatype runner_op = Connect | StartTransaction | CommitTransaction | RollbackTransaction | ReleaseRunner

text \<open>The task of \<open>useTransaction\<close>: what it waits for.\<close>

datatype execution = AtConnect | AtStart | AtAction | Settled

text \<open>The calls a \<open>commit\<close> or a \<open>rollback\<close> that has passed the check of \<open>isReleased\<close> still makes.\<close>

datatype closing = Committing | RollingBack | Releasing

record uow =
  automatic :: bool
  isReleased :: bool
  execution :: execution
  closings :: "closing list"
  runner_ops :: "(runner_op \<times> bool) list"

definition useTransaction :: "bool \<Rightarrow> uow" where
  "useTransaction preventAutomaticCommit = \<lparr>automatic = \<not> preventAutomaticCommit, isReleased = False,
     execution = AtConnect, closings = [], runner_ops = []\<rparr>"

definition runner_call :: "runner_op \<Rightarrow> bool \<Rightarrow> uow \<Rightarrow> uow" where
  "runner_call call ok s = s\<lparr>runner_ops := runner_ops s @ [(call, ok)]\<rparr>"

text \<open>
  The synchronous part of \<open>commit\<close> and \<open>rollback\<close>: the check and the assignment of \<open>isReleased\<close> happen
  before the first \<open>await\<close>. A second call throws or returns without effect.
\<close>

definition begin_closing :: "closing \<Rightarrow> uow \<Rightarrow> uow" where
  "begin_closing c s = (if isReleased s then s else s\<lparr>isReleased := True, closings := closings s @ [c]\<rparr>)"

definition uow_commit :: "uow \<Rightarrow> uow" where
  "uow_commit = begin_closing Committing"

definition uow_rollback :: "uow \<Rightarrow> uow" where
  "uow_rollback = begin_closing RollingBack"

text \<open>What is left of a closing task after its next call: \<open>try\<close>, \<open>catch\<close> and \<open>finally\<close>.\<close>

fun closing_op :: "closing \<Rightarrow> runner_op" where
  "closing_op Committing = CommitTransaction"
| "closing_op RollingBack = RollbackTransaction"
| "closing_op Releasing = ReleaseRunner"

fun after_closing :: "closing \<Rightarrow> bool \<Rightarrow> closing list" where
  "after_closing Committing ok = (if ok then [Releasing] else [RollingBack])"
| "after_closing RollingBack ok = [Releasing]"
| "after_closing Releasing ok = []"

definition after_action :: "bool \<Rightarrow> uow \<Rightarrow> uow" where
  "after_action ok s =
     (if \<not> ok then uow_rollback s else if automatic s then uow_commit s else s)\<lparr>execution := Settled\<rparr>"

inductive uow_step :: "uow \<Rightarrow> uow \<Rightarrow> bool" where
  connect: "execution s = AtConnect \<Longrightarrow>
     uow_step s (runner_call Connect ok (s\<lparr>execution := (if ok then AtStart else Settled)\<rparr>))"
| start: "execution s = AtStart \<Longrightarrow>
     uow_step s (runner_call StartTransaction ok (s\<lparr>execution := (if ok then AtAction else Settled)\<rparr>))"
| action: "execution s = AtAction \<Longrightarrow> uow_step s (after_action ok s)"
| client_commit: "uow_step s (uow_commit s)"
| client_rollback: "uow_step s (uow_rollback s)"
| closing: "closings s = us @ c # vs \<Longrightarrow>
     uow_step s (runner_call (closing_op c) ok (s\<lparr>closings := us @ after_closing c ok @ vs\<rparr>))"

inductive uow_reach :: "bool \<Rightarrow> uow \<Rightarrow> bool" for prevent where
  init: "uow_reach prevent (useTransaction prevent)"
| step: "uow_reach prevent s \<Longrightarrow> uow_step s t \<Longrightarrow> uow_reach prevent t"

section \<open>Closing a transaction\<close>

text \<open>The calls that end a transaction, with their outcomes, and the histories they may form.\<close>

definition ending :: "runner_op \<times> bool \<Rightarrow> bool" where
  "ending x \<longleftrightarrow> fst x \<in> {CommitTransaction, RollbackTransaction, ReleaseRunner}"

fun closing_history :: "(runner_op \<times> bool) list \<Rightarrow> closing list \<Rightarrow> bool" where
  "closing_history [] cs \<longleftrightarrow> cs = [Committing] \<or> cs = [RollingBack]"
| "closing_history [(CommitTransaction, ok)] cs \<longleftrightarrow> cs = (if ok then [Releasing] else [RollingBack])"
| "closing_history [(RollbackTransaction, ok)] cs \<longleftrightarrow> cs = [Releasing]"
| "closing_history [(CommitTransaction, False), (RollbackTransaction, ok)] cs \<longleftrightarrow> cs = [Releasing]"
| "closing_history [(CommitTransaction, True), (ReleaseRunner, ok)] cs \<longleftrightarrow> cs = []"
| "closing_history [(RollbackTransaction, _), (ReleaseRunner, ok)] cs \<longleftrightarrow> cs = []"
| "closing_history [(CommitTransaction, False), (RollbackTransaction, _), (ReleaseRunner, ok)] cs \<longleftrightarrow> cs = []"
| "closing_history _ cs \<longleftrightarrow> False"

definition uow_inv :: "uow \<Rightarrow> bool" where
  "uow_inv s \<longleftrightarrow>
     (if isReleased s then closing_history (filter ending (runner_ops s)) (closings s)
      else closings s = [] \<and> filter ending (runner_ops s) = [])"

lemma closing_history_step:
  assumes "closing_history h (us @ c # vs)"
  shows "closing_history (h @ [(closing_op c, ok)]) (us @ after_closing c ok @ vs)"
proof -
  have single: "us @ c # vs = [d] \<longleftrightarrow> us = [] \<and> vs = [] \<and> c = d" for d
    by (cases us) auto
  show ?thesis
    using assms
    by (induction h "us @ c # vs" rule: closing_history.induct)
      (auto simp: single split: if_splits)
qed

lemma begin_closing_inv: "c \<noteq> Releasing \<Longrightarrow> uow_inv s \<Longrightarrow> uow_inv (begin_closing c s)"
  by (cases c) (auto simp: uow_inv_def begin_closing_def)

lemma execution_inv [simp]: "uow_inv (s\<lparr>execution := e\<rparr>) = uow_inv s"
  by (simp add: uow_inv_def)

lemma runner_call_inv: "\<not> ending (call, ok) \<Longrightarrow> uow_inv (runner_call call ok s) = uow_inv s"
  by (simp add: uow_inv_def runner_call_def)

lemma uow_step_inv: "uow_step s t \<Longrightarrow> uow_inv s \<Longrightarrow> uow_inv t"
proof (induction rule: uow_step.induct)
  case (closing s us c vs ok)
  then have "isReleased s" "closing_history (filter ending (runner_ops s)) (us @ c # vs)"
    by (auto simp: uow_inv_def split: if_splits)
  moreover have "ending (closing_op c, ok)" by (cases c) (simp_all add: ending_def)
  ultimately show ?case
    using closing_history_step by (simp add: uow_inv_def runner_call_def)
qed (simp_all add: runner_call_inv ending_def after_action_def uow_commit_def uow_rollback_def begin_closing_inv)

lemma uow_reach_inv: "uow_reach p s \<Longrightarrow> uow_inv s"
  by (induction rule: uow_reach.induct) (auto simp: uow_inv_def useTransaction_def uow_step_inv [unfolded uow_inv_def])

text \<open>
  C31: However the caller uses a transaction, and whichever calls fail, the calls that end it are a
  commit and a release, a failed commit, a rollback and a release, or a rollback and a release, or the
  beginning of one of these: it is committed at most once, never both committed and rolled back, and
  its connection is released at most once, as the last call.
\<close>

theorem uow_closed_once:
  assumes "uow_reach prevent s"
  shows "\<exists>a b rest. filter ending (runner_ops s) @ rest \<in>
      {[(CommitTransaction, True), (ReleaseRunner, b)],
       [(RollbackTransaction, a), (ReleaseRunner, b)],
       [(CommitTransaction, False), (RollbackTransaction, a), (ReleaseRunner, b)]}
    \<and> (rest = [] \<or> \<not> isReleased s \<or> closings s \<noteq> [])"
proof -
  have history: "\<exists>a b rest. k @ rest \<in>
      {[(CommitTransaction, True), (ReleaseRunner, b)],
       [(RollbackTransaction, a), (ReleaseRunner, b)],
       [(CommitTransaction, False), (RollbackTransaction, a), (ReleaseRunner, b)]}
    \<and> (rest = [] \<or> cs \<noteq> [])" if "closing_history k cs" for k cs
    using that by (induction k cs rule: closing_history.induct) (auto split: if_splits)
  show ?thesis
  proof (cases "isReleased s")
    case True
    with uow_reach_inv [OF assms] history show ?thesis by (auto simp: uow_inv_def)
  next
    case False
    with uow_reach_inv [OF assms] show ?thesis by (auto simp: uow_inv_def)
  qed
qed

text \<open>The first closing task makes its next calls, with the given outcomes.\<close>

fun run_closings :: "bool list \<Rightarrow> uow \<Rightarrow> uow" where
  "run_closings [] s = s"
| "run_closings (ok # oks) s =
     (case closings s of
        [] \<Rightarrow> s
      | c # cs \<Rightarrow> run_closings oks (runner_call (closing_op c) ok (s\<lparr>closings := after_closing c ok @ cs\<rparr>)))"

lemma run_closings_reach: "uow_reach p s \<Longrightarrow> uow_reach p (run_closings oks s)"
proof (induction oks s rule: run_closings.induct)
  case (2 ok oks s)
  show ?case
  proof (cases "closings s")
    case (Cons c cs)
    with uow_step.closing [of s "[]" c cs ok] 2 show ?thesis by (simp add: uow_reach.step)
  qed (use 2 in simp)
qed simp

lemma run_closings_none: "closings s = [] \<Longrightarrow> closings (run_closings oks s) = []"
  by (cases oks) simp_all

lemma run_closings_single:
  "closings s = [Releasing] \<Longrightarrow> closings (run_closings (a # oks) s) = []"
  "closings s = [RollingBack] \<Longrightarrow> closings (run_closings (a # b # oks) s) = []"
  "closings s = [Committing] \<Longrightarrow> closings (run_closings (a # b # c # oks) s) = []"
  "isReleased (run_closings oks s) = isReleased s"
     apply (cases oks; simp add: runner_call_def)
    apply (cases oks; simp add: runner_call_def)
   apply (cases a; cases oks; simp add: runner_call_def)
  by (induction oks s rule: run_closings.induct) (simp_all add: runner_call_def split: list.splits)

lemma closings_cases:
  assumes "uow_inv s"
  shows "closings s \<in> {[], [Committing], [RollingBack], [Releasing]}"
proof -
  have "cs \<in> {[], [Committing], [RollingBack], [Releasing]}" if "closing_history k cs" for k cs
    using that by (induction k cs rule: closing_history.induct) (auto split: if_splits)
  with assms show ?thesis by (cases "isReleased s") (auto simp: uow_inv_def)
qed

text \<open>
  Once \<open>commit\<close> or \<open>ensureRollbackIfNotCommitted\<close> has been called, at most three further calls on
  the query runner, whatever their outcomes, release the connection.
\<close>

theorem uow_released_in_the_end:
  assumes "uow_reach prevent s"
  shows "(ReleaseRunner \<in> fst ` set (runner_ops (run_closings [a, b, c] (uow_commit s)))) \<and>
    (ReleaseRunner \<in> fst ` set (runner_ops (run_closings [a, b, c] (uow_rollback s))))"
proof -
  have released: "ReleaseRunner \<in> fst ` set (runner_ops (run_closings [a, b, c] t))"
    if t: "uow_reach prevent t" "isReleased t" for t
  proof -
    let ?u = "run_closings [a, b, c] t"
    have "closings ?u = []"
      using closings_cases [OF uow_reach_inv [OF t(1)]]
      by (auto simp: run_closings_none run_closings_single simp del: run_closings.simps)
    moreover have "uow_inv ?u" using run_closings_reach [OF t(1)] by (rule uow_reach_inv)
    moreover have "isReleased ?u" using t(2) by (simp only: run_closings_single)
    ultimately have h: "closing_history (filter ending (runner_ops ?u)) []"
      unfolding uow_inv_def by (simp only: if_True)
    have "ReleaseRunner \<in> fst ` set k" if "closing_history k []" for k
      using that by (cases "(k, [] :: closing list)" rule: closing_history.cases) (auto split: if_splits)
    from this [OF h] show ?thesis by (simp only: set_filter) blast
  qed
  have "uow_reach prevent (uow_commit s)" "uow_reach prevent (uow_rollback s)"
    using assms uow_step.client_commit uow_step.client_rollback by (blast intro: uow_reach.step)+
  moreover have "isReleased (uow_commit s)" "isReleased (uow_rollback s)"
    by (simp_all add: uow_commit_def uow_rollback_def begin_closing_def)
  ultimately show ?thesis using released by blast
qed

text \<open>
  A transaction that is to be committed automatically and whose \<open>startTransaction\<close> fails keeps its
  connection: the failure is outside the \<open>try\<close> block, and nothing releases the runner.
\<close>

lemma uow_leak:
  "\<exists>s. uow_reach False s \<and> execution s = Settled \<and> closings s = [] \<and>
     runner_ops s = [(Connect, True), (StartTransaction, False)]"
proof -
  let ?a = "useTransaction False"
  let ?b = "runner_call Connect True (?a\<lparr>execution := AtStart\<rparr>)"
  let ?c = "runner_call StartTransaction False (?b\<lparr>execution := Settled\<rparr>)"
  have "uow_step ?a ?b" using uow_step.connect [of ?a True] by (simp add: useTransaction_def)
  moreover have "uow_step ?b ?c"
    using uow_step.start [of ?b False] by (simp add: runner_call_def)
  ultimately have "uow_reach False ?c" by (blast intro: uow_reach.intros)
  then show ?thesis by (auto simp: runner_call_def useTransaction_def)
qed

section \<open>Concrete runs\<close>

text \<open>The caller commits while the runner is still connecting, and the commit fails.\<close>

definition demo_uow :: uow where
  "demo_uow = run_closings [False, True, True] (uow_commit (useTransaction True))"

lemma demo_uow_reach: "uow_reach True demo_uow"
  unfolding demo_uow_def
  by (intro run_closings_reach uow_reach.step [OF uow_reach.init uow_step.client_commit])

theorem uow_closed_once_witness:
  "filter ending (runner_ops demo_uow) =
     [(CommitTransaction, False), (RollbackTransaction, True), (ReleaseRunner, True)] \<and>
   (\<exists>a b rest. filter ending (runner_ops demo_uow) @ rest \<in>
      {[(CommitTransaction, True), (ReleaseRunner, b)],
       [(RollbackTransaction, a), (ReleaseRunner, b)],
       [(CommitTransaction, False), (RollbackTransaction, a), (ReleaseRunner, b)]}
    \<and> (rest = [] \<or> \<not> isReleased demo_uow \<or> closings demo_uow \<noteq> []))"
proof
  show "filter ending (runner_ops demo_uow) =
     [(CommitTransaction, False), (RollbackTransaction, True), (ReleaseRunner, True)]" by code_simp
qed (rule uow_closed_once [OF demo_uow_reach])

theorem uow_released_in_the_end_witness:
  "ReleaseRunner \<in> fst ` set (runner_ops (run_closings [False, False, True] (uow_commit (useTransaction True))))"
  using uow_released_in_the_end [OF uow_reach.init, of False False True True] by blast

end
