(* ===== verification/Worker_Retries.thy ===== *)
theory Worker_Retries
  imports Prelude
begin

text \<open>
  How the worker repeats calls to the node and to the data fetcher
  (\<open>blockchain/blockchain.service.ts\<close>, \<open>blockchain/retryableContract.ts\<close>,
  \<open>dataFetcher/dataFetcher.service.ts\<close>, \<open>rpcProvider/jsonRpcProviderExtended.ts\<close> under
  \<open>src/packages/worker/src\<close>). The answers of the other side to the successive attempts are a sequence,
  an argument of the definitions. A call that is repeated for ever has no value: the loops are partial
  functions, and that they return is a theorem about the sequence. The second component of a value is
  the list of the delays between the attempts.
\<close>

record ethers_error =
  er_code :: json
  er_shortMessage :: "string option"

section \<open>Repeating until success\<close>

partial_function (option) retry_until ::
  "('e \<Rightarrow> nat) \<Rightarrow> (nat \<Rightarrow> 'e + 'a) \<Rightarrow> nat \<Rightarrow> ('a \<times> nat list) option" where
  "retry_until delay attempt i =
     (case attempt i of
        Inr a \<Rightarrow> Some (a, [])
      | Inl e \<Rightarrow> Option.bind (retry_until delay attempt (i + 1)) (\<lambda>(a, ds). Some (a, delay e # ds)))"

definition errorCodesForQuickRetry :: "string list" where
  "errorCodesForQuickRetry = [''NETWORK_ERROR'', ''ECONNRESET'', ''ECONNREFUSED'', ''TIMEOUT'']"

definition rpc_delay :: "nat \<Rightarrow> nat \<Rightarrow> ethers_error \<Rightarrow> nat" where
  "rpc_delay quick usual e = (if er_code e \<in> JStr ` set errorCodesForQuickRetry then quick else usual)"

definition rpcCall :: "nat \<Rightarrow> nat \<Rightarrow> (nat \<Rightarrow> ethers_error + 'a) \<Rightarrow> ('a \<times> nat list) option" where
  "rpcCall quick usual action = retry_until (rpc_delay quick usual) action 0"

definition DATA_FETCHER_RETRY_TIMEOUT :: nat where
  "DATA_FETCHER_RETRY_TIMEOUT = 1000"

definition getBlocksDataRetryable :: "(int \<Rightarrow> int \<Rightarrow> nat \<Rightarrow> 'e + 'd list) \<Rightarrow> int \<Rightarrow> int \<Rightarrow> ('d list \<times> nat list) option" where
  "getBlocksDataRetryable fetch from to = retry_until (\<lambda>_. DATA_FETCHER_RETRY_TIMEOUT) (fetch from to) 0"

text \<open>\<open>blocksData[0]\<close> is \<open>undefined\<close> for an empty answer.\<close>

definition getBlockData :: "(int \<Rightarrow> int \<Rightarrow> nat \<Rightarrow> 'e + 'd list) \<Rightarrow> int \<Rightarrow> ('d option \<times> nat list) option" where
  "getBlockData fetch n =
     Option.bind (getBlocksDataRetryable fetch n n)
       (\<lambda>(blocks, ds). Some (case blocks of [] \<Rightarrow> None | b # _ \<Rightarrow> Some b, ds))"

lemma retry_until_first:
  "\<forall>j < k. \<exists>e. attempt (i + j) = Inl e \<Longrightarrow> attempt (i + k) = Inr a \<Longrightarrow>
     retry_until delay attempt i = Some (a, map (\<lambda>j. delay (projl (attempt (i + j)))) [0..<k])"
proof (induction k arbitrary: i)
  case 0
  then show ?case by (simp add: retry_until.simps)
next
  case (Suc k)
  from Suc.prems(1) obtain e where e: "attempt i = Inl e" by force
  have "\<forall>j < k. \<exists>e. attempt (Suc i + j) = Inl e" using Suc.prems(1) by (metis Suc_less_eq add_Suc_shift)
  moreover have "attempt (Suc i + k) = Inr a" using Suc.prems(2) by simp
  ultimately have "retry_until delay attempt (Suc i) =
      Some (a, map (\<lambda>j. delay (projl (attempt (Suc i + j)))) [0..<k])" by (rule Suc.IH)
  then show ?case
    by (subst retry_until.simps) (simp add: e map_upt_Suc del: upt_Suc)
qed

lemma retry_until_returns:
  assumes "retry_until delay attempt i = Some r"
  shows "\<exists>k a. attempt (i + k) = Inr a"
proof (rule retry_until.raw_induct [where P = "\<lambda>d f i r. \<exists>k a. f (i + k) = Inr a", OF _ assms], goal_cases)
  case (1 f d att j r)
  show ?case
  proof (cases "att j")
    case (Inl e)
    with 1(2) obtain a ds where "f d att (j + 1) = Some (a, ds)"
      by (auto split: bind_splits)
    from 1(1) [OF this] obtain k b where "att (j + 1 + k) = Inr b" by auto
    then show ?thesis by (metis add.assoc)
  next
    case (Inr a)
    then show ?thesis by (metis add.right_neutral)
  qed
qed

text \<open>
  A call to the node returns exactly when one of its attempts succeeds: then with the value of the
  first that does, after the quick delay for each earlier attempt that failed with a network error and
  the usual one for each other; when no attempt ever succeeds, it never returns.
\<close>

theorem rpcCall_returns:
  "(\<forall>k a. (\<forall>j < k. \<exists>e. action j = Inl e) \<and> action k = Inr a \<longrightarrow>
      rpcCall quick usual action = Some (a, map (\<lambda>j. rpc_delay quick usual (projl (action j))) [0..<k])) \<and>
   (rpcCall quick usual action = None \<longleftrightarrow> (\<forall>k. \<exists>e. action k = Inl e))"
proof -
  have first: "rpcCall quick usual action = Some (a, map (\<lambda>j. rpc_delay quick usual (projl (action j))) [0..<k])"
    if "\<forall>j < k. \<exists>e. action j = Inl e" "action k = Inr a" for k a
    using retry_until_first [of k action 0 a] that by (simp add: rpcCall_def)
  have "\<forall>k. \<exists>e. action k = Inl e" if none: "rpcCall quick usual action = None"
  proof (rule ccontr)
    assume "\<not> (\<forall>k. \<exists>e. action k = Inl e)"
    then have "\<exists>k. \<not> (\<exists>e. action k = Inl e)" by blast
    from LeastI_ex [OF this] have least: "\<not> (\<exists>e. action (LEAST k. \<not> (\<exists>e. action k = Inl e)) = Inl e)" .
    let ?k = "LEAST k. \<not> (\<exists>e. action k = Inl e)"
    have before: "\<forall>j < ?k. \<exists>e. action j = Inl e" using not_less_Least by blast
    from least obtain a where "action ?k = Inr a" by (cases "action ?k") auto
    from first [OF before this] none show False by simp
  qed
  moreover have "rpcCall quick usual action = None" if "\<forall>k. \<exists>e. action k = Inl e"
  proof (rule ccontr)
    assume "rpcCall quick usual action \<noteq> None"
    then obtain r where "retry_until (rpc_delay quick usual) action 0 = Some r" by (auto simp: rpcCall_def)
    from retry_until_returns [OF this] that show False by (metis sum.distinct(1))
  qed
  ultimately show ?thesis using first by blast
qed

theorem rpcCall_returns_witness:
  "rpcCall 500 30000
     (\<lambda>i. if i = 0 then Inl \<lparr>er_code = JStr ''TIMEOUT'', er_shortMessage = None\<rparr>
          else if i = 1 then Inl \<lparr>er_code = JNum 3, er_shortMessage = None\<rparr> else Inr (7::int)) = Some (7, [500, 30000])"
  (is "rpcCall 500 30000 ?a = _")
proof -
  have "(\<forall>j < 2. \<exists>e. ?a j = Inl e) \<and> ?a 2 = Inr 7" by (auto simp: less_Suc_eq numeral_2_eq_2)
  then have "rpcCall 500 30000 ?a = Some (7, map (\<lambda>j. rpc_delay 500 30000 (projl (?a j))) [0..<2])"
    using rpcCall_returns [where action = ?a and quick = 500 and usual = 30000] by blast
  also have "\<dots> = Some (7, [500, 30000])"
    by (simp add: numeral_2_eq_2 rpc_delay_def errorCodesForQuickRetry_def)
  finally show ?thesis .
qed

section \<open>retryableContract.ts\<close>

definition MAX_RETRY_INTERVAL :: nat where
  "MAX_RETRY_INTERVAL = 60000"

definition PERMANENT_ERRORS :: "string list" where
  "PERMANENT_ERRORS = [''INVALID_ARGUMENT'', ''MISSING_ARGUMENT'', ''UNEXPECTED_ARGUMENT'', ''NOT_IMPLEMENTED'']"

definition message_starts :: "ethers_error \<Rightarrow> string \<Rightarrow> bool" where
  "message_starts e p = (case er_shortMessage e of None \<Rightarrow> False | Some m \<Rightarrow> starts_with m p)"

definition shouldRetry :: "ethers_error \<Rightarrow> bool" where
  "shouldRetry e \<longleftrightarrow>
     er_code e \<notin> JStr ` set PERMANENT_ERRORS \<and>
     \<not> (er_code e = JNum 3 \<and> message_starts e ''execution reverted'') \<and>
     \<not> (er_code e = JStr ''BAD_DATA'' \<and> message_starts e ''could not decode result data'')"

partial_function (option) retryableFunctionCall ::
  "(nat \<Rightarrow> ethers_error + 'a) \<Rightarrow> nat \<Rightarrow> nat \<Rightarrow> ((ethers_error + 'a) \<times> nat list) option" where
  "retryableFunctionCall result i retryTimeout =
     (case result i of
        Inr a \<Rightarrow> Some (Inr a, [])
      | Inl e \<Rightarrow>
          if \<not> shouldRetry e then Some (Inl e, [])
          else Option.bind (retryableFunctionCall result (i + 1) (min (retryTimeout * 2) MAX_RETRY_INTERVAL))
                 (\<lambda>(r, ds). Some (r, retryTimeout # ds)))"

definition settles :: "ethers_error + 'a \<Rightarrow> bool" where
  "settles r = (case r of Inr a \<Rightarrow> True | Inl e \<Rightarrow> \<not> shouldRetry e)"

fun retry_timeouts :: "nat \<Rightarrow> nat \<Rightarrow> nat list" where
  "retry_timeouts t 0 = []"
| "retry_timeouts t (Suc n) = t # retry_timeouts (min (t * 2) MAX_RETRY_INTERVAL) n"

lemma retryable_first:
  "\<forall>j < k. \<not> settles (result (i + j)) \<Longrightarrow> settles (result (i + k)) \<Longrightarrow>
     retryableFunctionCall result i t = Some (result (i + k), retry_timeouts t k)"
proof (induction k arbitrary: i t)
  case 0
  then show ?case
    by (subst retryableFunctionCall.simps) (auto simp: settles_def split: sum.splits)
next
  case (Suc k)
  from Suc.prems(1) have "\<not> settles (result (i + 0))" by blast
  then obtain e where e: "result i = Inl e" "shouldRetry e" by (auto simp: settles_def split: sum.splits)
  have "\<forall>j < k. \<not> settles (result (Suc i + j))" using Suc.prems(1) by (metis Suc_less_eq add_Suc_shift)
  moreover have "settles (result (Suc i + k))" using Suc.prems(2) by simp
  ultimately have "retryableFunctionCall result (Suc i) (min (t * 2) MAX_RETRY_INTERVAL) =
      Some (result (Suc i + k), retry_timeouts (min (t * 2) MAX_RETRY_INTERVAL) k)" by (rule Suc.IH)
  then show ?case by (subst retryableFunctionCall.simps) (simp add: e)
qed

lemma retry_timeouts_nth: "t \<le> MAX_RETRY_INTERVAL \<Longrightarrow> i < n \<Longrightarrow>
  retry_timeouts t n ! i = min (t * 2 ^ i) MAX_RETRY_INTERVAL"
proof (induction n arbitrary: t i)
  case (Suc n)
  show ?case
  proof (cases i)
    case (Suc j)
    have "min (min (t * 2) M * 2 ^ j) M = min (t * 2 * 2 ^ j) M" for M :: nat
    proof (cases "t * 2 \<le> M")
      case False
      have one: "(1::nat) \<le> 2 ^ j" by simp
      have "min (M * 2 ^ j) M = M" by (rule min_absorb2) (use mult_le_mono2 [OF one, of M] in simp)
      moreover have "min (t * 2 * 2 ^ j) M = M"
        by (rule min_absorb2) (use False mult_le_mono2 [OF one, of "t * 2"] in linarith)
      moreover have "min (t * 2) M = M" using False by simp
      ultimately show ?thesis by (simp only:)
    qed (simp add: min_def)
    with Suc Suc.IH [of "min (t * 2) MAX_RETRY_INTERVAL" j] Suc.prems show ?thesis
      by (simp add: mult.assoc)
  qed (use Suc.prems in simp)
qed simp

text \<open>
  A contract call returns the first answer that is a value or a permanent error, and waits before
  each further attempt for the initial time, doubled every time up to a minute.
\<close>

theorem contract_call_settles:
  assumes "\<forall>j < k. \<not> settles (result j)" "settles (result k)" "retryTimeout \<le> MAX_RETRY_INTERVAL"
  shows "\<exists>ds. retryableFunctionCall result 0 retryTimeout = Some (result k, ds) \<and> length ds = k \<and>
    (\<forall>i < k. ds ! i = min (retryTimeout * 2 ^ i) MAX_RETRY_INTERVAL)"
proof -
  have "length (retry_timeouts t n) = n" for t n by (induction n arbitrary: t) auto
  with retryable_first [of k result 0 retryTimeout] retry_timeouts_nth [OF assms(3)] assms(1,2) show ?thesis
    by auto
qed

theorem contract_call_settles_witness:
  "\<exists>ds. retryableFunctionCall (\<lambda>i. if i < 3 then Inl \<lparr>er_code = JStr ''TIMEOUT'', er_shortMessage = None\<rparr>
       else Inl \<lparr>er_code = JNum 3, er_shortMessage = Some ''execution reverted: no''\<rparr> :: ethers_error + int) 0 1000 =
     Some (Inl \<lparr>er_code = JNum 3, er_shortMessage = Some ''execution reverted: no''\<rparr>, ds) \<and> length ds = 3 \<and>
     (\<forall>i < 3. ds ! i = min (1000 * 2 ^ i) MAX_RETRY_INTERVAL)"
  (is "\<exists>ds. retryableFunctionCall ?r 0 1000 = _ \<and> _ \<and> _")
proof -
  have "\<forall>j < 3. \<not> settles (?r j)"
    by (simp add: settles_def shouldRetry_def PERMANENT_ERRORS_def)
  moreover have "settles (?r 3)" by code_simp
  moreover have "1000 \<le> MAX_RETRY_INTERVAL" by (simp add: MAX_RETRY_INTERVAL_def)
  ultimately show ?thesis using contract_call_settles [of 3 ?r 1000] by simp
qed

section \<open>jsonRpcProviderExtended.ts\<close>

text \<open>
  A request is sent a second time when the first is not answered within the quick timeout. An answer is
  the time it takes and what it is; \<open>None\<close> is no answer at all.
\<close>

definition send_extended :: "nat \<Rightarrow> (nat \<times> 'r) option \<Rightarrow> (nat \<times> 'r) option \<Rightarrow> (nat \<times> 'r) option" where
  "send_extended connectionQuickTimeout first second =
     (case first of
        Some (t, r) \<Rightarrow> if t < connectionQuickTimeout then Some (t, r)
          else map_option (\<lambda>(u, q). (connectionQuickTimeout + u, q)) second
      | None \<Rightarrow> map_option (\<lambda>(u, q). (connectionQuickTimeout + u, q)) second)"

end
