(* ===== verification/Worker_Balances.thy ===== *)
theory Worker_Balances
  imports Worker_Counters
begin

text \<open>
  Balances (\<open>src/packages/worker/src/balance\<close> and \<open>repositories/balance.repository.ts\<close>): saving the
  changed balances of a block, and the cleaner that deletes superseded and zero balances of verified
  blocks. A statement that may fail has an argument that says whether it does.
\<close>

section \<open>balance.repository.ts\<close>

abbreviation bl_key :: "balance_row \<Rightarrow> string \<times> string" where
  "bl_key b \<equiv> (bl_address b, bl_tokenAddress b)"

definition in_range :: "int \<Rightarrow> int \<Rightarrow> balance_row \<Rightarrow> bool" where
  "in_range from to b \<longleftrightarrow> bl_blockNumber b > from \<and> bl_blockNumber b \<le> to"

text \<open>
  \<open>DELETE FROM balances USING (...)\<close>: a row goes when one of the selected rows makes the condition true.
  The latest balances of the range per address and token, and its zero balances.
\<close>

definition latest_balances_to_leave :: "int \<Rightarrow> int \<Rightarrow> balance_row list \<Rightarrow> ((string \<times> string) \<times> int) list" where
  "latest_balances_to_leave from to rows =
     (let rs = filter (in_range from to) rows in
      map (\<lambda>k. (k, Max (bl_blockNumber ` set (filter (\<lambda>b. bl_key b = k) rs)))) (remdups (map bl_key rs)))"

definition deleteOldBalances_rows :: "int \<Rightarrow> int \<Rightarrow> balance_row list \<Rightarrow> balance_row list" where
  "deleteOldBalances_rows from to rows =
     filter (\<lambda>b. \<not> (\<exists>(k, n) \<in> set (latest_balances_to_leave from to rows). bl_key b = k \<and> bl_blockNumber b < n)) rows"

definition deleteZeroBalances_rows :: "int \<Rightarrow> int \<Rightarrow> balance_row list \<Rightarrow> balance_row list" where
  "deleteZeroBalances_rows from to rows =
     (let zs = filter (\<lambda>b. in_range from to b \<and> bl_balance b = ''0'') rows in
      filter (\<lambda>b. \<not> (\<exists>z \<in> set zs. bl_key b = bl_key z \<and> bl_blockNumber b \<le> bl_blockNumber z)) rows)"

definition db_statement :: "bool \<Rightarrow> ('z db_scheme \<Rightarrow> 'z db_scheme) \<Rightarrow> ('z db_scheme, unit) act" where
  "db_statement fails f = (if fails then throw db_error else modify f)"

definition BalanceRepository_deleteOldBalances :: "bool \<Rightarrow> int \<Rightarrow> int \<Rightarrow> ('z db_scheme, unit) act" where
  "BalanceRepository_deleteOldBalances fails from to =
     db_statement fails (\<lambda>s. s\<lparr>balances := deleteOldBalances_rows from to (balances s)\<rparr>)"

definition BalanceRepository_deleteZeroBalances :: "bool \<Rightarrow> int \<Rightarrow> int \<Rightarrow> ('z db_scheme, unit) act" where
  "BalanceRepository_deleteZeroBalances fails from to =
     db_statement fails (\<lambda>s. s\<lparr>balances := deleteZeroBalances_rows from to (balances s)\<rparr>)"

definition getDeleteBalancesFromBlockNumber :: "('z db_scheme, int) act" where
  "getDeleteBalancesFromBlockNumber = gets delete_balances_from"

definition setDeleteBalancesFromBlockNumber :: "bool \<Rightarrow> int \<Rightarrow> ('z db_scheme, unit) act" where
  "setDeleteBalancesFromBlockNumber fails n = db_statement fails (\<lambda>s. s\<lparr>delete_balances_from := n\<rparr>)"

section \<open>balance.service.ts\<close>

definition saveChangedBalances :: "changed_balance list \<Rightarrow> ('z db_scheme, unit) act" where
  "saveChangedBalances changed = addMany ins_balance changed"

text \<open>A \<open>Set\<close> keeps the first occurrence of each element.\<close>

fun set_add :: "'a \<Rightarrow> 'a list \<Rightarrow> 'a list" where
  "set_add x xs = (if x \<in> set xs then xs else xs @ [x])"

definition getERC20TokensForChangedBalances :: "changed_balance list \<Rightarrow> string list" where
  "getERC20TokensForChangedBalances changed =
     fold (\<lambda>c ts. if cb_tokenType c = ERC20 then set_add (cb_tokenAddress c) ts else ts) changed []"

definition BalanceService_deleteOldBalances :: "bool \<Rightarrow> int \<Rightarrow> int \<Rightarrow> ('z db_scheme, unit) act" where
  "BalanceService_deleteOldBalances fails from to =
     catch (BalanceRepository_deleteOldBalances fails from to) (\<lambda>_. ret ())"

definition BalanceService_deleteZeroBalances :: "bool \<Rightarrow> int \<Rightarrow> int \<Rightarrow> ('z db_scheme, unit) act" where
  "BalanceService_deleteZeroBalances fails from to =
     catch (BalanceRepository_deleteZeroBalances fails from to) (\<lambda>_. ret ())"

section \<open>balancesCleaner.service.ts\<close>

text \<open>One round of \<open>runProcess\<close>, up to the wait; the arguments say which of the statements fail.\<close>

definition clean_balances :: "bool \<Rightarrow> bool \<Rightarrow> bool \<Rightarrow> ('z db_scheme, unit) act" where
  "clean_balances f1 f2 f3 =
     bind getLastExecutedBlockNumber (\<lambda>lastVerified.
     bind getDeleteBalancesFromBlockNumber (\<lambda>lastRun.
     if lastVerified > lastRun then
       bind (BalanceService_deleteOldBalances f1 lastRun lastVerified) (\<lambda>_.
       bind (BalanceService_deleteZeroBalances f2 lastRun lastVerified) (\<lambda>_.
       setDeleteBalancesFromBlockNumber f3 lastVerified))
     else ret ()))"

section \<open>What cleaning keeps\<close>

lemma last_by_None [simp]: "last_by key xs = None \<longleftrightarrow> xs = []"
  by (induction xs) (auto split: option.splits)

lemma last_by_max: "last_by key xs = Some b \<Longrightarrow> b \<in> set xs \<and> (\<forall>x \<in> set xs. key x \<le> key b)"
  by (induction xs arbitrary: b) (fastforce split: option.splits if_splits)+

lemma last_by_unique:
  assumes "inj_on key (set xs)" "b \<in> set xs" "\<forall>x \<in> set xs. key x \<le> key b"
  shows "last_by key xs = Some b"
proof (cases "last_by key xs")
  case None
  with assms(2) show ?thesis by auto
next
  case (Some c)
  with last_by_max [OF Some] assms show ?thesis by (metis antisym inj_onD)
qed

text \<open>The balance a key has as of a block: that of its latest row; without one it is zero.\<close>

definition rows_as_of :: "balance_row list \<Rightarrow> string \<times> string \<Rightarrow> int \<Rightarrow> balance_row list" where
  "rows_as_of rows k n = filter (\<lambda>b. bl_key b = k \<and> bl_blockNumber b \<le> n) rows"

definition balance_as_of :: "balance_row list \<Rightarrow> string \<times> string \<Rightarrow> int \<Rightarrow> string" where
  "balance_as_of rows k n =
     (case last_by bl_blockNumber (rows_as_of rows k n) of None \<Rightarrow> ''0'' | Some b \<Rightarrow> bl_balance b)"

definition balance_keys :: "balance_row list \<Rightarrow> bool" where
  "balance_keys rows \<longleftrightarrow> distinct (map (\<lambda>b. (bl_address b, bl_tokenAddress b, bl_blockNumber b)) rows)"

lemma balance_keys_filter: "balance_keys rows \<Longrightarrow> balance_keys (filter P rows)"
  by (simp add: balance_keys_def distinct_map inj_on_def)

lemma rows_as_of_inj: "balance_keys rows \<Longrightarrow> inj_on bl_blockNumber (set (rows_as_of rows k n))"
  by (auto simp: balance_keys_def rows_as_of_def distinct_map intro!: inj_onI dest: inj_onD)

text \<open>
  Deleting rows leaves a balance alone when the latest row stays, or when it is a zero balance that goes
  with everything before it.
\<close>

lemma balance_as_of_filter:
  assumes "balance_keys rows"
    and "\<And>b. last_by bl_blockNumber (rows_as_of rows k n) = Some b \<Longrightarrow>
      P b \<or> bl_balance b = ''0'' \<and> (\<forall>c \<in> set (rows_as_of rows k n). \<not> P c)"
  shows "balance_as_of (filter P rows) k n = balance_as_of rows k n"
proof -
  have sub: "rows_as_of (filter P rows) k n = filter P (rows_as_of rows k n)"
    by (simp add: rows_as_of_def conj_commute)
  show ?thesis
  proof (cases "last_by bl_blockNumber (rows_as_of rows k n)")
    case None
    then show ?thesis by (simp add: balance_as_of_def sub)
  next
    case (Some b)
    note b = last_by_max [OF Some]
    from assms(2) [OF Some] show ?thesis
    proof
      assume "P b"
      have "inj_on bl_blockNumber (set (filter P (rows_as_of rows k n)))"
        by (rule inj_on_subset [OF rows_as_of_inj [OF assms(1), of k n]]) auto
      then have "last_by bl_blockNumber (filter P (rows_as_of rows k n)) = Some b"
        using b \<open>P b\<close> by (intro last_by_unique) auto
      with Some show ?thesis by (simp add: balance_as_of_def sub)
    next
      assume zero: "bl_balance b = ''0'' \<and> (\<forall>c \<in> set (rows_as_of rows k n). \<not> P c)"
      then have "filter P (rows_as_of rows k n) = []" by (simp add: filter_empty_conv)
      with Some zero show ?thesis by (simp add: balance_as_of_def sub)
    qed
  qed
qed

lemma latest_balances_to_leave_iff:
  "(k, m) \<in> set (latest_balances_to_leave from to rows) \<longleftrightarrow>
     (\<exists>b \<in> set rows. in_range from to b \<and> bl_key b = k \<and> bl_blockNumber b = m \<and>
        (\<forall>c \<in> set rows. in_range from to c \<and> bl_key c = k \<longrightarrow> bl_blockNumber c \<le> m))"
  (is "?L \<longleftrightarrow> ?R")
proof -
  let ?S = "bl_blockNumber ` {b \<in> set rows. in_range from to b \<and> bl_key b = k}"
  have "?L \<longleftrightarrow> ?S \<noteq> {} \<and> m = Max ?S"
    by (auto simp: latest_balances_to_leave_def Let_def conj_assoc)
  also have "\<dots> \<longleftrightarrow> ?S \<noteq> {} \<and> m \<in> ?S \<and> (\<forall>x \<in> ?S. x \<le> m)"
  proof (cases "?S = {}")
    case False
    have fin: "finite ?S" by simp
    show ?thesis unfolding eq_commute [of m] Max_eq_iff [OF fin False] using False by simp
  qed simp
  also have "\<dots> \<longleftrightarrow> ?R" by auto
  finally show ?thesis .
qed

lemma deleteOldBalances_keeps_balance:
  assumes "balance_keys rows" "to \<le> n"
  shows "balance_as_of (deleteOldBalances_rows from to rows) k n = balance_as_of rows k n"
  unfolding deleteOldBalances_rows_def
proof (rule balance_as_of_filter [OF assms(1)])
  fix b assume "last_by bl_blockNumber (rows_as_of rows k n) = Some b"
  from last_by_max [OF this] have "\<not> (\<exists>(k, m) \<in> set (latest_balances_to_leave from to rows). bl_key b = k \<and> bl_blockNumber b < m)"
    using assms(2) by (fastforce simp: latest_balances_to_leave_iff in_range_def rows_as_of_def)
  then show "\<not> (\<exists>(k, m) \<in> set (latest_balances_to_leave from to rows). bl_key b = k \<and> bl_blockNumber b < m) \<or>
      bl_balance b = ''0'' \<and> (\<forall>c \<in> set (rows_as_of rows k n).
        \<not> \<not> (\<exists>(k, m) \<in> set (latest_balances_to_leave from to rows). bl_key c = k \<and> bl_blockNumber c < m))"
    by (rule disjI1)
qed

lemma deleteZeroBalances_keeps_balance:
  assumes "balance_keys rows" "to \<le> n"
  shows "balance_as_of (deleteZeroBalances_rows from to rows) k n = balance_as_of rows k n"
  unfolding deleteZeroBalances_rows_def Let_def
proof (rule balance_as_of_filter [OF assms(1)])
  let ?goes = "\<lambda>b. \<exists>z \<in> set (filter (\<lambda>b. in_range from to b \<and> bl_balance b = ''0'') rows).
    bl_key b = bl_key z \<and> bl_blockNumber b \<le> bl_blockNumber z"
  fix b assume b: "last_by bl_blockNumber (rows_as_of rows k n) = Some b"
  note max = last_by_max [OF b]
  show "\<not> ?goes b \<or> bl_balance b = ''0'' \<and> (\<forall>c \<in> set (rows_as_of rows k n). \<not> \<not> ?goes c)"
  proof (cases "?goes b")
    case True
    then obtain z where z: "z \<in> set rows" "in_range from to z" "bl_balance z = ''0''"
      "bl_key b = bl_key z" "bl_blockNumber b \<le> bl_blockNumber z" by auto
    with max assms(2) have zr: "z \<in> set (rows_as_of rows k n)" by (auto simp: rows_as_of_def in_range_def)
    with max z(5) have "bl_blockNumber z = bl_blockNumber b" by (simp add: antisym)
    with zr max have "z = b" using rows_as_of_inj [OF assms(1)] by (blast dest: inj_onD)
    with z max show ?thesis by (fastforce simp: rows_as_of_def)
  qed simp
qed

definition clean_rows :: "bool \<Rightarrow> bool \<Rightarrow> int \<Rightarrow> int \<Rightarrow> balance_row list \<Rightarrow> balance_row list" where
  "clean_rows f1 f2 from to rows =
     (let r1 = (if f1 then rows else deleteOldBalances_rows from to rows)
      in if f2 then r1 else deleteZeroBalances_rows from to r1)"

lemma clean_balances_run:
  "clean_balances f1 f2 f3 s =
     (if last_executed s > delete_balances_from s then
        (let t = s\<lparr>balances := clean_rows f1 f2 (delete_balances_from s) (last_executed s) (balances s)\<rparr>
         in if f3 then (t, Inl db_error) else (t\<lparr>delete_balances_from := last_executed s\<rparr>, Inr ()))
      else (s, Inr ()))"
  by (simp add: clean_balances_def clean_rows_def getLastExecutedBlockNumber_def getDeleteBalancesFromBlockNumber_def
      setDeleteBalancesFromBlockNumber_def BalanceService_deleteOldBalances_def BalanceService_deleteZeroBalances_def
      BalanceRepository_deleteOldBalances_def BalanceRepository_deleteZeroBalances_def db_statement_def
      bind_def catch_def act_simps Let_def)

text \<open>
  C11: Cleaning never changes a balance anybody can still ask for: whichever of its statements fail, the
  balance of every address and token as of every block from the last executed one on is the same before
  and after a round, where a missing row means zero.
\<close>

theorem cleaner_keeps_balances:
  assumes "db_ok s" "last_executed s \<le> n"
  shows "balance_as_of (balances (fst (clean_balances f1 f2 f3 s))) k n = balance_as_of (balances s) k n"
proof -
  let ?from = "delete_balances_from s" and ?to = "last_executed s"
  have keys: "balance_keys (balances s)"
    using assms(1) by (simp add: db_ok_def keys_ok_def balance_keys_def)
  moreover have "balance_keys (deleteOldBalances_rows ?from ?to (balances s))"
    using keys by (simp add: deleteOldBalances_rows_def balance_keys_filter)
  ultimately have "balance_as_of (clean_rows f1 f2 ?from ?to (balances s)) k n = balance_as_of (balances s) k n"
    using assms(2) by (simp add: clean_rows_def Let_def deleteOldBalances_keeps_balance deleteZeroBalances_keeps_balance)
  then show ?thesis by (simp add: clean_balances_run Let_def)
qed

text \<open>
  A round whose statements succeed leaves, of the blocks it covers, no zero balance and no balance
  that a later one of the same address and token supersedes, and moves the starting block of the next
  round to the last executed one.
\<close>

theorem cleaner_cleans:
  assumes "delete_balances_from s < last_executed s" "clean_balances False False False s = (t, r)"
  shows "r = Inr () \<and> delete_balances_from t = last_executed s \<and>
    (\<forall>b \<in> set (balances t). in_range (delete_balances_from s) (last_executed s) b \<longrightarrow>
       bl_balance b \<noteq> ''0'' \<and> \<not> (\<exists>c \<in> set (balances t). bl_key c = bl_key b \<and> bl_blockNumber c < bl_blockNumber b))"
proof -
  let ?from = "delete_balances_from s" and ?to = "last_executed s"
  let ?old = "deleteOldBalances_rows ?from ?to (balances s)"
  have t: "r = Inr ()" "delete_balances_from t = ?to" "balances t = deleteZeroBalances_rows ?from ?to ?old"
    using assms by (auto simp: clean_balances_run clean_rows_def Let_def)
  have "bl_balance b \<noteq> ''0''" if "b \<in> set (balances t)" "in_range ?from ?to b" for b
    using that by (auto simp: t deleteZeroBalances_rows_def Let_def)
  moreover have "\<not> bl_blockNumber c < bl_blockNumber b"
    if b: "b \<in> set (balances t)" "in_range ?from ?to b" and c: "c \<in> set (balances t)" "bl_key c = bl_key b" for b c
  proof
    assume less: "bl_blockNumber c < bl_blockNumber b"
    have rows: "b \<in> set (balances s)" "c \<in> set ?old"
      using b c by (auto simp: t deleteZeroBalances_rows_def deleteOldBalances_rows_def Let_def)
    let ?S = "bl_blockNumber ` {x \<in> set (balances s). in_range ?from ?to x \<and> bl_key x = bl_key b}"
    have ne: "?S \<noteq> {}" and fin: "finite ?S" using rows b(2) by auto
    have "bl_blockNumber b \<le> Max ?S" using rows b(2) by (intro Max_ge [OF fin]) auto
    moreover have "(bl_key b, Max ?S) \<in> set (latest_balances_to_leave ?from ?to (balances s))"
      unfolding latest_balances_to_leave_iff using Max_in [OF fin ne] Max_ge [OF fin] by fastforce
    ultimately show False
      using rows(2) less c(2) by (fastforce simp: deleteOldBalances_rows_def)
  qed
  ultimately show ?thesis using t(1,2) by blast
qed

section \<open>What the rest keeps\<close>

lemma save_balances_keeps [intro!]: "keeps db_ok (saveChangedBalances bs)"
  unfolding saveChangedBalances_def by (rule balance_table.addMany_keeps)

lemma fewer_balances_ok: "db_ok s \<Longrightarrow> db_ok (s\<lparr>balances := filter P (balances s)\<rparr>)"
  unfolding db_ok_def fk_ok_def keys_ok_def by (simp add: distinct_map inj_on_def)

lemma clean_rows_filter: "\<exists>P. clean_rows f1 f2 from to rows = filter P rows"
proof -
  have "\<exists>P. rows = filter P rows" by (rule exI [of _ "\<lambda>_. True"]) simp
  then show ?thesis
    by (auto simp: clean_rows_def deleteOldBalances_rows_def deleteZeroBalances_rows_def Let_def)
qed

lemma clean_balances_keeps [intro!]: "keeps db_ok (clean_balances f1 f2 f3)"
proof -
  have "db_ok (s\<lparr>balances := clean_rows f1 f2 lo hi (balances s)\<rparr>)" if "db_ok s" for s :: "'a db_scheme" and lo hi
    using clean_rows_filter [of f1 f2 lo hi "balances s"] fewer_balances_ok [OF that] by metis
  then show ?thesis
    by (simp add: keeps_def clean_balances_run Let_def)
      (simp add: db_ok_def fk_ok_def keys_ok_def)
qed

lemma erc20_tokens:
  "set (getERC20TokensForChangedBalances cs) = {cb_tokenAddress c | c. c \<in> set cs \<and> cb_tokenType c = ERC20}"
  "distinct (getERC20TokensForChangedBalances cs)"
proof -
  have "set (fold (\<lambda>c ts. if cb_tokenType c = ERC20 then set_add (cb_tokenAddress c) ts else ts) cs acc) =
      set acc \<union> {cb_tokenAddress c | c. c \<in> set cs \<and> cb_tokenType c = ERC20} \<and>
    (distinct acc \<longrightarrow> distinct (fold (\<lambda>c ts. if cb_tokenType c = ERC20 then set_add (cb_tokenAddress c) ts else ts) cs acc))" for acc
    by (induction cs arbitrary: acc) auto
  from this [of "[]"] show
    "set (getERC20TokensForChangedBalances cs) = {cb_tokenAddress c | c. c \<in> set cs \<and> cb_tokenType c = ERC20}"
    "distinct (getERC20TokensForChangedBalances cs)"
    by (simp_all add: getERC20TokensForChangedBalances_def)
qed

section \<open>A concrete round\<close>

definition demo_balance :: "int \<Rightarrow> string \<Rightarrow> balance_row" where
  "demo_balance n v = \<lparr>bl_address = ''0x0a'', bl_tokenAddress = ''0x0b'', bl_blockNumber = n, bl_balance = v\<rparr>"

definition demo_batch_row :: batch_row where
  "demo_batch_row = \<lparr>bt_number = 0, bt_rootHash = None, bt_timestamp = 0, bt_l1GasPrice = 0, bt_l2FairGasPrice = 0,
     bt_commitTxHash = None, bt_committedAt = None, bt_proveTxHash = None, bt_provenAt = None,
     bt_executeTxHash = None, bt_executedAt = Some 0, bt_l1TxCount = 0, bt_l2TxCount = 0\<rparr>"

definition demo_balances_db :: db where
  "demo_balances_db = empty_db\<lparr>blocks := [block_row_of (demo_block 1 ''0x01'' ''0x00'') demo_details,
       block_row_of (demo_block 2 ''0x02'' ''0x01'') demo_details],
     batches := [demo_batch_row], balances := [demo_balance 1 ''5'', demo_balance 2 ''7'']\<rparr>"

lemma demo_balances:
  "last_executed demo_balances_db = 2" "delete_balances_from demo_balances_db = 0"
  "balances (fst (clean_balances False False False demo_balances_db)) = [demo_balance 2 ''7'']"
  by code_simp+

lemma demo_balances_ok: "db_ok demo_balances_db"
proof -
  have "keys_ok demo_balances_db" unfolding keys_ok_def by code_simp
  moreover have "fk_ok demo_balances_db"
    by (simp add: fk_ok_def demo_balances_db_def empty_db_def has_block_def demo_balance_def block_row_of_def
        demo_block_def block_row.defs block_dto.defs)
  ultimately show ?thesis by (simp add: db_ok_def)
qed

theorem cleaner_keeps_balances_witness:
  "balance_as_of (balances (fst (clean_balances False True False demo_balances_db))) (''0x0a'', ''0x0b'') 2 =
   balance_as_of (balances demo_balances_db) (''0x0a'', ''0x0b'') 2"
  by (rule cleaner_keeps_balances [OF demo_balances_ok]) (simp add: demo_balances)

theorem cleaner_cleans_witness:
  "delete_balances_from (fst (clean_balances False False False demo_balances_db)) = 2"
  using cleaner_cleans [of demo_balances_db "fst (clean_balances False False False demo_balances_db)"
      "snd (clean_balances False False False demo_balances_db)"]
  by (simp add: demo_balances)

end
