(* ===== verification/Worker_Tokens.thy ===== *)
theory Worker_Tokens
  imports Worker_Balances
begin

text \<open>
  Tokens (\<open>src/packages/worker/src/token\<close>, \<open>log/logType.ts\<close>): saving the ERC20 tokens of newly seen
  addresses, and the service that refreshes their prices.

  What comes from outside is an argument: the answers of the token contracts (\<open>None\<close> when the calls
  failed), the parser of bridge logs, and the two addresses of the package zksync-ethers.
\<close>

section \<open>Logs\<close>

definition LogType_BridgeInitialization :: string where
  "LogType_BridgeInitialization = ''0xe6b2ac4004ee4493db8844da5db69722d2128345671818c3c41928655a83fb2c''"

definition LogType_BridgeInitialize :: string where
  "LogType_BridgeInitialize = ''0x81e8e92e5873539605a102eddae7ed06d19bea042099a437cbc3644415eb7404''"

definition isLogOfType :: "log_data \<Rightarrow> string list \<Rightarrow> bool" where
  "isLogOfType l types \<longleftrightarrow> (\<exists>t \<in> set types. list_head (lg_topics l) = Some t)"

section \<open>token.service.ts\<close>

record erc20_token =
  e_symbol :: "string option"
  e_decimals :: int
  e_name :: "string option"
  e_l1Address :: "string option"

record token_env =
  te_getERC20TokenData :: "string \<Rightarrow> erc20_token option"
  te_parseLog :: "log_data \<Rightarrow> exn + erc20_token"
  te_l2Erc20DefaultBridge :: "string option"
  te_L2_BASE_TOKEN_ADDRESS :: string
  te_ETH_ADDRESS :: string

definition bridge_log :: "token_env \<Rightarrow> contract_address \<Rightarrow> (receipt_data \<times> log_data list) option \<Rightarrow> log_data option" where
  "bridge_log E c receipt =
     (case receipt of
        None \<Rightarrow> None
      | Some (r, ls) \<Rightarrow>
          if Some (lower (rc_to r)) = te_l2Erc20DefaultBridge E
          then find (\<lambda>l. isLogOfType l [LogType_BridgeInitialization, LogType_BridgeInitialize] \<and>
                      lower (lg_address l) = lower (ca_address c)) ls
          else None)"

definition erc20_of :: "token_env \<Rightarrow> contract_address \<Rightarrow> (receipt_data \<times> log_data list) option \<Rightarrow> exn + erc20_token option" where
  "erc20_of E c receipt =
     (case bridge_log E c receipt of
        Some l \<Rightarrow> sbind (te_parseLog E l) (\<lambda>t. Inr (Some t))
      | None \<Rightarrow> Inr (te_getERC20TokenData E (ca_address c)))"

definition token_of :: "token_env \<Rightarrow> contract_address \<Rightarrow> erc20_token \<Rightarrow> string \<Rightarrow> token_data" where
  "token_of E c t symbol = \<lparr>tk_l2Address = ca_address c,
     tk_l1Address = (if lower (ca_address c) = te_L2_BASE_TOKEN_ADDRESS E then Some (te_ETH_ADDRESS E) else e_l1Address t),
     tk_symbol = symbol, tk_name = e_name t, tk_decimals = e_decimals t, tk_blockNumber = ca_blockNumber c,
     tk_transactionHash = ca_transactionHash c, tk_logIndex = ca_logIndex c\<rparr>"

text \<open>\<open>removeSpecialChars(erc20Token?.symbol)\<close> is the test for a symbol.\<close>

definition has_symbol :: "erc20_token option \<Rightarrow> bool" where
  "has_symbol t \<longleftrightarrow> \<not> falsy (stringTransformer_to (Option.bind t e_symbol))"

definition saveERC20Token ::
  "token_env \<Rightarrow> contract_address \<Rightarrow> (receipt_data \<times> log_data list) option \<Rightarrow> ('z db_scheme, unit) act" where
  "saveERC20Token E c receipt =
     bind (of_sum (erc20_of E c receipt)) (\<lambda>t.
     if has_symbol t then TokenRepository_upsert (token_of E c (the t) (the (e_symbol (the t)))) else ret ())"

text \<open>\<open>findWhereInList\<close>: the handler is a query, which depends on the database only.\<close>

definition findWhereInList :: "(string list \<Rightarrow> 'r list) \<Rightarrow> string list \<Rightarrow> 'r list" where
  "findWhereInList handler xs = concat (map handler (batches_of 500 xs))"

definition where_in :: "('r \<Rightarrow> string) \<Rightarrow> 'r list \<Rightarrow> string list \<Rightarrow> 'r list" where
  "where_in key rows xs = filter (\<lambda>r. \<exists>x \<in> set xs. hex_col (Some x) = Some (key r)) rows"

text \<open>
  A contract that was found without the block, transaction or log it was created in cannot be stored as
  a token: its columns may not be \<open>null\<close>.
\<close>

definition contract_of_row :: "address_row \<Rightarrow> contract_address option" where
  "contract_of_row a =
     (case (ad_createdInBlockNumber a, ad_creatorTxHash a, ad_createdInLogIndex a) of
        (Some n, Some h, Some i) \<Rightarrow> Some \<lparr>ca_address = ad_address a, ca_blockNumber = n, ca_transactionHash = h,
           ca_creatorAddress = (case ad_creatorAddress a of None \<Rightarrow> [] | Some c \<Rightarrow> c), ca_logIndex = i, ca_bytecode = None\<rparr>
      | _ \<Rightarrow> None)"

definition saveERC20Token_row :: "token_env \<Rightarrow> address_row \<Rightarrow> ('z db_scheme, unit) act" where
  "saveERC20Token_row E a =
     (case contract_of_row a of
        Some c \<Rightarrow> saveERC20Token E c None
      | None \<Rightarrow> if has_symbol (te_getERC20TokenData E (ad_address a)) then throw db_error else ret ())"

definition tokens_to_save :: "'z db_scheme \<Rightarrow> string list \<Rightarrow> string list" where
  "tokens_to_save s addrs =
     (let existing = findWhereInList (where_in (\<lambda>k. tk_l2Address (k_token k)) (tokens s)) addrs
      in filter (\<lambda>t. \<not> (\<exists>k \<in> set existing. lower (tk_l2Address (k_token k)) = lower t)) addrs)"

definition saveERC20Tokens :: "token_env \<Rightarrow> string list \<Rightarrow> ('z db_scheme, unit) act" where
  "saveERC20Tokens E addrs =
     bind (gets (\<lambda>s. tokens_to_save s addrs)) (\<lambda>new.
     bind (gets (\<lambda>s. findWhereInList (where_in ad_address (addresses s)) new)) (\<lambda>contracts.
     for_each (saveERC20Token_row E) contracts))"

subsection \<open>What saving keeps\<close>

lemma save_token_keeps [intro!]: "keeps db_ok (saveERC20Token E c r)"
  unfolding saveERC20Token_def by (intro keeps_bind keeps_if) auto

lemma save_token_row_keeps [intro!]: "keeps db_ok (saveERC20Token_row E a)"
  unfolding saveERC20Token_row_def by (auto split: option.split)

lemma save_tokens_keeps [intro!]: "keeps db_ok (saveERC20Tokens E as)"
  unfolding saveERC20Tokens_def by (intro keeps_bind keeps_for_each) auto

lemma findWhereInList_set:
  "set (findWhereInList (where_in key rows) xs) = {r \<in> set rows. \<exists>x \<in> set xs. hex_col (Some x) = Some (key r)}"
proof -
  have "set (concat (map (where_in key rows) bs)) = {r \<in> set rows. \<exists>x \<in> set (concat bs). hex_col (Some x) = Some (key r)}" for bs
    by (induction bs) (auto simp: where_in_def)
  from this [of "batches_of 500 xs"] show ?thesis by (simp add: findWhereInList_def batches_of_concat)
qed

text \<open>Which addresses are saved: those without a token.\<close>

lemma tokens_to_save_set:
  assumes "\<forall>x \<in> set addrs. hex_col (Some x) = Some (lower x)" "\<forall>k \<in> set (tokens s). lower (tk_l2Address (k_token k)) = tk_l2Address (k_token k)"
  shows "set (tokens_to_save s addrs) = {x \<in> set addrs. \<forall>k \<in> set (tokens s). tk_l2Address (k_token k) \<noteq> lower x}"
  using assms by (fastforce simp: tokens_to_save_def Let_def findWhereInList_set)

text \<open>An upsert leaves the tokens of other addresses alone.\<close>

definition token_at :: "'z db_scheme \<Rightarrow> string \<Rightarrow> token_row list" where
  "token_at s x = filter (\<lambda>k. tk_l2Address (k_token k) = x) (tokens s)"

lemma upsert_token_other:
  "tk_l2Address t \<noteq> x \<Longrightarrow> filter (\<lambda>k. tk_l2Address (k_token k) = x) (upsert_token_rows n t rows) =
     filter (\<lambda>k. tk_l2Address (k_token k) = x) rows"
proof (cases "tk_l2Address t \<in> (\<lambda>k. tk_l2Address (k_token k)) ` set rows")
  case True
  assume ne: "tk_l2Address t \<noteq> x"
  have "filter (\<lambda>k. tk_l2Address (k_token k) = x)
        (map (\<lambda>k. if tk_l2Address (k_token k) = tk_l2Address t \<and> token_newer t (k_token k) then k\<lparr>k_token := t\<rparr> else k) rs) =
      filter (\<lambda>k. tk_l2Address (k_token k) = x) rs" for rs
    using ne by (induction rs) auto
  with True show ?thesis by (simp add: upsert_token_rows_def)
qed (simp add: upsert_token_rows_def)

lemma save_token_row_other:
  assumes "hex_col (Some (ad_address a)) \<noteq> Some x" "saveERC20Token_row E a s = (t, r)" "hexc (ad_address a) \<noteq> x"
  shows "token_at t x = token_at s x \<and> addresses t = addresses s"
proof -
  have upsert: "token_at t x = token_at s x \<and> addresses t = addresses s"
    if "TokenRepository_upsert d s = (t, r)" "hexc (tk_l2Address d) \<noteq> x" for d r
    using that upsert_token_other [of "token_columns d" x]
    by (auto simp: TokenRepository_upsert_def Let_def token_at_def bump_def token_columns_def split: if_splits)
  show ?thesis
  proof (cases "contract_of_row a")
    case None
    with assms(2) show ?thesis by (auto simp: saveERC20Token_row_def act_simps split: if_splits)
  next
    case (Some c)
    then have "ca_address c = ad_address a" by (auto simp: contract_of_row_def split: option.splits)
    with Some assms(2,3) upsert show ?thesis
      by (auto simp: saveERC20Token_row_def saveERC20Token_def bind_def act_simps token_of_def
          split: sum.splits if_splits)
  qed
qed

text \<open>
  Saving the tokens of changed balances never touches a token that is already stored: whatever the
  contracts answer, and whether or not a statement fails, the rows of every stored address are as they
  were. (Stored addresses, and the addresses of the contracts, are in the form the columns give them.)
\<close>

theorem stored_tokens_untouched:
  assumes "\<forall>x \<in> set addrs. hex_col (Some x) = Some (lower x)"
    and "\<forall>k \<in> set (tokens s). lower (tk_l2Address (k_token k)) = tk_l2Address (k_token k)"
    and "\<forall>a \<in> set (addresses s). hexc (ad_address a) = ad_address a"
    and "token_at s x \<noteq> []" "saveERC20Tokens E addrs s = (t, r)"
  shows "token_at t x = token_at s x"
proof -
  let ?new = "tokens_to_save s addrs"
  let ?cs = "findWhereInList (where_in ad_address (addresses s)) ?new"
  have other: "hexc (ad_address a) \<noteq> x \<and> hex_col (Some (ad_address a)) \<noteq> Some x" if "a \<in> set ?cs" for a
  proof -
    from that obtain y where y: "a \<in> set (addresses s)" "y \<in> set ?new" "hex_col (Some y) = Some (ad_address a)"
      by (auto simp: findWhereInList_set)
    with assms(1,2) have "ad_address a = lower y" "\<forall>k \<in> set (tokens s). tk_l2Address (k_token k) \<noteq> lower y"
      by (auto simp: tokens_to_save_set)
    with assms(4) have "ad_address a \<noteq> x" by (auto simp: token_at_def filter_empty_conv)
    with assms(3) y(1) show ?thesis by (auto simp: hexc_def split: option.splits)
  qed
  have "token_at v x = token_at u x"
    if "for_each (saveERC20Token_row E) cs u = (v, q)" "set cs \<subseteq> set ?cs" for cs and u v q
    using that
  proof (induction cs arbitrary: u)
    case Nil
    then show ?case by (simp add: act_simps)
  next
    case (Cons a cs)
    obtain w p where w: "saveERC20Token_row E a u = (w, p)" by force
    have "token_at w x = token_at u x"
      using save_token_row_other [OF _ w, of x] other Cons.prems(2) by auto
    with Cons w show ?case by (auto simp: bind_def split: sum.splits)
  qed
  from this [of ?cs s t r] assms(5) show ?thesis by (simp add: saveERC20Tokens_def)
qed

section \<open>tokenOffChainDataSaver.service.ts\<close>

definition UPDATE_TOKENS_BATCH_SIZE :: nat where
  "UPDATE_TOKENS_BATCH_SIZE = 100"

definition next_update_timeout :: "int \<Rightarrow> int \<Rightarrow> int option \<Rightarrow> int" where
  "next_update_timeout interval now lastUpdatedAt =
     (let timeSinceLastUpdate = (case lastUpdatedAt of None \<Rightarrow> interval | Some t \<Rightarrow> now - t)
      in if timeSinceLastUpdate \<ge> interval then 0 else interval - timeSinceLastUpdate)"

text \<open>
  One round of \<open>runProcess\<close>, up to the wait: its result is the time to wait. The provider is given the L1
  addresses of the bridged tokens; \<open>now\<close> and \<open>later\<close> are the times it reads.
\<close>

definition offchain_update ::
  "int \<Rightarrow> int \<Rightarrow> int \<Rightarrow> (string option list \<Rightarrow> exn + off_chain_data list) \<Rightarrow> ('z db_scheme, int) act" where
  "offchain_update interval now later provider =
     bind getOffChainDataLastUpdatedAt (\<lambda>lastUpdatedAt.
     let t = next_update_timeout interval now lastUpdatedAt in
     if t \<noteq> 0 then ret t
     else
       bind getBridgedTokens (\<lambda>bridged.
       bind (of_sum (provider (map (\<lambda>k. tk_l1Address (k_token k)) bridged))) (\<lambda>data.
       bind (for_each (for_each (\<lambda>d. updateTokenOffChainData d later)) (batches_of UPDATE_TOKENS_BATCH_SIZE data)) (\<lambda>_.
       ret interval))))"

definition offchain_round ::
  "int \<Rightarrow> int \<Rightarrow> int \<Rightarrow> (string option list \<Rightarrow> exn + off_chain_data list) \<Rightarrow> ('z db_scheme, int) act" where
  "offchain_round interval now later provider =
     catch (offchain_update interval now later provider) (\<lambda>_. ret interval)"

lemma for_each_concat: "for_each (for_each f) bs = for_each f (concat bs)"
  by (induction bs) (simp_all add: for_each_append)

text \<open>
  A round always returns a positive time to wait of at most the interval (for a clock that is not
  behind the stored time), whatever the provider does; and before the interval since the last update is
  over it changes nothing.
\<close>

theorem offchain_round_paced:
  assumes "0 < interval" "getOffChainDataLastUpdatedAt s = (s, Inr lastAt)"
    and "lastAt = None \<or> the lastAt \<le> now"
    and "offchain_round interval now later provider s = (t, r)"
  shows "\<exists>wait. r = Inr wait \<and> 0 < wait \<and> wait \<le> interval \<and>
    (\<forall>u. lastAt = Some u \<and> now < u + interval \<longrightarrow> t = s \<and> wait = u + interval - now)"
proof (cases "next_update_timeout interval now lastAt = 0")
  case True
  have due: "\<not> (\<exists>u. lastAt = Some u \<and> now < u + interval)"
    using True by (auto simp: next_update_timeout_def Let_def split: if_splits)
  have "r = Inr interval"
  proof (cases "offchain_update interval now later provider s")
    case (Pair u q)
    have "q = Inr interval" if "q = Inr a" for a
      using Pair that True assms(2)
      by (auto simp: offchain_update_def bind_def act_simps split: sum.splits prod.splits)
    with Pair assms(4) show ?thesis
      by (cases q) (auto simp: offchain_round_def catch_def act_simps)
  qed
  with due assms(1) show ?thesis by blast
next
  case False
  then obtain u where u: "lastAt = Some u" "now < u + interval"
    by (cases lastAt) (auto simp: next_update_timeout_def Let_def split: if_splits)
  then have due: "next_update_timeout interval now lastAt = u + interval - now"
    by (simp add: next_update_timeout_def)
  have "offchain_update interval now later provider s = (s, Inr (u + interval - now))"
    using False assms(2) due by (simp add: offchain_update_def bind_def act_simps)
  with assms(4) have "t = s" "r = Inr (u + interval - now)"
    by (auto simp: offchain_round_def catch_def)
  with u assms(3) show ?thesis by auto
qed

section \<open>A concrete round\<close>

definition demo_price :: off_chain_data where
  "demo_price = \<lparr>oc_l1Address = None, oc_l2Address = Some ''0x0a'', oc_liquidity = Some 5, oc_usdPrice = Some 2,
     oc_iconURL = None\<rparr>"

definition demo_token_row :: "int option \<Rightarrow> token_row" where
  "demo_token_row u = \<lparr>k_token = demo_token 1, k_number = 1, k_usdPrice = None, k_liquidity = None, k_iconURL = None,
     k_offChainDataUpdatedAt = u\<rparr>"

theorem offchain_round_paced_witness:
  "\<exists>wait. snd (offchain_round 100 150 151 (\<lambda>_. Inr [demo_price]) (empty_db\<lparr>tokens := [demo_token_row (Some 90)]\<rparr>)) = Inr wait \<and> wait = 40"
proof -
  let ?s = "empty_db\<lparr>tokens := [demo_token_row (Some 90)]\<rparr>"
  have "getOffChainDataLastUpdatedAt ?s = (?s, Inr (Some 90))"
    by (simp add: getOffChainDataLastUpdatedAt_def demo_token_row_def act_simps)
  from offchain_round_paced [OF _ this, of 100 150 151 "\<lambda>_. Inr [demo_price]"] show ?thesis
    by (cases "offchain_round 100 150 151 (\<lambda>_. Inr [demo_price]) ?s") auto
qed

definition demo_env :: token_env where
  "demo_env = \<lparr>te_getERC20TokenData = (\<lambda>_. Some \<lparr>e_symbol = Some ''T'', e_decimals = 18, e_name = Some ''Token'', e_l1Address = None\<rparr>),
     te_parseLog = (\<lambda>_. Inl TypeError), te_l2Erc20DefaultBridge = None,
     te_L2_BASE_TOKEN_ADDRESS = ''0x0c'', te_ETH_ADDRESS = ''0x00''\<rparr>"

theorem stored_tokens_untouched_witness:
  "token_at (fst (saveERC20Tokens demo_env [''0x0A''] (empty_db\<lparr>tokens := [demo_token_row None]\<rparr>))) ''0x0a'' =
   token_at (empty_db\<lparr>tokens := [demo_token_row None]\<rparr>) ''0x0a''"
proof -
  let ?s = "empty_db\<lparr>tokens := [demo_token_row None]\<rparr>"
  have "hex_col (Some ''0x0A'') = Some (lower ''0x0A'')" by (rule hex_col_lower) code_simp+
  moreover have "lower ''0x0a'' = ''0x0a''" by code_simp
  ultimately show ?thesis
    by (intro stored_tokens_untouched [where addrs = "[''0x0A'']" and E = demo_env and
          r = "snd (saveERC20Tokens demo_env [''0x0A''] ?s)"])
       (simp_all add: demo_token_row_def demo_token_def token_at_def empty_db_def)
qed

end
