(* ===== verification/Worker_Loops.thy ===== *)
theory Worker_Loops
  imports Prelude
begin

text \<open>
  The worker's loops: polling with a time limit (\<open>utils/waitFor.ts\<close>), the growing delay between
  attempts (\<open>retryDelay.provider.ts\<close>), and starting and stopping the loop of a service
  (\<open>common/worker.ts\<close>), all under \<open>src/packages/worker/src\<close>. Times are in milliseconds.
\<close>

section \<open>waitFor.ts\<close>

text \<open>\<open>Math.ceil(maxWaitTime / checkInterval)\<close>; for zero it is \<open>NaN\<close>, and the loop is not entered.\<close>

definition checkIterations :: "nat \<Rightarrow> nat \<Rightarrow> nat" where
  "checkIterations maxWaitTime checkInterval =
     (if checkInterval = 0 then 0 else (maxWaitTime + checkInterval - 1) div checkInterval)"

text \<open>The condition is looked at once per iteration; the result is the time slept.\<close>

fun waitFor_loop :: "(nat \<Rightarrow> bool) \<Rightarrow> nat \<Rightarrow> nat \<Rightarrow> nat \<Rightarrow> nat" where
  "waitFor_loop condition checkInterval i 0 = 0"
| "waitFor_loop condition checkInterval i (Suc n) =
     (if condition i then 0 else checkInterval + waitFor_loop condition checkInterval (Suc i) n)"

definition waitFor :: "(nat \<Rightarrow> bool) \<Rightarrow> nat \<Rightarrow> nat \<Rightarrow> nat" where
  "waitFor condition maxWaitTime conditionCheckInterval =
     (let checkInterval = min maxWaitTime conditionCheckInterval
      in waitFor_loop condition checkInterval 0 (checkIterations maxWaitTime checkInterval))"

lemma waitFor_loop_never:
  "\<forall>j. i \<le> j \<and> j < i + n \<longrightarrow> \<not> condition j \<Longrightarrow> waitFor_loop condition c i n = n * c"
  by (induction n arbitrary: i) auto

lemma waitFor_loop_first:
  "k < n \<Longrightarrow> condition (i + k) \<Longrightarrow> \<forall>j < k. \<not> condition (i + j) \<Longrightarrow> waitFor_loop condition c i n = k * c"
proof (induction n arbitrary: i k)
  case (Suc n)
  show ?case
  proof (cases k)
    case (Suc k')
    then have "\<not> condition i" using Suc.prems(3) by force
    moreover have "waitFor_loop condition c (Suc i) n = k' * c"
      using Suc Suc.prems by (intro Suc.IH) (auto simp: less_Suc_eq_0_disj)
    ultimately show ?thesis by (simp add: Suc)
  qed (use Suc.prems in simp)
qed simp

lemma checkIterations_bounds:
  assumes "0 < c"
  shows "m \<le> checkIterations m c * c \<and> checkIterations m c * c < m + c"
proof -
  have "checkIterations m c * c + (m + c - 1) mod c = m + c - 1"
    using assms div_mult_mod_eq [of "m + c - 1" c] by (simp add: checkIterations_def)
  moreover have "(m + c - 1) mod c \<le> c - 1"
    using assms mod_less_divisor [of c "m + c - 1"] by linarith
  ultimately show ?thesis using assms by linarith
qed

text \<open>
  Waiting ends: as soon as a check finds the condition true, after whole check intervals and never a
  full interval or more beyond the maximum, and not before the maximum while the condition stays false.
\<close>

theorem waitFor_bounds:
  "waitFor condition m c \<le> m + min m c \<and>
   (0 < m \<and> 0 < c \<longrightarrow> waitFor condition m c < m + min m c) \<and>
   (0 < c \<and> (\<forall>i. \<not> condition i) \<longrightarrow> m \<le> waitFor condition m c) \<and>
   (\<forall>k. condition k \<and> (\<forall>j < k. \<not> condition j) \<longrightarrow> waitFor condition m c \<le> k * min m c)"
proof -
  let ?c = "min m c"
  let ?n = "checkIterations m ?c"
  have le: "waitFor_loop condition ?c i n \<le> n * ?c" for i n by (induction n arbitrary: i) auto
  have n: "?n * ?c \<le> m + ?c" "0 < m \<Longrightarrow> 0 < c \<Longrightarrow> ?n * ?c < m + ?c" "0 < ?c \<Longrightarrow> m \<le> ?n * ?c"
    using checkIterations_bounds [of ?c m] by (cases "?c = 0"; simp add: checkIterations_def)+
  have never: "m \<le> waitFor condition m c" if "0 < c" "\<forall>i. \<not> condition i"
    using that n(3) waitFor_loop_never [of 0 ?n condition ?c]
    by (cases "m = 0") (simp_all add: waitFor_def Let_def)
  have first: "waitFor condition m c \<le> k * ?c" if k: "condition k" "\<forall>j < k. \<not> condition j" for k
  proof (cases "k < ?n")
    case True
    with k waitFor_loop_first [of k ?n condition 0 ?c] show ?thesis by (simp add: waitFor_def Let_def)
  next
    case False
    then have "?n * ?c \<le> k * ?c" by (intro mult_le_mono1) simp
    with le [of 0 ?n] have "waitFor_loop condition ?c 0 ?n \<le> k * ?c" by (rule le_trans)
    then show ?thesis by (simp add: waitFor_def Let_def)
  qed
  show ?thesis
    using le [of 0 ?n] n(1,2) never first by (fastforce simp: waitFor_def Let_def)
qed

theorem waitFor_bounds_witness:
  "12 \<le> waitFor (\<lambda>_. False) 12 5 \<and> waitFor (\<lambda>_. False) 12 5 < 12 + 5"
  using waitFor_bounds [of "\<lambda>_. False" 12 5] by simp

section \<open>retryDelay.provider.ts\<close>

definition maxDelay :: nat where
  "maxDelay = 1000 * 60 * 10"

definition delayFactor :: nat where
  "delayFactor = 2"

text \<open>The state is the number of retries.\<close>

definition getRetryDelay :: "nat \<Rightarrow> nat \<Rightarrow> nat \<times> nat" where
  "getRetryDelay delay retries = (min (delay * delayFactor ^ retries) maxDelay, retries + 1)"

definition resetRetryDelay :: "nat \<Rightarrow> nat" where
  "resetRetryDelay retries = 0"

text \<open>The delays of \<open>n\<close> failures in a row.\<close>

fun retry_delays :: "nat \<Rightarrow> nat \<Rightarrow> nat \<Rightarrow> nat list" where
  "retry_delays delay retries 0 = []"
| "retry_delays delay retries (Suc n) =
     (let (d, r) = getRetryDelay delay retries in d # retry_delays delay r n)"

lemma retry_delays_nth: "i < n \<Longrightarrow> retry_delays delay r n ! i = min (delay * 2 ^ (r + i)) maxDelay"
proof (induction n arbitrary: r i)
  case (Suc n)
  then show ?case by (cases i) (simp_all add: getRetryDelay_def delayFactor_def)
qed simp

lemma retry_delays_length [simp]: "length (retry_delays delay r n) = n"
  by (induction n arbitrary: r) (simp_all add: getRetryDelay_def)

text \<open>
  The delays of failures in a row start at the configured delay, never decrease, never exceed ten
  minutes, double until they reach them, and start again after a success.
\<close>

theorem retry_delays_bounded:
  "sorted (retry_delays delay (resetRetryDelay r) n) \<and> (\<forall>d \<in> set (retry_delays delay (resetRetryDelay r) n). d \<le> maxDelay) \<and>
   (\<forall>i < n. retry_delays delay (resetRetryDelay r) n ! i = min (delay * 2 ^ i) maxDelay)"
proof -
  let ?ds = "retry_delays delay (resetRetryDelay r) n"
  have nth: "?ds ! i = min (delay * 2 ^ i) maxDelay" if "i < n" for i
    using retry_delays_nth [OF that] by (simp add: resetRetryDelay_def)
  have mono: "min (delay * 2 ^ i) maxDelay \<le> min (delay * 2 ^ j) maxDelay" if "i \<le> j" for i j
    using that by (intro min.mono mult_le_mono2 power_increasing) auto
  have "sorted ?ds" unfolding sorted_iff_nth_mono using nth mono by simp
  moreover have "\<forall>d \<in> set ?ds. d \<le> maxDelay" using nth by (auto simp: in_set_conv_nth)
  ultimately show ?thesis using nth by blast
qed

theorem retry_delays_bounded_witness:
  "retry_delays 1000 (resetRetryDelay 7) 12 ! 11 = maxDelay \<and> retry_delays 1000 (resetRetryDelay 7) 12 ! 3 = 8000"
  using retry_delays_bounded [of 1000 7 12] by (simp add: maxDelay_def)

section \<open>worker.ts\<close>

text \<open>
  A service: the process its field \<open>currentProcessPromise\<close> refers to, the loops that are still running,
  and a counter that names the processes.
\<close>

record worker =
  currentProcessPromise :: "nat option"
  loops :: "nat list"
  next_process :: nat

definition new_worker :: worker where
  "new_worker = \<lparr>currentProcessPromise = None, loops = [], next_process = 0\<rparr>"

definition worker_start :: "worker \<Rightarrow> worker \<times> nat" where
  "worker_start w =
     (case currentProcessPromise w of
        None \<Rightarrow> (w\<lparr>currentProcessPromise := Some (next_process w), loops := loops w @ [next_process w],
                   next_process := next_process w + 1\<rparr>, next_process w)
      | Some p \<Rightarrow> (w, p))"

definition worker_stop :: "worker \<Rightarrow> worker \<times> nat option" where
  "worker_stop w = (w\<lparr>currentProcessPromise := None\<rparr>, currentProcessPromise w)"

text \<open>
  The end of a round of \<open>runProcess\<close>: the loop returns when the field is empty, and goes on otherwise,
  whoever started it.
\<close>

definition worker_round_end :: "nat \<Rightarrow> worker \<Rightarrow> worker" where
  "worker_round_end p w = (if currentProcessPromise w = None then w\<lparr>loops := remove1 p (loops w)\<rparr> else w)"

text \<open>
  The service under a caller that may start it, stop it, and wait for what \<open>stop\<close> returned. The second
  component is the promise the caller is waiting for; while it waits it makes no other call.
\<close>

inductive worker_step :: "worker \<times> nat option \<Rightarrow> worker \<times> nat option \<Rightarrow> bool" where
  start: "worker_step (w, None) (fst (worker_start w), None)"
| stop: "worker_step (w, None) (worker_stop w)"
| stopped: "p \<notin> set (loops w) \<Longrightarrow> worker_step (w, Some p) (w, None)"
| round_end: "p \<in> set (loops w) \<Longrightarrow> worker_step (w, c) (worker_round_end p w, c)"

inductive worker_reach :: "worker \<times> nat option \<Rightarrow> bool" where
  init: "worker_reach (new_worker, None)"
| step: "worker_reach s \<Longrightarrow> worker_step s t \<Longrightarrow> worker_reach t"

definition worker_inv :: "worker \<times> nat option \<Rightarrow> bool" where
  "worker_inv s \<longleftrightarrow>
     (case s of (w, c) \<Rightarrow>
        (case currentProcessPromise w of
           Some p \<Rightarrow> c = None \<and> loops w = [p]
         | None \<Rightarrow> loops w = [] \<or> (\<exists>p. c = Some p \<and> loops w = [p])))"

lemma worker_step_inv: "worker_step s t \<Longrightarrow> worker_inv s \<Longrightarrow> worker_inv t"
  by (induction rule: worker_step.induct)
    (auto simp: worker_inv_def worker_start_def worker_stop_def worker_round_end_def split: option.splits)

lemma worker_reach_inv: "worker_reach s \<Longrightarrow> worker_inv s"
proof (induction rule: worker_reach.induct)
  case init
  then show ?case by (simp add: worker_inv_def new_worker_def)
next
  case (step s t)
  then show ?case by (blast intro: worker_step_inv)
qed

text \<open>
  A service whose caller waits for \<open>stop\<close> before it starts it again never runs two loops at once,
  and is not running when the wait is over.
\<close>

theorem one_loop_at_a_time:
  assumes "worker_reach (w, c)"
  shows "length (loops w) \<le> 1 \<and> (currentProcessPromise w \<noteq> None \<or> c \<noteq> None \<or> loops w = [])"
  using worker_reach_inv [OF assms] by (auto simp: worker_inv_def split: option.splits)

lemma demo_worker:
  "worker_reach (\<lparr>currentProcessPromise = Some 0, loops = [0], next_process = 1\<rparr>, None)"
  using worker_reach.step [OF worker_reach.init worker_step.start]
  by (simp add: worker_start_def new_worker_def)

theorem one_loop_at_a_time_witness:
  "length (loops \<lparr>currentProcessPromise = Some 0, loops = [0], next_process = 1\<rparr>) \<le> 1"
  using one_loop_at_a_time [OF demo_worker] by blast

text \<open>
  Without the wait a second loop can run beside the first: \<open>stop\<close> followed at once by \<open>start\<close>.
\<close>

lemma two_loops_without_wait:
  "loops (fst (worker_start (fst (worker_stop (fst (worker_start new_worker)))))) = [0, 1]"
  by code_simp

end
