(* ===== verification/Worker_Blocks.thy ===== *)
theory Worker_Blocks
  imports Worker_Tokens Worker_Loops
begin

text \<open>
  Blocks (\<open>src/packages/worker/src/block\<close>, \<open>transaction/transaction.processor.ts\<close>,
  \<open>utils/splitIntoChunks.ts\<close>): which blocks are fetched next, the checks they pass, and adding them
  to the database in one transaction per chunk.

  The node and the data fetcher are an argument: \<open>chainBlock\<close> is what the node answers for a block number,
  \<open>fetchBlock\<close> the data the fetcher delivers for it (the fetcher is asked again until it answers, see
  \<open>Worker_Retries\<close>, with one element per block). The transactions of a round run concurrently on
  connections of their own; they are modelled in the order in which they are committed.
\<close>

section \<open>utils/splitIntoChunks.ts\<close>

definition chunk_step :: "nat \<Rightarrow> 'a list list \<times> nat \<Rightarrow> 'a \<Rightarrow> 'a list list \<times> nat" where
  "chunk_step chunkSize = (\<lambda>(chunks, current) x.
     let current = (if current < length chunks \<and> length (chunks ! current) = chunkSize then current + 1 else current);
         chunks = (if current < length chunks then chunks else chunks @ [[]])
     in (chunks[current := chunks ! current @ [x]], current))"

definition splitIntoChunks :: "'a list \<Rightarrow> nat \<Rightarrow> 'a list list" where
  "splitIntoChunks xs chunkSize = fst (foldl (chunk_step chunkSize) ([], 0) xs)"

lemma chunk_step_last:
  "chunk_step n (cs @ [c], length cs) x =
     (if length c = n then (cs @ [c, [x]], length cs + 1) else (cs @ [c @ [x]], length cs))"
  by (simp add: chunk_step_def Let_def nth_append list_update_append)

lemma chunks_from:
  "c \<noteq> [] \<Longrightarrow> length c \<le> n \<Longrightarrow> fst (foldl (chunk_step n) (cs @ [c], length cs) xs) =
     (if xs = [] then cs @ [c] else if length c = n then cs @ [c] @ batch_loop n [] xs else cs @ batch_loop n c xs)"
proof (induction xs arbitrary: cs c)
  case (Cons x xs)
  show ?case
  proof (cases "length c = n")
    case True
    have "chunk_step n (cs @ [c], length cs) x = ((cs @ [c]) @ [[x]], length (cs @ [c]))"
      using True by (simp add: chunk_step_last)
    moreover have "length [x] \<le> n" using Cons.prems by (cases c) auto
    ultimately show ?thesis
      using Cons.IH [of "[x]" "cs @ [c]"] True by (auto split: if_splits)
  next
    case False
    then have "chunk_step n (cs @ [c], length cs) x = (cs @ [c @ [x]], length cs)"
      by (simp add: chunk_step_last)
    moreover have "length (c @ [x]) \<le> n" using Cons.prems False by simp
    ultimately show ?thesis
      using Cons.IH [of "c @ [x]" cs] False by auto
  qed
qed simp

lemma splitIntoChunks_eq:
  assumes "0 < chunkSize"
  shows "splitIntoChunks xs chunkSize = batches_of chunkSize xs"
proof (cases xs)
  case (Cons x ys)
  have "chunk_step chunkSize ([], 0) x = ([] @ [[x]], length ([] :: 'a list list))" by (simp add: chunk_step_def)
  then show ?thesis
    using chunks_from [of "[x]" chunkSize "[]" ys] assms Cons
    by (auto simp: splitIntoChunks_def batches_of_def split: if_splits)
qed (simp add: splitIntoChunks_def batches_of_def)

lemma splitIntoChunks_concat: "0 < chunkSize \<Longrightarrow> concat (splitIntoChunks xs chunkSize) = xs"
  by (simp add: splitIntoChunks_eq batches_of_concat)

text \<open>
  Splitting into chunks by indexes is the same as collecting batches: the chunks concatenated are the
  array, all are non-empty and at most of the chunk size, and they are the batches that \<open>addMany\<close> and
  \<open>findWhereInList\<close> would make.
\<close>

theorem splitIntoChunks_batches:
  assumes "0 < chunkSize"
  shows "splitIntoChunks xs chunkSize = batches_of chunkSize xs \<and> concat (splitIntoChunks xs chunkSize) = xs \<and>
    (\<forall>c \<in> set (splitIntoChunks xs chunkSize). c \<noteq> [] \<and> length c \<le> chunkSize)"
  unfolding splitIntoChunks_eq [OF assms] using batches_of_concat batches_of_sizes [OF assms] by blast

theorem splitIntoChunks_batches_witness:
  "concat (splitIntoChunks [1, 2, 3, 4, 5 :: int] 2) = [1, 2, 3, 4, 5] \<and> splitIntoChunks [1, 2, 3, 4, 5 :: int] 2 = [[1, 2], [3, 4], [5]]"
proof
  show "concat (splitIntoChunks [1, 2, 3, 4, 5 :: int] 2) = [1, 2, 3, 4, 5]"
    by (rule splitIntoChunks_batches [THEN conjunct2, THEN conjunct1]) simp
  show "splitIntoChunks [1, 2, 3, 4, 5 :: int] 2 = [[1, 2], [3, 4], [5]]" by code_simp
qed

section \<open>block.utils.ts\<close>

text \<open>Only called on blocks that exist.\<close>

definition validateBlocksLinking :: "block_data list \<Rightarrow> bool" where
  "validateBlocksLinking bs \<longleftrightarrow>
     \<not> list_ex (\<lambda>(b, c). Some (bk_hash (the (d_block b))) \<noteq> bk_parentHash (the (d_block c))) (zip bs (tl bs))"

section \<open>block.watcher.ts\<close>

record blocks_config =
  bc_fromBlock :: int
  bc_toBlock :: "int option"
  bc_batchSize :: int
  bc_disableBlocksRevert :: bool
  bc_numberOfBlocksPerDbTransaction :: nat

definition truthy_int :: "int option \<Rightarrow> bool" where
  "truthy_int v \<longleftrightarrow> v \<noteq> None \<and> v \<noteq> Some 0"

definition lastBlockNumberToProcess :: "blocks_config \<Rightarrow> int \<Rightarrow> int" where
  "lastBlockNumberToProcess cfg lastBlockchain =
     (if truthy_int (bc_toBlock cfg) then min (the (bc_toBlock cfg)) lastBlockchain else lastBlockchain)"

text \<open>The numbers of the blocks that \<open>getNextBlocksToProcess\<close> fetches.\<close>

definition next_block_numbers :: "blocks_config \<Rightarrow> int option \<Rightarrow> int option \<Rightarrow> int list" where
  "next_block_numbers cfg lastBlockchain lastDb =
     (case lastBlockchain of
        None \<Rightarrow> []
      | Some m \<Rightarrow>
          let next = (case lastDb of None \<Rightarrow> bc_fromBlock cfg | Some n \<Rightarrow> n + 1);
              last = lastBlockNumberToProcess cfg m
          in if next < bc_fromBlock cfg \<or> next > last then []
             else [next..min last (next + bc_batchSize cfg - 1)])"

text \<open>The listener on the event \<open>block\<close> only moves the last block number up.\<close>

definition on_block :: "int option \<Rightarrow> int \<Rightarrow> int option" where
  "on_block lastBlockchain n = Some (case lastBlockchain of None \<Rightarrow> max 0 n | Some m \<Rightarrow> max m n)"

text \<open>The gauge of blocks to process; \<open>next\<close> is the last value the watcher computed.\<close>

definition blocksToProcessMetric :: "blocks_config \<Rightarrow> int \<Rightarrow> int option \<Rightarrow> int" where
  "blocksToProcessMetric cfg lastBlockchain next =
     (let last = lastBlockNumberToProcess cfg lastBlockchain
      in if truthy_int next \<and> the next \<ge> bc_fromBlock cfg \<and> the next \<le> last then last - the next + 1 else 0)"

lemma hd_upto: "a \<le> b \<Longrightarrow> hd [a..b] = (a :: int)"
  by (simp add: upto.simps)

lemma upto_nth: "i < length [a..b] \<Longrightarrow> [a..b] ! i = a + int i"
  by (simp add: nth_upto)

lemma upto_nth_Suc: "Suc i < length [a..b] \<Longrightarrow> [a..b] ! Suc i = [a..b] ! i + (1 :: int)"
  by (simp add: nth_upto)

text \<open>
  The blocks to fetch are consecutive, start right after the last stored one (or at the configured
  first block), stay within the configured range and the chain, and are at most a batch.
\<close>

theorem next_blocks_bounded:
  assumes "0 < bc_batchSize cfg"
  shows "int (length (next_block_numbers cfg m lastDb)) \<le> bc_batchSize cfg \<and>
    (\<forall>n \<in> set (next_block_numbers cfg m lastDb).
       bc_fromBlock cfg \<le> n \<and> n \<le> lastBlockNumberToProcess cfg (the m) \<and> n \<le> the m \<and>
       (lastDb = None \<or> the lastDb < n)) \<and>
    (next_block_numbers cfg m lastDb = [] \<or>
       hd (next_block_numbers cfg m lastDb) = (case lastDb of None \<Rightarrow> bc_fromBlock cfg | Some n \<Rightarrow> n + 1)) \<and>
    (\<forall>i. Suc i < length (next_block_numbers cfg m lastDb) \<longrightarrow>
       next_block_numbers cfg m lastDb ! Suc i = next_block_numbers cfg m lastDb ! i + 1)"
proof (cases "next_block_numbers cfg m lastDb = []")
  case False
  then obtain k where m: "m = Some k" by (auto simp: next_block_numbers_def split: option.splits)
  let ?next = "case lastDb of None \<Rightarrow> bc_fromBlock cfg | Some n \<Rightarrow> n + 1"
  let ?last = "lastBlockNumberToProcess cfg k"
  have range: "next_block_numbers cfg m lastDb = [?next..min ?last (?next + bc_batchSize cfg - 1)]"
    and le: "bc_fromBlock cfg \<le> ?next" "?next \<le> ?last"
    using False by (auto simp: next_block_numbers_def m Let_def split: if_splits)
  have "?last \<le> k" by (simp add: lastBlockNumberToProcess_def)
  moreover have "?next \<le> min ?last (?next + bc_batchSize cfg - 1)" using le assms by simp
  ultimately show ?thesis
    unfolding range using le assms hd_upto [of ?next]
    by (auto simp: m upto_nth_Suc simp del: length_upto split: option.splits) (simp_all add: nat_le_iff)
qed (use assms in simp)

section \<open>transaction.processor.ts\<close>

definition receipt_of :: "transaction_data \<Rightarrow> receipt_row" where
  "receipt_of d = (let r = td_receipt d in
     \<lparr>r_transactionHash = rc_hash r, r_number = 0, r_to = rc_to r, r_from = rc_from r,
      r_contractAddress = rc_contractAddress r, r_transactionIndex = rc_index r, r_type = tr_type (td_transaction d),
      r_root = (case rc_root r of None \<Rightarrow> ''0x00'' | Some x \<Rightarrow> x), r_gasUsed = rc_gasUsed r,
      r_effectiveGasPrice = rc_gasPrice r, r_logsBloom = rc_logsBloom r, r_blockHash = rc_blockHash r,
      r_blockNumber = rc_blockNumber r, r_cumulativeGasUsed = rc_cumulativeGasUsed r, r_status = rc_status r\<rparr>)"

definition address_of :: "contract_address \<Rightarrow> address_row" where
  "address_of c = \<lparr>ad_address = ca_address c, ad_bytecode = ca_bytecode c,
     ad_createdInBlockNumber = Some (ca_blockNumber c), ad_creatorTxHash = Some (ca_transactionHash c),
     ad_createdInLogIndex = Some (ca_logIndex c), ad_creatorAddress = Some (ca_creatorAddress c)\<rparr>"

definition TransactionProcessor_add :: "transaction_data \<Rightarrow> ('z db_scheme, unit) act" where
  "TransactionProcessor_add d =
     bind (TransactionRepository_add (td_transaction d)) (\<lambda>_.
     bind (add ins_receipt (receipt_of d)) (\<lambda>_.
     bind (addMany ins_log (map (\<lambda>l. (l, tr_receivedAt (td_transaction d))) (td_logs d))) (\<lambda>_.
     bind (TransferRepository_addMany (td_transfers d)) (\<lambda>_.
     bind (for_each (\<lambda>c. AddressRepository_upsert (address_of c)) (td_contractAddresses d)) (\<lambda>_.
     for_each TokenRepository_upsert (td_tokens d))))))"

section \<open>block.processor.ts\<close>

record chain =
  chainBlock :: "int \<Rightarrow> block_dto option"
  fetchBlock :: "int \<Rightarrow> block_data"

text \<open>The worker's state: the database and the revert events it has emitted.\<close>

record worker_db = db +
  revert_events :: "int list"

definition block_in_range :: "blocks_config \<Rightarrow> block_row \<Rightarrow> bool" where
  "block_in_range cfg b \<longleftrightarrow>
     (if bc_fromBlock cfg \<noteq> 0 then bc_fromBlock cfg \<le> bk_number b else True) \<and>
     (if truthy_int (bc_toBlock cfg) then bk_number b \<le> the (bc_toBlock cfg) else True)"

text \<open>\<open>addBlock\<close> is called on data with a block and its details.\<close>

definition addBlock :: "token_env \<Rightarrow> block_data \<Rightarrow> ('z db_scheme, unit) act" where
  "addBlock E d =
     bind (BlockRepository_add (the (d_block d)) (the (d_blockDetails d))) (\<lambda>_.
     bind (for_each TransactionProcessor_add (d_transactions d)) (\<lambda>_.
     bind (if d_blockLogs d \<noteq> []
           then addMany ins_log (map (\<lambda>l. (l, bd_timestamp (the (d_blockDetails d)) * 1000)) (d_blockLogs d)) else ret ()) (\<lambda>_.
     bind (if d_blockTransfers d \<noteq> [] then TransferRepository_addMany (d_blockTransfers d) else ret ()) (\<lambda>_.
     if d_changedBalances d \<noteq> []
     then bind (saveChangedBalances (d_changedBalances d)) (\<lambda>_.
          saveERC20Tokens E (getERC20TokensForChangedBalances (d_changedBalances d)))
     else ret ()))))"

text \<open>
  The transactions of the chunks: all must execute, then they are committed one after the other. When an
  action fails nothing is committed; when a commit fails, those before it stay and the rest is rolled back.
\<close>

definition save_chunks :: "('a list \<Rightarrow> ('s, unit) act) \<Rightarrow> (nat \<Rightarrow> bool) \<Rightarrow> 'a list list \<Rightarrow> ('s, unit) act" where
  "save_chunks action commit_fails chunks s =
     (case for_each action chunks s of
        (t, Inl e) \<Rightarrow> (s, Inl e)
      | (t, Inr _) \<Rightarrow>
          (case find commit_fails [0..<length chunks] of
             None \<Rightarrow> (t, Inr ())
           | Some k \<Rightarrow> (fst (for_each action (take k chunks) s), Inl db_error)))"

definition triggerBlocksRevertEvent :: "blocks_config \<Rightarrow> int \<Rightarrow> (worker_db, unit) act" where
  "triggerBlocksRevertEvent cfg n =
     (if bc_disableBlocksRevert cfg then ret () else modify (\<lambda>s. s\<lparr>revert_events := revert_events s @ [n]\<rparr>))"

text \<open>The round once the last stored block is known and the next blocks have been fetched.\<close>

definition process_fetched ::
  "token_env \<Rightarrow> blocks_config \<Rightarrow> chain \<Rightarrow> (nat \<Rightarrow> bool) \<Rightarrow> block_row option \<Rightarrow> block_data list \<Rightarrow> (worker_db, bool) act" where
  "process_fetched E cfg C commit_fails lastDb bs =
     (case bs of
       [] \<Rightarrow>
         (case lastDb of
            None \<Rightarrow> ret False
          | Some b \<Rightarrow>
              if map_option bk_hash (chainBlock C (bk_number b)) = Some (bk_hash b) then ret False
              else bind (triggerBlocksRevertEvent cfg (bk_number b)) (\<lambda>_. ret False))
     | first # _ \<Rightarrow>
         if lastDb \<noteq> None \<and> Some (bk_hash (the lastDb)) \<noteq> Option.bind (d_block first) bk_parentHash
         then bind (triggerBlocksRevertEvent cfg (bk_number (the lastDb))) (\<lambda>_. ret False)
         else if list_ex (\<lambda>d. d_block d = None \<or> d_blockDetails d = None) bs then ret False
         else if \<not> validateBlocksLinking bs then ret False
         else bind (save_chunks (for_each (addBlock E)) commit_fails
                     (splitIntoChunks bs (bc_numberOfBlocksPerDbTransaction cfg))) (\<lambda>_. ret True))"

definition processNextBlocksRange ::
  "token_env \<Rightarrow> blocks_config \<Rightarrow> chain \<Rightarrow> int option \<Rightarrow> (nat \<Rightarrow> bool) \<Rightarrow> (worker_db, bool) act" where
  "processNextBlocksRange E cfg C lastBlockchain commit_fails =
     bind (getLastBlock (block_in_range cfg)) (\<lambda>lastDb.
     process_fetched E cfg C commit_fails lastDb
       (map (fetchBlock C) (next_block_numbers cfg lastBlockchain (map_option bk_number lastDb))))"

section \<open>block.service.ts\<close>

text \<open>
  One round of the service: the delay before the next one, with the new number of retries. The round has
  thrown when its outcome is \<open>Inl\<close>.
\<close>

definition block_service_delay :: "nat \<Rightarrow> nat \<Rightarrow> nat \<Rightarrow> exn + bool \<Rightarrow> nat \<times> nat" where
  "block_service_delay waitForBlocksInterval delay retries outcome =
     (case outcome of
        Inr processed \<Rightarrow> (if processed then 0 else waitForBlocksInterval, resetRetryDelay retries)
      | Inl e \<Rightarrow> getRetryDelay delay retries)"

section \<open>What adding blocks keeps\<close>

lemma transaction_processor_keeps [intro!]: "keeps db_ok (TransactionProcessor_add d)"
  unfolding TransactionProcessor_add_def
  by (intro keeps_bind keeps_for_each) (auto intro: receipt_table.add_keeps log_table.addMany_keeps)

lemma add_block_keeps [intro!]: "keeps db_ok (addBlock E d)"
  unfolding addBlock_def
  by (intro keeps_bind keeps_for_each keeps_if) (auto intro: log_table.addMany_keeps)

lemma save_chunks_keeps:
  assumes "\<And>c. c \<in> set chunks \<Longrightarrow> keeps I (action c)"
  shows "keeps I (save_chunks action fails chunks)"
proof -
  have "keeps I (for_each action (take k chunks))" "keeps I (for_each action chunks)" for k
    using assms by (auto dest: in_set_takeD)
  then show ?thesis
    unfolding keeps_def save_chunks_def
    by (auto split: prod.splits sum.splits option.splits)
qed

lemma events_ok [simp]: "db_ok (s\<lparr>revert_events := x\<rparr>) = db_ok s"
proof -
  have "has_block (s\<lparr>revert_events := x\<rparr>) = has_block s" "has_tx (s\<lparr>revert_events := x\<rparr>) = has_tx s"
    "has_transfer (s\<lparr>revert_events := x\<rparr>) = has_transfer s"
    by (simp_all add: has_block_def has_tx_def has_transfer_def fun_eq_iff)
  then show ?thesis by (simp add: db_ok_def fk_ok_def keys_ok_def)
qed

lemma trigger_keeps: "keeps db_ok (triggerBlocksRevertEvent cfg n)"
  by (simp add: triggerBlocksRevertEvent_def keeps_modify)

lemma process_blocks_keeps [intro!]: "keeps db_ok (processNextBlocksRange E cfg C m fails)"
  unfolding processNextBlocksRange_def getLastBlock_def process_fetched_def
  by (auto split: list.split option.split intro!: save_chunks_keeps trigger_keeps)

subsection \<open>Frames\<close>

text \<open>Only \<open>BlockRepository_add\<close> changes the table of blocks, and nothing of this touches the events.\<close>

definition frame :: "block_row list \<Rightarrow> 'z \<Rightarrow> 'z db_scheme \<Rightarrow> bool" where
  "frame B M s \<longleftrightarrow> blocks s = B \<and> db.more s = M"

lemma frame_tables:
  "table ins_transaction (frame B M)" "table ins_receipt (frame B M)" "table ins_log (frame B M)"
  "table ins_transfer (frame B M)" "table ins_address_transfer (frame B M)"
  "table ins_address_transaction (frame B M)" "table ins_balance (frame B M)"
  by (unfold_locales, auto simp: frame_def bump_def Let_def ins_transaction_def ins_receipt_def ins_log_def
      ins_transfer_def ins_address_transfer_def ins_address_transaction_def ins_balance_def split: if_splits)+

lemmas frame_inserts [intro!] = frame_tables [THEN table.addMany_keeps] frame_tables [THEN table.add_keeps]

lemma frame_upserts [intro!]:
  "keeps (frame B M) (AddressRepository_upsert a)" "keeps (frame B M) (TokenRepository_upsert x)"
  by (auto simp: keeps_def frame_def AddressRepository_upsert_def TokenRepository_upsert_def Let_def bump_def)

lemma frame_operations [intro!]:
  "keeps (frame B M) (TransactionRepository_add t)" "keeps (frame B M) (TransferRepository_addMany ts)"
  "keeps (frame B M) (saveChangedBalances bs)" "keeps (frame B M) (saveERC20Tokens E as)"
  unfolding TransactionRepository_add_def TransferRepository_addMany_def saveChangedBalances_def saveERC20Tokens_def
    saveERC20Token_row_def saveERC20Token_def
  by (auto split: option.split)

lemma frame_transaction [intro!]: "keeps (frame B M) (TransactionProcessor_add d)"
  unfolding TransactionProcessor_add_def by (intro keeps_bind keeps_for_each frame_inserts frame_operations frame_upserts)

definition new_row :: "block_data \<Rightarrow> block_row" where
  "new_row d = block_row_of (the (d_block d)) (the (d_blockDetails d))"

lemma addBlock_blocks:
  assumes "addBlock E d s = (t, r)"
  shows "db.more t = db.more s \<and> (r = Inr () \<longrightarrow> blocks t = blocks s @ [new_row d])"
proof -
  let ?rest = "\<lambda>_::unit. bind (for_each TransactionProcessor_add (d_transactions d)) (\<lambda>_.
     bind (if d_blockLogs d \<noteq> []
           then addMany ins_log (map (\<lambda>l. (l, bd_timestamp (the (d_blockDetails d)) * 1000)) (d_blockLogs d)) else ret ()) (\<lambda>_.
     bind (if d_blockTransfers d \<noteq> [] then TransferRepository_addMany (d_blockTransfers d) else ret ()) (\<lambda>_.
     if d_changedBalances d \<noteq> []
     then bind (saveChangedBalances (d_changedBalances d)) (\<lambda>_.
          saveERC20Tokens E (getERC20TokensForChangedBalances (d_changedBalances d)))
     else ret ())))"
  have rest: "keeps (frame B M) (?rest u)" for B M u
    by (intro keeps_bind keeps_for_each keeps_if) auto
  obtain v q where v: "BlockRepository_add (the (d_block d)) (the (d_blockDetails d)) s = (v, q)" by force
  then have more: "db.more v = db.more s" and row: "q = Inr () \<longrightarrow> blocks v = blocks s @ [new_row d]"
    by (auto simp: BlockRepository_add_def insert_stmt_def ins_block_def new_row_def split: if_splits)
  show ?thesis
  proof (cases q)
    case (Inl e)
    with v assms more show ?thesis by (auto simp: addBlock_def bind_def)
  next
    case (Inr u)
    with v assms have "?rest () v = (t, r)" by (simp add: addBlock_def bind_def [of "BlockRepository_add x y" for x y])
    from keepsE [OF rest this, of "blocks v" "db.more v"] have "frame (blocks v) (db.more v) t" by (simp add: frame_def)
    with more row Inr show ?thesis by (simp add: frame_def)
  qed
qed

lemma add_blocks_rows:
  "for_each (addBlock E) ds s = (t, r) \<Longrightarrow>
     db.more t = db.more s \<and> (r = Inr () \<longrightarrow> blocks t = blocks s @ map new_row ds)"
proof (induction ds arbitrary: s)
  case (Cons d ds)
  obtain u q where u: "addBlock E d s = (u, q)" by force
  with Cons.prems Cons.IH [of u] addBlock_blocks [OF u] show ?case
    by (cases q) (auto simp: bind_def)
qed (simp add: act_simps)

lemma add_chunks_rows:
  "for_each (for_each (addBlock E)) cs s = (t, r) \<Longrightarrow>
     db.more t = db.more s \<and> (r = Inr () \<longrightarrow> blocks t = blocks s @ map new_row (concat cs))"
  using add_blocks_rows [of E "concat cs" s t r] by (simp add: for_each_concat)

text \<open>Whatever happens, the blocks that are stored are the first ones of the round.\<close>

lemma for_each_take: "for_each f xs s = (t, Inr ()) \<Longrightarrow> \<exists>u. for_each f (take k xs) s = (u, Inr ())"
proof (induction xs arbitrary: s k)
  case (Cons x xs)
  then obtain u where "f x s = (u, Inr ())" "for_each f xs u = (t, Inr ())" by (auto elim!: bind_returned)
  with Cons.IH [of u] show ?case by (cases k) (auto simp: act_simps bind_def)
qed (simp add: act_simps)

lemma save_chunks_rows:
  assumes "save_chunks (for_each (addBlock E)) fails cs s = (t, r)"
  shows "db.more t = db.more s \<and> (\<exists>n. blocks t = blocks s @ map new_row (take n (concat cs))) \<and>
    (r = Inr () \<longrightarrow> blocks t = blocks s @ map new_row (concat cs))"
proof -
  obtain u q where u: "for_each (for_each (addBlock E)) cs s = (u, q)" by force
  show ?thesis
  proof (cases q)
    case (Inl e)
    with assms u have "t = s" "r = Inl e" by (auto simp: save_chunks_def)
    then show ?thesis by (auto intro: exI [of _ 0])
  next
    case (Inr x)
    with u have u: "for_each (for_each (addBlock E)) cs s = (u, Inr ())" by simp
    show ?thesis
    proof (cases "find fails [0..<length cs]")
      case None
      with assms u have "t = u" by (auto simp: save_chunks_def)
      with add_chunks_rows [OF u] show ?thesis by (auto intro!: exI [of _ "length (concat cs)"])
    next
      case (Some k)
      obtain v where v: "for_each (for_each (addBlock E)) (take k cs) s = (v, Inr ())" using for_each_take [OF u] by blast
      with assms u Some have "t = v" "r = Inl db_error" by (auto simp: save_chunks_def)
      moreover obtain n where "concat (take k cs) = take n (concat cs)"
        by (metis append_eq_conv_conj append_take_drop_id concat_append)
      ultimately show ?thesis using add_chunks_rows [OF v] by auto
    qed
  qed
qed

section \<open>The stored chain\<close>

text \<open>
  A hash in the form the columns give it (lower case, \<open>0x\<close>, not the zero hash, which a parent hash column
  stores as \<open>null\<close>). The blocks of the worker's range are linked: each names its predecessor's hash.
\<close>

definition canonical_hash :: "string \<Rightarrow> bool" where
  "canonical_hash h \<longleftrightarrow> hash64_col (Some h) = Some h"

definition linked_rows :: "block_row list \<Rightarrow> bool" where
  "linked_rows rows \<longleftrightarrow> (\<forall>b \<in> set rows. canonical_hash (bk_hash b)) \<and>
     (\<forall>b \<in> set rows. \<forall>c \<in> set rows. bk_number c = bk_number b + 1 \<longrightarrow> bk_parentHash c = Some (bk_hash b))"

definition chain_linked :: "blocks_config \<Rightarrow> 'z db_scheme \<Rightarrow> bool" where
  "chain_linked cfg s \<longleftrightarrow> linked_rows (filter (block_in_range cfg) (blocks s))"

lemma canonical_row:
  assumes "canonical_hash (bk_hash b)"
  shows "bk_hash (block_row_of b d) = bk_hash b"
proof -
  have "hex_col (Some (bk_hash b)) = Some (bk_hash b)"
    using assms
    by (auto simp: canonical_hash_def hash64_col_def hash64HexTransformer_to_def hex_col_def hexTransformer_from_def
        split: if_splits)
  then show ?thesis by (simp add: block_row_of_def hexc_def block_row.defs block_dto.defs)
qed

lemma canonical_parent:
  "canonical_hash h \<Longrightarrow> bk_parentHash c = Some h \<Longrightarrow> bk_parentHash (block_row_of c e) = Some h"
  by (simp add: block_row_of_def canonical_hash_def)

text \<open>Rows that follow one another, each naming the one before.\<close>

definition run_from :: "int \<Rightarrow> block_row list \<Rightarrow> bool" where
  "run_from n rows \<longleftrightarrow> (\<forall>i < length rows. bk_number (rows ! i) = n + int i \<and> canonical_hash (bk_hash (rows ! i))) \<and>
     (\<forall>i. Suc i < length rows \<longrightarrow> bk_parentHash (rows ! Suc i) = Some (bk_hash (rows ! i)))"

lemma linked_rows_append:
  assumes old: "linked_rows rows" and new: "run_from n news"
    and last: "case last_by bk_number rows of None \<Rightarrow> True
      | Some b \<Rightarrow> n = bk_number b + 1 \<and> (news \<noteq> [] \<longrightarrow> bk_parentHash (hd news) = Some (bk_hash b))"
    and keys: "distinct (map bk_number rows)"
  shows "linked_rows (rows @ news)"
proof -
  have below: "bk_number b < n" if "b \<in> set rows" for b
  proof -
    from that obtain m where m: "last_by bk_number rows = Some m" by (cases "last_by bk_number rows") auto
    with last last_by_max [OF m] that show ?thesis by force
  qed
  have number: "\<exists>i < length news. c = news ! i \<and> bk_number c = n + int i" if "c \<in> set news" for c
    using that new by (auto simp: run_from_def in_set_conv_nth)
  have link: "bk_parentHash c = Some (bk_hash b)"
    if b: "b \<in> set (rows @ news)" and c: "c \<in> set (rows @ news)" and succ: "bk_number c = bk_number b + 1" for b c
  proof (cases "c \<in> set news")
    case False
    with c have "c \<in> set rows" by simp
    moreover have "b \<notin> set news" using below [OF \<open>c \<in> set rows\<close>] number succ by fastforce
    ultimately show ?thesis using old b succ by (auto simp: linked_rows_def)
  next
    case True
    then obtain j where j: "j < length news" "c = news ! j" "bk_number c = n + int j" using number by blast
    show ?thesis
    proof (cases "b \<in> set news")
      case True
      then obtain i where i: "i < length news" "b = news ! i" "bk_number b = n + int i" using number by blast
      with j succ have "j = Suc i" by simp
      with i j new show ?thesis by (simp add: run_from_def)
    next
      case False
      with b have b: "b \<in> set rows" by simp
      with succ j below [OF b] have "j = 0" "bk_number b = n - 1" by auto
      from b obtain m where m: "last_by bk_number rows = Some m" by (cases "last_by bk_number rows") auto
      with last \<open>bk_number b = n - 1\<close> have "bk_number m = bk_number b" by simp
      with keys b last_by_max [OF m] have "m = b" by (auto simp: distinct_map dest: inj_onD)
      with m last j \<open>j = 0\<close> show ?thesis by (simp add: hd_conv_nth)
    qed
  qed
  moreover have "\<forall>b \<in> set (rows @ news). canonical_hash (bk_hash b)"
    using old number new unfolding linked_rows_def run_from_def by (metis Un_iff set_append)
  ultimately show ?thesis unfolding linked_rows_def by blast
qed

lemma run_from_take: "run_from n rows \<Longrightarrow> run_from n (take k rows)"
  by (simp add: run_from_def)

text \<open>What the checks of a round establish about the fetched blocks.\<close>

definition honest_fetcher :: "chain \<Rightarrow> bool" where
  "honest_fetcher C \<longleftrightarrow> (\<forall>n b. d_block (fetchBlock C n) = Some b \<longrightarrow> bk_number b = n \<and> canonical_hash (bk_hash b))"

lemma validated_run:
  assumes C: "honest_fetcher C" and ns: "\<forall>i. i < length ns \<longrightarrow> ns ! i = n + int i"
    and ex: "\<forall>d \<in> set (map (fetchBlock C) ns). d_block d \<noteq> None"
    and linking: "validateBlocksLinking (map (fetchBlock C) ns)"
  shows "run_from n (map new_row (map (fetchBlock C) ns))"
proof -
  let ?b = "\<lambda>i. the (d_block (fetchBlock C (ns ! i)))"
  have b: "d_block (fetchBlock C (ns ! i)) = Some (?b i)" "bk_number (?b i) = n + int i" "canonical_hash (bk_hash (?b i))"
    if "i < length ns" for i
  proof -
    show some: "d_block (fetchBlock C (ns ! i)) = Some (?b i)" using ex that by force
    with C ns that show "bk_number (?b i) = n + int i" "canonical_hash (bk_hash (?b i))"
      by (metis honest_fetcher_def)+
  qed
  have linked: "bk_parentHash (?b (Suc i)) = Some (bk_hash (?b i))" if i: "Suc i < length ns" for i
  proof -
    let ?ds = "map (fetchBlock C) ns"
    have "zip ?ds (tl ?ds) ! i = (fetchBlock C (ns ! i), fetchBlock C (ns ! Suc i))"
      using i by (simp add: nth_tl)
    moreover have "zip ?ds (tl ?ds) ! i \<in> set (zip ?ds (tl ?ds))"
      using i by (intro nth_mem) simp
    ultimately show ?thesis using linking by (auto simp: validateBlocksLinking_def list_ex_iff)
  qed
  have "bk_number (new_row (fetchBlock C (ns ! i))) = n + int i" if "i < length ns" for i
    using b(2) [OF that] by (simp add: new_row_def block_row_of_def block_dto.defs)
  with b linked canonical_row canonical_parent show ?thesis
    by (auto simp: run_from_def new_row_def)
qed

lemma next_numbers_nth:
  "i < length (next_block_numbers cfg m lastDb) \<Longrightarrow>
     next_block_numbers cfg m lastDb ! i = (case lastDb of None \<Rightarrow> bc_fromBlock cfg | Some n \<Rightarrow> n + 1) + int i"
  by (auto simp: next_block_numbers_def Let_def upto_nth simp del: length_upto split: option.splits if_splits)

lemma filter_blocks_append:
  "filter (block_in_range cfg) (rows @ news) = filter (block_in_range cfg) rows @ filter (block_in_range cfg) news"
  by simp

text \<open>All the blocks of a round are in the worker's range.\<close>

lemma run_in_range:
  assumes "run_from n rows" "\<forall>i < length rows. bc_fromBlock cfg \<le> n + int i \<and>
     (truthy_int (bc_toBlock cfg) \<longrightarrow> n + int i \<le> the (bc_toBlock cfg))"
  shows "filter (block_in_range cfg) rows = rows"
proof (rule filter_True)
  show "\<forall>b \<in> set rows. block_in_range cfg b"
  proof
    fix b assume "b \<in> set rows"
    then obtain i where "i < length rows" "b = rows ! i" by (auto simp: in_set_conv_nth)
    with assms show "block_in_range cfg b" by (auto simp: block_in_range_def run_from_def)
  qed
qed

lemma next_numbers_range:
  assumes "i < length (next_block_numbers cfg m lastDb)"
  shows "bc_fromBlock cfg \<le> next_block_numbers cfg m lastDb ! i \<and>
    (truthy_int (bc_toBlock cfg) \<longrightarrow> next_block_numbers cfg m lastDb ! i \<le> the (bc_toBlock cfg))"
proof -
  have "next_block_numbers cfg m lastDb ! i \<in> set (next_block_numbers cfg m lastDb)" using assms by simp
  then show ?thesis
    by (auto simp: next_block_numbers_def Let_def lastBlockNumberToProcess_def split: option.splits if_splits)
qed

lemma round_keeps_chain:
  assumes C: "honest_fetcher C" and s: "chain_linked cfg s" "keys_ok s"
    and lastDb: "lastDb = last_by bk_number (filter (block_in_range cfg) (blocks s))"
    and bs: "bs = map (fetchBlock C) (next_block_numbers cfg m (map_option bk_number lastDb))" "bs \<noteq> []"
    and parent: "\<not> (lastDb \<noteq> None \<and> Some (bk_hash (the lastDb)) \<noteq> Option.bind (d_block (hd bs)) bk_parentHash)"
    and ex: "\<not> list_ex (\<lambda>d. d_block d = None \<or> d_blockDetails d = None) bs"
    and linking: "validateBlocksLinking bs"
    and t: "blocks t = blocks s @ map new_row (take k bs)"
  shows "chain_linked cfg t"
proof -
  let ?n = "case map_option bk_number lastDb of None \<Rightarrow> bc_fromBlock cfg | Some n \<Rightarrow> n + 1"
  let ?rows = "filter (block_in_range cfg) (blocks s)" and ?news = "map new_row (take k bs)"
  have run: "run_from ?n (map new_row bs)"
    unfolding bs(1)
  proof (rule validated_run [OF C])
    show "\<forall>i<length (next_block_numbers cfg m (map_option bk_number lastDb)).
       next_block_numbers cfg m (map_option bk_number lastDb) ! i = ?n + int i"
      using next_numbers_nth by blast
    show "\<forall>d\<in>set (map (fetchBlock C) (next_block_numbers cfg m (map_option bk_number lastDb))). d_block d \<noteq> None"
      using ex bs(1) by (auto simp: list_ex_iff)
  qed (use linking bs(1) in simp)
  then have news: "run_from ?n ?news" using run_from_take [of ?n "map new_row bs" k] by (simp add: take_map)
  have "filter (block_in_range cfg) ?news = ?news"
  proof (rule run_in_range [OF news], intro allI impI)
    fix i assume "i < length ?news"
    then have "i < length (next_block_numbers cfg m (map_option bk_number lastDb))" using bs(1) by simp
    then show "bc_fromBlock cfg \<le> ?n + int i \<and> (truthy_int (bc_toBlock cfg) \<longrightarrow> ?n + int i \<le> the (bc_toBlock cfg))"
      using next_numbers_range next_numbers_nth by metis
  qed
  then have rows: "filter (block_in_range cfg) (blocks t) = ?rows @ ?news" by (simp add: t)
  have "case lastDb of None \<Rightarrow> True
      | Some b \<Rightarrow> ?n = bk_number b + 1 \<and> (?news \<noteq> [] \<longrightarrow> bk_parentHash (hd ?news) = Some (bk_hash b))"
  proof (cases lastDb)
    case (Some b)
    have "bk_parentHash (hd ?news) = Some (bk_hash b)" if "?news \<noteq> []"
    proof -
      from that bs(2) have hd: "hd ?news = new_row (hd bs)" by (simp add: hd_map)
      obtain c where c: "d_block (hd bs) = Some c" "bk_parentHash c = Some (bk_hash b)"
        using parent Some by (cases "d_block (hd bs)") auto
      have "canonical_hash (bk_hash b)"
        using s(1) lastDb Some last_by_max [of bk_number ?rows b] by (auto simp: chain_linked_def linked_rows_def)
      with c hd canonical_parent show ?thesis by (simp add: new_row_def)
    qed
    with Some show ?thesis by simp
  qed simp
  then have "linked_rows (?rows @ ?news)"
    using s linked_rows_append [OF _ news, of ?rows] lastDb
    by (simp add: chain_linked_def keys_ok_def distinct_map_filter)
  then show ?thesis by (simp add: chain_linked_def rows)
qed

lemma process_fetched_cases:
  assumes "process_fetched E cfg C fails lastDb bs s = (t, r)"
  obtains (idle) "t = s" "r = Inr False"
  | (revert) n where "triggerBlocksRevertEvent cfg n s = (t, Inr ())" "r = Inr False" "map_option bk_number lastDb = Some n"
  | (save) q where "bs \<noteq> []" "\<not> (lastDb \<noteq> None \<and> Some (bk_hash (the lastDb)) \<noteq> Option.bind (d_block (hd bs)) bk_parentHash)"
      "\<not> list_ex (\<lambda>d. d_block d = None \<or> d_blockDetails d = None) bs" "validateBlocksLinking bs"
      "save_chunks (for_each (addBlock E)) fails (splitIntoChunks bs (bc_numberOfBlocksPerDbTransaction cfg)) s = (t, q)"
      "r = (case q of Inl e \<Rightarrow> Inl e | Inr _ \<Rightarrow> Inr True)"
proof -
  have trigger: "bind (triggerBlocksRevertEvent cfg n) (\<lambda>_. ret False) s = (t, r) \<Longrightarrow>
      triggerBlocksRevertEvent cfg n s = (t, Inr ()) \<and> r = Inr False" for n
    by (auto simp: triggerBlocksRevertEvent_def bind_def act_simps)
  show thesis
  proof (cases "bs = []")
    case True
    show thesis
    proof (cases "lastDb = None \<or> map_option bk_hash (chainBlock C (bk_number (the lastDb))) = Some (bk_hash (the lastDb))")
      case True
      with assms \<open>bs = []\<close> have "t = s" "r = Inr False"
        by (auto simp: process_fetched_def act_simps split: option.splits)
      then show thesis by (rule idle)
    next
      case False
      then obtain b where b: "lastDb = Some b" by (cases lastDb) auto
      with False assms \<open>bs = []\<close> have "bind (triggerBlocksRevertEvent cfg (bk_number b)) (\<lambda>_. ret False) s = (t, r)"
        by (auto simp: process_fetched_def split: if_splits)
      from trigger [OF this] b show thesis by (intro revert) simp_all
    qed
  next
    case False
    then obtain first rest where bs: "bs = first # rest" by (cases bs) auto
    show thesis
    proof (cases "lastDb \<noteq> None \<and> Some (bk_hash (the lastDb)) \<noteq> Option.bind (d_block first) bk_parentHash")
      case True
      then obtain b where "lastDb = Some b" by (cases lastDb) auto
      with True assms have "bind (triggerBlocksRevertEvent cfg (bk_number b)) (\<lambda>_. ret False) s = (t, r)"
        by (simp add: process_fetched_def bs)
      from trigger [OF this] \<open>lastDb = Some b\<close> show thesis by (intro revert) simp_all
    next
      case same: False
      show thesis
      proof (cases "list_ex (\<lambda>d. d_block d = None \<or> d_blockDetails d = None) bs \<or> \<not> validateBlocksLinking bs")
        case True
        with same assms have "ret False s = (t, r)"
          unfolding process_fetched_def bs list.case if_not_P [OF same] by (auto split: if_splits)
        then have "t = s" "r = Inr False" by (simp_all add: act_simps)
        then show thesis by (rule idle)
      next
        case False
        with same assms have *: "bind (save_chunks (for_each (addBlock E)) fails
            (splitIntoChunks bs (bc_numberOfBlocksPerDbTransaction cfg))) (\<lambda>_. ret True) s = (t, r)"
          unfolding process_fetched_def bs list.case if_not_P [OF same] by (auto split: if_splits)
        obtain u q where u: "save_chunks (for_each (addBlock E)) fails
            (splitIntoChunks bs (bc_numberOfBlocksPerDbTransaction cfg)) s = (u, q)" by force
        with * have "t = u" "r = (case q of Inl e \<Rightarrow> Inl e | Inr _ \<Rightarrow> Inr True)"
          by (cases q; simp add: bind_def act_simps)+
        with u False same bs save show thesis by simp
      qed
    qed
  qed
qed

lemma trigger_run:
  "triggerBlocksRevertEvent cfg n s =
     (if bc_disableBlocksRevert cfg then s else s\<lparr>revert_events := revert_events s @ [n]\<rparr>, Inr ())"
  by (simp add: triggerBlocksRevertEvent_def act_simps)

lemma round_keeps_linked:
  assumes "honest_fetcher C" "0 < bc_numberOfBlocksPerDbTransaction cfg"
    and "chain_linked cfg s" "keys_ok s"
    and "processNextBlocksRange E cfg C m fails s = (t, r)"
  shows "chain_linked cfg t"
proof -
  let ?last = "last_by bk_number (filter (block_in_range cfg) (blocks s))"
  let ?bs = "map (fetchBlock C) (next_block_numbers cfg m (map_option bk_number ?last))"
  have "process_fetched E cfg C fails ?last ?bs s = (t, r)"
    using assms(5) by (simp add: processNextBlocksRange_def getLastBlock_def)
  then show ?thesis
  proof (cases rule: process_fetched_cases)
    case idle
    with assms(3) show ?thesis by simp
  next
    case (revert n)
    then have "blocks t = blocks s" by (auto simp: trigger_run)
    with assms(3) show ?thesis by (simp add: chain_linked_def)
  next
    case (save q)
    from save_chunks_rows [OF save(5)]
    obtain k where "blocks t = blocks s @ map new_row (take k (concat (splitIntoChunks ?bs (bc_numberOfBlocksPerDbTransaction cfg))))"
      by blast
    then have "blocks t = blocks s @ map new_row (take k ?bs)"
      by (simp only: splitIntoChunks_concat [OF assms(2)])
    from round_keeps_chain [OF assms(1,3,4) refl refl save(1-4) this] show ?thesis .
  qed
qed




section \<open>A concrete round\<close>

definition demo_worker_db :: worker_db where
  "demo_worker_db = db.extend empty_db (worker_db.fields [])"

definition demo_data :: "block_dto option \<Rightarrow> block_data" where
  "demo_data b = \<lparr>d_block = b, d_blockDetails = Some demo_details, d_transactions = [], d_blockLogs = [],
     d_blockTransfers = [], d_changedBalances = []\<rparr>"

definition demo_chain :: chain where
  "demo_chain = \<lparr>chainBlock = (\<lambda>_. None), fetchBlock = (\<lambda>n. demo_data
     (if n = 1 then Some (demo_block 1 ''0x01'' ''0x00'') else if n = 2 then Some (demo_block 2 ''0x02'' ''0x01'') else None))\<rparr>"

definition demo_config :: blocks_config where
  "demo_config = \<lparr>bc_fromBlock = 1, bc_toBlock = None, bc_batchSize = 2, bc_disableBlocksRevert = False,
     bc_numberOfBlocksPerDbTransaction = 1\<rparr>"

definition demo_round :: "(nat \<Rightarrow> bool) \<Rightarrow> worker_db \<times> (exn + bool)" where
  "demo_round fails = processNextBlocksRange demo_env demo_config demo_chain (Some 7) fails demo_worker_db"

lemma demo_hashes: "canonical_hash ''0x01''" "canonical_hash ''0x02''"
  unfolding canonical_hash_def by code_simp+

lemma demo_honest: "honest_fetcher demo_chain"
  using demo_hashes by (auto simp: honest_fetcher_def demo_chain_def demo_data_def demo_block_def split: if_splits)

lemma demo_worker_ok: "db_ok demo_worker_db" "chain_linked demo_config demo_worker_db"
  by (simp_all add: demo_worker_db_def empty_db_def db.defs worker_db.defs db_ok_def fk_ok_def keys_ok_def
      chain_linked_def linked_rows_def)

lemma demo_numbers: "next_block_numbers demo_config (Some 7) None = [1, 2]"
  by code_simp

lemma demo_round_result: "snd (demo_round (\<lambda>_. False)) = Inr True" "map bk_number (blocks (fst (demo_round (\<lambda>k. k = 1)))) = [1]"
  by code_simp+

theorem next_blocks_bounded_witness:
  "next_block_numbers demo_config (Some 7) None = [1, 2] \<and>
   int (length (next_block_numbers demo_config (Some 7) None)) \<le> bc_batchSize demo_config"
  using next_blocks_bounded [of demo_config "Some 7" None] demo_numbers by (simp add: demo_config_def)




end
