(* ===== verification/Worker_Batches.thy ===== *)
theory Worker_Batches
  imports Worker_Blocks
begin

text \<open>
  Batches (\<open>src/packages/worker/src/batch\<close>): one worker per state of a batch (new, committed, proven,
  executed) stores the next batch that is in its state, provided the last stored block of the batch is
  still on the chain. What the node says of a batch is an argument; it has the fields of a row, with the
  timestamp in seconds.
\<close>

section \<open>batch.utils.ts\<close>

definition getBatchState :: "batch_row \<Rightarrow> BatchState" where
  "getBatchState b =
     (if bt_executedAt b \<noteq> None then Executed
      else if bt_provenAt b \<noteq> None then Proven
      else if bt_committedAt b \<noteq> None then Committed
      else New)"

section \<open>blockchain.service.ts\<close>

text \<open>The genesis batch is given dates: it counts as executed.\<close>

definition getL1BatchDetails :: "(int \<Rightarrow> batch_row option) \<Rightarrow> int \<Rightarrow> batch_row option" where
  "getL1BatchDetails provider n =
     (case provider n of
        None \<Rightarrow> None
      | Some b \<Rightarrow> Some (if n = 0 then b\<lparr>bt_committedAt := Some 0, bt_provenAt := Some 0, bt_executedAt := Some 0\<rparr> else b))"

section \<open>batch.processor.ts\<close>

definition batch_in_state :: "BatchState \<Rightarrow> batch_row \<Rightarrow> bool" where
  "batch_in_state st b =
     (case st of Executed \<Rightarrow> bt_executedAt b \<noteq> None | Proven \<Rightarrow> bt_provenAt b \<noteq> None
      | Committed \<Rightarrow> bt_committedAt b \<noteq> None | New \<Rightarrow> True)"

definition getLastProcessedBatchNumber :: "BatchState \<Rightarrow> ('z db_scheme, int) act" where
  "getLastProcessedBatchNumber st =
     bind (getLastBatch (batch_in_state st)) (\<lambda>b. ret (case b of None \<Rightarrow> -1 | Some r \<Rightarrow> bt_number r))"

text \<open>The state of a processor is its last processed batch number; the result has its new value.\<close>

definition store_batch ::
  "chain \<Rightarrow> (int \<Rightarrow> batch_row option) \<Rightarrow> BatchState \<Rightarrow> int \<Rightarrow> ('z db_scheme, bool \<times> int option) act" where
  "store_batch C provider st n =
     (case getL1BatchDetails provider n of
       None \<Rightarrow> ret (False, None)
     | Some b \<Rightarrow>
         if getBatchState b \<noteq> st then ret (False, None)
         else
           bind (getLastBlock (\<lambda>r. b_l1BatchNumber r = bt_number b)) (\<lambda>lastDb.
           case lastDb of
             None \<Rightarrow> ret (False, None)
           | Some r \<Rightarrow>
               if map_option bk_hash (chainBlock C (bk_number r)) \<noteq> Some (bk_hash r) then ret (False, None)
               else bind (BatchRepository_upsert (b\<lparr>bt_timestamp := bt_timestamp b * 1000\<rparr>)) (\<lambda>_.
                    ret (True, Some n))))"

definition next_batch_of ::
  "chain \<Rightarrow> (int \<Rightarrow> batch_row option) \<Rightarrow> BatchState \<Rightarrow> int option \<Rightarrow> ('z db_scheme, bool \<times> int option) act" where
  "next_batch_of C provider st lastProcessed =
     bind (case lastProcessed of None \<Rightarrow> getLastProcessedBatchNumber st | Some n \<Rightarrow> ret n) (\<lambda>n.
     store_batch C provider st (n + 1))"

definition processNextBatch ::
  "chain \<Rightarrow> (int \<Rightarrow> batch_row option) \<Rightarrow> BatchState \<Rightarrow> int option \<Rightarrow> ('z db_scheme, bool \<times> int option) act" where
  "processNextBatch C provider st lastProcessed =
     catch (next_batch_of C provider st lastProcessed) (\<lambda>_. ret (False, None))"

definition resetState :: "int option \<Rightarrow> int option" where
  "resetState lastProcessed = None"

text \<open>The workers of the service, in the order it creates them.\<close>

definition batch_workers :: "BatchState list" where
  "batch_workers = [Executed, Proven, Committed, New]"

section \<open>What processing a batch does\<close>

lemma store_batch_keeps [intro!]: "keeps db_ok (store_batch C provider st n)"
  unfolding store_batch_def getLastBlock_def by (auto split: option.split)

lemma process_batch_keeps [intro!]: "keeps db_ok (processNextBatch C provider st last')"
  unfolding processNextBatch_def next_batch_of_def getLastProcessedBatchNumber_def getLastBatch_def
  by (auto split: option.split)

lemma getLastProcessed_run: "\<exists>n. getLastProcessedBatchNumber st s = (s, Inr n)"
  by (simp add: getLastProcessedBatchNumber_def getLastBatch_def act_simps)

lemma next_batch_run:
  "\<exists>n. (lastProcessed = None \<or> lastProcessed = Some n) \<and>
     next_batch_of C provider st lastProcessed s = store_batch C provider st (n + 1) s"
proof (cases lastProcessed)
  case None
  obtain n where "getLastProcessedBatchNumber st s = (s, Inr n)" using getLastProcessed_run by blast
  with None show ?thesis by (auto simp: next_batch_of_def bind_def)
qed (simp add: next_batch_of_def)

definition upserted_batches :: "batch_row \<Rightarrow> batch_row list \<Rightarrow> batch_row list" where
  "upserted_batches new rows =
     (if bt_number new \<in> bt_number ` set rows
      then map (\<lambda>old. if bt_number old = bt_number new then batch_update new old else old) rows
      else rows @ [new])"

lemma batch_upsert_run:
  "BatchRepository_upsert b s = (t, r) \<Longrightarrow>
     (t = s \<and> r = Inl db_error) \<or> (t = s\<lparr>batches := upserted_batches (batch_columns b) (batches s)\<rparr> \<and> r = Inr ())"
  by (auto simp: BatchRepository_upsert_def upserted_batches_def Let_def split: if_splits)

lemma batch_update_number [simp]: "bt_number (batch_update new old) = bt_number new" "bt_number (batch_columns b) = bt_number b"
  by (simp_all add: batch_update_def batch_columns_def)

lemma upserted_number: "bt_number new \<in> bt_number ` set (upserted_batches new rows)"
proof (cases "bt_number new \<in> bt_number ` set rows")
  case True
  have "map bt_number (upserted_batches new rows) = map bt_number rows"
    using True by (simp add: upserted_batches_def)
  from arg_cong [OF this, of set] True show ?thesis by simp
qed (simp add: upserted_batches_def)

lemma upserted_old:
  assumes "old \<in> set rows"
  shows "(if bt_number old = bt_number new then batch_update new old else old) \<in> set (upserted_batches new rows)"
proof (cases "bt_number new \<in> bt_number ` set rows")
  case True
  then show ?thesis using assms by (simp add: upserted_batches_def)
next
  case False
  have "bt_number old \<noteq> bt_number new"
  proof
    assume "bt_number old = bt_number new"
    then have "bt_number new \<in> bt_number ` set rows" using assms by (simp add: rev_image_eqI)
    with False show False ..
  qed
  with False assms show ?thesis by (simp add: upserted_batches_def)
qed

lemma store_batch_cases:
  assumes "store_batch C provider st n s = (t, r)" "r \<noteq> Inr (False, None)"
  obtains b x u q where "getL1BatchDetails provider n = Some b" "getBatchState b = st"
      "last_by bk_number (filter (\<lambda>y. b_l1BatchNumber y = bt_number b) (blocks s)) = Some x"
      "map_option bk_hash (chainBlock C (bk_number x)) = Some (bk_hash x)"
      "BatchRepository_upsert (b\<lparr>bt_timestamp := bt_timestamp b * 1000\<rparr>) s = (t, q)"
      "r = (case q of Inl e \<Rightarrow> Inl e | Inr _ \<Rightarrow> Inr (True, Some n))"
proof (cases "getL1BatchDetails provider n")
  case None
  with assms show thesis by (simp add: store_batch_def act_simps)
next
  case (Some b)
  let ?x = "last_by bk_number (filter (\<lambda>y. b_l1BatchNumber y = bt_number b) (blocks s))"
  have st: "getBatchState b = st" using assms Some by (auto simp: store_batch_def act_simps split: if_splits)
  then obtain x where x: "?x = Some x"
    using assms Some by (cases ?x) (simp_all add: store_batch_def act_simps getLastBlock_def)
  with assms Some st have h: "map_option bk_hash (chainBlock C (bk_number x)) = Some (bk_hash x)"
    by (auto simp: store_batch_def act_simps getLastBlock_def split: if_splits)
  obtain u q where u: "BatchRepository_upsert (b\<lparr>bt_timestamp := bt_timestamp b * 1000\<rparr>) s = (u, q)" by force
  have "bind (BatchRepository_upsert (b\<lparr>bt_timestamp := bt_timestamp b * 1000\<rparr>)) (\<lambda>_. ret (True, Some n)) s = (t, r)"
    using assms(1) Some st x h by (auto simp: store_batch_def getLastBlock_def split: if_splits)
  with u have "t = u" "r = (case q of Inl e \<Rightarrow> Inl e | Inr _ \<Rightarrow> Inr (True, Some n))"
    by (cases q; simp add: bind_def act_simps)+
  with Some st x h u that show thesis by blast
qed

lemma store_batch_idle: "store_batch C provider st n s = (t, Inr (False, None)) \<Longrightarrow> t = s"
  by (auto simp: store_batch_def getLastBlock_def act_simps bind_def split: option.splits if_splits prod.splits sum.splits)

lemma processNextBatch_cases:
  assumes "processNextBatch C provider st lastProcessed s = (t, r)"
  obtains (idle) "t = s" "r = Inr (False, None)"
  | (store) n b x where "lastProcessed = None \<or> lastProcessed = Some n" "getL1BatchDetails provider (n + 1) = Some b"
      "getBatchState b = st" "last_by bk_number (filter (\<lambda>y. b_l1BatchNumber y = bt_number b) (blocks s)) = Some x"
      "map_option bk_hash (chainBlock C (bk_number x)) = Some (bk_hash x)"
      "t = s\<lparr>batches := upserted_batches (batch_columns (b\<lparr>bt_timestamp := bt_timestamp b * 1000\<rparr>)) (batches s)\<rparr>"
      "r = Inr (True, Some (n + 1))"
proof -
  obtain n where n: "lastProcessed = None \<or> lastProcessed = Some n"
    "next_batch_of C provider st lastProcessed s = store_batch C provider st (n + 1) s"
    using next_batch_run by blast
  obtain u q where u: "store_batch C provider st (n + 1) s = (u, q)" by force
  have r: "t = u \<and> r = (case q of Inl e \<Rightarrow> Inr (False, None) | Inr a \<Rightarrow> Inr a)"
    using assms n(2) u by (auto simp: processNextBatch_def catch_def act_simps split: sum.splits)
  show thesis
  proof (cases "q = Inr (False, None)")
    case True
    with u store_batch_idle [of C provider st "n + 1" s u] r idle show thesis by simp
  next
    case False
    from store_batch_cases [OF u False] obtain b x q' where b: "getL1BatchDetails provider (n + 1) = Some b" "getBatchState b = st"
      "last_by bk_number (filter (\<lambda>y. b_l1BatchNumber y = bt_number b) (blocks s)) = Some x"
      "map_option bk_hash (chainBlock C (bk_number x)) = Some (bk_hash x)"
      "BatchRepository_upsert (b\<lparr>bt_timestamp := bt_timestamp b * 1000\<rparr>) s = (u, q')"
      "q = (case q' of Inl e \<Rightarrow> Inl e | Inr _ \<Rightarrow> Inr (True, Some (n + 1)))" by metis
    from batch_upsert_run [OF b(5)] show thesis
    proof
      assume "u = s \<and> q' = Inl db_error"
      with r b(6) idle show thesis by simp
    next
      assume "u = s\<lparr>batches := upserted_batches (batch_columns (b\<lparr>bt_timestamp := bt_timestamp b * 1000\<rparr>)) (batches s)\<rparr> \<and> q' = Inr ()"
      with r b n(1) store [of n b x] show thesis by simp
    qed
  qed
qed

text \<open>
  C26: A batch is stored only when it is in the state of the worker, a block of it is stored, and the node
  still has the last such block under its hash; only the table of batches changes then, and otherwise
  nothing does.
\<close>

theorem batch_stored_only_if_confirmed:
  assumes "processNextBatch C provider st lastProcessed s = (t, r)"
  shows "(t = s \<and> r = Inr (False, None)) \<or>
    (\<exists>n b x. r = Inr (True, Some (n + 1)) \<and> getL1BatchDetails provider (n + 1) = Some b \<and> getBatchState b = st \<and>
       x \<in> set (blocks s) \<and> b_l1BatchNumber x = bt_number b \<and>
       (\<forall>y \<in> set (blocks s). b_l1BatchNumber y = bt_number b \<longrightarrow> bk_number y \<le> bk_number x) \<and>
       map_option bk_hash (chainBlock C (bk_number x)) = Some (bk_hash x) \<and>
       bt_number b \<in> bt_number ` set (batches t) \<and> t = s\<lparr>batches := batches t\<rparr>)"
  using assms
proof (cases rule: processNextBatch_cases)
  case idle
  then show ?thesis by simp
next
  case (store n b x)
  have "bt_number b \<in> bt_number ` set (batches t)"
    using upserted_number [of "batch_columns (b\<lparr>bt_timestamp := bt_timestamp b * 1000\<rparr>)"] by (simp add: store(6))
  with store last_by_max [OF store(4)] show ?thesis by auto
qed

text \<open>
  The progress of a batch is never lost: a date (committed, proven, executed) or hash that a stored
  batch has is still there, or replaced by another, after any step of any worker.
\<close>

theorem batch_progress_kept:
  assumes "processNextBatch C provider st lastProcessed s = (t, r)" "old \<in> set (batches s)"
  shows "\<exists>new \<in> set (batches t). bt_number new = bt_number old \<and>
    (bt_executedAt old \<noteq> None \<longrightarrow> bt_executedAt new \<noteq> None) \<and>
    (bt_provenAt old \<noteq> None \<longrightarrow> bt_provenAt new \<noteq> None) \<and>
    (bt_committedAt old \<noteq> None \<longrightarrow> bt_committedAt new \<noteq> None) \<and>
    (bt_rootHash old \<noteq> None \<longrightarrow> bt_rootHash new \<noteq> None)"
  using assms(1)
proof (cases rule: processNextBatch_cases)
  case idle
  with assms(2) show ?thesis by auto
next
  case (store n b x)
  let ?b = "batch_columns (b\<lparr>bt_timestamp := bt_timestamp b * 1000\<rparr>)"
  let ?new = "if bt_number old = bt_number ?b then batch_update ?b old else old"
  have rows: "batches t = upserted_batches ?b (batches s)" by (simp add: store(6))
  have "?new \<in> set (batches t)" unfolding rows by (rule upserted_old [OF assms(2)])
  then show ?thesis
    by (rule bexI [rotated]) (auto simp: batch_update_def or_else_def split: option.splits)
qed

section \<open>A concrete batch\<close>

definition demo_node :: chain where
  "demo_node = demo_chain\<lparr>chainBlock := (\<lambda>n. if n = 2 then Some (demo_block 2 ''0x02'' ''0x01'') else None)\<rparr>"

lemma demo_batch_step:
  "snd (processNextBatch demo_node (\<lambda>n. if n = 0 then Some demo_batch_row else None) Executed (Some (-1)) demo_balances_db) =
     Inr (True, Some 0)"
  by code_simp

theorem batch_stored_only_if_confirmed_witness:
  "\<exists>x \<in> set (blocks demo_balances_db). map_option bk_hash (chainBlock demo_node (bk_number x)) = Some (bk_hash x)"
proof -
  obtain t where t: "processNextBatch demo_node (\<lambda>n. if n = 0 then Some demo_batch_row else None) Executed (Some (-1)) demo_balances_db =
      (t, Inr (True, Some 0))" using demo_batch_step by (metis prod.collapse)
  from batch_stored_only_if_confirmed [OF t] show ?thesis by blast
qed

theorem batch_progress_kept_witness:
  "\<exists>new \<in> set (batches (fst (processNextBatch demo_node (\<lambda>_. None) New None demo_balances_db))). bt_executedAt new \<noteq> None"
proof -
  obtain t r where t: "processNextBatch demo_node (\<lambda>_. None) New None demo_balances_db = (t, r)" by force
  have "demo_batch_row \<in> set (batches demo_balances_db)" "bt_executedAt demo_batch_row \<noteq> None"
    by (simp_all add: demo_balances_db_def demo_batch_row_def)
  from batch_progress_kept [OF t this(1)] this(2) show ?thesis unfolding t by auto
qed

end
