(* ===== verification/Worker_Revert.thy ===== *)
theory Worker_Revert
  imports Worker_Batches
begin

text \<open>
  Reverts (\<open>src/packages/worker/src/blocksRevert/blocksRevert.service.ts\<close>, \<open>app.service.ts\<close>): when the
  last stored block is no longer on the chain, the workers are stopped, the last block both sides agree
  on is searched, and everything above it is taken back in one transaction.
\<close>

section \<open>The search\<close>

text \<open>A stored block that is missing makes the access to its hash throw.\<close>

definition isHashMatch :: "chain \<Rightarrow> 'z db_scheme \<Rightarrow> int \<Rightarrow> exn + bool" where
  "isHashMatch C s n =
     (case last_by bk_number (filter (\<lambda>b. bk_number b = n) (blocks s)) of
        None \<Rightarrow> Inl TypeError
      | Some b \<Rightarrow> Inr (map_option bk_hash (chainBlock C n) = Some (bk_hash b)))"

function findLastCorrectBlockNumber :: "(int \<Rightarrow> exn + bool) \<Rightarrow> int \<Rightarrow> int \<Rightarrow> exn + int" where
  "findLastCorrectBlockNumber hashMatch start stop =
     (if stop > start + 1 then
        let mid = (start + stop) div 2 in
        case hashMatch mid of
          Inl e \<Rightarrow> Inl e
        | Inr True \<Rightarrow> findLastCorrectBlockNumber hashMatch mid stop
        | Inr False \<Rightarrow> findLastCorrectBlockNumber hashMatch start mid
      else Inr start)"
  by pat_completeness auto
termination
  by (relation "measure (\<lambda>(m, start, stop). nat (stop - start))") auto

declare findLastCorrectBlockNumber.simps [simp del]

text \<open>The blocks the search asks the node for.\<close>

function search_probes :: "(int \<Rightarrow> exn + bool) \<Rightarrow> int \<Rightarrow> int \<Rightarrow> int list" where
  "search_probes hashMatch start stop =
     (if stop > start + 1 then
        let mid = (start + stop) div 2 in
        mid # (case hashMatch mid of
          Inl e \<Rightarrow> []
        | Inr True \<Rightarrow> search_probes hashMatch mid stop
        | Inr False \<Rightarrow> search_probes hashMatch start mid)
      else [])"
  by pat_completeness auto
termination
  by (relation "measure (\<lambda>(m, start, stop). nat (stop - start))") auto

declare search_probes.simps [simp del]

lemma search_probes_bound:
  "stop - start \<le> 2 ^ n \<Longrightarrow> length (search_probes m start stop) \<le> n"
proof (induction n arbitrary: start stop)
  case 0
  then show ?case by (simp add: search_probes.simps [of m start stop])
next
  case (Suc n)
  show ?case
  proof (cases "stop > start + 1")
    case True
    let ?mid = "(start + stop) div 2"
    have halves: "stop - ?mid \<le> 2 ^ n" "?mid - start \<le> 2 ^ n" using Suc.prems by auto
    note Suc.IH [OF halves(1)] Suc.IH [OF halves(2)]
    with True show ?thesis
      by (simp add: search_probes.simps [of m start stop] Let_def split: sum.split bool.split)
  qed (simp add: search_probes.simps [of m start stop])
qed

lemma search_probes_between:
  "n \<in> set (search_probes m start stop) \<Longrightarrow> start < n \<and> n < stop"
proof (induction m start stop rule: search_probes.induct)
  case (1 m start stop)
  show ?case
  proof (cases "stop > start + 1")
    case True
    let ?mid = "(start + stop) div 2"
    have mid: "start < ?mid" "?mid < stop" using True by auto
    from 1(3) True consider "n = ?mid" | "m ?mid = Inr True" "n \<in> set (search_probes m ?mid stop)"
      | "m ?mid = Inr False" "n \<in> set (search_probes m start ?mid)"
      by (subst (asm) search_probes.simps) (auto simp: Let_def split: sum.splits bool.splits)
    then show ?thesis using 1(1,2) [OF True refl] mid by cases force+
  qed (use 1(3) in \<open>simp add: search_probes.simps [of m start stop]\<close>)
qed

lemma search_step:
  assumes "stop > start + 1"
  shows "findLastCorrectBlockNumber m start stop =
    (case m ((start + stop) div 2) of
       Inl e \<Rightarrow> Inl e
     | Inr b \<Rightarrow> if b then findLastCorrectBlockNumber m ((start + stop) div 2) stop
               else findLastCorrectBlockNumber m start ((start + stop) div 2))"
  using assms by (subst findLastCorrectBlockNumber.simps) (simp add: Let_def split: sum.split bool.split)

lemma search_stop: "\<not> stop > start + 1 \<Longrightarrow> findLastCorrectBlockNumber m start stop = Inr start"
  by (subst findLastCorrectBlockNumber.simps) simp

lemma search_result:
  "findLastCorrectBlockNumber m start stop = Inr k \<Longrightarrow> start < stop \<Longrightarrow>
     start \<le> k \<and> k < stop \<and> (k = start \<or> m k = Inr True) \<and> (k + 1 = stop \<or> m (k + 1) = Inr False)"
proof (induction m start stop rule: findLastCorrectBlockNumber.induct)
  case (1 m start stop)
  show ?case
  proof (cases "stop > start + 1")
    case True
    let ?mid = "(start + stop) div 2"
    have mid: "start < ?mid" "?mid < stop" using True by auto
    from 1(3) [unfolded search_step [OF True]]
    consider "m ?mid = Inr True" "findLastCorrectBlockNumber m ?mid stop = Inr k"
      | "m ?mid = Inr False" "findLastCorrectBlockNumber m start ?mid = Inr k"
      by (simp split: sum.splits if_splits)
    then show ?thesis
    proof cases
      case 1
      note IH = "1.IH"(1) [OF True refl 1(1) refl 1(2) mid(2)]
      have "start \<le> k" using IH mid(1) by linarith
      moreover have "m k = Inr True" using IH 1(1) by metis
      ultimately show ?thesis using IH by blast
    next
      case 2
      note IH = "1.IH"(2) [OF True refl 2(1) refl 2(2) mid(1)]
      have "k < stop" using IH mid(2) by linarith
      moreover have "m (k + 1) = Inr False" using IH 2(1) by metis
      ultimately show ?thesis using IH by blast
    qed
  next
    case False
    with 1(3,4) show ?thesis by (simp add: search_stop)
  qed
qed

lemma search_returns:
  "(\<And>n. start < n \<Longrightarrow> n < stop \<Longrightarrow> \<exists>b. m n = Inr b) \<Longrightarrow> \<exists>k. findLastCorrectBlockNumber m start stop = Inr k"
proof (induction m start stop rule: findLastCorrectBlockNumber.induct)
  case (1 m start stop)
  show ?case
  proof (cases "stop > start + 1")
    case True
    let ?mid = "(start + stop) div 2"
    have mid: "start < ?mid" "?mid < stop" using True by auto
    from 1(3) [OF mid] obtain b where b: "m ?mid = Inr b" by blast
    have "\<exists>k. findLastCorrectBlockNumber m ?mid stop = Inr k" if "b = True"
      using 1(1) [OF True refl] b that 1(3) mid by force
    moreover have "\<exists>k. findLastCorrectBlockNumber m start ?mid = Inr k" if "b = False"
      using 1(2) [OF True refl] b that 1(3) mid by force
    ultimately show ?thesis
      using b by (cases b) (simp_all add: search_step [OF True])
  qed (simp add: search_stop)
qed

text \<open>
  The search ends with few questions and the right answer: between two blocks at most \<open>2 ^ n\<close> apart it
  asks the node for at most \<open>n\<close> blocks, all strictly between; if all of those are stored it returns, and
  when the hashes agree exactly up to some block, it returns that block.
\<close>

theorem search_correct:
  assumes "start \<le> k" "k < stop" "stop - start \<le> 2 ^ n"
    and "\<forall>i. start < i \<and> i < stop \<longrightarrow> hashMatch i = Inr (i \<le> k)"
  shows "findLastCorrectBlockNumber hashMatch start stop = Inr k \<and>
    length (search_probes hashMatch start stop) \<le> n \<and>
    (\<forall>i \<in> set (search_probes hashMatch start stop). start < i \<and> i < stop)"
proof -
  obtain j where j: "findLastCorrectBlockNumber hashMatch start stop = Inr j"
    using search_returns [of start stop hashMatch] assms(4) by blast
  have "start \<le> j \<and> j < stop \<and> (j = start \<or> hashMatch j = Inr True) \<and> (j + 1 = stop \<or> hashMatch (j + 1) = Inr False)"
    using search_result [OF j] assms(1,2) by simp
  moreover have "hashMatch j = Inr (j \<le> k)" if "start < j" "j < stop" using assms(4) that by blast
  moreover have "hashMatch (j + 1) = Inr (j + 1 \<le> k)" if "start < j + 1" "j + 1 < stop" using assms(4) that by blast
  ultimately have "j = k" using assms(1,2) by fastforce
  with j search_probes_bound [OF assms(3)] search_probes_between show ?thesis by blast
qed

theorem search_correct_witness:
  "findLastCorrectBlockNumber (\<lambda>i. Inr (i \<le> 37)) 0 100 = Inr 37 \<and>
   length (search_probes (\<lambda>i. Inr (i \<le> 37)) 0 100) \<le> 7"
  using search_correct [of 0 37 100 7 "\<lambda>i. Inr (i \<le> 37)"] by simp

section \<open>Reverting\<close>

text \<open>The batch of the last correct block goes too when the node has another batch under its number.\<close>

definition last_correct_batch :: "(int \<Rightarrow> batch_row option) \<Rightarrow> 'z db_scheme \<Rightarrow> block_row \<Rightarrow> int" where
  "last_correct_batch provider s b =
     (case find (\<lambda>x. bt_number x = b_l1BatchNumber b) (batches s) of
        None \<Rightarrow> b_l1BatchNumber b
      | Some x \<Rightarrow>
          (case getL1BatchDetails provider (b_l1BatchNumber b) of
             None \<Rightarrow> b_l1BatchNumber b - 1
           | Some y \<Rightarrow> if bt_rootHash x \<noteq> bt_rootHash y then b_l1BatchNumber b - 1 else b_l1BatchNumber b))"

definition revert_action :: "nat \<Rightarrow> int \<Rightarrow> int \<Rightarrow> ('z db_scheme, unit) act" where
  "revert_action k lastCorrectBlock lastCorrectBatch =
     bind (modify (CounterService_revert k lastCorrectBlock)) (\<lambda>_.
     bind (BatchRepository_delete (\<lambda>b. lastCorrectBatch < bt_number b)) (\<lambda>_.
     BlockRepository_delete (\<lambda>b. lastCorrectBlock < bk_number b)))"

definition handleRevert ::
  "nat \<Rightarrow> chain \<Rightarrow> (int \<Rightarrow> batch_row option) \<Rightarrow> bool \<Rightarrow> int \<Rightarrow> ('z db_scheme, unit) act" where
  "handleRevert k C provider commit_fails detected =
     bind getLastExecutedBlockNumber (\<lambda>lastExecuted.
     bind (gets (\<lambda>s. findLastCorrectBlockNumber (isHashMatch C s) lastExecuted detected)) (\<lambda>found.
     bind (of_sum found) (\<lambda>lastCorrect.
     bind (getLastBlock (\<lambda>b. bk_number b = lastCorrect)) (\<lambda>lastBlock.
     bind (of_opt TypeError lastBlock) (\<lambda>b.
     bind (gets (\<lambda>s. last_correct_batch provider s b)) (\<lambda>lastCorrectBatch.
     in_transaction commit_fails (revert_action k lastCorrect lastCorrectBatch)))))))"

lemma revert_service_frame: "\<exists>x. CounterService_revert k lc s = s\<lparr>counters := x\<rparr>"
proof -
  obtain x where x: "CounterProcessor_revert (transaction_counters k) lc s = s\<lparr>counters := x\<rparr>"
    using revert_loop_frame unfolding CounterProcessor_revert_def by blast
  obtain y where "CounterProcessor_revert (transfer_counters k) lc (s\<lparr>counters := x\<rparr>) = s\<lparr>counters := x\<rparr>\<lparr>counters := y\<rparr>"
    using revert_loop_frame unfolding CounterProcessor_revert_def by blast
  with x show ?thesis by (auto simp: CounterService_revert_def delete_zero_counters_def)
qed

lemma cascade_batches: "cascade P (x\<lparr>batches := b\<rparr>) = (cascade P x)\<lparr>batches := b\<rparr>"
  by (simp add: cascade_def Let_def)

lemma revert_action_run:
  assumes "revert_action k lc lb s = (t, Inr ())"
  shows "t = (cascade (\<lambda>b. lc < bk_number b) (CounterService_revert k lc s))\<lparr>batches := filter (\<lambda>b. \<not> lb < bt_number b) (batches s)\<rparr> \<and> fk_ok t"
proof -
  obtain x where x: "CounterService_revert k lc s = s\<lparr>counters := x\<rparr>" using revert_service_frame by blast
  have b: "batches (CounterService_revert k lc s) = batches s" by (simp add: x)
  show ?thesis
    using assms unfolding revert_action_def
    by (simp add: BatchRepository_delete_def BlockRepository_delete_def bind_def modify_def cascade_batches b Let_def
        split: if_splits)
qed

lemma handleRevert_run:
  assumes "handleRevert k C provider fails detected s = (t, r)"
  shows "(\<exists>e. r = Inl e \<and> t = s) \<or>
    (\<exists>lc lb. r = Inr () \<and> findLastCorrectBlockNumber (isHashMatch C s) (last_executed s) detected = Inr lc \<and>
       revert_action k lc lb s = (t, Inr ()))"
proof (cases "findLastCorrectBlockNumber (isHashMatch C s) (last_executed s) detected")
  case (Inl e)
  with assms show ?thesis by (auto simp: handleRevert_def getLastExecutedBlockNumber_def act_simps)
next
  case (Inr lc)
  show ?thesis
  proof (cases "last_by bk_number (filter (\<lambda>b. bk_number b = lc) (blocks s))")
    case None
    with Inr assms show ?thesis by (auto simp: handleRevert_def getLastExecutedBlockNumber_def getLastBlock_def act_simps)
  next
    case (Some b)
    let ?lb = "last_correct_batch provider s b"
    obtain u q where u: "revert_action k lc ?lb s = (u, q)" by force
    from Inr Some assms have "in_transaction fails (revert_action k lc ?lb) s = (t, r)"
      by (simp add: handleRevert_def getLastExecutedBlockNumber_def getLastBlock_def)
    with u have "(\<exists>e. r = Inl e \<and> t = s) \<or> (r = Inr () \<and> q = Inr () \<and> t = u)"
      by (cases q) (auto simp: in_transaction_def split: if_splits)
    with u Inr show ?thesis by blast
  qed
qed

lemma counters_exact_batches:
  "counters_exact (transaction_counters k) (s\<lparr>batches := b\<rparr>) = counters_exact (transaction_counters k) s"
  "counters_exact (transfer_counters k) (s\<lparr>batches := b\<rparr>) = counters_exact (transfer_counters k) s"
  by (simp_all add: counters_exact_def counted_def count_of_def getLastProcessedRecordNumber_def
      transaction_counters_def transfer_counters_def)

text \<open>
  C2: A revert is all or nothing. It throws and the database is unchanged; or there is a block, not below
  the last executed one and below the one detected, with which the stored blocks agree with the node and
  after which they do not, and exactly the blocks above it are gone, with every reference resolved and
  every counter exact for the rows that are left.
\<close>

theorem revert_all_or_nothing:
  fixes s :: "'z db_scheme"
  assumes "handleRevert k C provider fails detected s = (t, r)"
    and "0 < k" "db_ok s" "last_executed s < detected" "counter_keys_ok s"
    and "numbers_distinct (transaction_counters k) s" "numbers_distinct (transfer_counters k) s"
    and "counters_exact (transaction_counters k) s" "counters_exact (transfer_counters k) s"
  shows "(\<exists>e. r = Inl e \<and> t = s) \<or>
    (\<exists>lc. r = Inr () \<and> last_executed s \<le> lc \<and> lc < detected \<and>
       (lc = last_executed s \<or> isHashMatch C s lc = Inr True) \<and>
       (lc + 1 = detected \<or> isHashMatch C s (lc + 1) = Inr False) \<and>
       blocks t = filter (\<lambda>b. bk_number b \<le> lc) (blocks s) \<and> fk_ok t \<and>
       counters_exact (transaction_counters k) t \<and> counters_exact (transfer_counters k) t)"
  using handleRevert_run [OF assms(1)]
proof
  assume "\<exists>lc lb. r = Inr () \<and> findLastCorrectBlockNumber (isHashMatch C s) (last_executed s) detected = Inr lc \<and>
       revert_action k lc lb s = (t, Inr ())"
  then obtain lc lb where r: "r = Inr ()"
    and lc: "findLastCorrectBlockNumber (isHashMatch C s) (last_executed s) detected = Inr lc"
    and act: "revert_action k lc lb s = (t, Inr ())" by blast
  note t = revert_action_run [OF act]
  obtain x where x: "CounterService_revert k lc s = s\<lparr>counters := x\<rparr>" using revert_service_frame by blast
  have "blocks t = filter (\<lambda>b. \<not> lc < bk_number b) (blocks s)" using t by (simp add: x cascade_def Let_def)
  then have "blocks t = filter (\<lambda>b. bk_number b \<le> lc) (blocks s)" by (simp only: not_less)
  moreover have "fk_ok s" using assms(3) by (simp add: db_ok_def)
  from revert_counters_exact [OF this assms(2,5-9), of lc] t
  have "counters_exact (transaction_counters k) t" "counters_exact (transfer_counters k) t"
    by (simp_all add: counters_exact_batches)
  ultimately show ?thesis using search_result [OF lc assms(4)] t r by blast
qed blast

section \<open>app.service.ts\<close>

datatype service = BlockService | BatchService | CounterService | BalancesCleanerService | TokenOffChainDataSaverService

record app_config =
  ac_disableBatchesProcessing :: bool
  ac_disableCountersProcessing :: bool
  ac_disableOldBalancesCleaner :: bool
  ac_enableTokenOffChainDataSaver :: bool

definition startWorkers :: "app_config \<Rightarrow> service list" where
  "startWorkers cfg = [BlockService] @
     (if ac_disableBatchesProcessing cfg then [] else [BatchService]) @
     (if ac_disableCountersProcessing cfg then [] else [CounterService]) @
     (if ac_disableOldBalancesCleaner cfg then [] else [BalancesCleanerService]) @
     (if ac_enableTokenOffChainDataSaver cfg then [TokenOffChainDataSaverService] else [])"

text \<open>
  The handler of the revert event: the services that run afterwards, and the database. The workers are
  stopped first, and started again when the revert has returned.
\<close>

definition handleBlocksRevert ::
  "app_config \<Rightarrow> (int \<Rightarrow> ('s, unit) act) \<Rightarrow> int \<Rightarrow> service list \<times> 's \<Rightarrow> (service list \<times> 's) \<times> (exn + unit)" where
  "handleBlocksRevert cfg revert detected = (\<lambda>(running, s).
     case revert detected s of
       (t, Inl e) \<Rightarrow> (([], t), Inl e)
     | (t, Inr _) \<Rightarrow> ((startWorkers cfg, t), Inr ()))"

text \<open>A revert that throws leaves all the workers stopped.\<close>

lemma failed_revert_stops_workers:
  "revert detected s = (t, Inl e) \<Longrightarrow> fst (fst (handleBlocksRevert cfg revert detected (running, s))) = []"
  by (simp add: handleBlocksRevert_def)

section \<open>A concrete revert\<close>

text \<open>The node has another block 2 than the one stored.\<close>

definition demo_reverted :: chain where
  "demo_reverted = demo_chain\<lparr>chainBlock := (\<lambda>n. if n = 1 then Some (demo_block 1 ''0x01'' ''0x00'') else None)\<rparr>"

definition demo_two_blocks :: db where
  "demo_two_blocks = empty_db\<lparr>blocks := [block_row_of (demo_block 1 ''0x01'' ''0x00'') demo_details,
     block_row_of (demo_block 2 ''0x02'' ''0x01'') demo_details]\<rparr>"

lemma demo_two_ok:
  "db_ok demo_two_blocks" "counter_keys_ok demo_two_blocks"
  "counters_exact (transaction_counters k) demo_two_blocks" "counters_exact (transfer_counters k) demo_two_blocks"
  "numbers_distinct (transaction_counters k) demo_two_blocks" "numbers_distinct (transfer_counters k) demo_two_blocks"
proof -
  have rows: "counters demo_two_blocks = []" "transactions demo_two_blocks = []" "transfers demo_two_blocks = []"
    by (simp_all add: demo_two_blocks_def empty_db_def)
  have none: "count_of demo_two_blocks key = 0" for key by (cases key) (simp add: count_of_def rows)
  have "ref_count c q [] = 0" for c q by (simp add: ref_count_def)
  then show "counters_exact (transaction_counters k) demo_two_blocks" "counters_exact (transfer_counters k) demo_two_blocks"
    by (simp_all add: counters_exact_def none counted_def transaction_counters_def transfer_counters_def rows)
  show "numbers_distinct (transaction_counters k) demo_two_blocks" "numbers_distinct (transfer_counters k) demo_two_blocks"
    by (simp_all add: numbers_distinct_def transaction_counters_def transfer_counters_def rows)
  show "counter_keys_ok demo_two_blocks" by (simp add: counter_keys_ok_def none rows)
  show "db_ok demo_two_blocks" by code_simp
qed

lemma demo_search:
  "last_executed demo_two_blocks = 0"
  "findLastCorrectBlockNumber (isHashMatch demo_reverted demo_two_blocks) 0 2 = Inr 1"
  "last_correct_batch (\<lambda>_. None) demo_two_blocks (hd (blocks demo_two_blocks)) = 0"
  by code_simp+

lemma demo_revert_counters: "CounterService_revert 5 1 demo_two_blocks = demo_two_blocks"
  by (simp add: CounterService_revert_def CounterProcessor_revert_def getLastProcessedRecordNumber_def
      revert_loop.simps delete_zero_counters_def demo_two_blocks_def empty_db_def)

lemma demo_revert_run:
  "map bk_number (blocks (fst (handleRevert 5 demo_reverted (\<lambda>_. None) False 2 demo_two_blocks))) = [1]"
proof -
  let ?b = "hd (blocks demo_two_blocks)"
  have found: "last_by bk_number (filter (\<lambda>b. bk_number b = 1) (blocks demo_two_blocks)) = Some ?b" by code_simp
  have act: "snd (revert_action 5 1 0 demo_two_blocks) = Inr ()"
    "map bk_number (blocks (fst (revert_action 5 1 0 demo_two_blocks))) = [1]"
    unfolding revert_action_def bind_def modify_def demo_revert_counters by code_simp+
  have "handleRevert 5 demo_reverted (\<lambda>_. None) False 2 demo_two_blocks =
      in_transaction False (revert_action 5 1 0) demo_two_blocks"
    by (simp add: handleRevert_def getLastExecutedBlockNumber_def getLastBlock_def demo_search found act_simps)
  then show ?thesis using act by (cases "revert_action 5 1 0 demo_two_blocks") (simp add: in_transaction_def)
qed

theorem revert_all_or_nothing_witness:
  "let (t, r) = handleRevert 5 demo_reverted (\<lambda>_. None) False 2 demo_two_blocks in
     map bk_number (blocks t) = [1] \<and> fk_ok t \<and> counters_exact (transfer_counters 5) t"
proof -
  obtain t r where run: "handleRevert 5 demo_reverted (\<lambda>_. None) False 2 demo_two_blocks = (t, r)" by force
  have one: "map bk_number (blocks t) = [1]" using demo_revert_run run by simp
  have two: "map bk_number (blocks demo_two_blocks) = [1, 2]" by code_simp
  from revert_all_or_nothing [OF run _ demo_two_ok(1) _ demo_two_ok(2,5,6,3,4)]
  have "t = demo_two_blocks \<or> (fk_ok t \<and> counters_exact (transfer_counters 5) t)"
    by (auto simp: demo_search(1))
  with one two have "fk_ok t \<and> counters_exact (transfer_counters 5) t" by auto
  with one run show ?thesis by simp
qed

end
