(* ===== verification/Worker_System.thy ===== *)
theory Worker_System
  imports Worker_Revert
begin

text \<open>
  The worker as a whole (\<open>src/packages/worker/src/app.service.ts\<close>): its services run side by side over one
  database. A step is a round of one service, which writes in one database transaction, or a part of the
  handling of a revert, or a restart of the process. The rounds of the block service are taken with rows
  numbered in the order of the commits; the last section shows what happens when they are not.
\<close>

section \<open>New rows and the counters\<close>

text \<open>
  The numbers of the rows of transactions and transfers are distinct and below the sequence of the
  table, and so is the number up to which the counters have processed the table.
\<close>

definition numbers_ok :: "'z db_scheme \<Rightarrow> bool" where
  "numbers_ok s \<longleftrightarrow>
     distinct (map t_number (transactions s)) \<and> distinct (map f_number (transfers s)) \<and>
     (\<forall>t \<in> set (transactions s). 0 \<le> t_number t \<and> t_number t < next_of s ''transactions'') \<and>
     (\<forall>t \<in> set (transfers s). 0 \<le> f_number t \<and> f_number t < next_of s ''transfers'') \<and>
     0 \<le> next_of s ''transactions'' \<and> 0 \<le> next_of s ''transfers'' \<and>
     getLastProcessedRecordNumber ''transactions'' s < next_of s ''transactions'' \<and>
     getLastProcessedRecordNumber ''transfers'' s < next_of s ''transfers''"

definition counting_ok :: "nat \<Rightarrow> 'z db_scheme \<Rightarrow> bool" where
  "counting_ok k s \<longleftrightarrow> counter_keys_ok s \<and> numbers_ok s \<and>
     counters_exact (transaction_counters k) s \<and> counters_exact (transfer_counters k) s"

text \<open>What has been counted, and that it stays as it is when rows are added.\<close>

definition processed_rows :: "'z db_scheme \<Rightarrow> transaction_row list \<times> transfer_row list" where
  "processed_rows s =
     (filter (\<lambda>t. t_number t \<le> getLastProcessedRecordNumber ''transactions'' s) (transactions s),
      filter (\<lambda>t. f_number t \<le> getLastProcessedRecordNumber ''transfers'' s) (transfers s))"

definition only_new_rows :: "'z db_scheme \<Rightarrow> 'z db_scheme \<Rightarrow> bool" where
  "only_new_rows s t \<longleftrightarrow> numbers_ok t \<and> counters t = counters s \<and> counter_states t = counter_states s \<and>
     processed_rows t = processed_rows s"

lemma numbers_ok_distinct:
  "numbers_ok s \<Longrightarrow> numbers_distinct (transaction_counters k) s"
  "numbers_ok s \<Longrightarrow> numbers_distinct (transfer_counters k) s"
  by (auto simp: numbers_ok_def numbers_distinct_def transaction_counters_def transfer_counters_def comp_def)

lemma counted_processed:
  "counted (transaction_counters k) s = map (\<lambda>t. \<lparr>cn_number = t_number t, cn_blockNumber = tr_blockNumber t,
       cn_fields = transaction_fields t\<rparr>) (fst (processed_rows s))"
  "counted (transfer_counters k) s = map (\<lambda>t. \<lparr>cn_number = f_number t, cn_blockNumber = tf_blockNumber t,
       cn_fields = transfer_fields t\<rparr>) (snd (processed_rows s))"
  by (simp_all add: counted_def transaction_counters_def transfer_counters_def processed_rows_def filter_map comp_def)

lemma counter_tables [simp]:
  "cc_tableName (transaction_counters k) = ''transactions''" "cc_tableName (transfer_counters k) = ''transfers''"
  by (simp_all add: transaction_counters_def transfer_counters_def)

lemma counting_ok_new_rows:
  assumes "only_new_rows s t" "counting_ok k s"
  shows "counting_ok k t"
proof -
  have "count_of t key = count_of s key" for key
    using assms(1) by (simp add: count_of_def only_new_rows_def)
  with assms show ?thesis
    by (simp add: counting_ok_def counter_keys_ok_def counters_exact_def counted_processed only_new_rows_def)
qed

lemma new_rows_refl: "numbers_ok s \<Longrightarrow> only_new_rows s s"
  by (simp add: only_new_rows_def)

lemma last_number_cong:
  "counter_states u = counter_states t \<Longrightarrow> getLastProcessedRecordNumber n u = getLastProcessedRecordNumber n t"
  by (simp add: getLastProcessedRecordNumber_def)

lemma new_rows_other:
  assumes "only_new_rows s t" "counters u = counters t" "counter_states u = counter_states t"
    "transactions u = transactions t" "transfers u = transfers t"
    "sequences u ''transactions'' = sequences t ''transactions''" "sequences u ''transfers'' = sequences t ''transfers''"
  shows "only_new_rows s u"
proof -
  note last = last_number_cong [OF assms(3)]
  have "numbers_ok u = numbers_ok t" "processed_rows u = processed_rows t"
    by (simp_all add: numbers_ok_def processed_rows_def last assms next_of_def)
  with assms show ?thesis by (simp add: only_new_rows_def)
qed

text \<open>What adding a block writes, and the contract under which it keeps an invariant.\<close>

locale block_writes =
  fixes I :: "'z db_scheme \<Rightarrow> bool"
  assumes tables: "table ins_block I" "table ins_transaction I" "table ins_receipt I" "table ins_log I"
      "table ins_transfer I" "table ins_address_transfer I" "table ins_address_transaction I" "table ins_balance I"
    and upserts: "keeps I (AddressRepository_upsert a)" "keeps I (TokenRepository_upsert x)"
begin

lemmas inserts = tables [THEN table.addMany_keeps] tables [THEN table.add_keeps] tables [THEN table.insert_stmt_keeps]

lemma operations:
  "keeps I (TransactionRepository_add t)" "keeps I (TransferRepository_addMany ts)"
  "keeps I (saveChangedBalances bs)" "keeps I (saveERC20Tokens E as)"
  unfolding TransactionRepository_add_def TransferRepository_addMany_def saveChangedBalances_def saveERC20Tokens_def
    saveERC20Token_row_def saveERC20Token_def
  by (auto intro!: inserts upserts split: option.split)

lemma processor: "keeps I (TransactionProcessor_add d)"
  unfolding TransactionProcessor_add_def by (intro keeps_bind keeps_for_each inserts operations upserts)

lemma adding_block: "keeps I (addBlock E d)"
  unfolding addBlock_def BlockRepository_add_def
  by (intro keeps_bind keeps_for_each keeps_if inserts operations processor keeps_basic)

end

lemma processed_new_transaction:
  assumes "only_new_rows s t" "transactions u = transactions t @ [r]" "t_number r = next_of t ''transactions''"
    "counters u = counters t" "counter_states u = counter_states t" "transfers u = transfers t"
    "sequences u = (sequences t)(''transactions'' := sequences t ''transactions'' + 1)"
  shows "only_new_rows s u"
proof -
  note last = last_number_cong [OF assms(5)]
  have ok: "numbers_ok t" using assms(1) by (simp add: only_new_rows_def)
  then have new: "t_number r \<notin> t_number ` set (transactions t)" using assms(3) by (auto simp: numbers_ok_def)
  have "numbers_ok u" using ok new assms(3) unfolding numbers_ok_def last
    by (auto simp: assms(2,6,7) next_of_def)
  moreover have "processed_rows u = processed_rows t"
    using ok assms(3) unfolding processed_rows_def last by (simp add: assms(2,6) numbers_ok_def)
  ultimately show ?thesis using assms(1,4,5) by (simp add: only_new_rows_def)
qed

lemma processed_new_transfer:
  assumes "only_new_rows s t" "transfers u = transfers t @ [r]" "f_number r = next_of t ''transfers''"
    "counters u = counters t" "counter_states u = counter_states t" "transactions u = transactions t"
    "sequences u = (sequences t)(''transfers'' := sequences t ''transfers'' + 1)"
  shows "only_new_rows s u"
proof -
  note last = last_number_cong [OF assms(5)]
  have ok: "numbers_ok t" using assms(1) by (simp add: only_new_rows_def)
  then have new: "f_number r \<notin> f_number ` set (transfers t)" using assms(3) by (auto simp: numbers_ok_def)
  have "numbers_ok u" using ok new assms(3) unfolding numbers_ok_def last
    by (auto simp: assms(2,6,7) next_of_def)
  moreover have "processed_rows u = processed_rows t"
    using ok assms(3) unfolding processed_rows_def last by (simp add: assms(2,6) numbers_ok_def)
  ultimately show ?thesis using assms(1,4,5) by (simp add: only_new_rows_def)
qed

lemma new_rows_table:
  assumes "\<And>t r u. ins r t = Some u \<Longrightarrow> counters u = counters t \<and> counter_states u = counter_states t \<and>
    transactions u = transactions t \<and> transfers u = transfers t \<and>
    sequences u ''transactions'' = sequences t ''transactions'' \<and> sequences u ''transfers'' = sequences t ''transfers''"
  shows "table ins (only_new_rows s)"
  by (unfold_locales, erule new_rows_other) (auto dest: assms)

interpretation new_rows: block_writes "only_new_rows s" for s :: "'z db_scheme"
proof (rule block_writes.intro)
  show "table ins_block (only_new_rows s)" "table ins_receipt (only_new_rows s)" "table ins_log (only_new_rows s)"
    "table ins_address_transfer (only_new_rows s)" "table ins_address_transaction (only_new_rows s)"
    "table ins_balance (only_new_rows s)"
    by (auto intro!: new_rows_table simp: ins_block_def ins_receipt_def ins_log_def
        ins_address_transfer_def ins_address_transaction_def ins_balance_def bump_def Let_def split: if_splits)
  show "table ins_transaction (only_new_rows s)"
    by (unfold_locales, erule processed_new_transaction)
      (auto simp: ins_transaction_def bump_def Let_def transaction_info.defs transaction_row.defs split: if_splits)
  show "table ins_transfer (only_new_rows s)"
    by (unfold_locales, erule processed_new_transfer)
      (auto simp: ins_transfer_def bump_def Let_def transfer_data.defs transfer_row.defs split: if_splits)
  show "keeps (only_new_rows s) (AddressRepository_upsert a)" for a
    unfolding keeps_def
    by (intro allI impI, erule new_rows_other) (auto simp: AddressRepository_upsert_def Let_def)
  show "keeps (only_new_rows s) (TokenRepository_upsert x)" for x
    unfolding keeps_def
    by (intro allI impI, erule new_rows_other) (auto simp: TokenRepository_upsert_def Let_def bump_def)
qed

section \<open>What the rounds of the services keep\<close>

lemma new_rows_events: "only_new_rows s t \<Longrightarrow> only_new_rows s (t\<lparr>revert_events := x\<rparr>)"
  by (erule new_rows_other) simp_all

lemma round_only_new_rows: "keeps (only_new_rows s) (processNextBlocksRange E cfg C m fails)"
  unfolding processNextBlocksRange_def getLastBlock_def process_fetched_def triggerBlocksRevertEvent_def
  by (auto split: list.split option.split intro!: save_chunks_keeps new_rows.adding_block keeps_modify new_rows_events)

lemma round_keeps_counting:
  assumes "processNextBlocksRange E cfg C m fails s = (t, r)" "counting_ok k s"
  shows "counting_ok k t"
  using keepsE [OF round_only_new_rows assms(1) new_rows_refl] assms(2) counting_ok_new_rows
  by (auto simp: counting_ok_def)

lemma counting_ok_other:
  fixes s t :: "'z db_scheme"
  assumes "counting_ok k s" "counters t = counters s" "counter_states t = counter_states s"
    "transactions t = transactions s" "transfers t = transfers s" "sequences t = sequences s"
  shows "counting_ok k t"
proof -
  have "only_new_rows s s" using assms(1) by (simp add: counting_ok_def new_rows_refl)
  from new_rows_other [OF this assms(2) assms(3) assms(4) assms(5)] assms(6) have "only_new_rows s t" by simp
  then show ?thesis using assms(1) by (rule counting_ok_new_rows)
qed

text \<open>The other services write other tables only.\<close>

definition other_tables :: "'z db_scheme \<Rightarrow> 'z db_scheme \<Rightarrow> bool" where
  "other_tables s t \<longleftrightarrow> (\<exists>x y z w. t = s\<lparr>batches := x, tokens := y, balances := z, delete_balances_from := w\<rparr>)"

lemma other_tables_refl [simp]: "other_tables s s"
  by (auto simp: other_tables_def intro!: exI [of _ "batches s"] exI [of _ "tokens s"] exI [of _ "balances s"]
      exI [of _ "delete_balances_from s"])

lemma other_tables_step:
  assumes "other_tables s t"
  shows "other_tables s (t\<lparr>batches := x\<rparr>)" "other_tables s (t\<lparr>tokens := y\<rparr>)"
    "other_tables s (t\<lparr>balances := z\<rparr>)" "other_tables s (t\<lparr>delete_balances_from := w\<rparr>)"
proof -
  from assms obtain x' y' z' w' where
    t: "t = s\<lparr>batches := x', tokens := y', balances := z', delete_balances_from := w'\<rparr>"
    unfolding other_tables_def by blast
  have b: "t\<lparr>batches := x\<rparr> = s\<lparr>batches := x, tokens := y', balances := z', delete_balances_from := w'\<rparr>"
    and k: "t\<lparr>tokens := y\<rparr> = s\<lparr>batches := x', tokens := y, balances := z', delete_balances_from := w'\<rparr>"
    and l: "t\<lparr>balances := z\<rparr> = s\<lparr>batches := x', tokens := y', balances := z, delete_balances_from := w'\<rparr>"
    and d: "t\<lparr>delete_balances_from := w\<rparr> = s\<lparr>batches := x', tokens := y', balances := z', delete_balances_from := w\<rparr>"
    by (simp_all add: t)
  show "other_tables s (t\<lparr>batches := x\<rparr>)" unfolding other_tables_def b by blast
  show "other_tables s (t\<lparr>tokens := y\<rparr>)" unfolding other_tables_def k by blast
  show "other_tables s (t\<lparr>balances := z\<rparr>)" unfolding other_tables_def l by blast
  show "other_tables s (t\<lparr>delete_balances_from := w\<rparr>)" unfolding other_tables_def d by blast
qed

lemma batch_other_tables: "processNextBatch C provider st p s = (t, r) \<Longrightarrow> other_tables s t"
  by (erule processNextBatch_cases) (auto intro: other_tables_step)

lemma clean_other_tables: "clean_balances f1 f2 f3 s = (t, r) \<Longrightarrow> other_tables s t"
  by (auto simp: clean_balances_run Let_def split: if_splits intro!: other_tables_step)

lemma offchain_other_tables: "keeps (other_tables s) (offchain_round interval now later provider)"
  unfolding offchain_round_def offchain_update_def getOffChainDataLastUpdatedAt_def getBridgedTokens_def Let_def
    updateTokenOffChainData_def
  by (auto intro!: keeps_modify other_tables_step)

lemma same_tokens_ok:
  assumes "\<And>k. k_token (f k) = k_token k" "db_ok s"
  shows "db_ok (s\<lparr>tokens := map f (tokens s)\<rparr>)"
  using assms(2) by (simp add: db_ok_def fk_ok_def keys_ok_def comp_def assms(1))

lemma offchain_keeps: "keeps db_ok (offchain_round interval now later provider)"
proof -
  have one: "keeps db_ok (updateTokenOffChainData d t)" for d t
    unfolding updateTokenOffChainData_def by (auto intro!: keeps_modify same_tokens_ok)
  show ?thesis
    unfolding offchain_round_def offchain_update_def getOffChainDataLastUpdatedAt_def getBridgedTokens_def Let_def
    by (auto intro!: one)
qed

lemma other_tables_counting: "other_tables s t \<Longrightarrow> counting_ok k s \<Longrightarrow> counting_ok k t"
  unfolding other_tables_def by (elim exE, erule counting_ok_other) simp_all

lemma other_tables_linked: "other_tables s t \<Longrightarrow> chain_linked cfg s \<Longrightarrow> chain_linked cfg t"
  by (auto simp: other_tables_def chain_linked_def)

section \<open>Batches of counters\<close>

definition is_counter :: "nat \<Rightarrow> 'z counter_config \<Rightarrow> bool" where
  "is_counter k C \<longleftrightarrow> C = transaction_counters k \<or> C = transfer_counters k"

lemma is_counter_facts:
  assumes "is_counter k C"
  shows "reads_rows C" "counting_ok k s \<Longrightarrow> numbers_distinct C s" "counting_ok k s \<Longrightarrow> counters_exact C s"
  using assms numbers_ok_distinct [of s k] by (auto simp: is_counter_def counting_ok_def)

lemma counter_rows_below:
  assumes "is_counter k C" "numbers_ok s" "r \<in> set (cc_records C s)"
  shows "cn_number r < next_of s (cc_tableName C)"
  using assms by (auto simp: is_counter_def transaction_counters_def transfer_counters_def numbers_ok_def)

lemma find_records_subset: "set (find_records C wher s) \<subseteq> set (cc_records C s)"
  unfolding find_records_def by (auto dest!: in_set_takeD)

lemma next_records_run:
  assumes "n = (case p of None \<Rightarrow> getLastProcessedRecordNumber (cc_tableName C) s | Some n \<Rightarrow> n)"
    and "recs = find_records C (\<lambda>r. cn_number r \<ge> n + 1) s"
  shows "next_batch C fails p s =
    (if recs = [] then (s, Inr (False, Some n))
     else if fails then (s, Inl db_error)
     else ((fold insertOrIncrement (calculateCounters (cc_tableName C) recs (cc_criteriaList C)) s)
             \<lparr>counter_states := put_pair (cc_tableName C) (cn_number (last recs)) (counter_states s)\<rparr>,
           Inr (length recs = cc_recordsBatchSize C, Some (cn_number (last recs)))))"
  by (simp add: next_batch_def act_simps Let_def assms(1) [symmetric] assms(2) [symmetric] in_transaction_def
      incrementCounters_run bind_def)

lemma next_batch_writes:
  assumes "next_batch C fails p s = (t, r)"
  shows "t = s \<or> (\<exists>recs x. recs \<noteq> [] \<and> set recs \<subseteq> set (cc_records C s) \<and>
    fold insertOrIncrement (calculateCounters (cc_tableName C) recs (cc_criteriaList C)) s = s\<lparr>counters := x\<rparr> \<and>
    t = s\<lparr>counters := x, counter_states := put_pair (cc_tableName C) (cn_number (last recs)) (counter_states s)\<rparr>)"
proof -
  define n where "n = (case p of None \<Rightarrow> getLastProcessedRecordNumber (cc_tableName C) s | Some n \<Rightarrow> n)"
  define recs where "recs = find_records C (\<lambda>r. cn_number r \<ge> n + 1) s"
  note run = next_records_run [OF n_def recs_def, of fails]
  obtain x where x: "fold insertOrIncrement (calculateCounters (cc_tableName C) recs (cc_criteriaList C)) s = s\<lparr>counters := x\<rparr>"
    using fold_increment_frame by blast
  show ?thesis
  proof (cases "recs = [] \<or> fails")
    case True
    with assms run have "t = s" by (auto split: if_splits)
    then show ?thesis ..
  next
    case False
    with assms run x have "t = s\<lparr>counters := x, counter_states := put_pair (cc_tableName C) (cn_number (last recs)) (counter_states s)\<rparr>"
      by simp
    with False x find_records_subset show ?thesis unfolding recs_def by blast
  qed
qed

lemma increment_distinct_keys:
  "distinct (map counter_key (counters s)) \<Longrightarrow> distinct (map counter_key (counters (insertOrIncrement c s)))"
proof -
  assume d: "distinct (map counter_key (counters s))"
  have "map counter_key (map (\<lambda>r. if same_counter r c then r\<lparr>c_count := c_count r + c_count c\<rparr> else r) (counters s)) =
      map counter_key (counters s)"
    by (rule map_key_update) simp
  with d show ?thesis by (auto simp: insertOrIncrement_def same_counter_key simp del: map_map)
qed

lemma fold_increment_keys:
  "distinct (map counter_key (counters s)) \<Longrightarrow> distinct (map counter_key (counters (fold insertOrIncrement cs s)))"
  by (induction cs arbitrary: s) (simp_all add: increment_distinct_keys)

lemma next_batch_counting:
  fixes s t :: "'z db_scheme"
  assumes C: "is_counter k C" and s: "counting_ok k s"
    and p: "p = None \<or> p = Some (getLastProcessedRecordNumber (cc_tableName C) s)"
    and run: "next_batch C fails p s = (t, r)"
  shows "counting_ok k t"
  using next_batch_writes [OF run]
proof
  assume "\<exists>recs x. recs \<noteq> [] \<and> set recs \<subseteq> set (cc_records C s) \<and>
    fold insertOrIncrement (calculateCounters (cc_tableName C) recs (cc_criteriaList C)) s = s\<lparr>counters := x\<rparr> \<and>
    t = s\<lparr>counters := x, counter_states := put_pair (cc_tableName C) (cn_number (last recs)) (counter_states s)\<rparr>"
  then obtain recs x where recs: "recs \<noteq> []" "set recs \<subseteq> set (cc_records C s)"
    and x: "fold insertOrIncrement (calculateCounters (cc_tableName C) recs (cc_criteriaList C)) s = s\<lparr>counters := x\<rparr>"
    and t: "t = s\<lparr>counters := x, counter_states := put_pair (cc_tableName C) (cn_number (last recs)) (counter_states s)\<rparr>"
    by blast
  let ?cs = "calculateCounters (cc_tableName C) recs (cc_criteriaList C)"
  have ok: "counter_keys_ok s" "numbers_ok s" using s by (simp_all add: counting_ok_def)
  have count: "count_of t key = count_of s key + db_counters.total ?cs key" for key
    using db_counters.fold_up [of ?cs s key] by (simp add: t x)
  have total: "db_counters.total ?cs (n, q) = (if n = cc_tableName C then ref_count (cc_criteriaList C) q recs else 0)" for n q
    by (rule calculateCounters_total)
  have "0 \<le> count_of t key" for key
    using ok(1) ref_count_nonneg by (cases key) (simp add: count total counter_keys_ok_def)
  moreover have "distinct (map counter_key (counters t))"
    using ok(1) fold_increment_keys [of s ?cs] by (simp add: t x counter_keys_ok_def)
  ultimately have keys: "counter_keys_ok t" unfolding counter_keys_ok_def by blast
  have "cn_number (last recs) < next_of s (cc_tableName C)"
    using counter_rows_below [OF C ok(2)] recs last_in_set [OF recs(1)] by blast
  then have numbers: "numbers_ok t"
    using ok(2) C by (auto simp: numbers_ok_def t getLastProcessedRecordNumber_def next_of_def is_counter_def)
  have own: "counters_exact C t"
    using next_batch_keeps_exact [OF is_counter_facts(1) [OF C] is_counter_facts(2,3) [OF C s] p run] by blast
  have other: "counters_exact D t"
    if D: "D = transaction_counters k \<or> D = transfer_counters k" and "cc_tableName D \<noteq> cc_tableName C" for D :: "'z counter_config"
  proof -
    have "counted D t = counted D s"
      using D that(2) by (auto simp: counted_def getLastProcessedRecordNumber_def t transaction_counters_def transfer_counters_def)
    moreover have "counters_exact D s" using D s by (auto simp: counting_ok_def)
    ultimately show ?thesis using that(2) by (simp add: counters_exact_def count total)
  qed
  have "counters_exact (transaction_counters k) t \<and> counters_exact (transfer_counters k) t"
    using C own other by (auto simp: is_counter_def)
  with keys numbers show ?thesis by (simp add: counting_ok_def)
qed (use s in simp)

definition position_ok :: "string \<Rightarrow> 'z db_scheme \<Rightarrow> int option \<Rightarrow> bool" where
  "position_ok tn s p \<longleftrightarrow> p = None \<or> p = Some (getLastProcessedRecordNumber tn s)"

lemma records_batch_counting:
  assumes "is_counter k C" "counting_ok k s" "position_ok (cc_tableName C) s p"
    and "processNextRecordsBatch C fails p s = (t, Inr (full, p'))"
  shows "counting_ok k t \<and> position_ok (cc_tableName C) t p'"
proof -
  note C = is_counter_facts [OF assms(1)]
  have p: "p = None \<or> p = Some (getLastProcessedRecordNumber (cc_tableName C) s)"
    using assms(3) by (simp add: position_ok_def)
  obtain u r where u: "next_batch C fails p s = (u, r)" by force
  note next_batch_counting [OF assms(1,2) p u]
    next_batch_keeps_exact [OF C(1) C(2,3) [OF assms(2)] p u]
  with assms(4) u show ?thesis
    by (cases r) (auto simp: processNextRecordsBatch_def catch_def act_simps position_ok_def)
qed

lemma records_batch_frame:
  assumes "processNextRecordsBatch C fails p s = (t, r)"
  shows "\<exists>x y. t = s\<lparr>counters := x, counter_states := y\<rparr>"
proof -
  obtain u q where u: "next_batch C fails p s = (u, q)" by force
  have same: "s = s\<lparr>counters := counters s, counter_states := counter_states s\<rparr>" by simp
  have "t = u"
    using assms u by (cases q) (auto simp: processNextRecordsBatch_def catch_def act_simps)
  with next_batch_writes [OF u] same show ?thesis by metis
qed

section \<open>Reverts\<close>

lemma decrement_other: "counter_key c \<noteq> key \<Longrightarrow> count_of (decrement c s) key = count_of s key"
  using find_counter_update [of key "counter_key c" "\<lambda>n. n - c_count c" "counters s"]
  by (simp add: decrement_def count_of_def same_counter_key)

lemma fold_decrement_other:
  "\<forall>c \<in> set cs. c_tableName c \<noteq> n \<Longrightarrow> count_of (fold decrement cs s) (n, q) = count_of s (n, q)"
  by (induction cs arbitrary: s) (auto simp: decrement_other counter_key_def)

lemma revert_loop_other:
  "n \<noteq> cc_tableName C \<Longrightarrow> count_of (revert_loop C lc p r s) (n, q) = count_of s (n, q)"
proof (induction C lc p r s rule: revert_loop.induct)
  case (1 C lc p r s)
  let ?recs = "find_records C (\<lambda>x. cn_blockNumber x > lc \<and> r + 1 \<le> cn_number x \<and> cn_number x \<le> p) s"
  have "\<forall>c \<in> set (calculateCounters (cc_tableName C) ?recs (cc_criteriaList C)). c_tableName c \<noteq> n"
    using 1(2) calculateCounters_table by metis
  from fold_decrement_other [OF this] 1 show ?case
    by (subst revert_loop.simps) (auto simp: Let_def decrementCounters_def)
qed

lemma service_revert_keys:
  assumes "counter_keys_ok s" "n \<noteq> ''transactions''" "n \<noteq> ''transfers''"
  shows "count_of (CounterService_revert k lc s) (n, q) = count_of s (n, q)"
proof -
  let ?v = "CounterProcessor_revert (transfer_counters k) lc (CounterProcessor_revert (transaction_counters k) lc s)"
  have "distinct (map counter_key (counters ?v))"
    using assms(1) by (simp add: CounterProcessor_revert_def revert_loop_keys counter_keys_ok_def)
  then show ?thesis
    using assms(2,3) by (simp add: CounterService_revert_def delete_zero_count CounterProcessor_revert_def revert_loop_other)
qed

lemma service_revert_distinct:
  assumes "counter_keys_ok s"
  shows "distinct (map counter_key (counters (CounterService_revert k lc s)))"
  using assms
  by (simp add: CounterService_revert_def delete_zero_counters_def CounterProcessor_revert_def revert_loop_keys
      counter_keys_ok_def distinct_map_filter)

lemma exact_nonneg: "counters_exact C t \<Longrightarrow> 0 \<le> count_of t (cc_tableName C, q)"
  by (simp add: counters_exact_def ref_count_nonneg)

lemma revert_counting:
  fixes s t :: "'z db_scheme"
  assumes run: "revert_action k lc lb s = (t, Inr ())" and s: "counting_ok k s" "fk_ok s" and k: "0 < k"
  shows "counting_ok k t"
proof -
  let ?u = "CounterService_revert k lc s"
  have ok: "counter_keys_ok s" "numbers_ok s" "counters_exact (transaction_counters k) s" "counters_exact (transfer_counters k) s"
    using s(1) by (simp_all add: counting_ok_def)
  obtain x where x: "?u = s\<lparr>counters := x\<rparr>" using revert_service_frame by blast
  have t: "t = (cascade (\<lambda>b. lc < bk_number b) ?u)\<lparr>batches := filter (\<lambda>b. \<not> lb < bt_number b) (batches s)\<rparr>"
    using revert_action_run [OF run] by blast
  have "fk_ok ?u" using s(2) by (simp add: x fk_ok_def)
  note rows = transactions_after_cascade [OF this, of lc, unfolded x]
  have frame: "counters t = counters ?u" "counter_states t = counter_states s" "sequences t = sequences s"
    "transactions t = filter (\<lambda>r. tr_blockNumber r \<le> lc) (transactions s)"
    "transfers t = filter (\<lambda>r. tf_blockNumber r \<le> lc) (transfers s)"
    using rows by (simp_all add: t cascade_frame x) (simp add: cascade_def Let_def)
  have exact: "counters_exact (transaction_counters k) t" "counters_exact (transfer_counters k) t"
    using revert_counters_exact [OF s(2) k ok(1) numbers_ok_distinct [OF ok(2)] ok(3,4), of lc]
    by (simp_all add: t counters_exact_batches)
  have "numbers_ok t"
    using ok(2) by (auto simp: numbers_ok_def frame getLastProcessedRecordNumber_def next_of_def distinct_map_filter)
  moreover have "0 \<le> count_of t key" for key
  proof (cases key)
    case (Pair n q)
    have u: "count_of t (n, q) = count_of ?u (n, q)" by (simp add: count_of_def frame)
    have "0 \<le> count_of s (n, q)" using ok(1) unfolding counter_keys_ok_def by blast
    then have "0 \<le> count_of t (n, q)" if "n \<noteq> ''transactions''" "n \<noteq> ''transfers''"
      using service_revert_keys [OF ok(1) that, of k lc q] u by simp
    with Pair exact [THEN exact_nonneg, of q] show ?thesis by auto
  qed
  ultimately show ?thesis
    using exact service_revert_distinct [OF ok(1), of k lc]
    by (simp add: counting_ok_def counter_keys_ok_def frame(1))
qed

lemma revert_keeps: "keeps db_ok (revert_action k lc lb)"
  unfolding revert_action_def
proof (intro keeps_bind keeps_modify batch_delete_keeps block_delete_keeps)
  fix s :: "'a db_scheme" assume "db_ok s"
  moreover obtain x where "CounterService_revert k lc s = s\<lparr>counters := x\<rparr>" using revert_service_frame by blast
  ultimately show "db_ok (CounterService_revert k lc s)" by (simp add: db_ok_def fk_ok_def keys_ok_def)
qed

lemma linked_rows_subset: "linked_rows rows \<Longrightarrow> set rows' \<subseteq> set rows \<Longrightarrow> linked_rows rows'"
  by (auto simp: linked_rows_def subset_iff)

lemma revert_linked:
  assumes "revert_action k lc lb s = (t, Inr ())" "chain_linked cfg s"
  shows "chain_linked cfg t"
proof -
  obtain x where x: "CounterService_revert k lc s = s\<lparr>counters := x\<rparr>" using revert_service_frame by blast
  have "blocks t = filter (\<lambda>b. \<not> lc < bk_number b) (blocks s)"
    using revert_action_run [OF assms(1)] by (simp add: x cascade_def Let_def)
  with assms(2) show ?thesis unfolding chain_linked_def by (elim linked_rows_subset) auto
qed

lemma revert_states: "revert_action k lc lb s = (t, Inr ()) \<Longrightarrow> counter_states t = counter_states s"
  using revert_service_frame [of k lc s] by (auto dest!: revert_action_run simp: cascade_frame)

section \<open>The services over one database\<close>

text \<open>
  The worker is up, or stops its services for a revert (a round that is running may still end then), or is
  down, after a revert that has thrown. The processors' own positions live outside the database.
\<close>

datatype phase = Up | Stopping int | Down

record worker_system =
  ws_db :: worker_db
  ws_phase :: phase
  ws_transactions :: "int option"
  ws_transfers :: "int option"
  ws_batches :: "BatchState \<Rightarrow> int option"

definition started :: "worker_db \<Rightarrow> worker_system" where
  "started s = \<lparr>ws_db = s\<lparr>revert_events := []\<rparr>, ws_phase = Up, ws_transactions = None, ws_transfers = None,
     ws_batches = (\<lambda>_. None)\<rparr>"

definition running_services :: "app_config \<Rightarrow> worker_system \<Rightarrow> service list" where
  "running_services A s = (if ws_phase s = Down then [] else startWorkers A)"

inductive system_step :: "app_config \<Rightarrow> blocks_config \<Rightarrow> token_env \<Rightarrow> nat \<Rightarrow> worker_system \<Rightarrow> worker_system \<Rightarrow> bool"
  for A cfg E k where
  blocks: "ws_phase s = Up \<Longrightarrow> honest_fetcher C \<Longrightarrow>
     processNextBlocksRange E cfg C m fails (ws_db s) = (t, r) \<Longrightarrow>
     system_step A cfg E k s (s\<lparr>ws_db := t\<rparr>)"
| batch: "BatchService \<in> set (running_services A s) \<Longrightarrow> st \<in> set batch_workers \<Longrightarrow>
     processNextBatch C provider st (ws_batches s st) (ws_db s) = (t, Inr (stored, p)) \<Longrightarrow>
     system_step A cfg E k s (s\<lparr>ws_db := t, ws_batches := (ws_batches s)(st := p)\<rparr>)"
| count_transactions: "CounterService \<in> set (running_services A s) \<Longrightarrow>
     processNextRecordsBatch (transaction_counters k) fail (ws_transactions s) (ws_db s) = (t, Inr (full, p)) \<Longrightarrow>
     system_step A cfg E k s (s\<lparr>ws_db := t, ws_transactions := p\<rparr>)"
| count_transfers: "CounterService \<in> set (running_services A s) \<Longrightarrow>
     processNextRecordsBatch (transfer_counters k) fail (ws_transfers s) (ws_db s) = (t, Inr (full, p)) \<Longrightarrow>
     system_step A cfg E k s (s\<lparr>ws_db := t, ws_transfers := p\<rparr>)"
| balances: "BalancesCleanerService \<in> set (running_services A s) \<Longrightarrow>
     clean_balances f1 f2 f3 (ws_db s) = (t, r') \<Longrightarrow> system_step A cfg E k s (s\<lparr>ws_db := t\<rparr>)"
| tokens: "TokenOffChainDataSaverService \<in> set (running_services A s) \<Longrightarrow>
     offchain_round interval now later prices (ws_db s) = (t, wait) \<Longrightarrow> system_step A cfg E k s (s\<lparr>ws_db := t\<rparr>)"
| detected: "ws_phase s = Up \<Longrightarrow> n \<in> set (revert_events (ws_db s)) \<Longrightarrow>
     system_step A cfg E k s (s\<lparr>ws_phase := Stopping n, ws_batches := (\<lambda>st. resetState (ws_batches s st))\<rparr>)"
| revert: "ws_phase s = Stopping n \<Longrightarrow>
     handleBlocksRevert A (handleRevert k C provider fail) n (running_services A s, ws_db s) = ((up, t), r'') \<Longrightarrow>
     system_step A cfg E k s (s\<lparr>ws_db := t, ws_phase := (if up = [] then Down else Up)\<rparr>)"
| restart: "system_step A cfg E k s (started (ws_db s))"

text \<open>The database after the migrations.\<close>

definition new_worker_db :: worker_db where
  "new_worker_db = db.extend empty_db (worker_db.fields [])"

inductive system_reach :: "app_config \<Rightarrow> blocks_config \<Rightarrow> token_env \<Rightarrow> nat \<Rightarrow> worker_system \<Rightarrow> bool"
  for A cfg E k where
  init: "system_reach A cfg E k (started new_worker_db)"
| step: "system_reach A cfg E k s \<Longrightarrow> system_step A cfg E k s t \<Longrightarrow> system_reach A cfg E k t"

text \<open>The invariant of the system.\<close>

definition system_ok :: "blocks_config \<Rightarrow> nat \<Rightarrow> worker_system \<Rightarrow> bool" where
  "system_ok cfg k s \<longleftrightarrow> db_ok (ws_db s) \<and> chain_linked cfg (ws_db s) \<and> counting_ok k (ws_db s) \<and>
     position_ok ''transactions'' (ws_db s) (ws_transactions s) \<and> position_ok ''transfers'' (ws_db s) (ws_transfers s)"

lemma position_same: "counter_states t = counter_states s \<Longrightarrow> position_ok n t p = position_ok n s p"
  by (simp add: position_ok_def getLastProcessedRecordNumber_def)

lemma events_counting: "counting_ok k s \<Longrightarrow> counting_ok k (s\<lparr>revert_events := x\<rparr>)"
  by (erule counting_ok_other) simp_all

lemma started_ok:
  assumes "db_ok s" "chain_linked cfg s" "counting_ok k s"
  shows "system_ok cfg k (started s)"
  using assms by (simp add: system_ok_def started_def events_counting chain_linked_def position_ok_def)

lemma other_tables_system:
  assumes "other_tables (ws_db s) t" "db_ok t" "system_ok cfg k s"
  shows "system_ok cfg k (s\<lparr>ws_db := t\<rparr>)"
proof -
  have "counter_states t = counter_states (ws_db s)" using assms(1) by (auto simp: other_tables_def)
  note position = position_same [OF this]
  have "counting_ok k t" "chain_linked cfg t"
    using assms other_tables_counting other_tables_linked unfolding system_ok_def by blast+
  with assms(2,3) show ?thesis by (simp add: system_ok_def position)
qed

lemma counters_ok: "db_ok (s\<lparr>counters := x, counter_states := y\<rparr>) = db_ok s"
  by (simp add: db_ok_def fk_ok_def keys_ok_def)

text \<open>One lemma per kind of step.\<close>

lemma block_round_system:
  assumes "honest_fetcher C" "0 < bc_numberOfBlocksPerDbTransaction cfg" "system_ok cfg k s"
    and run: "processNextBlocksRange E cfg C m fails (ws_db s) = (t, r)"
  shows "system_ok cfg k (s\<lparr>ws_db := t\<rparr>)"
proof -
  have s: "db_ok (ws_db s)" "chain_linked cfg (ws_db s)" "counting_ok k (ws_db s)"
    using assms(3) by (simp_all add: system_ok_def)
  have "only_new_rows (ws_db s) t"
    using keepsE [OF round_only_new_rows run new_rows_refl] s(3) by (simp add: counting_ok_def)
  then have "counter_states t = counter_states (ws_db s)" by (simp add: only_new_rows_def)
  note position = position_same [OF this]
  have "db_ok t" using keepsE [OF process_blocks_keeps run s(1)] .
  moreover have "chain_linked cfg t"
    using round_keeps_linked [OF assms(1,2) s(2) _ run] s(1) by (simp add: db_ok_def)
  ultimately show ?thesis
    using round_keeps_counting [OF run s(3)] assms(3) by (simp add: system_ok_def position)
qed

lemma records_batch_system:
  assumes C: "is_counter k C" and s: "system_ok cfg k s"
    and p: "position_ok (cc_tableName C) (ws_db s) p"
    and run: "processNextRecordsBatch C fail p (ws_db s) = (t, Inr (full, p'))"
  shows "db_ok t \<and> chain_linked cfg t \<and> counting_ok k t \<and> position_ok (cc_tableName C) t p' \<and>
    (\<forall>n q. n \<noteq> cc_tableName C \<longrightarrow> position_ok n (ws_db s) q \<longrightarrow> position_ok n t q)"
proof -
  obtain x y where t: "t = (ws_db s)\<lparr>counters := x, counter_states := y\<rparr>"
    using records_batch_frame [OF run] by blast
  have counting: "counting_ok k (ws_db s)" using s by (simp add: system_ok_def)
  obtain u r where u: "next_batch C fail p (ws_db s) = (u, r)" by force
  have "t = u" using run u by (cases r) (auto simp: processNextRecordsBatch_def catch_def act_simps)
  with next_batch_writes [OF u] have "map_of (counter_states t) n = map_of (counter_states (ws_db s)) n"
    if "n \<noteq> cc_tableName C" for n using that by auto
  with records_batch_counting [OF C counting p run] s show ?thesis
    by (simp add: t counters_ok system_ok_def chain_linked_def position_ok_def getLastProcessedRecordNumber_def)
qed

lemma revert_system:
  assumes "0 < k" "system_ok cfg k s"
    and run: "handleBlocksRevert A (handleRevert k C provider fail) n (up, ws_db s) = ((up', t), r)"
  shows "system_ok cfg k (s\<lparr>ws_db := t, ws_phase := p\<rparr>)"
proof -
  have s: "db_ok (ws_db s)" "chain_linked cfg (ws_db s)" "counting_ok k (ws_db s)"
    using assms(2) by (simp_all add: system_ok_def)
  obtain q where q: "handleRevert k C provider fail n (ws_db s) = (t, q)"
    using run by (auto simp: handleBlocksRevert_def split: prod.splits sum.splits)
  from handleRevert_run [OF q] consider "t = ws_db s" | lc lb where "revert_action k lc lb (ws_db s) = (t, Inr ())"
    by blast
  then show ?thesis
  proof cases
    case 1
    with assms(2) show ?thesis by (simp add: system_ok_def)
  next
    case 2
    note position = position_same [OF revert_states [OF 2]]
    have "fk_ok (ws_db s)" using s(1) by (simp add: db_ok_def)
    with keepsE [OF revert_keeps 2 s(1)] revert_linked [OF 2 s(2)] revert_counting [OF 2 s(3) _ assms(1)] assms(2)
    show ?thesis by (simp add: system_ok_def position)
  qed
qed

lemma system_step_ok:
  assumes "system_step A cfg E k s t" "0 < k" "0 < bc_numberOfBlocksPerDbTransaction cfg" "system_ok cfg k s"
  shows "system_ok cfg k t"
  using assms(1,4)
proof cases
  case (blocks C m fails t r)
  with block_round_system [OF _ assms(3,4)] show ?thesis by simp
next
  case (batch st C provider d stored p)
  have "system_ok cfg k (s\<lparr>ws_db := d\<rparr>)"
    using other_tables_system [OF batch_other_tables [OF batch(4)] _ assms(4)] keepsE [OF process_batch_keeps batch(4)] assms(4)
    by (simp add: system_ok_def)
  then show ?thesis by (simp add: batch(1) system_ok_def)
next
  case (count_transactions fail d full p)
  have "is_counter k (transaction_counters k)" by (simp add: is_counter_def)
  from records_batch_system [OF this assms(4) _ count_transactions(3)] assms(4) show ?thesis
    by (simp add: system_ok_def count_transactions(1))
next
  case (count_transfers fail d full p)
  have "is_counter k (transfer_counters k)" by (simp add: is_counter_def)
  from records_batch_system [OF this assms(4) _ count_transfers(3)] assms(4) show ?thesis
    by (simp add: system_ok_def count_transfers(1))
next
  case (balances f1 f2 f3 d r')
  have "db_ok d" using keepsE [OF clean_balances_keeps balances(3)] assms(4) by (simp add: system_ok_def)
  from other_tables_system [OF clean_other_tables [OF balances(3)] this assms(4)] show ?thesis by (simp add: balances(1))
next
  case (tokens interval now later prices d wait)
  have "db_ok d" using keepsE [OF offchain_keeps tokens(3)] assms(4) by (simp add: system_ok_def)
  moreover have "other_tables (ws_db s) d" using keepsE [OF offchain_other_tables tokens(3)] by simp
  ultimately show ?thesis using other_tables_system [OF _ _ assms(4)] by (simp add: tokens(1))
next
  case (detected n)
  with assms(4) show ?thesis by (simp add: system_ok_def)
next
  case (revert n C provider fail up d r'')
  from revert_system [OF assms(2,4) revert(3)] show ?thesis by (simp add: revert(1))
next
  case restart
  with assms(4) started_ok show ?thesis by (auto simp: system_ok_def)
qed

lemma new_db_ok: "db_ok new_worker_db" "chain_linked cfg new_worker_db" "counting_ok k new_worker_db"
proof -
  have rows: "blocks new_worker_db = []" "transactions new_worker_db = []" "transfers new_worker_db = []"
    "counters new_worker_db = []" "counter_states new_worker_db = []" "sequences new_worker_db = (\<lambda>_. 1)"
    by (simp_all add: new_worker_db_def empty_db_def db.defs)
  show "chain_linked cfg new_worker_db" by (simp add: chain_linked_def linked_rows_def rows)
  show "db_ok new_worker_db"
    by (simp add: db_ok_def fk_ok_def keys_ok_def new_worker_db_def empty_db_def db.defs)
  have "count_of new_worker_db key = 0" for key by (cases key) (simp add: count_of_def rows)
  then show "counting_ok k new_worker_db"
    by (simp add: counting_ok_def counter_keys_ok_def numbers_ok_def counters_exact_def counted_processed processed_rows_def
        rows next_of_def getLastProcessedRecordNumber_def ref_count_def)
qed

lemma system_reach_ok:
  assumes "system_reach A cfg E k s" "0 < k" "0 < bc_numberOfBlocksPerDbTransaction cfg"
  shows "system_ok cfg k s"
  using assms(1)
proof (induction rule: system_reach.induct)
  case init
  show ?case by (rule started_ok [OF new_db_ok])
next
  case (step s t)
  then show ?case using system_step_ok [OF _ assms(2,3)] by blast
qed


section \<open>The counters catch up\<close>

lemma counting_done:
  fixes s t :: "'z db_scheme"
  assumes C: "is_counter k C" and k: "0 < k" and s: "counting_ok k s" "position_ok (cc_tableName C) s p"
    and run: "processNextRecordsBatch C fail p s = (t, Inr (False, Some n))"
  shows "count_of t (cc_tableName C, q) = ref_count (cc_criteriaList C) q (cc_records C t)"
proof -
  let ?wher = "\<lambda>m r. cn_number r \<ge> m + 1"
  define m where "m = getLastProcessedRecordNumber (cc_tableName C) s"
  define recs where "recs = find_records C (?wher m) s"
  have size: "0 < cc_recordsBatchSize C"
    using C k by (auto simp: is_counter_def transaction_counters_def transfer_counters_def)
  have start: "(case p of None \<Rightarrow> getLastProcessedRecordNumber (cc_tableName C) s | Some j \<Rightarrow> j) = m"
    using s(2) by (auto simp: position_ok_def m_def)
  obtain u r where u: "next_batch C fail p s = (u, r)" by force
  have "r = Inr (False, Some n)"
    using run u by (cases r; auto simp: processNextRecordsBatch_def catch_def act_simps)
  with u start have n: "n = (if recs = [] then m else cn_number (last recs))"
    and few: "length recs \<noteq> cc_recordsBatchSize C \<or> recs = []"
    unfolding next_records_run [OF start [symmetric] recs_def] by (auto split: if_splits)
  have all: "mset recs = mset (filter (?wher m) (cc_records C s))"
    using few size find_records_all [of C "?wher m" s] by (auto simp: recs_def)
  have below: "cn_number x \<le> n" if x: "x \<in> set (cc_records C s)" for x
  proof (cases "?wher m x")
    case True
    with x all have mem: "x \<in> set recs" by (metis (mono_tags, lifting) mem_Collect_eq set_filter set_mset_mset)
    then have some: "recs \<noteq> []" by auto
    from find_records_filter [OF is_counter_facts(2) [OF C s(1)], of "?wher m"] some
    have "mset recs = mset (filter (\<lambda>r. ?wher m r \<and> cn_number r \<le> cn_number (last recs)) (cc_records C s))"
      by (simp add: recs_def)
    with mem have "cn_number x \<le> cn_number (last recs)"
      by (metis (mono_tags, lifting) mem_Collect_eq set_filter set_mset_mset)
    with some n show ?thesis by simp
  next
    case False
    moreover have "m \<le> n"
    proof (cases "recs = []")
      case some: False
      then have "last recs \<in> set recs" by simp
      with all have "?wher m (last recs)" by (metis (mono_tags, lifting) mem_Collect_eq set_filter set_mset_mset)
      with some n show ?thesis by simp
    qed (simp add: n)
    ultimately show ?thesis by simp
  qed
  obtain x y where "t = s\<lparr>counters := x, counter_states := y\<rparr>" using records_batch_frame [OF run] by blast
  then have rows: "cc_records C t = cc_records C s" using is_counter_facts(1) [OF C] by (simp add: reads_rows_def)
  note after = records_batch_counting [OF C s run]
  then have "getLastProcessedRecordNumber (cc_tableName C) t = n" by (simp add: position_ok_def)
  with below have "counted C t = cc_records C t" by (simp add: counted_def rows filter_id_conv)
  moreover have "counters_exact C t" using after is_counter_facts(3) [OF C] by blast
  ultimately show ?thesis by (simp add: counters_exact_def)
qed


section \<open>What the interleaving can lose\<close>

text \<open>
  The transactions of one round run at the same time. A row draws its number from the sequence of the
  table when it is inserted, also in a transaction that is committed later than another.
\<close>

definition draw_row :: "transaction_info \<Rightarrow> 'z db_scheme \<times> transaction_row list \<Rightarrow> 'z db_scheme \<times> transaction_row list" where
  "draw_row x = (\<lambda>(s, own). (bump ''transactions'' s,
     own @ [transaction_info.extend (transaction_columns x) (transaction_row.fields (next_of s ''transactions''))]))"

definition commit_rows :: "transaction_row list \<Rightarrow> 'z db_scheme \<Rightarrow> 'z db_scheme" where
  "commit_rows own s = s\<lparr>transactions := transactions s @ own\<rparr>"

text \<open>
  When the row of a later chunk has drawn its number first, and the counters have passed this number before
  the later chunk is committed, its row is never counted: the processor finds nothing to do, and the
  counter of all transactions stays below the number of rows.
\<close>

lemma later_row_smaller_number:
  assumes "draw_row y (s, []) = (s1, later)" "draw_row x (s1, []) = (s2, earlier)"
  shows "t_number (hd later) < t_number (hd earlier)"
  using assms by (auto simp: draw_row_def bump_def next_of_def transaction_info.defs transaction_row.defs)

lemma ref_count_positive:
  assumes "recs \<noteq> []"
  shows "0 < ref_count c [] recs"
proof -
  obtain r rs where recs: "recs = r # rs" using assms by (cases recs) auto
  have "0 < record_count c [] r" by (simp add: record_count_def)
  moreover have "0 \<le> ref_count c [] rs" by (rule ref_count_nonneg)
  ultimately show ?thesis by (simp add: recs ref_count_def)
qed

lemma late_commit_not_counted:
  fixes s t :: "'z db_scheme"
  assumes s: "counting_ok k s" and n: "n = getLastProcessedRecordNumber ''transactions'' s"
    and processed: "\<forall>r \<in> set (transactions s). t_number r \<le> n"
    and late: "own \<noteq> []" "\<forall>r \<in> set own. t_number r \<le> n" and t: "t = commit_rows own s"
  shows "processNextRecordsBatch (transaction_counters k) fail (Some n) t = (t, Inr (False, Some n)) \<and>
    count_of t (''transactions'', []) <
      ref_count (cc_criteriaList (transaction_counters k :: 'z counter_config)) [] (cc_records (transaction_counters k) t)"
proof
  let ?C = "transaction_counters k :: 'z counter_config"
  have rows: "cc_records ?C t = cc_records ?C s @ map (\<lambda>t. \<lparr>cn_number = t_number t, cn_blockNumber = tr_blockNumber t,
      cn_fields = transaction_fields t\<rparr>) own" (is "_ = _ @ ?own")
    by (simp add: t commit_rows_def transaction_counters_def)
  have "\<forall>r \<in> set (cc_records ?C t). \<not> n + 1 \<le> cn_number r"
    using processed late(2) by (fastforce simp: t commit_rows_def transaction_counters_def)
  then have "filter (\<lambda>r. n + 1 \<le> cn_number r) (cc_records ?C t) = []" by (simp add: filter_empty_conv)
  then have "find_records ?C (\<lambda>r. n + 1 \<le> cn_number r) t = []" by (simp add: find_records_def)
  from next_records_run [OF _ this [symmetric], of "Some n" fail]
  show "processNextRecordsBatch ?C fail (Some n) t = (t, Inr (False, Some n))"
    by (simp add: processNextRecordsBatch_def catch_def)
  have "counted ?C s = cc_records ?C s"
    using processed by (auto simp: counted_def n filter_id_conv transaction_counters_def)
  moreover have "counters_exact ?C s" using s by (simp add: counting_ok_def)
  ultimately have "count_of s (''transactions'', []) = ref_count (cc_criteriaList ?C) [] (cc_records ?C s)"
    by (simp add: counters_exact_def)
  moreover have "count_of t (''transactions'', []) = count_of s (''transactions'', [])"
    by (simp add: t commit_rows_def count_of_def)
  moreover have "0 < ref_count (cc_criteriaList ?C) [] ?own" by (rule ref_count_positive) (simp add: late(1))
  ultimately show "count_of t (''transactions'', []) < ref_count (cc_criteriaList ?C) [] (cc_records ?C t)"
    by (simp add: rows)
qed

text \<open>
  The processor of batches forgets its position when the worker is stopped, but a round that is still
  running sets it again; the position outlives the revert, and the batches up to it are not stored again
  by this worker.
\<close>

lemma late_round_skips:
  assumes "processNextBatch C provider st (Some n) s = (t, r)" "bt_number x \<le> n" "bt_number x \<notin> bt_number ` set (batches s)"
    and "\<And>m b. provider m = Some b \<Longrightarrow> bt_number b = m"
  shows "x \<notin> set (batches t)"
  using assms(1)
proof (cases rule: processNextBatch_cases)
  case idle
  with assms(3) show ?thesis by auto
next
  case (store m b y)
  then have "bt_number b = n + 1"
    using assms(4) [of "n + 1"] by (auto simp: getL1BatchDetails_def split: option.splits if_splits)
  with store(6) assms(2,3) show ?thesis
    by (auto simp: upserted_batches_def batch_columns_def batch_update_def split: if_splits)
qed

section \<open>A concrete run\<close>

definition demo_services :: app_config where
  "demo_services = \<lparr>ac_disableBatchesProcessing = False, ac_disableCountersProcessing = False,
     ac_disableOldBalancesCleaner = False, ac_enableTokenOffChainDataSaver = True\<rparr>"

text \<open>Block 1 has a transfer.\<close>

definition demo_transfer_chain :: chain where
  "demo_transfer_chain = demo_chain\<lparr>fetchBlock := (\<lambda>n.
     if n = 1 then (fetchBlock demo_chain n)\<lparr>d_blockTransfers := [demo_transfer ''0x0B'']\<rparr> else fetchBlock demo_chain n)\<rparr>"

definition demo_stored :: "worker_db \<times> (exn + bool)" where
  "demo_stored = processNextBlocksRange demo_env demo_config demo_transfer_chain (Some 7) (\<lambda>_. False) (ws_db (started new_worker_db))"

definition demo_system :: worker_system where
  "demo_system = (started new_worker_db)\<lparr>ws_db := fst demo_stored\<rparr>"

lemma demo_system_reach: "system_reach demo_services demo_config demo_env 5 demo_system"
proof -
  have "honest_fetcher demo_transfer_chain"
    using demo_honest by (auto simp: honest_fetcher_def demo_transfer_chain_def split: if_splits)
  moreover have "ws_phase (started new_worker_db) = Up" by (simp add: started_def)
  ultimately have "system_step demo_services demo_config demo_env 5 (started new_worker_db) demo_system"
    unfolding demo_system_def demo_stored_def using system_step.blocks by (metis prod.collapse)
  with system_reach.init show ?thesis by (rule system_reach.step)
qed

lemma demo_system_rows: "map bk_number (blocks (ws_db demo_system)) = [1, 2]" "length (transfers (ws_db demo_system)) = 1"
  by code_simp+


lemma demo_pending:
  "map cn_number (find_records (transfer_counters 5) (\<lambda>r. cn_number r \<ge> -1 + 1) (ws_db demo_system)) = [1]"
  "ws_transfers demo_system = None" "getLastProcessedRecordNumber ''transfers'' (ws_db demo_system) = -1"
  by code_simp+

lemma demo_counting:
  "snd (processNextRecordsBatch (transfer_counters 5) False (ws_transfers demo_system) (ws_db demo_system)) = Inr (False, Some 1)"
proof -
  let ?C = "transfer_counters 5 :: \<lparr>revert_events :: int list\<rparr> counter_config"
  obtain r where r: "find_records ?C (\<lambda>r. cn_number r \<ge> -1 + 1) (ws_db demo_system) = [r]" "cn_number r = 1"
    using demo_pending(1) by (cases "find_records ?C (\<lambda>r. cn_number r \<ge> -1 + 1) (ws_db demo_system)") auto
  moreover have "cc_recordsBatchSize ?C = 5" by (simp add: transfer_counters_def)
  ultimately show ?thesis
    using next_records_run [where n = "-1" and p = "ws_transfers demo_system" and C = ?C and s = "ws_db demo_system", OF _ refl, of False] demo_pending(2,3)
    by (simp add: processNextRecordsBatch_def catch_def)
qed


end
