(* ===== verification/Worker_Prices.thy ===== *)
theory Worker_Prices
  imports Worker_Tokens
begin

text \<open>
  The providers of off-chain data of tokens
  (\<open>src/packages/worker/src/token/tokenOffChainData/providers\<close>): which requests they make of the two
  services, when they repeat one and how long they wait, and what they make of the answers. The services
  are arguments: the answer to a request is a function of how many requests were made before. A request
  that is repeated for ever has no value, and that they end is a theorem.
\<close>

section \<open>Repeated requests\<close>

definition API_INITIAL_RETRY_TIMEOUT :: int where
  "API_INITIAL_RETRY_TIMEOUT = 5000"

definition API_RETRY_ATTEMPTS :: nat where
  "API_RETRY_ATTEMPTS = 5"

text \<open>An error has the status of the response, if there was one, and its header \<open>x-ratelimit-reset\<close>.\<close>

datatype reset_header = NoHeader | ResetAt int | InvalidDate

datatype 'a api_answer = Answer 'a | Failure "int option" reset_header

text \<open>The number of requests made, and the waits between them.\<close>

type_synonym requests = "nat \<times> int list"

text \<open>
  The wait after a rate limit; the time is read when the error is made and again when it is caught. With
  an invalid date the comparison is with \<open>NaN\<close>, and there is no wait.
\<close>

definition rate_limit_wait :: "reset_header \<Rightarrow> int \<Rightarrow> int \<Rightarrow> int" where
  "rate_limit_wait header made caught =
     (case header of
        InvalidDate \<Rightarrow> 0
      | _ \<Rightarrow> let rateLimitResetIn = (case header of ResetAt d \<Rightarrow> d | _ \<Rightarrow> made + 60000) - caught
            in if rateLimitResetIn \<ge> 0 then rateLimitResetIn + 1000 else 0)"

partial_function (option) makeApiRequestRetryable ::
  "(nat \<Rightarrow> 'a api_answer) \<Rightarrow> (nat \<Rightarrow> int \<times> int) \<Rightarrow> nat \<Rightarrow> int \<Rightarrow> requests \<Rightarrow> (requests \<times> 'a option) option" where
  "makeApiRequestRetryable ask clock retryAttempt retryTimeout st =
     (case ask (fst st) of
        Answer d \<Rightarrow> Some ((fst st + 1, snd st), Some d)
      | Failure status header \<Rightarrow>
          if status = Some 404 then Some ((fst st + 1, snd st), None)
          else if status = Some 429 then
            makeApiRequestRetryable ask clock 0 API_INITIAL_RETRY_TIMEOUT
              (fst st + 1, snd st @ [rate_limit_wait header (fst (clock (fst st))) (snd (clock (fst st)))])
          else if retryAttempt \<ge> API_RETRY_ATTEMPTS then Some ((fst st + 1, snd st), None)
          else makeApiRequestRetryable ask clock (retryAttempt + 1) (retryTimeout * 2) (fst st + 1, snd st @ [retryTimeout]))"

definition rate_limited :: "'a api_answer \<Rightarrow> bool" where
  "rate_limited a \<longleftrightarrow> (\<exists>header. a = Failure (Some 429) header)"

section \<open>coingeckoTokenOffChainDataProvider.ts\<close>

definition API_NUMBER_OF_TOKENS_PER_REQUEST :: nat where
  "API_NUMBER_OF_TOKENS_PER_REQUEST = 250"

record list_item =
  li_id :: string
  li_zksync :: "string option"
  li_ethereum :: "string option"

record market_item =
  mi_id :: string
  mi_image :: "string option"
  mi_current_price :: "rat option"
  mi_market_cap :: "rat option"

record coingecko =
  cg_list :: "nat \<Rightarrow> list_item list api_answer"
  cg_markets :: "string list \<Rightarrow> nat \<Rightarrow> market_item list api_answer"
  cg_clock :: "nat \<Rightarrow> int \<times> int"

definition listed :: "list_item \<Rightarrow> bool" where
  "listed item \<longleftrightarrow> li_id item = ''ethereum'' \<or> \<not> falsy (li_zksync item) \<or> \<not> falsy (li_ethereum item)"

definition cut_addresses :: "list_item \<Rightarrow> list_item" where
  "cut_addresses item = item\<lparr>li_zksync := map_option (take 42) (li_zksync item),
     li_ethereum := map_option (take 42) (li_ethereum item)\<rparr>"

definition getTokensList :: "coingecko \<Rightarrow> requests \<Rightarrow> (requests \<times> list_item list) option" where
  "getTokensList G st =
     map_option (\<lambda>(st', list). (st', case list of None \<Rightarrow> [] | Some xs \<Rightarrow> map cut_addresses (filter listed xs)))
       (makeApiRequestRetryable (cg_list G) (cg_clock G) 0 API_INITIAL_RETRY_TIMEOUT st)"

text \<open>\<open>find\<close> answers the address itself, and an empty one is falsy.\<close>

definition supported :: "string option list \<Rightarrow> list_item \<Rightarrow> bool" where
  "supported bridgedTokensToInclude token \<longleftrightarrow>
     li_id token = ''ethereum'' \<or> \<not> falsy (li_zksync token) \<or>
     (li_ethereum token \<in> set bridgedTokensToInclude \<and> \<not> falsy (li_ethereum token))"

definition market_data :: "token_env \<Rightarrow> list_item list \<Rightarrow> market_item \<Rightarrow> exn + off_chain_data" where
  "market_data E supportedTokens m =
     (case find (\<lambda>t. li_id t = mi_id m) supportedTokens of
        None \<Rightarrow> Inl TypeError
      | Some token \<Rightarrow> Inr
          \<lparr>oc_l1Address = (if li_id token = ''ethereum'' then Some (te_ETH_ADDRESS E) else li_ethereum token),
           oc_l2Address = li_zksync token, oc_liquidity = mi_market_cap m, oc_usdPrice = mi_current_price m,
           oc_iconURL = mi_image m\<rparr>)"

text \<open>The market data of one request after the other; \<open>null\<close> has no \<open>map\<close>.\<close>

fun markets_loop ::
  "token_env \<Rightarrow> coingecko \<Rightarrow> list_item list \<Rightarrow> list_item list list \<Rightarrow> requests \<Rightarrow> (requests \<times> (exn + off_chain_data list)) option" where
  "markets_loop E G toks [] st = Some (st, Inr [])"
| "markets_loop E G toks (b # bs) st =
     (case makeApiRequestRetryable (cg_markets G (map li_id b)) (cg_clock G) 0 API_INITIAL_RETRY_TIMEOUT st of
        None \<Rightarrow> None
      | Some (st', None) \<Rightarrow> Some (st', Inl TypeError)
      | Some (st', Some ms) \<Rightarrow>
          (case map_act (market_data E toks) ms of
             Inl e \<Rightarrow> Some (st', Inl e)
           | Inr xs \<Rightarrow> map_option (\<lambda>(st'', r). (st'', sbind r (\<lambda>ys. Inr (xs @ ys)))) (markets_loop E G toks bs st')))"

definition coingecko_getTokensOffChainData ::
  "token_env \<Rightarrow> coingecko \<Rightarrow> string option list \<Rightarrow> requests \<Rightarrow> (requests \<times> (exn + off_chain_data list)) option" where
  "coingecko_getTokensOffChainData E G bridgedTokensToInclude st =
     Option.bind (getTokensList G st) (\<lambda>(st', list).
       let supportedTokens = filter (supported bridgedTokensToInclude) list
       in markets_loop E G supportedTokens (batches_of API_NUMBER_OF_TOKENS_PER_REQUEST supportedTokens) st')"

section \<open>portalsFiTokenOffChainDataProvider.ts\<close>

record portals_token =
  pt_address :: string
  pt_image :: "string option"
  pt_images :: "string list option"
  pt_liquidity :: rat
  pt_price :: rat

record portals_page =
  pp_more :: bool
  pp_tokens :: "portals_token list"

definition portals_data :: "portals_token \<Rightarrow> off_chain_data" where
  "portals_data t = \<lparr>oc_l1Address = Some (pt_address t), oc_l2Address = None, oc_liquidity = Some (pt_liquidity t),
     oc_usdPrice = Some (pt_price t),
     oc_iconURL = (if falsy (pt_image t) then Option.bind (pt_images t) list_head else pt_image t)\<rparr>"

text \<open>Whatever the error, a page is asked for six times at most; then it counts as empty and the last.\<close>

function getTokensOffChainDataPageRetryable ::
  "(nat \<Rightarrow> portals_page option) \<Rightarrow> nat \<Rightarrow> int \<Rightarrow> requests \<Rightarrow> requests \<times> (bool \<times> off_chain_data list)" where
  "getTokensOffChainDataPageRetryable ask retryAttempt retryTimeout st =
     (case ask (fst st) of
        Some page \<Rightarrow> ((fst st + 1, snd st), (pp_more page, map portals_data (pp_tokens page)))
      | None \<Rightarrow>
          if retryAttempt \<ge> API_RETRY_ATTEMPTS then ((fst st + 1, snd st), (False, []))
          else getTokensOffChainDataPageRetryable ask (retryAttempt + 1) (retryTimeout * 2)
                 (fst st + 1, snd st @ [retryTimeout]))"
  by pat_completeness auto
termination
  by (relation "measure (\<lambda>(ask, retryAttempt, retryTimeout, st). API_RETRY_ATTEMPTS - retryAttempt)") auto

declare getTokensOffChainDataPageRetryable.simps [simp del]

partial_function (option) portals_pages ::
  "(nat \<Rightarrow> nat \<Rightarrow> portals_page option) \<Rightarrow> nat \<Rightarrow> off_chain_data list \<Rightarrow> requests \<Rightarrow> (requests \<times> off_chain_data list) option" where
  "portals_pages ask page found st =
     (case getTokensOffChainDataPageRetryable (ask page) 0 API_INITIAL_RETRY_TIMEOUT st of
        (st', (hasMore, new)) \<Rightarrow>
          if hasMore then portals_pages ask (page + 1) (found @ new) st' else Some (st', found @ new))"

definition portals_getTokensOffChainData ::
  "(nat \<Rightarrow> nat \<Rightarrow> portals_page option) \<Rightarrow> string option list \<Rightarrow> requests \<Rightarrow> (requests \<times> off_chain_data list) option" where
  "portals_getTokensOffChainData ask bridgedTokensToInclude st =
     (if bridgedTokensToInclude = [] then Some (st, [])
      else map_option (\<lambda>(st', found). (st', filter (\<lambda>d. oc_l1Address d \<in> set bridgedTokensToInclude \<and> \<not> falsy (oc_l1Address d)) found))
             (portals_pages ask 0 [] st))"

section \<open>The requests end\<close>

fun retry_waits :: "int \<Rightarrow> nat \<Rightarrow> int list" where
  "retry_waits t 0 = []"
| "retry_waits t (Suc n) = t # retry_waits (t * 2) n"

text \<open>Without a rate limit a request is made six times at most, with the doubled waits between them.\<close>

lemma request_without_limit:
  assumes "\<forall>i \<le> API_RETRY_ATTEMPTS - a. \<not> rate_limited (ask (n + i))" "a \<le> API_RETRY_ATTEMPTS"
  shows "\<exists>k r. makeApiRequestRetryable ask clock a t (n, ws) = Some ((n + Suc k, ws @ retry_waits t k), r) \<and>
    a + k \<le> API_RETRY_ATTEMPTS"
  using assms
proof (induction "API_RETRY_ATTEMPTS - a" arbitrary: a t n ws)
  case 0
  then have "a = API_RETRY_ATTEMPTS" "\<not> rate_limited (ask n)" by auto
  then show ?case
    by (subst makeApiRequestRetryable.simps)
      (auto simp: rate_limited_def split: api_answer.splits intro!: exI [of _ 0])
next
  case (Suc m)
  have here: "\<not> rate_limited (ask n)" using Suc.prems(1) by (metis add_0_right le0)
  show ?case
  proof (cases "\<exists>status header. ask n = Failure status header \<and> status \<noteq> Some 404")
    case False
    then show ?thesis using Suc.prems(2)
      by (subst makeApiRequestRetryable.simps) (auto split: api_answer.splits intro!: exI [of _ 0])
  next
    case True
    then obtain status header where f: "ask n = Failure status header" "status \<noteq> Some 404" by blast
    with here have "status \<noteq> Some 429" by (auto simp: rate_limited_def)
    moreover have "\<not> API_RETRY_ATTEMPTS \<le> a" using Suc.hyps(2) by arith
    ultimately have step: "makeApiRequestRetryable ask clock a t (n, ws) =
        makeApiRequestRetryable ask clock (a + 1) (t * 2) (n + 1, ws @ [t])"
      using f by (subst makeApiRequestRetryable.simps) simp
    have "\<forall>i \<le> API_RETRY_ATTEMPTS - (a + 1). \<not> rate_limited (ask (n + 1 + i))"
    proof (intro allI impI)
      fix i assume "i \<le> API_RETRY_ATTEMPTS - (a + 1)"
      then have "Suc i \<le> API_RETRY_ATTEMPTS - a" using Suc.hyps(2) by arith
      with Suc.prems(1) have "\<not> rate_limited (ask (n + Suc i))" by blast
      then show "\<not> rate_limited (ask (n + 1 + i))" by simp
    qed
    with Suc.hyps(1) [of "a + 1" "n + 1" "t * 2" "ws @ [t]"] Suc.hyps(2) obtain k r where
      "makeApiRequestRetryable ask clock (a + 1) (t * 2) (n + 1, ws @ [t]) =
         Some ((n + 1 + Suc k, (ws @ [t]) @ retry_waits (t * 2) k), r)" "a + 1 + k \<le> API_RETRY_ATTEMPTS"
      by fastforce
    with step show ?thesis by (intro exI [of _ "Suc k"] exI [of _ r]) simp
  qed
qed

lemma request_returns:
  assumes "\<forall>j \<ge> m. \<not> rate_limited (ask j)" "a \<le> API_RETRY_ATTEMPTS"
  shows "\<exists>st' r. makeApiRequestRetryable ask clock a t (n, ws) = Some (st', r)"
  using assms(2)
proof (induction "m - n" arbitrary: a t n ws)
  case 0
  then have "\<forall>i \<le> API_RETRY_ATTEMPTS - a. \<not> rate_limited (ask (n + i))" using assms(1) by simp
  from request_without_limit [OF this 0(2)] show ?case by blast
next
  case (Suc d)
  have next_one: "d = m - (n + 1)" using Suc.hyps(2) by simp
  show ?case
  proof (cases "ask n")
    case (Answer x)
    then show ?thesis by (subst makeApiRequestRetryable.simps) simp
  next
    case (Failure status header)
    note limited = Suc.hyps(1) [OF next_one, of 0 API_INITIAL_RETRY_TIMEOUT
        "ws @ [rate_limit_wait header (fst (clock n)) (snd (clock n))]"]
    note again = Suc.hyps(1) [OF next_one, of "a + 1" "t * 2" "ws @ [t]"]
    show ?thesis using Failure limited again by (subst makeApiRequestRetryable.simps) simp
  qed
qed

lemma markets_return:
  assumes "\<forall>ids. \<forall>j \<ge> m. \<not> rate_limited (cg_markets G ids j)"
  shows "\<exists>st' r. markets_loop E G toks bs st = Some (st', r)"
proof (induction bs arbitrary: st)
  case (Cons b bs)
  obtain n ws where st: "st = (n, ws)" by force
  obtain st' r where one: "makeApiRequestRetryable (cg_markets G (map li_id b)) (cg_clock G) 0 API_INITIAL_RETRY_TIMEOUT st = Some (st', r)"
    using request_returns [of m "cg_markets G (map li_id b)" 0] assms unfolding st by blast
  from Cons [of st'] obtain u q where "markets_loop E G toks bs st' = Some (u, q)" by blast
  with one show ?case by (auto split: option.split sum.split)
qed simp

text \<open>
  An update ends: once the service has stopped answering that the rate limit is reached, whatever else it
  answers, the data of the tokens, or an error, is returned.
\<close>

theorem price_update_ends:
  assumes "\<forall>j \<ge> m. \<not> rate_limited (cg_list G j)" "\<forall>ids. \<forall>j \<ge> m. \<not> rate_limited (cg_markets G ids j)"
  shows "\<exists>st' r. coingecko_getTokensOffChainData E G bridged st = Some (st', r)"
proof -
  obtain n ws where st: "st = (n, ws)" by force
  obtain u l where "getTokensList G st = Some (u, l)"
    using request_returns [OF assms(1), of 0] unfolding st getTokensList_def by fastforce
  with markets_return [OF assms(2)] show ?thesis
    by (simp add: coingecko_getTokensOffChainData_def Let_def)
qed

section \<open>What is stored\<close>

definition addressed :: "off_chain_data \<Rightarrow> bool" where
  "addressed d \<longleftrightarrow> \<not> falsy (oc_l1Address d) \<or> \<not> falsy (oc_l2Address d)"

lemma falsy_take [simp]: "falsy (map_option (take 42) v) = falsy v"
  by (cases v) (auto simp: falsy_def)

lemma map_act_members:
  "map_act f xs = Inr ys \<Longrightarrow> y \<in> set ys \<Longrightarrow> \<exists>x \<in> set xs. f x = Inr y"
  by (induction xs arbitrary: ys) (auto simp: sbind_def split: sum.splits)

lemma market_data_addressed:
  assumes "te_ETH_ADDRESS E \<noteq> []" "\<forall>t \<in> set toks. supported bridged t" "market_data E toks m = Inr d"
  shows "addressed d"
proof -
  obtain t where t: "find (\<lambda>t. li_id t = mi_id m) toks = Some t"
    using assms(3) by (auto simp: market_data_def split: option.splits)
  then have "t \<in> set toks" by (auto simp: find_Some_iff)
  with assms t show ?thesis
    by (cases "li_id t = ''ethereum''") (auto simp: market_data_def addressed_def supported_def falsy_def)
qed

lemma markets_step:
  assumes "markets_loop E G toks (b # bs) st = Some (st', Inr data)"
  shows "\<exists>u ms xs ys. makeApiRequestRetryable (cg_markets G (map li_id b)) (cg_clock G) 0 API_INITIAL_RETRY_TIMEOUT st = Some (u, Some ms) \<and>
    map_act (market_data E toks) ms = Inr xs \<and> markets_loop E G toks bs u = Some (st', Inr ys) \<and> data = xs @ ys"
proof -
  from assms obtain u ms where u: "makeApiRequestRetryable (cg_markets G (map li_id b)) (cg_clock G) 0 API_INITIAL_RETRY_TIMEOUT st = Some (u, Some ms)"
    by (auto split: option.splits)
  moreover from assms u obtain xs where "map_act (market_data E toks) ms = Inr xs" by (auto split: sum.splits)
  moreover from assms u this obtain v r where v: "markets_loop E G toks bs u = Some (v, r)" by auto
  moreover from assms u this \<open>map_act _ ms = _\<close> obtain ys where "r = Inr ys" "v = st'" "data = xs @ ys"
    by (cases r) (auto simp: sbind_def)
  ultimately show ?thesis by blast
qed

lemma markets_addressed:
  assumes "te_ETH_ADDRESS E \<noteq> []" "\<forall>t \<in> set toks. supported bridged t"
  shows "markets_loop E G toks bs st = Some (st', Inr data) \<Longrightarrow> \<forall>d \<in> set data. addressed d"
proof (induction bs arbitrary: st data)
  case (Cons b bs)
  from markets_step [OF Cons.prems] obtain u ms xs ys where
    u: "map_act (market_data E toks) ms = Inr xs" "markets_loop E G toks bs u = Some (st', Inr ys)" "data = xs @ ys" by blast
  from Cons.IH [OF u(2)] map_act_members [OF u(1)] market_data_addressed [OF assms] u(3) show ?case by auto
qed simp

text \<open>One row under one update of a provider.\<close>

definition price_of :: "off_chain_data \<Rightarrow> token_row \<Rightarrow> bool" where
  "price_of d k \<longleftrightarrow> (if falsy (oc_l1Address d) then hex_col (oc_l2Address d) = Some (tk_l2Address (k_token k))
     else tk_l1Address (k_token k) = hex_col (oc_l1Address d))"

definition priced :: "int \<Rightarrow> off_chain_data \<Rightarrow> token_row \<Rightarrow> token_row" where
  "priced now d k = (if price_of d k
     then k\<lparr>k_liquidity := or_else (oc_liquidity d) (k_liquidity k), k_usdPrice := or_else (oc_usdPrice d) (k_usdPrice k),
            k_offChainDataUpdatedAt := Some now,
            k_iconURL := (if falsy (oc_iconURL d) then k_iconURL k else oc_iconURL d)\<rparr>
     else k)"

lemma update_run:
  "addressed d \<Longrightarrow> updateTokenOffChainData d now s = (s\<lparr>tokens := map (priced now d) (tokens s)\<rparr>, Inr ())"
  by (auto simp: updateTokenOffChainData_def addressed_def priced_def [abs_def] price_of_def act_simps)

lemma updates_run:
  "\<forall>d \<in> set data. addressed d \<Longrightarrow>
     for_each (\<lambda>d. updateTokenOffChainData d now) data s = (s\<lparr>tokens := map (fold (priced now) data) (tokens s)\<rparr>, Inr ())"
proof (induction data arbitrary: s)
  case Nil
  then show ?case by (simp add: act_simps)
next
  case (Cons d data)
  then show ?case by (simp add: bind_def update_run comp_def)
qed

lemma priced_token [simp]: "k_token (priced now d k) = k_token k"
  by (simp add: priced_def)

lemma priced_of [simp]: "price_of d' (priced now d k) = price_of d' k"
  by (simp add: price_of_def)

lemma fold_priced:
  "k_token (fold (priced now) data k) = k_token k"
  "(\<forall>d \<in> set data. \<not> price_of d k) \<Longrightarrow> fold (priced now) data k = k"
  by (induction data arbitrary: k) (simp_all add: priced_def)

lemma fold_priced_date:
  "(\<exists>d \<in> set data. price_of d k) \<or> k_offChainDataUpdatedAt k = Some now \<Longrightarrow>
     k_offChainDataUpdatedAt (fold (priced now) data k) = Some now"
  by (induction data arbitrary: k) (auto simp: priced_def)

text \<open>
  C34: What the provider returns is never refused: when an update is due and the provider returns data, the
  round succeeds; every token that one of the data is about is marked as updated now, the others are as
  they were, and no token is lost or renamed.
\<close>

theorem prices_are_stored:
  assumes "te_ETH_ADDRESS E \<noteq> []"
    and due: "getOffChainDataLastUpdatedAt s = (s, Inr lastAt)" "next_update_timeout interval now lastAt = 0"
    and provider: "coingecko_getTokensOffChainData E G (map (\<lambda>k. tk_l1Address (k_token k)) (filter (\<lambda>k. tk_l1Address (k_token k) \<noteq> None) (tokens s))) st = Some (st', Inr data)"
    and "offchain_round interval now later (\<lambda>bridged. snd (the (coingecko_getTokensOffChainData E G bridged st))) s = (t, r)"
  shows "r = Inr interval \<and>
    (\<exists>f. tokens t = map f (tokens s) \<and>
       (\<forall>k \<in> set (tokens s). k_token (f k) = k_token k \<and>
          (if \<exists>d \<in> set data. price_of d k then k_offChainDataUpdatedAt (f k) = Some later else f k = k)))"
proof -
  obtain u l where u: "getTokensList G st = Some (u, l)"
    "markets_loop E G (filter (supported (map (\<lambda>k. tk_l1Address (k_token k)) (filter (\<lambda>k. tk_l1Address (k_token k) \<noteq> None) (tokens s)))) l)
       (batches_of API_NUMBER_OF_TOKENS_PER_REQUEST (filter (supported (map (\<lambda>k. tk_l1Address (k_token k)) (filter (\<lambda>k. tk_l1Address (k_token k) \<noteq> None) (tokens s)))) l)) u = Some (st', Inr data)"
    using provider by (auto simp: coingecko_getTokensOffChainData_def Let_def bind_eq_Some_conv)
  have addressed: "\<forall>d \<in> set data. addressed d"
    by (rule markets_addressed [OF assms(1) _ u(2)]) (auto simp del: not_None_eq)
  have "offchain_update interval now later (\<lambda>bridged. snd (the (coingecko_getTokensOffChainData E G bridged st))) s =
      (s\<lparr>tokens := map (fold (priced later) data) (tokens s)\<rparr>, Inr interval)"
    using due updates_run [OF addressed, of later s] provider
    by (simp add: offchain_update_def bind_def getBridgedTokens_def act_simps for_each_concat batches_of_concat)
  then have "t = s\<lparr>tokens := map (fold (priced later) data) (tokens s)\<rparr>" "r = Inr interval"
    using assms(5) by (simp_all add: offchain_round_def catch_def)
  moreover have "k_token (fold (priced later) data k) = k_token k \<and>
      (if \<exists>d \<in> set data. price_of d k then k_offChainDataUpdatedAt (fold (priced later) data k) = Some later
       else fold (priced later) data k = k)" for k
    using fold_priced fold_priced_date by (cases "\<exists>d \<in> set data. price_of d k") auto
  ultimately show ?thesis by (intro conjI exI [of _ "fold (priced later) data"]) simp_all
qed

text \<open>
  The other provider ends as soon as the service has a last page, whatever requests fail, and what it
  returns is about bridged tokens only.
\<close>

lemma last_page:
  "\<forall>n page. f n = Some page \<longrightarrow> \<not> pp_more page \<Longrightarrow> \<not> fst (snd (getTokensOffChainDataPageRetryable f a w u))"
proof (induction f a w u rule: getTokensOffChainDataPageRetryable.induct)
  case (1 f a w u)
  then show ?case by (subst getTokensOffChainDataPageRetryable.simps) (auto split: option.split)
qed

lemma portals_pages_end:
  fixes ask :: "nat \<Rightarrow> nat \<Rightarrow> portals_page option"
  assumes "\<forall>n page. ask p n = Some page \<longrightarrow> \<not> pp_more page" "q \<le> p"
  shows "\<exists>st' found'. portals_pages ask q found st = Some (st', found')"
  using assms(2)
proof (induction "p - q" arbitrary: q found st)
  case 0
  then have q: "q = p" by simp
  have "\<not> fst (snd (getTokensOffChainDataPageRetryable (ask q) 0 API_INITIAL_RETRY_TIMEOUT st))"
    using assms(1) unfolding q by (rule last_page)
  then show ?case by (subst portals_pages.simps) (auto split: prod.splits)
next
  case (Suc d)
  then have "d = p - (q + 1)" "q + 1 \<le> p" by simp_all
  note next_page = Suc.hyps(1) [OF this]
  obtain u more new where "getTokensOffChainDataPageRetryable (ask q) 0 API_INITIAL_RETRY_TIMEOUT st = (u, (more, new))"
    by (metis surj_pair)
  with next_page [of "found @ new" u] show ?case by (subst portals_pages.simps) simp
qed

theorem portals_update_ends:
  assumes "\<forall>n page. ask p n = Some page \<longrightarrow> \<not> pp_more page"
  shows "\<exists>st' data. portals_getTokensOffChainData ask bridged st = Some (st', data) \<and>
    (\<forall>d \<in> set data. oc_l1Address d \<in> set bridged \<and> addressed d)"
proof -
  obtain st' found where "portals_pages ask 0 [] st = Some (st', found)"
    using portals_pages_end [where ask = ask and p = p and q = 0] assms by blast
  then show ?thesis by (simp add: portals_getTokensOffChainData_def addressed_def)
qed

text \<open>
  A request for market data that is answered with 404, or fails six times, makes the whole update throw,
  although the list of tokens and the requests before it were answered.
\<close>

lemma failed_request_loses_update:
  assumes "makeApiRequestRetryable (cg_markets G (map li_id b)) (cg_clock G) 0 API_INITIAL_RETRY_TIMEOUT u = Some (v, None)"
    and "markets_loop E G toks bs st = Some (u, Inr xs)"
  shows "markets_loop E G toks (bs @ b # cs) st = Some (v, Inl TypeError)"
  using assms(2)
proof (induction bs arbitrary: st xs)
  case Nil
  with assms(1) show ?case by simp
next
  case (Cons c bs)
  from markets_step [OF Cons.prems] obtain w ms ys zs where
    "makeApiRequestRetryable (cg_markets G (map li_id c)) (cg_clock G) 0 API_INITIAL_RETRY_TIMEOUT st = Some (w, Some ms)"
    "map_act (market_data E toks) ms = Inr ys" "markets_loop E G toks bs w = Some (u, Inr zs)" by blast
  with Cons.IH [OF this(3)] show ?case by (simp add: sbind_def)
qed

section \<open>A concrete update\<close>

definition demo_coingecko :: coingecko where
  "demo_coingecko = \<lparr>cg_list = (\<lambda>n. if n = 0 then Failure (Some 429) NoHeader else if n = 1 then Failure None NoHeader
       else Answer [\<lparr>li_id = ''t'', li_zksync = Some ''0x0a'', li_ethereum = None\<rparr>]),
     cg_markets = (\<lambda>ids n. Answer [\<lparr>mi_id = ''t'', mi_image = None, mi_current_price = Some 3, mi_market_cap = None\<rparr>]),
     cg_clock = (\<lambda>n. (100, 103))\<rparr>"

lemma demo_list_request:
  "makeApiRequestRetryable (cg_list demo_coingecko) (cg_clock demo_coingecko) 0 API_INITIAL_RETRY_TIMEOUT (0, []) =
     Some ((3, [60997, 5000]), Some [\<lparr>li_id = ''t'', li_zksync = Some ''0x0a'', li_ethereum = None\<rparr>])"
  by (simp add: makeApiRequestRetryable.simps [of _ _ _ _ "(_, _)"] demo_coingecko_def rate_limit_wait_def
      API_INITIAL_RETRY_TIMEOUT_def API_RETRY_ATTEMPTS_def)

lemma demo_coingecko_data:
  "coingecko_getTokensOffChainData demo_env demo_coingecko bridged (0, []) =
     Some ((4, [60997, 5000]), Inr [\<lparr>oc_l1Address = None, oc_l2Address = Some ''0x0a'', oc_liquidity = None,
       oc_usdPrice = Some 3, oc_iconURL = None\<rparr>])"
proof -
  let ?item = "\<lparr>li_id = ''t'', li_zksync = Some ''0x0a'', li_ethereum = None\<rparr>"
  have l: "getTokensList demo_coingecko (0, []) = Some ((3, [60997, 5000]), [?item])"
    by (simp add: getTokensList_def demo_list_request listed_def cut_addresses_def falsy_def)
  moreover have "supported bridged ?item" by (simp add: supported_def falsy_def)
  moreover have "batches_of API_NUMBER_OF_TOKENS_PER_REQUEST [?item] = [[?item]]" by (simp add: batches_of_def)
  ultimately show ?thesis
    by (simp add: coingecko_getTokensOffChainData_def Let_def makeApiRequestRetryable.simps demo_coingecko_def
        market_data_def sbind_def)
qed

theorem price_update_ends_witness:
  "\<exists>st' r. coingecko_getTokensOffChainData demo_env demo_coingecko [] (0, []) = Some (st', r)"
  by (rule price_update_ends [of 1]) (auto simp: demo_coingecko_def rate_limited_def)

theorem prices_are_stored_witness:
  "\<exists>f. tokens (fst (offchain_round 100 500 501 (\<lambda>bridged. snd (the (coingecko_getTokensOffChainData demo_env demo_coingecko bridged (0, []))))
       (empty_db\<lparr>tokens := [demo_token_row (Some 90)]\<rparr>))) = map f [demo_token_row (Some 90)] \<and>
     k_offChainDataUpdatedAt (f (demo_token_row (Some 90))) = Some 501"
proof -
  let ?s = "empty_db\<lparr>tokens := [demo_token_row (Some 90)]\<rparr>"
  let ?p = "\<lambda>bridged. snd (the (coingecko_getTokensOffChainData demo_env demo_coingecko bridged (0, [])))"
  obtain t r where run: "offchain_round 100 500 501 ?p ?s = (t, r)" by force
  have due: "getOffChainDataLastUpdatedAt ?s = (?s, Inr (Some 90))"
    by (simp add: getOffChainDataLastUpdatedAt_def demo_token_row_def act_simps)
  have "price_of \<lparr>oc_l1Address = None, oc_l2Address = Some ''0x0a'', oc_liquidity = None, oc_usdPrice = Some 3, oc_iconURL = None\<rparr>
      (demo_token_row (Some 90))"
    by code_simp
  moreover have "te_ETH_ADDRESS demo_env \<noteq> []" by (simp add: demo_env_def)
  moreover have "next_update_timeout 100 500 (Some 90) = 0" by (simp add: next_update_timeout_def)
  ultimately show ?thesis
    using prices_are_stored [OF _ due _ demo_coingecko_data run] unfolding run by auto
qed

theorem portals_update_ends_witness:
  "\<exists>st' data. portals_getTokensOffChainData (\<lambda>p n. if p = 1 then None else Some \<lparr>pp_more = True, pp_tokens = []\<rparr>) [Some ''0x0a''] (0, []) =
     Some (st', data)"
  using portals_update_ends [of "\<lambda>p n. if p = 1 then None else Some \<lparr>pp_more = True, pp_tokens = []\<rparr>" 1 "[Some ''0x0a'']" "(0, [])"]
  by auto

end
