(* ===== verification/Proxy_Http.thy ===== *)
theory Proxy_Http
  imports External
begin

text \<open>
  The proxy in front of the block explorer API: what its routes share
  (\<open>src/packages/proxy/src/utils\<close>, \<open>src/packages/proxy/src/services\<close>). Requests, replies, errors, the
  text of a URL, schemas, pagination, and the requests the proxy makes itself.
\<close>

section \<open>The platform\<close>

text \<open>
  Parameters beside those of \<open>External\<close>: the host of a URL (\<open>None\<close> when the text is not a URL), the
  conversions between numbers and text, the sentence of a validation failure, and what a route sends that returns the
  application object. A message of the library siwe carries its address and its nonce; verifying a posted
  message against a signature gives it back, or fails.
\<close>

record siwe =
  sw_address :: string
  sw_nonce :: string

record platform =
  urlHost :: "string \<Rightarrow> string option"
  toNumber :: "json \<Rightarrow> rat option"
  numberText :: "rat \<Rightarrow> string"
  validationMessage :: "schema \<Rightarrow> json \<Rightarrow> string"
  serializedApp :: "json option"
  siweVerify :: "json \<Rightarrow> json option \<Rightarrow> siwe option"
  siweMessage :: "string \<Rightarrow> siwe option"

section \<open>Requests and replies\<close>

text \<open>\<open>rq_query\<close> is the parsed query string, \<open>rq_url\<close> the path and query as sent.\<close>

record request =
  rq_method :: string
  rq_url :: string
  rq_query :: json
  rq_body :: "json option"
  rq_origin :: "string option"
  rq_host :: "string option"
  rq_user :: "string option"

datatype payload = PJson json | PText string | PBody body | PEmpty

record http_reply =
  rp_status :: nat
  rp_headers :: "(string \<times> string) list"
  rp_payload :: payload

definition send_json :: "json \<Rightarrow> http_reply" where
  "send_json j = \<lparr>rp_status = 200, rp_headers = [], rp_payload = PJson j\<rparr>"

definition send_body :: "body \<Rightarrow> http_reply" where
  "send_body b = \<lparr>rp_status = 200, rp_headers = [], rp_payload = PBody b\<rparr>"

text \<open>The configuration: \<open>app.conf\<close> and the environment.\<close>

record proxy_app =
  proxyTarget :: string
  rpcUrl :: string
  proxy_tokenSecret :: string
  userTokenUrl :: string
  nodeEnv :: string

section \<open>utils/http-error.ts\<close>

definition UnauthorizedError :: "string \<Rightarrow> exn" where
  "UnauthorizedError message = HttpError message 401"

definition ForbiddenError :: "string \<Rightarrow> exn" where
  "ForbiddenError message = HttpError message 403"

text \<open>\<open>HttpError.handle\<close>, and the error handler of the application for all other errors.\<close>

definition http_error_reply :: "string \<Rightarrow> int \<Rightarrow> http_reply" where
  "http_error_reply message c =
     \<lparr>rp_status = nat c, rp_headers = [], rp_payload = PJson (JObj [(''error'', JStr message)])\<rparr>"

definition thrown :: "'abi lib \<Rightarrow> exn \<Rightarrow> json" where
  "thrown L e = (case e of LibError j \<Rightarrow> j | _ \<Rightarrow> thrownValue L e)"

definition errorHandler :: "'abi lib \<Rightarrow> exn \<Rightarrow> http_reply" where
  "errorHandler L e =
     (case e of
        HttpError message c \<Rightarrow> http_error_reply message c
      | _ \<Rightarrow>
        \<lparr>rp_status = (case field ''statusCode'' (thrown L e) of Some (JNum r) \<Rightarrow> nat (floor r) | _ \<Rightarrow> 500),
         rp_headers = [],
         rp_payload = PJson (JObj
           (case field ''message'' (thrown L e) of None \<Rightarrow> [] | Some m \<Rightarrow> [(''error'', m)]))\<rparr>)"

text \<open>The validation of query, parameters and body by the framework: a failure is status 400.\<close>

definition validated :: "'abi lib \<Rightarrow> platform \<Rightarrow> schema \<Rightarrow> json \<Rightarrow> exn + json" where
  "validated L E schema j =
     (case zodParse L schema (Some j) of
        Some r \<Rightarrow> Inr r
      | None \<Rightarrow> Inl (LibError (JObj
          [(''statusCode'', JNum 400), (''message'', JStr (validationMessage E schema j))])))"

lemma validated_Inr [simp]: "validated L E schema j = Inr r \<longleftrightarrow> zodParse L schema (Some j) = Some r"
  by (simp add: validated_def split: option.splits)

section \<open>utils/url.ts\<close>

text \<open>\<open>URLSearchParams.toString\<close>: the bytes of the text, percent-encoded.\<close>

definition form_plain :: "char \<Rightarrow> bool" where
  "form_plain c \<longleftrightarrow> is_digit c \<or> (65 \<le> code c \<and> code c \<le> 90) \<or> (97 \<le> code c \<and> code c \<le> 122) \<or>
     c \<in> {CHR ''*'', CHR ''-'', CHR ''.'', CHR ''_''}"

definition form_char :: "char \<Rightarrow> string" where
  "form_char c =
     (if form_plain c then [c]
      else if c = CHR '' '' then ''+''
      else [CHR 0x25, hex_upper (code c div 16), hex_upper (code c mod 16)])"

definition form_text :: "string \<Rightarrow> string" where
  "form_text s = concat (map form_char s)"

definition form_params :: "(string \<times> string) list \<Rightarrow> string" where
  "form_params kvs = join_with ''&'' (map (\<lambda>(k, v). form_text k @ ''='' @ form_text v) kvs)"

text \<open>\<open>value.toString()\<close>\<close>

fun value_text :: "platform \<Rightarrow> json \<Rightarrow> string" where
  "value_text E JNull = []"
| "value_text E (JBool b) = (if b then ''true'' else ''false'')"
| "value_text E (JNum r) = numberText E r"
| "value_text E (JStr s) = s"
| "value_text E (JArr js) = join_with '','' (map (value_text E) js)"
| "value_text E (JObj kvs) = ''[object Object]''"

definition to_string :: "platform \<Rightarrow> json \<Rightarrow> exn + string" where
  "to_string E j = (if j = JNull then Inl TypeError else Inr (value_text E j))"

definition buildUrl :: "platform \<Rightarrow> string \<Rightarrow> json \<Rightarrow> exn + string" where
  "buildUrl E base query =
     sbind (map_act (\<lambda>(key, v). sbind (to_string E v) (\<lambda>s. Inr (key, s))) (entries query)) (\<lambda>params.
     let serializedParams = form_params params in
     Inr (base @ (if length serializedParams = 0 then [] else ''?'' @ serializedParams)))"

section \<open>utils/schemas.ts\<close>

definition proxy_hexSchema :: schema where
  "proxy_hexSchema = SStr (check hex_regex)"

definition proxy_addressSchema :: schema where
  "proxy_addressSchema = SStr (check (\<lambda>s. hex_regex s \<and> length s = 42))"

definition enumeratedSchema :: "schema \<Rightarrow> schema" where
  "enumeratedSchema parser = SObj False
     [(''items'', SArr parser),
      (''meta'', SObj False [(''totalItems'', SNum), (''itemCount'', SNum), (''itemsPerPage'', SNum),
         (''totalPages'', SNum), (''currentPage'', SNum)]),
      (''links'', SObj False [(''first'', SString), (''previous'', SString), (''next'', SString),
         (''last'', SString)])]"

definition tokenSchema :: schema where
  "tokenSchema = SObj False
     [(''l2Address'', proxy_hexSchema), (''l1Address'', SNullable proxy_hexSchema), (''symbol'', SString),
      (''name'', SString), (''decimals'', SNum), (''usdPrice'', SNullable SNum),
      (''liquidity'', SNullable SNum), (''iconURL'', SNullable SString)]"

definition proxy_transferSchema :: schema where
  "proxy_transferSchema = SObj True [(''from'', proxy_hexSchema), (''to'', proxy_hexSchema)]"

definition proxy_logsSchema :: schema where
  "proxy_logsSchema = SObj False
     [(''address'', proxy_addressSchema), (''blockNumber'', SNum), (''logIndex'', SNum),
      (''data'', proxy_hexSchema), (''timestamp'', SString), (''topics'', SArr proxy_hexSchema),
      (''transactionHash'', proxy_hexSchema), (''transactionIndex'', SNum)]"

section \<open>utils/pagination.ts\<close>

definition wrapIntoPaginationInfo ::
  "platform \<Rightarrow> json list \<Rightarrow> string \<Rightarrow> rat \<Rightarrow> rat \<Rightarrow> rat \<Rightarrow> rat \<Rightarrow> json" where
  "wrapIntoPaginationInfo E collection linksBaseUri limit totalItems currentPage totalPages =
     (let page_link = (\<lambda>n. linksBaseUri @ ''?limit='' @ numberText E limit @ ''&page='' @ numberText E n);
          previous = (if currentPage = 1 then [] else page_link (currentPage - 1));
          next = (if currentPage \<ge> totalPages then [] else page_link (currentPage + 1))
      in JObj
        [(''items'', JArr collection),
         (''meta'', JObj
            [(''totalItems'', JNum totalItems), (''itemCount'', JNum (of_nat (length collection))),
             (''itemsPerPage'', JNum limit), (''totalPages'', JNum totalPages),
             (''currentPage'', JNum currentPage)]),
         (''links'', JObj
            [(''first'', JStr (linksBaseUri @ ''?limit='' @ numberText E limit)),
             (''previous'', JStr previous), (''next'', JStr next),
             (''last'', JStr (linksBaseUri @ ''?page='' @ numberText E totalPages @ ''&limit='' @ numberText E limit))])])"

text \<open>The call with the default arguments.\<close>

definition wrap_page :: "platform \<Rightarrow> json list \<Rightarrow> string \<Rightarrow> rat \<Rightarrow> json" where
  "wrap_page E collection base limit =
     wrapIntoPaginationInfo E collection base limit (of_nat (length collection)) 1
       (if length collection = 0 then 0 else 1)"

section \<open>utils/requests.ts\<close>

definition origin_host :: "platform \<Rightarrow> string \<Rightarrow> string option" where
  "origin_host E domain =
     (if starts_with domain ''http://'' \<or> starts_with domain ''https://'' then urlHost E domain
      else urlHost E (''https://'' @ domain))"

definition verifyRequestOrigin :: "platform \<Rightarrow> string \<Rightarrow> string list \<Rightarrow> bool" where
  "verifyRequestOrigin E origin allowedDomains =
     (if origin = [] \<or> length allowedDomains = 0 then False
      else (case urlHost E origin of
              None \<Rightarrow> False
            | Some originHost \<Rightarrow>
                originHost \<noteq> [] \<and> list_ex (\<lambda>domain. origin_host E domain = Some originHost) allowedDomains))"

section \<open>Pages: utils/request-and-filter-collection.ts, routes/public-api-routes/generic-handlers.ts\<close>

definition numberSchema :: "platform \<Rightarrow> schema" where
  "numberSchema E = SOptional (SCoerceNum (toNumber E))"

text \<open>\<open>numberSchema.default(d).parse(v)\<close>\<close>

definition parse_number :: "'abi lib \<Rightarrow> platform \<Rightarrow> rat \<Rightarrow> json option \<Rightarrow> exn + rat" where
  "parse_number L E d v =
     (case v of
        None \<Rightarrow> Inr d
      | Some j \<Rightarrow> sbind (parse_sum L (numberSchema E) (Some j)) (\<lambda>r. case r of JNum n \<Rightarrow> Inr n | _ \<Rightarrow> Inl ZodError))"

text \<open>\<open>slice\<close> rounds its arguments towards zero.\<close>

definition to_integer :: "rat \<Rightarrow> int" where
  "to_integer r = (if r < 0 then ceiling r else floor r)"

definition paginate ::
  "'abi lib \<Rightarrow> platform \<Rightarrow> 'a list \<Rightarrow> json option \<Rightarrow> json option \<Rightarrow> exn + 'a list" where
  "paginate L E xs page offset =
     sbind (parse_number L E 10 offset) (\<lambda>pageSize.
     sbind (parse_number L E 1 page) (\<lambda>n.
     let start = (n - 1) * pageSize in
     Inr (js_slice xs (to_integer start) (to_integer (start + pageSize)))))"

definition requestAndFilterCollection ::
  "'abi lib \<Rightarrow> platform \<Rightarrow> world \<Rightarrow> string \<Rightarrow> json \<Rightarrow> schema \<Rightarrow> (json \<Rightarrow> exn + bool) \<Rightarrow> rat \<Rightarrow>
     ('z net_scheme, json) act" where
  "requestAndFilterCollection L E w baseUrl query schema keep limit =
     bind (of_sum (buildUrl E baseUrl (spread query [(''limit'', JNum 100), (''page'', JNum 1)]))) (\<lambda>url.
     bind (fetch w (HttpGet url)) (\<lambda>response.
     bind (res_json response) (\<lambda>j.
     bind (of_sum (parse_sum L (enumeratedSchema schema) (Some j))) (\<lambda>res.
     bind (of_sum (parse_number L E 10 (field ''limit'' query))) (\<lambda>pageSize.
     bind (of_sum (parse_number L E 1 (field ''page'' query))) (\<lambda>pageNumber.
     let start = (pageNumber - 1) * pageSize in
     bind (of_sum (array_field ''items'' res)) (\<lambda>items.
     bind (of_sum (filter_act keep items)) (\<lambda>kept.
     ret (wrap_page E (js_slice kept (to_integer start) (to_integer (start + pageSize))) baseUrl limit)))))))))"

section \<open>services\<close>

text \<open>services/user.ts\<close>

definition getUserOrThrow :: "request \<Rightarrow> exn + string" where
  "getUserOrThrow req =
     (case rq_user req of None \<Rightarrow> Inl (UnauthorizedError ''User not authenticated'')
      | Some user \<Rightarrow> if user = [] then Inl (UnauthorizedError ''User not authenticated'') else Inr user)"

definition getUser :: "request \<Rightarrow> string option" where
  "getUser req = rq_user req"

text \<open>services/block-explorer.ts: the body and two headers are passed on, the status is not.\<close>

definition addPipedHeader :: "string \<Rightarrow> string option \<Rightarrow> (string \<times> string) list" where
  "addPipedHeader header v = (case v of Some s \<Rightarrow> if s \<noteq> [] then [(header, s)] else [] | None \<Rightarrow> [])"

definition piped_reply :: "answer \<Rightarrow> http_reply" where
  "piped_reply response = \<lparr>rp_status = 200,
     rp_headers = addPipedHeader ''content-type'' (contentType response) @
       addPipedHeader ''content-length'' (contentLength response),
     rp_payload = PBody (content response)\<rparr>"

definition pipeGetRequest :: "world \<Rightarrow> string \<Rightarrow> ('z net_scheme, http_reply) act" where
  "pipeGetRequest w url = bind (fetch w (HttpGet url)) (\<lambda>response. ret (piped_reply response))"

definition pipePostRequest :: "world \<Rightarrow> string \<Rightarrow> json \<Rightarrow> ('z net_scheme, http_reply) act" where
  "pipePostRequest w url body = bind (fetch w (HttpPost url body)) (\<lambda>response. ret (piped_reply response))"

text \<open>services/rpc.ts: an answer that is not an address, or no answer, is no owner.\<close>

definition getContractOwner :: "world \<Rightarrow> string \<Rightarrow> string \<Rightarrow> ('z net_scheme, string option) act" where
  "getContractOwner w url address =
     catch
       (bind (fetch w (ReadContract url address ''function owner() view returns (address)'')) (\<lambda>response.
          case content response of JsonBody (JStr owner) \<Rightarrow> ret (Some owner) | _ \<Rightarrow> throw lib_error))
       (\<lambda>_. ret None)"

text \<open>viem's \<open>isAddressEqual\<close> throws on a text that is not an address.\<close>

definition addresses_equal :: "'abi lib \<Rightarrow> string \<Rightarrow> string \<Rightarrow> exn + bool" where
  "addresses_equal L a b = lib_sum (isAddressEqual L a b)"

text \<open>\<open>Array.find\<close> and \<open>Array.every\<close> with a callback that may throw.\<close>

fun find_act :: "('a \<Rightarrow> exn + bool) \<Rightarrow> 'a list \<Rightarrow> exn + 'a option" where
  "find_act p [] = Inr None"
| "find_act p (x # xs) =
     (case p x of Inl e \<Rightarrow> Inl e | Inr b \<Rightarrow> if b then Inr (Some x) else find_act p xs)"

fun every_act :: "('a \<Rightarrow> exn + bool) \<Rightarrow> 'a list \<Rightarrow> exn + bool" where
  "every_act p [] = Inr True"
| "every_act p (x # xs) =
     (case p x of Inl e \<Rightarrow> Inl e | Inr b \<Rightarrow> if b then every_act p xs else Inr False)"

section \<open>Facts\<close>

lemma addresses_equal_Inr: "addresses_equal L a b = Inr r \<longleftrightarrow> isAddressEqual L a b = Some r"
  by (simp add: addresses_equal_def)

lemma addresses_equal_lower:
  "address_documented L \<Longrightarrow> addresses_equal L a b = Inr True \<Longrightarrow> lower a = lower b"
  using isAddressEqualD [of L a b True] by (simp add: addresses_equal_Inr)

lemma every_act_True: "every_act p xs = Inr True \<longleftrightarrow> (\<forall>x \<in> set xs. p x = Inr True)"
  by (induction xs) (auto split: sum.splits if_splits)

lemma find_act_None: "find_act p xs = Inr None \<longleftrightarrow> (\<forall>x \<in> set xs. p x = Inr False)"
  by (induction xs) (auto split: sum.splits if_splits)

lemma getUserOrThrow_Inr [simp]: "getUserOrThrow req = Inr user \<longleftrightarrow> rq_user req = Some user \<and> user \<noteq> []"
  by (auto simp: getUserOrThrow_def split: option.splits if_splits)

lemma field_wrap_items [simp]: "field ''items'' (wrap_page E xs base limit) = Some (JArr xs)"
  by (simp add: wrap_page_def wrapIntoPaginationInfo_def Let_def)

lemma paginate_set: "paginate L E xs page offset = Inr ys \<Longrightarrow> set ys \<subseteq> set xs"
  using set_js_slice by (fastforce simp: paginate_def Let_def elim!: sbind_returned)

text \<open>A page is never longer than its size rounded up, when the size and the start are not negative.\<close>

lemma page_length:
  fixes start size' :: rat
  assumes "0 \<le> start" "0 \<le> size'"
  shows "length (js_slice xs (to_integer start) (to_integer (start + size'))) \<le> nat (ceiling size')"
proof -
  have ints: "to_integer start = floor start" "to_integer (start + size') = floor (start + size')"
    using assms by (simp_all add: to_integer_def)
  have "floor (start + size') \<le> floor start + ceiling size'" by linarith
  then have "nat (floor (start + size')) - nat (floor start) \<le> nat (ceiling size')" by linarith
  moreover have "min (nat (floor (start + size'))) (length xs) - min (nat (floor start)) (length xs)
      \<le> nat (floor (start + size')) - nat (floor start)" by (simp add: min_def diff_le_mono)
  moreover have "0 \<le> floor start" "0 \<le> floor (start + size')" using assms by simp_all
  then have "length (js_slice xs (to_integer start) (to_integer (start + size'))) \<le>
      min (nat (floor (start + size'))) (length xs) - min (nat (floor start)) (length xs)"
    by (simp only: ints js_slice_def Let_def slice_pos_nonneg length_take length_drop) simp
  ultimately show ?thesis by (meson order.trans)
qed

lemma collection_run:
  "requestAndFilterCollection L E w url query schema keep limit s = (t, Inr j) \<Longrightarrow>
     \<exists>ks a b items. filter_act keep items = Inr ks \<and> j = wrap_page E (js_slice ks a b) url limit"
  unfolding requestAndFilterCollection_def Let_def
  by ((erule bind_returned)+, simp only: of_sum_apply ret_apply prod.inject sum.inject, elim conjE,
      intro exI conjI, assumption, erule sym)

section \<open>Filtered lists\<close>

text \<open>
  The contract between a list and its filter: what the filter keeps for a user is the user's own.
\<close>

locale row_filter =
  fixes L :: "'abi lib"
    and concerns :: "string \<Rightarrow> json \<Rightarrow> exn + bool"
    and own :: "string \<Rightarrow> json \<Rightarrow> bool"
  assumes concerns_own: "address_documented L \<Longrightarrow> concerns user x = Inr True \<Longrightarrow> own user x"
begin

lemma kept_own: "address_documented L \<Longrightarrow> filter_act (concerns user) xs = Inr ys \<Longrightarrow> x \<in> set ys \<Longrightarrow> own user x"
  by (frule filter_act_sound) (auto intro: concerns_own)

lemma page_own:
  assumes "address_documented L" "filter_act (concerns user) xs = Inr ys" "paginate L' E ys page offset = Inr zs"
  shows "\<forall>x \<in> set zs. own user x"
  using kept_own [OF assms(1,2)] paginate_set [OF assms(3)] by blast

lemma collection_own:
  assumes "address_documented L"
    and "requestAndFilterCollection L' E w url query schema (concerns user) limit s = (t, Inr j)"
  shows "\<exists>xs. field ''items'' j = Some (JArr xs) \<and> (\<forall>x \<in> set xs. own user x)"
proof -
  have "\<exists>ks a b items. filter_act (concerns user) items = Inr ks \<and> j = wrap_page E (js_slice ks a b) url limit"
    by (rule collection_run [OF assms(2)])
  then obtain ks a b items where ks: "filter_act (concerns user) items = Inr ks"
    and j: "j = wrap_page E (js_slice ks a b) url limit" by blast
  have "\<forall>x \<in> set (js_slice ks a b). own user x" using kept_own [OF assms(1) ks] set_js_slice [of ks a b] by blast
  then show ?thesis by (simp add: j)
qed

end

end
