(* ===== verification/Proxy_Routes.thy ===== *)
theory Proxy_Routes
  imports Proxy_Http
begin

text \<open>
  The routes of the block explorer behind the proxy: \<open>src/packages/proxy/src/routes\<close> (\<open>address-bff.ts\<close>,
  \<open>transactions-bff.ts\<close>, \<open>blocks-bff.ts\<close>, \<open>batches-bff.ts\<close>, \<open>stats-bff.ts\<close>, \<open>token-bff.ts\<close>). A route
  validates its parameters and query, asks the block explorer API, and filters what the user may see.
\<close>

section \<open>Query and parameter schemas\<close>

definition optional_number :: "platform \<Rightarrow> schema" where
  "optional_number E = SOptional (SCoerceNum (toNumber E))"

definition page_query :: "platform \<Rightarrow> (string \<times> schema) list" where
  "page_query E = [(''page'', optional_number E), (''limit'', optional_number E)]"

definition date_query :: "(string \<times> schema) list" where
  "date_query = [(''fromDate'', SOptional SString), (''toDate'', SOptional SString)]"

definition addressParams :: schema where
  "addressParams = SObj False [(''address'', proxy_addressSchema)]"

definition addressParamsSchema :: "platform \<Rightarrow> schema" where
  "addressParamsSchema E = SObj False (page_query E)"

definition transfersSchema :: "platform \<Rightarrow> schema" where
  "transfersSchema E = SObj False
     (page_query E @
      [(''type'', SOptional (SEnum [''deposit'', ''transfer'', ''withdrawal'', ''fee'', ''mint'', ''refund'']))] @
      date_query)"

definition accountBalanceSchema :: schema where
  "accountBalanceSchema = SObj False [(''balance'', SString), (''token'', SNullable tokenSchema)]"

definition addressResponseSchema :: schema where
  "addressResponseSchema = SUnion
     [SObj False
        [(''type'', SLit ''account''), (''address'', proxy_addressSchema), (''blockNumber'', SNum),
         (''balances'', SRecord (check hex_regex) SAny), (''sealedNonce'', SNum), (''verifiedNonce'', SNum)],
      SObj False
        [(''type'', SLit ''contract''), (''address'', proxy_addressSchema), (''bytecode'', proxy_hexSchema),
         (''createdInBlockNumber'', SNum), (''creatorTxHash'', proxy_hexSchema),
         (''creatorAddress'', proxy_addressSchema), (''blockNumber'', SNum),
         (''balances'', SRecord (check hex_regex) accountBalanceSchema), (''totalTransactions'', SNum)]]"

definition transactionSchema :: schema where
  "transactionSchema = SObj False
     [(''hash'', proxy_hexSchema), (''to'', proxy_addressSchema), (''from'', proxy_addressSchema),
      (''transactionIndex'', SNum), (''data'', proxy_hexSchema), (''value'', SString), (''fee'', proxy_hexSchema),
      (''nonce'', SNum), (''gasPrice'', SString), (''gasLimit'', SString), (''gasPerPubdata'', SString),
      (''maxFeePerGas'', SString), (''maxPriorityFeePerGas'', SString), (''blockNumber'', SNum),
      (''blockHash'', proxy_hexSchema), (''receivedAt'', SString), (''commitTxHash'', SNullable proxy_hexSchema),
      (''proveTxHash'', SNullable proxy_hexSchema), (''executeTxHash'', SNullable proxy_hexSchema),
      (''isL1Originated'', SBool), (''l1BatchNumber'', SNum), (''isL1BatchSealed'', SBool), (''type'', SNum),
      (''status'', SString), (''error'', SNullable SString), (''revertReason'', SNullable SString)]"

definition paginatedTransactionsSchema :: schema where
  "paginatedTransactionsSchema = enumeratedSchema transactionSchema"

definition transactionIndexSchema :: "platform \<Rightarrow> schema" where
  "transactionIndexSchema E = SObj False
     ([(''l1BatchNumber'', optional_number E), (''blockNumber'', optional_number E), (''address'', SOptional SString)] @
      date_query @ page_query E)"

definition transactionDetailsSchema :: schema where
  "transactionDetailsSchema = SObj False [(''transactionHash'', proxy_hexSchema)]"

text \<open>\<open>req.query.limit || 10\<close>\<close>

definition limit_or_10 :: "json \<Rightarrow> rat" where
  "limit_or_10 query = (case field ''limit'' query of Some (JNum r) \<Rightarrow> if r \<noteq> 0 then r else 10 | _ \<Rightarrow> 10)"

text \<open>\<open>req.params.address\<close>\<close>

definition address_param :: "'abi lib \<Rightarrow> platform \<Rightarrow> string \<Rightarrow> exn + string" where
  "address_param L E a =
     sbind (validated L E addressParams (JObj [(''address'', JStr a)])) (\<lambda>params. string_field ''address'' params)"

section \<open>address-bff.ts\<close>

text \<open>
  The details of an address. A contract is shown to everyone, with its balances to its owner only; an
  account is shown to its user only. \<open>show_contract\<close> and \<open>show_account\<close> are the two branches.
\<close>

definition show_contract ::
  "'abi lib \<Rightarrow> world \<Rightarrow> proxy_app \<Rightarrow> string option \<Rightarrow> json \<Rightarrow> ('z net_scheme, http_reply) act" where
  "show_contract L w app user data =
     bind (of_sum (string_field ''address'' data)) (\<lambda>address.
     bind (getContractOwner w (rpcUrl app) address) (\<lambda>owner.
     bind (of_sum
       (case (user, owner) of
          (Some u, Some own) \<Rightarrow> if u = [] \<or> own = [] then Inr False else addresses_equal L own u
        | _ \<Rightarrow> Inr False)) (\<lambda>is_owner.
     if is_owner then ret (send_json (spread data [(''authorized'', JBool True)]))
     else ret (send_json (spread data [(''authorized'', JBool False), (''balances'', JObj [])])))))"

definition show_account :: "'abi lib \<Rightarrow> string option \<Rightarrow> json \<Rightarrow> ('s, http_reply) act" where
  "show_account L user data =
     bind (of_sum (string_field ''address'' data)) (\<lambda>address.
     bind (of_sum (case user of None \<Rightarrow> Inr False
                   | Some u \<Rightarrow> if u = [] then Inr False else addresses_equal L address u)) (\<lambda>is_user.
     if is_user then ret (send_json data) else throw (ForbiddenError ''Forbidden'')))"

definition address_details ::
  "'abi lib \<Rightarrow> platform \<Rightarrow> world \<Rightarrow> proxy_app \<Rightarrow> string \<Rightarrow> request \<Rightarrow> ('z net_scheme, http_reply) act" where
  "address_details L E w app a req =
     bind (of_sum (address_param L E a)) (\<lambda>address.
     bind (of_sum (validated L E (addressParamsSchema E) (rq_query req))) (\<lambda>_.
     bind (fetch w (HttpGet (proxyTarget app @ ''/address/'' @ address))) (\<lambda>response.
     bind (res_json response) (\<lambda>j.
     bind (of_sum (parse_sum L addressResponseSchema (Some j))) (\<lambda>data.
     if field ''type'' data = Some (JStr ''contract'') then show_contract L w app (getUser req) data
     else if field ''type'' data = Some (JStr ''account'') then show_account L (getUser req) data
     else ret \<lparr>rp_status = 200, rp_headers = [], rp_payload = PEmpty\<rparr>)))))"

text \<open>A topic names the user when its last forty characters are the user's address.\<close>

definition topic_names :: "'abi lib \<Rightarrow> string \<Rightarrow> json \<Rightarrow> exn + bool" where
  "topic_names L user topic =
     sbind (the_string (Some topic)) (\<lambda>t.
     let addressInTopic = ''0x'' @ js_slice t (-40) (int (length t)) in
     if isAddress L addressInTopic then addresses_equal L addressInTopic user else Inr False)"

definition log_concerns :: "'abi lib \<Rightarrow> string \<Rightarrow> json \<Rightarrow> exn + bool" where
  "log_concerns L user entry =
     sor (sbind (string_field ''address'' entry) (\<lambda>a. addresses_equal L a user))
         (sbind (array_field ''topics'' entry) (some_act (topic_names L user)))"

definition party_is :: "'abi lib \<Rightarrow> string \<Rightarrow> string \<Rightarrow> json \<Rightarrow> exn + bool" where
  "party_is L user k j = sbind (string_field k j) (\<lambda>a. addresses_equal L a user)"

definition transfer_concerns :: "'abi lib \<Rightarrow> string \<Rightarrow> json \<Rightarrow> exn + bool" where
  "transfer_concerns L user transfer =
     sor (party_is L user ''from'' transfer) (party_is L user ''to'' transfer)"

text \<open>The two list routes of an address.\<close>

definition address_list ::
  "'abi lib \<Rightarrow> platform \<Rightarrow> world \<Rightarrow> proxy_app \<Rightarrow> schema \<Rightarrow> string \<Rightarrow> schema \<Rightarrow> (string \<Rightarrow> json \<Rightarrow> exn + bool) \<Rightarrow>
     string \<Rightarrow> request \<Rightarrow> ('z net_scheme, http_reply) act" where
  "address_list L E w app query_schema suffix item_schema concerns a req =
     bind (of_sum (address_param L E a)) (\<lambda>address.
     bind (of_sum (validated L E query_schema (rq_query req))) (\<lambda>query.
     bind (of_sum (getUserOrThrow req)) (\<lambda>user.
     bind (requestAndFilterCollection L E w (proxyTarget app @ ''/address/'' @ address @ suffix) query item_schema
            (concerns user) (limit_or_10 query)) (\<lambda>res.
     ret (send_json res)))))"

definition address_logs ::
  "'abi lib \<Rightarrow> platform \<Rightarrow> world \<Rightarrow> proxy_app \<Rightarrow> string \<Rightarrow> request \<Rightarrow> ('z net_scheme, http_reply) act" where
  "address_logs L E w app =
     address_list L E w app (addressParamsSchema E) ''/logs'' proxy_logsSchema (log_concerns L)"

definition address_transfers ::
  "'abi lib \<Rightarrow> platform \<Rightarrow> world \<Rightarrow> proxy_app \<Rightarrow> string \<Rightarrow> request \<Rightarrow> ('z net_scheme, http_reply) act" where
  "address_transfers L E w app =
     address_list L E w app (transfersSchema E) ''/transfers'' proxy_transferSchema (transfer_concerns L)"

section \<open>transactions-bff.ts\<close>

text \<open>Here the user is compared with \<open>===\<close>; without a user nothing is equal.\<close>

definition tx_of_user :: "string option \<Rightarrow> json \<Rightarrow> bool" where
  "tx_of_user user tx \<longleftrightarrow> user \<noteq> None \<and>
     (field ''from'' tx = Some (JStr (the user)) \<or> field ''to'' tx = Some (JStr (the user)))"

definition transactions_index ::
  "'abi lib \<Rightarrow> platform \<Rightarrow> world \<Rightarrow> proxy_app \<Rightarrow> request \<Rightarrow> ('z net_scheme, http_reply) act" where
  "transactions_index L E w app req =
     bind (of_sum (validated L E (transactionIndexSchema E) (rq_query req))) (\<lambda>query.
     bind (fetch w (HttpGet (proxyTarget app @ rq_url req))) (\<lambda>response.
     bind (res_json response) (\<lambda>j.
     bind (of_sum (parse_sum L paginatedTransactionsSchema (Some j))) (\<lambda>data.
     bind (of_sum (array_field ''items'' data)) (\<lambda>items.
     ret (send_json (wrap_page E (filter (tx_of_user (rq_user req)) items) ''/transactions'' (limit_or_10 query))))))))"

section \<open>Routes that pass the request on\<close>

text \<open>The parameters and the query are validated, and the URL is asked of the block explorer API.\<close>

definition piped_route ::
  "'abi lib \<Rightarrow> platform \<Rightarrow> world \<Rightarrow> schema \<Rightarrow> json \<Rightarrow> schema \<Rightarrow> (json \<Rightarrow> json \<Rightarrow> exn + string) \<Rightarrow> request \<Rightarrow>
     ('z net_scheme, http_reply) act" where
  "piped_route L E w params_schema params query_schema target req =
     bind (of_sum (validated L E params_schema params)) (\<lambda>ps.
     bind (of_sum (validated L E query_schema (rq_query req))) (\<lambda>query.
     bind (of_sum (target ps query)) (\<lambda>url. pipeGetRequest w url)))"

definition same_url :: "proxy_app \<Rightarrow> request \<Rightarrow> json \<Rightarrow> json \<Rightarrow> exn + string" where
  "same_url app req ps query = Inr (proxyTarget app @ rq_url req)"

definition transaction_details ::
  "'abi lib \<Rightarrow> platform \<Rightarrow> world \<Rightarrow> proxy_app \<Rightarrow> string \<Rightarrow> request \<Rightarrow> ('z net_scheme, http_reply) act" where
  "transaction_details L E w app hash req =
     piped_route L E w transactionDetailsSchema (JObj [(''transactionHash'', JStr hash)]) SAny (same_url app req) req"

text \<open>The transfers and the logs of a transaction.\<close>

definition transaction_parts ::
  "'abi lib \<Rightarrow> platform \<Rightarrow> world \<Rightarrow> proxy_app \<Rightarrow> string \<Rightarrow> request \<Rightarrow> ('z net_scheme, http_reply) act" where
  "transaction_parts L E w app hash req =
     piped_route L E w transactionDetailsSchema (JObj [(''transactionHash'', JStr hash)]) (SObj False (page_query E))
       (same_url app req) req"

definition blocks_index ::
  "'abi lib \<Rightarrow> platform \<Rightarrow> world \<Rightarrow> proxy_app \<Rightarrow> request \<Rightarrow> ('z net_scheme, http_reply) act" where
  "blocks_index L E w app req =
     piped_route L E w SAny JNull (SObj False (date_query @ page_query E))
       (\<lambda>ps query. buildUrl E (proxyTarget app @ ''/blocks'') query) req"

definition block_route ::
  "'abi lib \<Rightarrow> platform \<Rightarrow> world \<Rightarrow> proxy_app \<Rightarrow> string \<Rightarrow> request \<Rightarrow> ('z net_scheme, http_reply) act" where
  "block_route L E w app n req =
     piped_route L E w (SObj False [(''blockNumber'', SCoerceNum (toNumber E))]) (JObj [(''blockNumber'', JStr n)]) SAny
       (\<lambda>ps query. sbind (access (Some ps) ''blockNumber'') (\<lambda>v. case v of
            Some (JNum r) \<Rightarrow> buildUrl E (proxyTarget app @ ''/blocks/'' @ numberText E r) (JObj [])
          | _ \<Rightarrow> Inl TypeError)) req"

definition batches_index ::
  "'abi lib \<Rightarrow> platform \<Rightarrow> world \<Rightarrow> proxy_app \<Rightarrow> request \<Rightarrow> ('z net_scheme, http_reply) act" where
  "batches_index L E w app req =
     piped_route L E w SAny JNull (SObj False (date_query @ page_query E)) (same_url app req) req"

definition batch_details ::
  "'abi lib \<Rightarrow> platform \<Rightarrow> world \<Rightarrow> proxy_app \<Rightarrow> string \<Rightarrow> request \<Rightarrow> ('z net_scheme, http_reply) act" where
  "batch_details L E w app n req =
     piped_route L E w (SObj False [(''batchNumber'', SCoerceNum (toNumber E))]) (JObj [(''batchNumber'', JStr n)]) SAny
       (same_url app req) req"

definition stats_index :: "platform \<Rightarrow> world \<Rightarrow> proxy_app \<Rightarrow> ('z net_scheme, http_reply) act" where
  "stats_index E w app =
     bind (of_sum (buildUrl E (proxyTarget app @ ''/stats'') (JObj []))) (\<lambda>url. pipeGetRequest w url)"

definition tokens_index ::
  "'abi lib \<Rightarrow> platform \<Rightarrow> world \<Rightarrow> proxy_app \<Rightarrow> request \<Rightarrow> ('z net_scheme, http_reply) act" where
  "tokens_index L E w app req =
     piped_route L E w SAny JNull (SObj False ((''minLiquidity'', optional_number E) # page_query E)) (same_url app req) req"

definition token_details ::
  "'abi lib \<Rightarrow> platform \<Rightarrow> world \<Rightarrow> proxy_app \<Rightarrow> string \<Rightarrow> request \<Rightarrow> ('z net_scheme, http_reply) act" where
  "token_details L E w app a req =
     piped_route L E w (SObj False [(''address'', proxy_hexSchema)]) (JObj [(''address'', JStr a)]) SAny (same_url app req) req"

definition token_transfers ::
  "'abi lib \<Rightarrow> platform \<Rightarrow> world \<Rightarrow> proxy_app \<Rightarrow> string \<Rightarrow> request \<Rightarrow> ('z net_scheme, http_reply) act" where
  "token_transfers L E w app a req =
     piped_route L E w (SObj False [(''address'', proxy_hexSchema)]) (JObj [(''address'', JStr a)])
       (SObj False (page_query E)) (same_url app req) req"

section \<open>Whose rows these are\<close>

text \<open>
  A log is a user's when it was emitted by, or has a topic that ends with, the user's address; a transfer
  when it is from or to the user.
\<close>

definition log_of_user :: "string \<Rightarrow> json \<Rightarrow> bool" where
  "log_of_user user x \<longleftrightarrow>
     (\<exists>a. field ''address'' x = Some (JStr a) \<and> lower a = lower user) \<or>
     (\<exists>ts t. field ''topics'' x = Some (JArr ts) \<and> JStr t \<in> set ts \<and>
        lower (''0x'' @ js_slice t (-40) (int (length t))) = lower user)"

definition row_of_user :: "string \<Rightarrow> json \<Rightarrow> bool" where
  "row_of_user user x \<longleftrightarrow>
     (\<exists>k a. k \<in> {''from'', ''to''} \<and> field k x = Some (JStr a) \<and> lower a = lower user)"

lemma topic_names_own:
  "address_documented L \<Longrightarrow> topic_names L user topic = Inr True \<Longrightarrow>
     \<exists>t. topic = JStr t \<and> lower (''0x'' @ js_slice t (-40) (int (length t))) = lower user"
  unfolding topic_names_def Let_def
  by (elim sbind_returned) (auto split: if_splits dest!: addresses_equal_lower)

lemma log_concerns_own:
  assumes "address_documented L" "log_concerns L user x = Inr True"
  shows "log_of_user user x"
proof -
  from assms(2) consider a where "field ''address'' x = Some (JStr a)" "addresses_equal L a user = Inr True"
    | ts topic where "field ''topics'' x = Some (JArr ts)" "topic \<in> set ts" "topic_names L user topic = Inr True"
    by (auto simp: log_concerns_def sor_True string_field_Inr array_field_Inr elim!: sbind_returned
        dest!: some_act_Inr_True)
  then show ?thesis
  proof cases
    case 1
    with addresses_equal_lower [OF assms(1) 1(2)] show ?thesis unfolding log_of_user_def by blast
  next
    case 2
    with topic_names_own [OF assms(1) 2(3)] show ?thesis unfolding log_of_user_def by blast
  qed
qed

lemma party_is_own:
  "address_documented L \<Longrightarrow> party_is L user k x = Inr True \<Longrightarrow> \<exists>a. field k x = Some (JStr a) \<and> lower a = lower user"
  unfolding party_is_def by (elim sbind_returned) (auto simp: string_field_Inr dest: addresses_equal_lower)

lemma transfer_concerns_own:
  assumes "address_documented L" "transfer_concerns L user x = Inr True"
  shows "row_of_user user x"
proof -
  from assms(2) have "party_is L user ''from'' x = Inr True \<or> party_is L user ''to'' x = Inr True"
    by (auto simp: transfer_concerns_def sor_True)
  then obtain k a where "k = ''from'' \<or> k = ''to''" "field k x = Some (JStr a)" "lower a = lower user"
    using party_is_own [OF assms(1)] by metis
  then show ?thesis unfolding row_of_user_def by (intro exI [of _ k] exI [of _ a]) simp
qed

interpretation log_rows: row_filter L "log_concerns L" log_of_user for L
  by unfold_locales (rule log_concerns_own)

interpretation transfer_rows: row_filter L "transfer_concerns L" row_of_user for L
  by unfold_locales (rule transfer_concerns_own)

lemma tx_of_user_own: "tx_of_user u x \<Longrightarrow> \<exists>user. u = Some user \<and> row_of_user user x"
  by (cases u) (auto simp: tx_of_user_def row_of_user_def)

text \<open>A reply that is a page of items, all of which satisfy a predicate.\<close>

definition only_items :: "(json \<Rightarrow> bool) \<Rightarrow> http_reply \<Rightarrow> bool" where
  "only_items P reply \<longleftrightarrow>
     (\<exists>j xs. rp_payload reply = PJson j \<and> field ''items'' j = Some (JArr xs) \<and> (\<forall>x \<in> set xs. P x))"

lemma address_list_user:
  assumes "address_list L E w app qs suffix schema concerns a req s = (t, Inr reply)"
  shows "\<exists>user url query u j. rq_user req = Some user \<and> reply = send_json j \<and>
    requestAndFilterCollection L E w url query schema (concerns user) (limit_or_10 query) u = (t, Inr j)"
  using assms unfolding address_list_def
  by (elim bind_returned; simp only: of_sum_apply prod.inject ret_apply sum.inject getUserOrThrow_Inr) blast

lemma items_send_json: "only_items P (send_json j) \<longleftrightarrow> (\<exists>xs. field ''items'' j = Some (JArr xs) \<and> (\<forall>x \<in> set xs. P x))"
  by (simp add: only_items_def send_json_def)

text \<open>
  C17: The lists of an address and of transactions show a user only the user's own rows, and nothing to a
  request without a user: its logs and transfers are refused, its transactions are none.
\<close>

theorem explorer_lists_show_only_own:
  fixes L :: "'abi lib"
  assumes "address_documented L"
  shows "(address_logs L E w app a req s = (t, Inr reply) \<longrightarrow>
      (\<exists>user. rq_user req = Some user \<and> only_items (log_of_user user) reply)) \<and>
    (address_transfers L E w app a req s = (t, Inr reply) \<longrightarrow>
      (\<exists>user. rq_user req = Some user \<and> only_items (row_of_user user) reply)) \<and>
    (transactions_index L E w app req s = (t, Inr reply) \<longrightarrow>
      only_items (\<lambda>x. \<exists>user. rq_user req = Some user \<and> row_of_user user x) reply)"
proof (intro conjI impI)
  assume "address_logs L E w app a req s = (t, Inr reply)"
  from address_list_user [OF this [unfolded address_logs_def]] obtain user j
    where "rq_user req = Some user" "reply = send_json j"
      "\<exists>xs. field ''items'' j = Some (JArr xs) \<and> (\<forall>x \<in> set xs. log_of_user user x)"
    using log_rows.collection_own [OF assms] by blast
  then show "\<exists>user. rq_user req = Some user \<and> only_items (log_of_user user) reply" by (simp add: items_send_json)
next
  assume "address_transfers L E w app a req s = (t, Inr reply)"
  from address_list_user [OF this [unfolded address_transfers_def]] obtain user j
    where "rq_user req = Some user" "reply = send_json j"
      "\<exists>xs. field ''items'' j = Some (JArr xs) \<and> (\<forall>x \<in> set xs. row_of_user user x)"
    using transfer_rows.collection_own [OF assms] by blast
  then show "\<exists>user. rq_user req = Some user \<and> only_items (row_of_user user) reply" by (simp add: items_send_json)
next
  assume "transactions_index L E w app req s = (t, Inr reply)"
  then show "only_items (\<lambda>x. \<exists>user. rq_user req = Some user \<and> row_of_user user x) reply"
    unfolding transactions_index_def
    by (elim bind_returned) (auto simp: act_simps items_send_json intro: tx_of_user_own)
qed

section \<open>Details of an address\<close>

lemma address_response_type:
  assumes "zod addressResponseSchema (Some j) = Some (Some data)"
  shows "field ''type'' data = Some (JStr ''account'') \<or> field ''type'' data = Some (JStr ''contract'')"
  using assms by (auto simp: addressResponseSchema_def zod_Some split: if_splits option.splits)

text \<open>What a reader of the reply may see.\<close>

definition owner_answer :: "world \<Rightarrow> proxy_app \<Rightarrow> string \<Rightarrow> string \<Rightarrow> bool" where
  "owner_answer w app address owner \<longleftrightarrow>
     (\<exists>tr ans. w tr (ReadContract (rpcUrl app) address ''function owner() view returns (address)'') = Some ans \<and>
        content ans = JsonBody (JStr owner))"

lemma getContractOwner_answer:
  "getContractOwner w url address s = (t, r) \<Longrightarrow>
     \<exists>v. r = Inr v \<and> (\<forall>own. v = Some own \<longrightarrow> (\<exists>tr ans.
       w tr (ReadContract url address ''function owner() view returns (address)'') = Some ans \<and>
       content ans = JsonBody (JStr own)))"
  by (auto simp: getContractOwner_def catch_def bind_def fetch_def act_simps
      split: option.splits body.splits json.splits sum.splits prod.splits)

lemma send_json_inject [simp]: "send_json i = send_json j \<longleftrightarrow> i = j"
  by (simp add: send_json_def)

lemma field_spread_two:
  "field k (spread j [(k1, v1), (k2, v2)]) = (if k = k2 then Some v2 else if k = k1 then Some v1 else field k j)"
  by (simp add: field_spread map_add_def) (simp add: field_def)

lemma show_contract_run:
  assumes "show_contract L w app user data s = (t, Inr reply)" "address_documented L"
    and "field ''address'' data = Some (JStr address)"
  shows "(\<exists>u own. user = Some u \<and> owner_answer w app address own \<and> lower own = lower u \<and>
      reply = send_json (spread data [(''authorized'', JBool True)])) \<or>
    reply = send_json (spread data [(''authorized'', JBool False), (''balances'', JObj [])])"
proof -
  obtain v u where owner: "getContractOwner w (rpcUrl app) address s = (u, Inr v)"
    using getContractOwner_answer [of w "rpcUrl app" address s] by (metis surj_pair)
  let ?test = "case (user, v) of (Some u, Some own) \<Rightarrow> if u = [] \<or> own = [] then Inr False else addresses_equal L own u
      | _ \<Rightarrow> Inr False"
  have addr: "string_field ''address'' data = Inr address" using assms(3) by (simp add: string_field_Inr)
  have run: "bind (of_sum ?test) (\<lambda>is_owner.
     if is_owner then ret (send_json (spread data [(''authorized'', JBool True)]))
     else ret (send_json (spread data [(''authorized'', JBool False), (''balances'', JObj [])]))) u = (t, Inr reply)"
    using assms(1) by (simp only: show_contract_def addr bind_of_sum_simps bind_Inr [of "getContractOwner w (rpcUrl app) address", OF owner])
  then consider "?test = Inr False" | "?test = Inr True"
    by (cases ?test) (auto simp: bind_of_sum act_simps simp del: bind_of_sum_simps)
  then show ?thesis
  proof cases
    case 1
    with run show ?thesis by (simp add: act_simps)
  next
    case 2
    then obtain u' own where user: "user = Some u'" "v = Some own" "addresses_equal L own u' = Inr True"
      by (auto split: option.splits if_splits)
    from 2 run have "reply = send_json (spread data [(''authorized'', JBool True)])" by (simp add: act_simps)
    moreover have "owner_answer w app address own"
      using getContractOwner_answer [OF owner] user(2) unfolding owner_answer_def by auto
    ultimately show ?thesis using user addresses_equal_lower [OF assms(2) user(3)] by blast
  qed
qed

lemma show_account_run:
  assumes "show_account L user data s = (t, Inr reply)" "address_documented L"
  shows "\<exists>u a. user = Some u \<and> field ''address'' data = Some (JStr a) \<and> lower a = lower u \<and> reply = send_json data"
  using assms(1) unfolding show_account_def
  by (elim bind_returned)
     (auto simp: act_simps string_field_Inr dest!: addresses_equal_lower [OF assms(2)] split: option.splits if_splits)

text \<open>
  C13: The details of an account are shown to its user only, and the balances of a contract to a user only
  when the node names the user as the contract's owner; every other reply about a contract has no
  balances, and every other reply about an account is \<open>Forbidden\<close>.
\<close>

theorem address_details_guarded:
  assumes "address_details L E w app a req s = (t, Inr reply)"
    and "zod_documented L" "address_documented L"
  shows "\<exists>j. reply = send_json j \<and>
    ((\<exists>u b. rq_user req = Some u \<and> field ''type'' j = Some (JStr ''account'') \<and>
        field ''address'' j = Some (JStr b) \<and> lower b = lower u) \<or>
     (field ''type'' j = Some (JStr ''contract'') \<and>
       (field ''balances'' j = Some (JObj []) \<or>
        (\<exists>u b own. rq_user req = Some u \<and> field ''address'' j = Some (JStr b) \<and> owner_answer w app b own \<and>
           lower own = lower u))))"
proof -
  obtain j data u where data: "zodParse L addressResponseSchema (Some j) = Some data"
    and run: "(if field ''type'' data = Some (JStr ''contract'') then show_contract L w app (getUser req) data
     else if field ''type'' data = Some (JStr ''account'') then show_account L (getUser req) data
     else ret \<lparr>rp_status = 200, rp_headers = [], rp_payload = PEmpty\<rparr>) u = (t, Inr reply)"
    using assms(1) unfolding address_details_def by (elim bind_returned) (auto simp: act_simps)
  from data assms(2) have "zod addressResponseSchema (Some j) = Some (Some data)"
    by (auto simp: zod_documentedD required_def split: option.splits)
  from address_response_type [OF this] consider "field ''type'' data = Some (JStr ''account'')"
    | "field ''type'' data = Some (JStr ''contract'')" by blast
  then show ?thesis
  proof cases
    case 1
    with run have "show_account L (getUser req) data u = (t, Inr reply)" by simp
    from show_account_run [OF this assms(3)] 1 show ?thesis by (auto simp: getUser_def)
  next
    case 2
    with run have contract: "show_contract L w app (getUser req) data u = (t, Inr reply)" by simp
    then obtain b where b: "field ''address'' data = Some (JStr b)"
      unfolding show_contract_def by (elim bind_returned) (auto simp: act_simps string_field_Inr)
    from show_contract_run [OF contract assms(3) b] 2 b show ?thesis
      by (auto simp: getUser_def field_spread_two)
  qed
qed

section \<open>A concrete explorer\<close>

text \<open>Numbers are decimal texts without a sign, a URL's host is what follows the scheme; only the witnesses use it.\<close>

definition demo_number :: "string \<Rightarrow> rat" where
  "demo_number s = fold (\<lambda>c n. 10 * n + of_nat (code c - 48)) s 0"

definition demo_platform :: platform where
  "demo_platform = \<lparr>
     urlHost = (\<lambda>s. if starts_with s ''https://'' then Some (drop 8 s) else None),
     toNumber = (\<lambda>j. case j of JStr s \<Rightarrow> if list_all is_digit s then Some (demo_number s) else None
       | JNum r \<Rightarrow> Some r | _ \<Rightarrow> None),
     numberText = (\<lambda>r. show_int (floor r)),
     validationMessage = (\<lambda>s j. ''invalid''),
     serializedApp = None,
     siweVerify = (\<lambda>m sig. case m of JStr s \<Rightarrow>
         if sig = Some (JStr ''signed'') then Some \<lparr>sw_address = take 42 s, sw_nonce = drop 42 s\<rparr> else None
       | _ \<Rightarrow> None),
     siweMessage = (\<lambda>a. Some \<lparr>sw_address = a, sw_nonce = ''0''\<rparr>)\<rparr>"

definition demo_app :: proxy_app where
  "demo_app = \<lparr>proxyTarget = ''http://api'', rpcUrl = ''http://rpc'', proxy_tokenSecret = ''s'',
     userTokenUrl = ''http://users'', nodeEnv = ''production''\<rparr>"

definition demo_alice :: string where
  "demo_alice = ''0x00000000000000000000000000000000000000a1''"

definition demo_bob :: string where
  "demo_bob = ''0x00000000000000000000000000000000000000b0''"

definition demo_get :: "string \<Rightarrow> request" where
  "demo_get url = \<lparr>rq_method = ''GET'', rq_url = url, rq_query = JObj [], rq_body = None,
     rq_origin = None, rq_host = None, rq_user = Some demo_alice\<rparr>"

text \<open>It answers every page with the same items, and knows one contract and its owner.\<close>

definition demo_explorer :: "json \<Rightarrow> string \<Rightarrow> world" where
  "demo_explorer j owner = (\<lambda>tr r. case r of
      ReadContract _ _ _ \<Rightarrow> Some \<lparr>contentType = None, contentLength = None, content = JsonBody (JStr owner)\<rparr>
    | _ \<Rightarrow> Some \<lparr>contentType = Some ''application/json'', contentLength = None, content = JsonBody j\<rparr>)"

definition demo_items :: "json list \<Rightarrow> json" where
  "demo_items xs = JObj [(''items'', JArr xs),
     (''meta'', JObj [(''totalItems'', JNum 2), (''itemCount'', JNum 2), (''itemsPerPage'', JNum 10),
        (''totalPages'', JNum 1), (''currentPage'', JNum 1)]),
     (''links'', JObj [(''first'', JStr []), (''previous'', JStr []), (''next'', JStr []), (''last'', JStr [])])]"

definition demo_transfer_rows :: json where
  "demo_transfer_rows = demo_items
     [JObj [(''from'', JStr demo_bob), (''to'', JStr demo_bob)], JObj [(''from'', JStr demo_bob), (''to'', JStr demo_alice)]]"

lemma demo_transfers_run:
  "snd (address_transfers demo_lib demo_platform (demo_explorer demo_transfer_rows demo_bob) demo_app demo_bob
     (demo_get ''/address'') \<lparr>trace = []\<rparr>) =
   Inr (send_json (wrap_page demo_platform [JObj [(''from'', JStr demo_bob), (''to'', JStr demo_alice)]]
     (''http://api/address/'' @ demo_bob @ ''/transfers'') 10))"
  by code_simp

theorem explorer_lists_show_only_own_witness:
  "\<exists>reply. snd (address_transfers demo_lib demo_platform (demo_explorer demo_transfer_rows demo_bob) demo_app demo_bob
       (demo_get ''/address'') \<lparr>trace = []\<rparr>) = Inr reply \<and> only_items (row_of_user demo_alice) reply"
proof -
  let ?run = "address_transfers demo_lib demo_platform (demo_explorer demo_transfer_rows demo_bob) demo_app demo_bob
     (demo_get ''/address'') \<lparr>trace = []\<rparr>"
  obtain t reply where run: "?run = (t, Inr reply)" using demo_transfers_run by (metis surjective_pairing)
  moreover have "rq_user (demo_get ''/address'') = Some demo_alice" by (simp add: demo_get_def)
  ultimately have "only_items (row_of_user demo_alice) reply"
    using explorer_lists_show_only_own [OF demo_lib_documented(2), of demo_platform
        "demo_explorer demo_transfer_rows demo_bob" demo_app demo_bob "demo_get ''/address''" "\<lparr>trace = []\<rparr>" t reply]
    by simp
  with run show ?thesis by simp
qed

definition demo_contract_row :: json where
  "demo_contract_row = JObj
     [(''type'', JStr ''contract''), (''address'', JStr demo_bob), (''bytecode'', JStr ''0x''),
      (''createdInBlockNumber'', JNum 1), (''creatorTxHash'', JStr ''0x''), (''creatorAddress'', JStr demo_bob),
      (''blockNumber'', JNum 1), (''balances'', JObj [(''0x'', JObj [(''balance'', JStr ''7''), (''token'', JNull)])]),
      (''totalTransactions'', JNum 0)]"

lemma demo_details_run:
  "snd (address_details demo_lib demo_platform (demo_explorer demo_contract_row demo_alice) demo_app demo_bob
     (demo_get ''/address'') \<lparr>trace = []\<rparr>) = Inr (send_json (spread demo_contract_row [(''authorized'', JBool True)]))"
  by code_simp

theorem address_details_guarded_witness:
  "\<exists>own. owner_answer (demo_explorer demo_contract_row demo_alice) demo_app demo_bob own \<and> lower own = lower demo_alice"
proof -
  let ?run = "address_details demo_lib demo_platform (demo_explorer demo_contract_row demo_alice) demo_app demo_bob
     (demo_get ''/address'') \<lparr>trace = []\<rparr>"
  let ?j = "spread demo_contract_row [(''authorized'', JBool True)]"
  have run: "?run = (fst ?run, Inr (send_json ?j))" using demo_details_run by (metis surjective_pairing)
  have fields: "field ''type'' ?j = Some (JStr ''contract'')" "field ''address'' ?j = Some (JStr demo_bob)"
      "field ''balances'' ?j \<noteq> Some (JObj [])"
    by code_simp+
  have "rq_user (demo_get ''/address'') = Some demo_alice" by (simp add: demo_get_def)
  with address_details_guarded [OF run demo_lib_documented] fields show ?thesis by auto
qed

end
