(* ===== verification/Proxy_Public_Api.thy ===== *)
theory Proxy_Public_Api
  imports Proxy_Routes
begin

text \<open>
  The public API behind the proxy: \<open>src/packages/proxy/src/routes/api-routes.ts\<close> and
  \<open>routes/public-api-routes\<close>. A request names a module and an action; some actions have a handler of their
  own that checks or filters what the user may see, all others are passed on.
\<close>

section \<open>schemas.ts\<close>

definition modulesEnum :: schema where
  "modulesEnum = SEnum [''contract'', ''transaction'', ''account'', ''block'', ''logs'', ''token'', ''stats'']"

definition withAddressSchema :: schema where
  "withAddressSchema = SObj False [(''address'', proxy_addressSchema)]"

text \<open>An answer with status 1 and a list of results, or one with status 0 and anything.\<close>

definition failed_answer :: schema where
  "failed_answer = SObj False [(''status'', SLit ''0''), (''message'', SString), (''result'', SOptional SAny)]"

definition publicTxSchema :: schema where
  "publicTxSchema = SUnion
     [SObj False
        [(''status'', SLit ''1''), (''message'', SString),
         (''result'', SArr (SObj True [(''from'', proxy_addressSchema), (''to'', proxy_addressSchema)]))],
      failed_answer]"

definition publicLogSchema :: schema where
  "publicLogSchema = SUnion
     [SObj False
        [(''status'', SLit ''1''), (''message'', SString),
         (''result'', SArr (SObj True [(''topics'', SArr proxy_hexSchema)]))],
      failed_answer]"

section \<open>handlers.ts\<close>

type_synonym 's api_handler = "proxy_app \<Rightarrow> request \<Rightarrow> ('s, http_reply) act"

definition api_defaultHandler :: "world \<Rightarrow> 'z net_scheme api_handler" where
  "api_defaultHandler w app req = pipeGetRequest w (proxyTarget app @ rq_url req)"

section \<open>generic-handlers.ts\<close>

definition query_address :: "'abi lib \<Rightarrow> request \<Rightarrow> exn + string" where
  "query_address L req =
     sbind (parse_sum L withAddressSchema (Some (rq_query req))) (\<lambda>q. string_field ''address'' q)"

definition passIfAddressIsCurrentUser :: "'abi lib \<Rightarrow> world \<Rightarrow> 'z net_scheme api_handler" where
  "passIfAddressIsCurrentUser L w app req =
     bind (of_sum (getUserOrThrow req)) (\<lambda>user.
     bind (of_sum (query_address L req)) (\<lambda>address.
     bind (of_sum (addresses_equal L user address)) (\<lambda>same.
     if \<not> same then throw (HttpError ''Only own address can be checked'' 403)
     else api_defaultHandler w app req)))"

section \<open>account-handlers.ts\<close>

text \<open>The first thousand rows are asked for; the page the user wants is cut from what is kept.\<close>

definition thousand_url :: "platform \<Rightarrow> proxy_app \<Rightarrow> request \<Rightarrow> exn + string" where
  "thousand_url E app req =
     buildUrl E (proxyTarget app @ ''/api'') (spread (rq_query req) [(''page'', JNum 1), (''offset'', JNum 1000)])"

text \<open>
  An answer with status 0 is sent as it is; otherwise the rows of the user, on the page. Making the filter
  may throw.
\<close>

definition filtered_answer ::
  "'abi lib \<Rightarrow> platform \<Rightarrow> (exn + (json \<Rightarrow> exn + bool)) \<Rightarrow> request \<Rightarrow> json \<Rightarrow> exn + http_reply" where
  "filtered_answer L E filter_of req data =
     (if field ''status'' data = Some (JStr ''0'') then Inr (send_json data)
      else
        sbind filter_of (\<lambda>keep.
        sbind (array_field ''result'' data) (\<lambda>rows.
        sbind (filter_act keep rows) (\<lambda>kept.
        sbind (paginate L E kept (field ''page'' (rq_query req)) (field ''offset'' (rq_query req))) (\<lambda>page.
        Inr (send_json (spread data [(''result'', JArr page)])))))))"

text \<open>Recipient first, then sender.\<close>

definition tx_concerns :: "'abi lib \<Rightarrow> string \<Rightarrow> json \<Rightarrow> exn + bool" where
  "tx_concerns L user tx = sor (party_is L user ''to'' tx) (party_is L user ''from'' tx)"

definition txlist :: "'abi lib \<Rightarrow> platform \<Rightarrow> world \<Rightarrow> 'z net_scheme api_handler" where
  "txlist L E w app req =
     bind (of_sum (getUserOrThrow req)) (\<lambda>user.
     bind (of_sum (query_address L req)) (\<lambda>address.
     bind (of_sum (thousand_url E app req)) (\<lambda>url.
     bind (fetch w (HttpGet url)) (\<lambda>response.
     if user = address then ret (send_body (content response))
     else
       bind (res_json response) (\<lambda>j.
       bind (of_sum (parse_sum L publicTxSchema (Some j))) (\<lambda>data.
       of_sum (filtered_answer L E (Inr (tx_concerns L user)) req data)))))))"

text \<open>\<open>txlistinternal\<close> and \<open>getLogs\<close> have the same shape: ask, parse, filter.\<close>

definition filtered_api ::
  "'abi lib \<Rightarrow> platform \<Rightarrow> world \<Rightarrow> schema \<Rightarrow> (string \<Rightarrow> exn + (json \<Rightarrow> exn + bool)) \<Rightarrow> 'z net_scheme api_handler" where
  "filtered_api L E w schema filter_for app req =
     bind (of_sum (getUserOrThrow req)) (\<lambda>user.
     bind (of_sum (thousand_url E app req)) (\<lambda>url.
     bind (fetch w (HttpGet url)) (\<lambda>response.
     bind (res_json response) (\<lambda>j.
     bind (of_sum (parse_sum L schema (Some j))) (\<lambda>data.
     of_sum (filtered_answer L E (filter_for user) req data))))))"

definition txlistinternal :: "'abi lib \<Rightarrow> platform \<Rightarrow> world \<Rightarrow> 'z net_scheme api_handler" where
  "txlistinternal L E w = filtered_api L E w publicTxSchema (\<lambda>user. Inr (tx_concerns L user))"

text \<open>The addresses of \<open>balancemulti\<close>: split at commas, trimmed, each an address.\<close>

definition many_addresses :: "'abi lib \<Rightarrow> request \<Rightarrow> exn + string list" where
  "many_addresses L req =
     sbind (parse_sum L (SObj False [(''address'', SString)]) (Some (rq_query req))) (\<lambda>q.
     sbind (string_field ''address'' q) (\<lambda>text.
     map_act (\<lambda>a. parse_string L proxy_addressSchema (Some (JStr (trim a)))) (split_on CHR '','' text)))"

definition balancemulti :: "'abi lib \<Rightarrow> world \<Rightarrow> 'z net_scheme api_handler" where
  "balancemulti L w app req =
     bind (of_sum (getUserOrThrow req)) (\<lambda>user.
     bind (of_sum (many_addresses L req)) (\<lambda>addresses.
     bind (of_sum (every_act (\<lambda>a. addresses_equal L a user) addresses)) (\<lambda>all_own.
     if \<not> all_own then throw (HttpError ''Only own address can be checked'' 403)
     else api_defaultHandler w app req)))"

section \<open>log-handlers.ts\<close>

definition api_areHexEqual :: "string \<Rightarrow> string \<Rightarrow> bool" where
  "api_areHexEqual a b \<longleftrightarrow> lower a = lower b"

definition api_log_concerns :: "string \<Rightarrow> json \<Rightarrow> exn + bool" where
  "api_log_concerns paddedUser entry =
     sbind (array_field ''topics'' entry) (some_act (\<lambda>topic.
       sbind (the_string (Some topic)) (\<lambda>t. Inr (api_areHexEqual t paddedUser))))"

definition getLogs :: "'abi lib \<Rightarrow> platform \<Rightarrow> world \<Rightarrow> 'z net_scheme api_handler" where
  "getLogs L E w = filtered_api L E w publicLogSchema
     (\<lambda>user. sbind (lib_sum (padHex L user)) (\<lambda>paddedUser. Inr (api_log_concerns paddedUser)))"

section \<open>contract-handlers.ts\<close>

definition getsourcecode :: "'abi lib \<Rightarrow> world \<Rightarrow> 'z net_scheme api_handler" where
  "getsourcecode L w app req =
     bind (of_sum (getUserOrThrow req)) (\<lambda>user.
     bind (of_sum (query_address L req)) (\<lambda>address.
     bind (getContractOwner w (rpcUrl app) address) (\<lambda>owner.
     if owner \<noteq> Some user then throw (HttpError ''Only owners can see source code'' 403)
     else api_defaultHandler w app req)))"

definition zeroAddress :: string where
  "zeroAddress = ''0x'' @ replicate 40 CHR ''0''"

definition withCreatorAddressSchema :: schema where
  "withCreatorAddressSchema = SObj True
     [(''contractCreator'', proxy_addressSchema), (''contractAddress'', proxy_addressSchema)]"

definition getcontractcreation :: "'abi lib \<Rightarrow> world \<Rightarrow> 'z net_scheme api_handler" where
  "getcontractcreation L w app req =
     (let user = (case rq_user req of Some u \<Rightarrow> if u = [] then zeroAddress else u | None \<Rightarrow> zeroAddress) in
     bind (fetch w (HttpGet (proxyTarget app @ rq_url req))) (\<lambda>response.
     bind (res_json response) (\<lambda>j.
     bind (of_sum (parse_sum L (SArr withCreatorAddressSchema) (Some j))) (\<lambda>data.
     bind (of_sum (the_array (Some data))) (\<lambda>rows.
     bind (of_sum (find_act (\<lambda>obj. sbind (string_field ''contractCreator'' obj)
             (\<lambda>c. sbind (addresses_equal L c user) (\<lambda>same. Inr (\<not> same)))) rows)) (\<lambda>other.
     case other of
       None \<Rightarrow> ret (send_json data)
     | Some obj \<Rightarrow>
         bind (of_sum (string_field ''contractAddress'' obj)) (\<lambda>a.
         throw (HttpError (''Current user did not deploy: '' @ a) 403))))))))"

section \<open>index.ts\<close>

definition accountHandlers :: "'abi lib \<Rightarrow> platform \<Rightarrow> world \<Rightarrow> (string \<times> 'z net_scheme api_handler) list" where
  "accountHandlers L E w =
     [(''txlist'', txlist L E w), (''txlistinternal'', txlistinternal L E w),
      (''balance'', passIfAddressIsCurrentUser L w), (''balancemulti'', balancemulti L w),
      (''tokenbalance'', passIfAddressIsCurrentUser L w), (''tokentx'', passIfAddressIsCurrentUser L w),
      (''tokennfttx'', passIfAddressIsCurrentUser L w), (''getminedblocks'', passIfAddressIsCurrentUser L w)]"

definition contractHandlers :: "'abi lib \<Rightarrow> world \<Rightarrow> (string \<times> 'z net_scheme api_handler) list" where
  "contractHandlers L w = [(''getsourcecode'', getsourcecode L w), (''getcontractcreation'', getcontractcreation L w)]"

definition logHandlers :: "'abi lib \<Rightarrow> platform \<Rightarrow> world \<Rightarrow> (string \<times> 'z net_scheme api_handler) list" where
  "logHandlers L E w = [(''getLogs'', getLogs L E w)]"

definition api_handlers ::
  "'abi lib \<Rightarrow> platform \<Rightarrow> world \<Rightarrow> (string \<times> (string \<times> 'z net_scheme api_handler) list) list" where
  "api_handlers L E w =
     [(''contract'', contractHandlers L w), (''transaction'', []), (''account'', accountHandlers L E w),
      (''block'', []), (''logs'', logHandlers L E w), (''token'', []), (''stats'', [])]"

text \<open>
  An action that is not in the table of its module but is a property of \<open>Object.prototype\<close> is found all the
  same, and called without an object: \<open>toString\<close> answers for \<open>undefined\<close>, \<open>constructor\<close> gives back the
  application, the others throw.
\<close>

definition inherited_handler :: "platform \<Rightarrow> string \<Rightarrow> 's api_handler" where
  "inherited_handler E action app req =
     (if action = ''toString'' then
        ret \<lparr>rp_status = 200, rp_headers = [], rp_payload = PText ''[object Undefined]''\<rparr>
      else if action = ''constructor'' then
        (case serializedApp E of None \<Rightarrow> throw TypeError | Some j \<Rightarrow> ret (send_json j))
      else throw TypeError)"

definition findHandler ::
  "'abi lib \<Rightarrow> platform \<Rightarrow> world \<Rightarrow> string \<Rightarrow> string \<Rightarrow> 'z net_scheme api_handler" where
  "findHandler L E w m action =
     (case map_of (api_handlers L E w) m of
        None \<Rightarrow> api_defaultHandler w
      | Some table \<Rightarrow>
          (case map_of table action of
             Some handler \<Rightarrow> handler
           | None \<Rightarrow> if action \<in> set object_prototype then inherited_handler E action else api_defaultHandler w))"

section \<open>api-routes.ts\<close>

definition apiQuerySchema :: schema where
  "apiQuerySchema = SCatchall [(''module'', modulesEnum), (''action'', SString)] SString"

definition api_get :: "'abi lib \<Rightarrow> platform \<Rightarrow> world \<Rightarrow> 'z net_scheme api_handler" where
  "api_get L E w app req =
     bind (of_sum (validated L E apiQuerySchema (rq_query req))) (\<lambda>query.
     bind (of_sum (string_field ''module'' query)) (\<lambda>m.
     bind (of_sum (string_field ''action'' query)) (\<lambda>action.
     findHandler L E w m action app (req\<lparr>rq_query := query\<rparr>))))"

definition api_post :: "'abi lib \<Rightarrow> platform \<Rightarrow> world \<Rightarrow> 'z net_scheme api_handler" where
  "api_post L E w app req =
     bind (of_sum (validated L E (SObj True []) (case rq_body req of None \<Rightarrow> JNull | Some b \<Rightarrow> b))) (\<lambda>body.
     pipePostRequest w (proxyTarget app @ rq_url req) body)"

section \<open>Rows of the user\<close>

lemma tx_concerns_own:
  assumes "address_documented L" "tx_concerns L user x = Inr True"
  shows "row_of_user user x"
proof -
  from assms(2) have "party_is L user ''to'' x = Inr True \<or> party_is L user ''from'' x = Inr True"
    by (auto simp: tx_concerns_def sor_True)
  then obtain k a where "k = ''from'' \<or> k = ''to''" "field k x = Some (JStr a)" "lower a = lower user"
    using party_is_own [OF assms(1)] by metis
  then show ?thesis unfolding row_of_user_def by (intro exI [of _ k] exI [of _ a]) simp
qed

definition topics_have :: "string \<Rightarrow> json \<Rightarrow> bool" where
  "topics_have p x \<longleftrightarrow> (\<exists>ts t. field ''topics'' x = Some (JArr ts) \<and> JStr t \<in> set ts \<and> lower t = lower p)"

lemma api_log_concerns_own: "api_log_concerns p x = Inr True \<Longrightarrow> topics_have p x"
  unfolding api_log_concerns_def topics_have_def
  by (elim sbind_returned)
     (auto simp: array_field_Inr api_areHexEqual_def elim!: sbind_returned dest!: some_act_Inr_True)

interpretation tx_rows: row_filter L "tx_concerns L" row_of_user for L
  by unfold_locales (rule tx_concerns_own)

interpretation api_log_rows: row_filter L api_log_concerns topics_have for L
  by unfold_locales (rule api_log_concerns_own)

text \<open>A reply that reports a failure of the API, and one whose results all satisfy a predicate.\<close>

definition failed_reply :: "http_reply \<Rightarrow> bool" where
  "failed_reply reply \<longleftrightarrow> (\<exists>j. rp_payload reply = PJson j \<and> field ''status'' j = Some (JStr ''0''))"

definition only_results :: "(json \<Rightarrow> bool) \<Rightarrow> http_reply \<Rightarrow> bool" where
  "only_results P reply \<longleftrightarrow>
     (\<exists>j xs. rp_payload reply = PJson j \<and> field ''result'' j = Some (JArr xs) \<and> (\<forall>x \<in> set xs. P x))"

lemma filtered_answer_run:
  assumes "filtered_answer L E filter_of req data = Inr reply"
  shows "failed_reply reply \<or> (\<exists>keep rows kept page. filter_of = Inr keep \<and> filter_act keep rows = Inr kept \<and>
    paginate L E kept (field ''page'' (rq_query req)) (field ''offset'' (rq_query req)) = Inr page \<and>
    reply = send_json (spread data [(''result'', JArr page)]))"
proof (cases "field ''status'' data = Some (JStr ''0'')")
  case True
  with assms show ?thesis by (auto simp: filtered_answer_def failed_reply_def send_json_def)
next
  case False
  with assms have "sbind filter_of (\<lambda>keep.
        sbind (array_field ''result'' data) (\<lambda>rows.
        sbind (filter_act keep rows) (\<lambda>kept.
        sbind (paginate L E kept (field ''page'' (rq_query req)) (field ''offset'' (rq_query req))) (\<lambda>page.
        Inr (send_json (spread data [(''result'', JArr page)])))))) = Inr reply"
    by (simp add: filtered_answer_def)
  then show ?thesis by (elim sbind_returned) blast
qed

lemma only_results_page: "only_results P (send_json (spread data [(''result'', JArr page)])) \<longleftrightarrow> (\<forall>x \<in> set page. P x)"
  by (simp add: only_results_def send_json_def)

context row_filter
begin

lemma answer_own:
  assumes "filtered_answer L' E (Inr (concerns user)) req data = Inr reply" "address_documented L"
  shows "failed_reply reply \<or> only_results (own user) reply"
proof -
  from filtered_answer_run [OF assms(1)] show ?thesis
  proof
    assume "\<exists>keep rows kept page. Inr (concerns user) = Inr keep \<and> filter_act keep rows = Inr kept \<and>
      paginate L' E kept (field ''page'' (rq_query req)) (field ''offset'' (rq_query req)) = Inr page \<and>
      reply = send_json (spread data [(''result'', JArr page)])"
    then obtain rows kept page where rows: "filter_act (concerns user) rows = Inr kept"
      and page: "paginate L' E kept (field ''page'' (rq_query req)) (field ''offset'' (rq_query req)) = Inr page"
      and reply: "reply = send_json (spread data [(''result'', JArr page)])"
      by blast
    from page_own [OF assms(2) rows page] show ?thesis by (simp add: reply only_results_page)
  qed blast
qed

end

lemma log_answer_own:
  assumes "filtered_answer L E (sbind (lib_sum (padHex L user)) (\<lambda>p. Inr (api_log_concerns p))) req data = Inr reply"
    and "address_documented L"
  shows "failed_reply reply \<or> (\<exists>p. padHex L user = Some p \<and> only_results (topics_have p) reply)"
proof (cases "padHex L user")
  case None
  with filtered_answer_run [OF assms(1)] show ?thesis by simp
next
  case (Some p)
  with assms api_log_rows.answer_own [of L E p req data reply L] show ?thesis by simp
qed

lemma filtered_api_run:
  "filtered_api L E w schema filter_for app req s = (t, Inr reply) \<Longrightarrow>
     \<exists>user data. rq_user req = Some user \<and> filtered_answer L E (filter_for user) req data = Inr reply"
  unfolding filtered_api_def
  by (elim bind_returned; simp only: of_sum_apply prod.inject getUserOrThrow_Inr) blast

lemma txlist_run:
  assumes "txlist L E w app req s = (t, Inr reply)"
  shows "\<exists>user. rq_user req = Some user \<and>
    (query_address L req = Inr user \<or> (\<exists>data. filtered_answer L E (Inr (tx_concerns L user)) req data = Inr reply))"
proof (cases "getUserOrThrow req")
  case (Inl e)
  with assms show ?thesis by (simp add: txlist_def act_simps)
next
  case user: (Inr user)
  show ?thesis
  proof (cases "query_address L req")
    case (Inl e)
    with assms user show ?thesis by (simp add: txlist_def act_simps)
  next
    case address: (Inr address)
    show ?thesis
    proof (cases "user = address")
      case False
      with assms user address have "bind (of_sum (thousand_url E app req)) (\<lambda>url. bind (fetch w (HttpGet url)) (\<lambda>response.
          bind (res_json response) (\<lambda>j. bind (of_sum (parse_sum L publicTxSchema (Some j))) (\<lambda>data.
          of_sum (filtered_answer L E (Inr (tx_concerns L user)) req data))))) s = (t, Inr reply)"
        by (simp only: txlist_def bind_of_sum_simps if_False)
      then have "\<exists>data. filtered_answer L E (Inr (tx_concerns L user)) req data = Inr reply"
        by (elim bind_returned) (auto simp: act_simps)
      with user show ?thesis by auto
    qed (use user address in auto)
  qed
qed

text \<open>
  C18: The transaction lists and the log list of the public API show a user only the user's own rows: those
  of which the user is sender or recipient, or with the user's padded address among the topics. The one
  exception is the list of the user's own address, which is passed on; answers that report a failure are
  passed on too, and without a user there is no list.
\<close>

theorem api_lists_show_only_own:
  assumes "address_documented L" "findHandler L E w m action app req s = (t, Inr reply)"
  shows "(m = ''account'' \<and> action \<in> {''txlist'', ''txlistinternal''} \<longrightarrow>
      (\<exists>user. rq_user req = Some user \<and>
         ((action = ''txlist'' \<and> query_address L req = Inr user) \<or>
          failed_reply reply \<or> only_results (row_of_user user) reply))) \<and>
    (m = ''logs'' \<and> action = ''getLogs'' \<longrightarrow>
      (\<exists>user. rq_user req = Some user \<and>
         (failed_reply reply \<or> (\<exists>p. padHex L user = Some p \<and> only_results (topics_have p) reply))))"
proof (intro conjI impI; (elim conjE)?)
  assume m: "m = ''account''" "action \<in> {''txlist'', ''txlistinternal''}"
  from m(2) consider "action = ''txlist''" | "action = ''txlistinternal''" by blast
  then show "\<exists>user. rq_user req = Some user \<and>
      ((action = ''txlist'' \<and> query_address L req = Inr user) \<or> failed_reply reply \<or> only_results (row_of_user user) reply)"
  proof cases
    case 1
    with assms(2) m(1) have "txlist L E w app req s = (t, Inr reply)"
      by (simp add: findHandler_def api_handlers_def accountHandlers_def)
    from txlist_run [OF this] tx_rows.answer_own [OF _ assms(1)] 1 show ?thesis by metis
  next
    case 2
    with assms(2) m(1) have "filtered_api L E w publicTxSchema (\<lambda>user. Inr (tx_concerns L user)) app req s = (t, Inr reply)"
      by (simp add: findHandler_def api_handlers_def accountHandlers_def txlistinternal_def)
    from filtered_api_run [OF this] tx_rows.answer_own [OF _ assms(1)] show ?thesis by metis
  qed
next
  assume "m = ''logs''" "action = ''getLogs''"
  with assms(2) have "filtered_api L E w publicLogSchema
      (\<lambda>user. sbind (lib_sum (padHex L user)) (\<lambda>p. Inr (api_log_concerns p))) app req s = (t, Inr reply)"
    by (simp add: findHandler_def api_handlers_def logHandlers_def getLogs_def)
  from filtered_api_run [OF this] log_answer_own [OF _ assms(1)]
  show "\<exists>user. rq_user req = Some user \<and>
      (failed_reply reply \<or> (\<exists>p. padHex L user = Some p \<and> only_results (topics_have p) reply))" by metis
qed

section \<open>Guarded actions\<close>

text \<open>What must hold of a request before one of the guarded actions is passed on.\<close>

definition api_guard :: "'abi lib \<Rightarrow> world \<Rightarrow> proxy_app \<Rightarrow> string \<Rightarrow> request \<Rightarrow> string \<Rightarrow> bool" where
  "api_guard L w app action req user \<longleftrightarrow>
     (if action = ''balancemulti'' then
        (\<exists>as. many_addresses L req = Inr as \<and> (\<forall>a \<in> set as. lower a = lower user))
      else if action = ''getsourcecode'' then
        (\<exists>a. query_address L req = Inr a \<and> owner_answer w app a user)
      else (\<exists>a. query_address L req = Inr a \<and> lower a = lower user))"

definition guarded_actions :: "(string \<times> string) list" where
  "guarded_actions =
     [(''account'', ''balance''), (''account'', ''balancemulti''), (''account'', ''tokenbalance''),
      (''account'', ''tokentx''), (''account'', ''tokennfttx''), (''account'', ''getminedblocks''),
      (''contract'', ''getsourcecode'')]"

definition own_address_actions :: "string list" where
  "own_address_actions = [''balance'', ''tokenbalance'', ''tokentx'', ''tokennfttx'', ''getminedblocks'']"

lemma guarded_kinds:
  "\<forall>(m, action) \<in> set guarded_actions.
     (m = ''account'' \<and> action \<in> set own_address_actions) \<or>
     (m = ''account'' \<and> action = ''balancemulti'') \<or> (m = ''contract'' \<and> action = ''getsourcecode'')"
  by (simp add: guarded_actions_def own_address_actions_def)

text \<open>A refusal: an error, with no request made but reads of a contract.\<close>

definition refused :: "'z net_scheme \<Rightarrow> 'z net_scheme \<Rightarrow> exn + http_reply \<Rightarrow> bool" where
  "refused s t r \<longleftrightarrow> (\<exists>e. r = Inl e) \<and>
     (\<exists>rs. t = s\<lparr>trace := trace s @ rs\<rparr> \<and> (\<forall>q \<in> set rs. \<exists>u a f. q = ReadContract u a f))"

lemma refused_same: "refused s s (Inl e)"
  unfolding refused_def by (intro conjI exI [of _ "[]"]) simp_all

lemma pass_own_run:
  assumes "passIfAddressIsCurrentUser L w app req s = (t, r)" "address_documented L"
  shows "refused s t r \<or>
    (\<exists>user a. rq_user req = Some user \<and> query_address L req = Inr a \<and> lower a = lower user \<and>
       api_defaultHandler w app req s = (t, r))"
proof (cases "getUserOrThrow req")
  case (Inr user)
  show ?thesis
  proof (cases "query_address L req")
    case q: (Inr a)
    show ?thesis
    proof (cases "addresses_equal L user a")
      case eq: (Inr b)
      with assms Inr q addresses_equal_lower [OF assms(2), of user a] show ?thesis
        by (cases b) (auto simp: passIfAddressIsCurrentUser_def act_simps refused_same)
    qed (use assms(1) Inr q in \<open>auto simp: passIfAddressIsCurrentUser_def act_simps refused_same\<close>)
  qed (use assms(1) Inr in \<open>auto simp: passIfAddressIsCurrentUser_def act_simps refused_same\<close>)
qed (use assms(1) in \<open>auto simp: passIfAddressIsCurrentUser_def act_simps refused_same\<close>)

lemma balancemulti_run:
  assumes "balancemulti L w app req s = (t, r)" "address_documented L"
  shows "refused s t r \<or>
    (\<exists>user as. rq_user req = Some user \<and> many_addresses L req = Inr as \<and> (\<forall>a \<in> set as. lower a = lower user) \<and>
       api_defaultHandler w app req s = (t, r))"
proof (cases "getUserOrThrow req")
  case (Inr user)
  show ?thesis
  proof (cases "many_addresses L req")
    case q: (Inr as)
    show ?thesis
    proof (cases "every_act (\<lambda>a. addresses_equal L a user) as")
      case eq: (Inr b)
      with assms Inr q addresses_equal_lower [OF assms(2)] show ?thesis
        by (cases b) (auto simp: balancemulti_def act_simps every_act_True refused_same)
    qed (use assms(1) Inr q in \<open>auto simp: balancemulti_def act_simps refused_same\<close>)
  qed (use assms(1) Inr in \<open>auto simp: balancemulti_def act_simps refused_same\<close>)
qed (use assms(1) in \<open>auto simp: balancemulti_def act_simps refused_same\<close>)

lemma getContractOwner_sends:
  "getContractOwner w url a s = (t, r) \<Longrightarrow> t = s\<lparr>trace := trace s @ [ReadContract url a ''function owner() view returns (address)'']\<rparr>"
  by (auto simp: getContractOwner_def catch_def bind_def fetch_def act_simps
      split: option.splits body.splits json.splits sum.splits prod.splits)

lemma getsourcecode_run:
  assumes "getsourcecode L w app req s = (t, r)"
  shows "refused s t r \<or>
    (\<exists>user a u. rq_user req = Some user \<and> query_address L req = Inr a \<and> owner_answer w app a user \<and>
       api_defaultHandler w app req u = (t, r))"
proof -
  show ?thesis
  proof (cases "getUserOrThrow req")
    case user: (Inr user)
    show ?thesis
    proof (cases "query_address L req")
      case address: (Inr a)
      obtain v u where owner: "getContractOwner w (rpcUrl app) a s = (u, Inr v)"
        using getContractOwner_answer [of w "rpcUrl app" a s] by (metis surj_pair)
      with assms user address have run: "(if v \<noteq> Some user then throw (HttpError ''Only owners can see source code'' 403)
          else api_defaultHandler w app req) u = (t, r)"
        by (simp only: getsourcecode_def bind_of_sum_simps bind_Inr [of "getContractOwner w (rpcUrl app) a", OF owner])
      show ?thesis
      proof (cases "v = Some user")
        case True
        then have "owner_answer w app a user"
          using getContractOwner_answer [OF owner] unfolding owner_answer_def by auto
        moreover have "api_defaultHandler w app req u = (t, r)" using run True by simp
        ultimately show ?thesis using user address by auto
      next
        case False
        with run have "t = u \<and> (\<exists>e. r = Inl e)" by (auto simp: act_simps)
        with getContractOwner_sends [OF owner] have "refused s t r"
          by (auto simp: refused_def intro!: exI [of _ "[ReadContract (rpcUrl app) a ''function owner() view returns (address)'']"])
        then show ?thesis ..
      qed
    qed (use assms user in \<open>auto simp: getsourcecode_def act_simps refused_same\<close>)
  qed (use assms in \<open>auto simp: getsourcecode_def act_simps refused_same\<close>)
qed

text \<open>
  C12: A balance, a token list or a contract's source is asked for only on behalf of a signed-in user and
  for that user: every address of the request is the user's own, or, for the source, the node names the
  user as the contract's owner. A request that fails the check is refused, and the explorer API is not
  asked at all.
\<close>

theorem guarded_actions_checked:
  assumes "(m, action) \<in> set guarded_actions" "address_documented L"
    and "findHandler L E w m action app req s = (t, r)"
  shows "refused s t r \<or>
    (\<exists>user u. rq_user req = Some user \<and> api_guard L w app action req user \<and>
       api_defaultHandler w app req u = (t, r))"
proof -
  have kinds: "(m = ''account'' \<and> action \<in> set own_address_actions) \<or>
     (m = ''account'' \<and> action = ''balancemulti'') \<or> (m = ''contract'' \<and> action = ''getsourcecode'')"
    using bspec [OF guarded_kinds assms(1)] by (simp only: prod.case)
  then show ?thesis
  proof (elim disjE conjE)
    assume m: "m = ''account''" "action \<in> set own_address_actions"
    then have "findHandler L E w m action app req s = passIfAddressIsCurrentUser L w app req s"
      by (auto simp: findHandler_def api_handlers_def accountHandlers_def own_address_actions_def)
    with assms(3) have run: "passIfAddressIsCurrentUser L w app req s = (t, r)" by simp
    have guard: "api_guard L w app action req user \<longleftrightarrow> (\<exists>a. query_address L req = Inr a \<and> lower a = lower user)" for user
      using m(2) by (auto simp: api_guard_def own_address_actions_def)
    from pass_own_run [OF run assms(2)] show ?thesis unfolding guard by blast
  next
    assume m: "m = ''account''" "action = ''balancemulti''"
    then have "findHandler L E w m action app req s = balancemulti L w app req s"
      by (simp add: findHandler_def api_handlers_def accountHandlers_def)
    with assms(3) have run: "balancemulti L w app req s = (t, r)" by simp
    have guard: "api_guard L w app action req user \<longleftrightarrow>
        (\<exists>as. many_addresses L req = Inr as \<and> (\<forall>a \<in> set as. lower a = lower user))" for user
      using m by (simp add: api_guard_def)
    from balancemulti_run [OF run assms(2)] show ?thesis unfolding guard by blast
  next
    assume m: "m = ''contract''" "action = ''getsourcecode''"
    then have "findHandler L E w m action app req s = getsourcecode L w app req s"
      by (simp add: findHandler_def api_handlers_def contractHandlers_def)
    with assms(3) have run: "getsourcecode L w app req s = (t, r)" by simp
    have guard: "api_guard L w app action req user \<longleftrightarrow> (\<exists>a. query_address L req = Inr a \<and> owner_answer w app a user)" for user
      using m by (simp add: api_guard_def)
    from getsourcecode_run [OF run] show ?thesis unfolding guard by blast
  qed
qed

text \<open>The actions with a handler of their own.\<close>

definition restricted_actions :: "(string \<times> string) list" where
  "restricted_actions = guarded_actions @
     [(''account'', ''txlist''), (''account'', ''txlistinternal''), (''logs'', ''getLogs''),
      (''contract'', ''getcontractcreation'')]"

lemma find_handler_cases:
  assumes "(m, action) \<notin> set restricted_actions"
  shows "(findHandler L E w m action :: 'z net_scheme api_handler) app req =
    (if m \<in> {''contract'', ''transaction'', ''account'', ''block'', ''logs'', ''token'', ''stats''} \<and>
        action \<in> set object_prototype
     then inherited_handler E action app req
     else pipeGetRequest w (proxyTarget app @ rq_url req))"
proof (cases "m \<in> {''contract'', ''transaction'', ''account'', ''block'', ''logs'', ''token'', ''stats''}")
  case True
  then obtain table :: "(string \<times> 'z net_scheme api_handler) list" where table: "map_of (api_handlers L E w) m = Some table"
    by (auto simp: api_handlers_def)
  have "map_of table action = None"
  proof (rule ccontr)
    assume "map_of table action \<noteq> None"
    with table have "(m, action) \<in> set restricted_actions"
      by (auto simp: api_handlers_def accountHandlers_def contractHandlers_def logHandlers_def restricted_actions_def
          guarded_actions_def split: if_splits)
    with assms show False ..
  qed
  with True table show ?thesis by (simp add: findHandler_def api_defaultHandler_def)
next
  case False
  then have "map_of (api_handlers L E w :: (string \<times> (string \<times> 'z net_scheme api_handler) list) list) m = None"
    by (auto simp: api_handlers_def)
  with False show ?thesis by (simp only: findHandler_def api_defaultHandler_def option.case if_False simp_thms)
qed

text \<open>
  The dispatch is by name, and the names are spelled exactly: every action outside the eleven with a
  handler of their own is passed on with its URL unchanged, whatever the user, unless the module is known
  and the action is a property that every JavaScript object has. Such a name finds the property: the
  action \<open>toString\<close> is answered by the proxy itself, and most others fail.
\<close>

theorem find_handler_dispatch:
  assumes "(m, action) \<notin> set restricted_actions"
  shows "(findHandler L E w m action :: 'z net_scheme api_handler) app req =
    (if m \<in> {''contract'', ''transaction'', ''account'', ''block'', ''logs'', ''token'', ''stats''} \<and>
        action \<in> set object_prototype
     then inherited_handler E action app req
     else pipeGetRequest w (proxyTarget app @ rq_url req))"
  using assms by (rule find_handler_cases)

section \<open>Concrete requests\<close>

definition demo_api_query :: "string \<Rightarrow> string \<Rightarrow> string \<Rightarrow> request" where
  "demo_api_query m action a = (demo_get ''/api'')\<lparr>rq_query :=
     JObj [(''module'', JStr m), (''action'', JStr action), (''address'', JStr a)]\<rparr>"

definition demo_tx_rows :: json where
  "demo_tx_rows = JObj [(''status'', JStr ''1''), (''message'', JStr ''OK''), (''result'', JArr
     [JObj [(''from'', JStr demo_bob), (''to'', JStr demo_bob)], JObj [(''from'', JStr demo_alice), (''to'', JStr demo_bob)]])]"

definition demo_api :: "json \<Rightarrow> string \<Rightarrow> string \<Rightarrow> string \<Rightarrow> net \<times> (exn + http_reply)" where
  "demo_api j m action a = findHandler demo_lib demo_platform (demo_explorer j demo_bob) m action demo_app
     (demo_api_query m action a) \<lparr>trace = []\<rparr>"

lemma demo_txlist_run:
  "snd (demo_api demo_tx_rows ''account'' ''txlist'' demo_bob) = Inr (send_json (spread demo_tx_rows
     [(''result'', JArr [JObj [(''from'', JStr demo_alice), (''to'', JStr demo_bob)]])]))"
  by code_simp

theorem api_lists_show_only_own_witness:
  "\<exists>reply. snd (demo_api demo_tx_rows ''account'' ''txlist'' demo_bob) = Inr reply \<and>
     only_results (row_of_user demo_alice) reply"
proof -
  let ?req = "demo_api_query ''account'' ''txlist'' demo_bob"
  let ?j = "spread demo_tx_rows [(''result'', JArr [JObj [(''from'', JStr demo_alice), (''to'', JStr demo_bob)]])]"
  have run: "findHandler demo_lib demo_platform (demo_explorer demo_tx_rows demo_bob) ''account'' ''txlist'' demo_app
      ?req \<lparr>trace = []\<rparr> = (fst (demo_api demo_tx_rows ''account'' ''txlist'' demo_bob), Inr (send_json ?j))"
    using demo_txlist_run unfolding demo_api_def by (metis surjective_pairing)
  have user: "rq_user ?req = Some demo_alice" by (simp add: demo_api_query_def demo_get_def)
  have other: "query_address demo_lib ?req \<noteq> Inr demo_alice" by code_simp
  have "field ''status'' ?j = Some (JStr ''1'')" by code_simp
  then have "\<not> failed_reply (send_json ?j)" by (simp add: failed_reply_def send_json_def)
  with api_lists_show_only_own [OF demo_lib_documented(2) run] user other have "only_results (row_of_user demo_alice) (send_json ?j)"
    by simp
  with demo_txlist_run show ?thesis by simp
qed

theorem guarded_actions_checked_witness:
  "refused \<lparr>trace = []\<rparr> (fst (demo_api JNull ''account'' ''balance'' demo_bob)) (snd (demo_api JNull ''account'' ''balance'' demo_bob))"
proof -
  have member: "(''account'', ''balance'') \<in> set guarded_actions" by (simp add: guarded_actions_def)
  have run: "findHandler demo_lib demo_platform (demo_explorer JNull demo_bob) ''account'' ''balance'' demo_app
      (demo_api_query ''account'' ''balance'' demo_bob) \<lparr>trace = []\<rparr> =
      (fst (demo_api JNull ''account'' ''balance'' demo_bob), snd (demo_api JNull ''account'' ''balance'' demo_bob))"
    unfolding demo_api_def by simp
  have "query_address demo_lib (demo_api_query ''account'' ''balance'' demo_bob) = Inr demo_bob"
    "lower demo_bob \<noteq> lower demo_alice" "rq_user (demo_api_query ''account'' ''balance'' demo_bob) = Some demo_alice"
    by code_simp+
  with guarded_actions_checked [OF member demo_lib_documented(2) run] show ?thesis by (simp add: api_guard_def)
qed

theorem find_handler_dispatch_witness:
  "findHandler demo_lib demo_platform (demo_explorer JNull demo_bob) ''block'' ''getblocknobytime'' demo_app (demo_get ''/api'')
      \<lparr>trace = []\<rparr> = pipeGetRequest (demo_explorer JNull demo_bob) ''http://api/api'' \<lparr>trace = []\<rparr> \<and>
   snd (findHandler demo_lib demo_platform (demo_explorer JNull demo_bob) ''block'' ''toString'' demo_app (demo_get ''/api'')
      \<lparr>trace = []\<rparr>) = Inr \<lparr>rp_status = 200, rp_headers = [], rp_payload = PText ''[object Undefined]''\<rparr>"
proof -
  have "(''block'', ''getblocknobytime'') \<notin> set restricted_actions" "(''block'', ''toString'') \<notin> set restricted_actions"
    "''getblocknobytime'' \<notin> set object_prototype" "''toString'' \<in> set object_prototype"
    "proxyTarget demo_app @ rq_url (demo_get ''/api'') = ''http://api/api''"
    by code_simp+
  then show ?thesis
    using find_handler_dispatch [where 'z = unit, of "''block''" "''getblocknobytime''" demo_lib demo_platform "demo_explorer JNull demo_bob"]
      find_handler_dispatch [where 'z = unit, of "''block''" "''toString''" demo_lib demo_platform "demo_explorer JNull demo_bob"]
    by (simp add: inherited_handler_def act_simps)
qed

end
