(* ===== verification/Proxy_App.thy ===== *)
theory Proxy_App
  imports Proxy_Public_Api
begin

text \<open>
  Sessions and the application of the proxy: \<open>src/packages/proxy/src/services/auth-session.ts\<close>,
  \<open>routes/auth.ts\<close>, \<open>routes/index.ts\<close> and \<open>app.ts\<close>. A session lives in a cookie; the theory follows one
  client through its requests. The clock, the nonces that siwe generates and the messages it verifies are
  arguments.
\<close>

section \<open>services/auth-session.ts\<close>

text \<open>\<open>ses_ts\<close> is the property \<open>__ts\<close>; a deleted session is gone with the reply.\<close>

record session =
  ses_nonce :: "string option"
  ses_siwe :: "siwe option"
  ses_ts :: "int option"
  ses_deleted :: bool

record http = net +
  http_session :: session

definition empty_session :: session where
  "empty_session = \<lparr>ses_nonce = None, ses_siwe = None, ses_ts = None, ses_deleted = False\<rparr>"

definition update_session :: "(session \<Rightarrow> session) \<Rightarrow> (http, unit) act" where
  "update_session f = modify (\<lambda>s. s\<lparr>http_session := f (http_session s)\<rparr>)"

text \<open>Only the properties that are given, and truthy, are saved.\<close>

definition saveAuthSession :: "string option \<Rightarrow> siwe option \<Rightarrow> (http, unit) act" where
  "saveAuthSession nonce siwe = update_session (\<lambda>ses.
     let ses = (case siwe of None \<Rightarrow> ses | Some m \<Rightarrow> ses\<lparr>ses_siwe := Some m\<rparr>)
     in (case nonce of None \<Rightarrow> ses | Some n \<Rightarrow> if n = [] then ses else ses\<lparr>ses_nonce := Some n\<rparr>))"

definition readAuthSession :: "(http, session) act" where
  "readAuthSession = gets http_session"

definition deleteAuthSession :: "(http, unit) act" where
  "deleteAuthSession = update_session (\<lambda>ses. ses\<lparr>ses_deleted := True\<rparr>)"

section \<open>routes/auth.ts\<close>

definition message_reply :: "nat \<Rightarrow> string \<Rightarrow> http_reply" where
  "message_reply status text =
     \<lparr>rp_status = status, rp_headers = [], rp_payload = PJson (JObj [(''message'', JStr text)])\<rparr>"

text \<open>\<open>GET /nonce\<close>; \<open>fresh\<close> is the generated nonce.\<close>

definition auth_nonce :: "string \<Rightarrow> (http, http_reply) act" where
  "auth_nonce fresh =
     bind (saveAuthSession (Some fresh) None) (\<lambda>_.
     ret \<lparr>rp_status = 200, rp_headers = [(''content-type'', ''text/plain'')], rp_payload = PText fresh\<rparr>)"

text \<open>
  \<open>POST /verify\<close>: a message signed for the nonce of the session. Reading the properties of a body that is
  missing or null throws, as a message that does not parse or verify does; all that is answered 400.
\<close>

definition verify_body :: "platform \<Rightarrow> json option \<Rightarrow> exn + siwe" where
  "verify_body E body =
     sbind (access body ''message'') (\<lambda>message.
     sbind (access body ''signature'') (\<lambda>signature.
     lib_sum (siweVerify E (case message of None \<Rightarrow> JNull | Some m \<Rightarrow> m) signature)))"

definition auth_verify :: "platform \<Rightarrow> request \<Rightarrow> (http, http_reply) act" where
  "auth_verify E req =
     catch
       (bind (of_sum (verify_body E (rq_body req))) (\<lambda>siwe.
        bind readAuthSession (\<lambda>session.
        if Some (sw_nonce siwe) \<noteq> ses_nonce session then ret (message_reply 422 ''Invalid nonce.'')
        else bind (saveAuthSession None (Some siwe)) (\<lambda>_. ret (send_json (JObj [(''ok'', JBool True)]))))))
       (\<lambda>_. ret (message_reply 400 ''Failed to verify signed message.''))"

definition auth_logout :: "(http, http_reply) act" where
  "auth_logout =
     bind deleteAuthSession (\<lambda>_. ret \<lparr>rp_status = 204, rp_headers = [], rp_payload = PEmpty\<rparr>)"

definition auth_token :: "world \<Rightarrow> proxy_app \<Rightarrow> request \<Rightarrow> ('z net_scheme, http_reply) act" where
  "auth_token w app req =
     bind (of_sum (getUserOrThrow req)) (\<lambda>user.
     bind (fetch w (HttpPost (userTokenUrl app)
             (JObj [(''address'', JStr user), (''secret'', JStr (proxy_tokenSecret app))]))) (\<lambda>response.
     ret (send_body (content response))))"

definition auth_user :: "request \<Rightarrow> ('s, http_reply) act" where
  "auth_user req =
     bind (of_sum (getUserOrThrow req)) (\<lambda>user. ret (send_json (JObj [(''address'', JStr user)])))"

text \<open>\<open>GET /sudo\<close> exists in development only; a failure is swallowed.\<close>

definition auth_sudo :: "'abi lib \<Rightarrow> platform \<Rightarrow> request \<Rightarrow> (http, http_reply) act" where
  "auth_sudo L E req =
     bind (of_sum (validated L E (SObj False [(''address'', proxy_addressSchema)]) (rq_query req))) (\<lambda>query.
     bind (of_sum (string_field ''address'' query)) (\<lambda>address.
     bind (case siweMessage E address of None \<Rightarrow> ret () | Some m \<Rightarrow> saveAuthSession None (Some m)) (\<lambda>_.
     ret \<lparr>rp_status = 200, rp_headers = [], rp_payload = PText ''ok''\<rparr>)))"

section \<open>routes/index.ts\<close>

text \<open>The routes, with the text of their path parameter.\<close>

datatype route =
    AddressDetails string | AddressLogs string | AddressTransfers string
  | AuthNonce | AuthVerify | AuthLogout | AuthToken | AuthUser | AuthSudo
  | BlocksIndex | BlockDetails string | BatchesIndex | BatchDetails string | StatsIndex
  | TransactionsIndex | TransactionDetails string | TransactionTransfers string | TransactionLogs string
  | TokensIndex | TokenDetails string | TokenTransfers string
  | ApiGet | ApiPost | Unknown

definition route_method :: "route \<Rightarrow> string" where
  "route_method route = (if route \<in> {AuthVerify, ApiPost} then ''POST'' else ''GET'')"

definition not_found :: http_reply where
  "not_found = message_reply 404 ''Not Found''"

fun handle_route ::
  "'abi lib \<Rightarrow> platform \<Rightarrow> world \<Rightarrow> proxy_app \<Rightarrow> string \<Rightarrow> route \<Rightarrow> request \<Rightarrow> (http, http_reply) act" where
  "handle_route L E w app fresh (AddressDetails a) req = address_details L E w app a req"
| "handle_route L E w app fresh (AddressLogs a) req = address_logs L E w app a req"
| "handle_route L E w app fresh (AddressTransfers a) req = address_transfers L E w app a req"
| "handle_route L E w app fresh AuthNonce req = auth_nonce fresh"
| "handle_route L E w app fresh AuthVerify req = auth_verify E req"
| "handle_route L E w app fresh AuthLogout req = auth_logout"
| "handle_route L E w app fresh AuthToken req = auth_token w app req"
| "handle_route L E w app fresh AuthUser req = auth_user req"
| "handle_route L E w app fresh AuthSudo req =
     (if nodeEnv app = ''development'' then auth_sudo L E req else ret not_found)"
| "handle_route L E w app fresh BlocksIndex req = blocks_index L E w app req"
| "handle_route L E w app fresh (BlockDetails n) req = block_route L E w app n req"
| "handle_route L E w app fresh BatchesIndex req = batches_index L E w app req"
| "handle_route L E w app fresh (BatchDetails n) req = batch_details L E w app n req"
| "handle_route L E w app fresh StatsIndex req = stats_index E w app"
| "handle_route L E w app fresh TransactionsIndex req = transactions_index L E w app req"
| "handle_route L E w app fresh (TransactionDetails h) req = transaction_details L E w app h req"
| "handle_route L E w app fresh (TransactionTransfers h) req = transaction_parts L E w app h req"
| "handle_route L E w app fresh (TransactionLogs h) req = transaction_parts L E w app h req"
| "handle_route L E w app fresh TokensIndex req = tokens_index L E w app req"
| "handle_route L E w app fresh (TokenDetails a) req = token_details L E w app a req"
| "handle_route L E w app fresh (TokenTransfers a) req = token_transfers L E w app a req"
| "handle_route L E w app fresh ApiGet req = api_get L E w app req"
| "handle_route L E w app fresh ApiPost req = api_post L E w app req"
| "handle_route L E w app fresh Unknown req = ret not_found"

definition allRoutes ::
  "'abi lib \<Rightarrow> platform \<Rightarrow> world \<Rightarrow> proxy_app \<Rightarrow> string \<Rightarrow> route \<Rightarrow> request \<Rightarrow> (http, http_reply) act" where
  "allRoutes L E w app fresh route req =
     (if rq_method req = route_method route then handle_route L E w app fresh route req else ret not_found)"

section \<open>app.ts\<close>

definition SESSION_EXPIRY :: int where
  "SESSION_EXPIRY = 24 * 60 * 60"

text \<open>The hook against cross-site requests: \<open>True\<close> when the request is stopped.\<close>

definition csrf_blocked :: "platform \<Rightarrow> proxy_app \<Rightarrow> request \<Rightarrow> bool" where
  "csrf_blocked E app req \<longleftrightarrow>
     (if nodeEnv app \<noteq> ''production'' \<or> rq_method req = ''GET'' then False
      else (case (rq_origin req, rq_host req) of
              (Some origin, Some host) \<Rightarrow> origin = [] \<or> host = [] \<or> \<not> verifyRequestOrigin E origin [host]
            | _ \<Rightarrow> True))"

text \<open>\<open>Math.round(Date.now() / 1000 + seconds)\<close>; the clock counts milliseconds.\<close>

definition seconds_from_now :: "int \<Rightarrow> int \<Rightarrow> int" where
  "seconds_from_now now seconds = (now + 500) div 1000 + seconds"

text \<open>A property that is missing or zero is no expiry.\<close>

definition renew_session :: "int \<Rightarrow> session \<Rightarrow> session" where
  "renew_session now ses =
     (case ses_ts ses of
        None \<Rightarrow> ses
      | Some expiry \<Rightarrow>
          if expiry = 0 then ses
          else if expiry < seconds_from_now now (SESSION_EXPIRY div 2)
               then ses\<lparr>ses_ts := Some (seconds_from_now now SESSION_EXPIRY)\<rparr>
               else ses)"

definition session_user :: "'abi lib \<Rightarrow> session \<Rightarrow> exn + string option" where
  "session_user L ses =
     (case ses_siwe ses of
        None \<Rightarrow> Inr None
      | Some m \<Rightarrow> if sw_address m = [] then Inr None
                  else sbind (lib_sum (getAddress L (sw_address m))) (\<lambda>a. Inr (Some a)))"

definition session_hook :: "'abi lib \<Rightarrow> int \<Rightarrow> (http, string option) act" where
  "session_hook L now =
     bind readAuthSession (\<lambda>ses.
     bind (of_sum (session_user L ses)) (\<lambda>user.
     bind (update_session (renew_session now)) (\<lambda>_. ret user)))"

text \<open>One request: the two hooks, the route, and the error handler around them.\<close>

definition serve_request ::
  "'abi lib \<Rightarrow> platform \<Rightarrow> world \<Rightarrow> proxy_app \<Rightarrow> int \<Rightarrow> string \<Rightarrow> route \<Rightarrow> request \<Rightarrow> (http, http_reply) act" where
  "serve_request L E w app now fresh route req =
     (if csrf_blocked E app req then ret \<lparr>rp_status = 403, rp_headers = [], rp_payload = PEmpty\<rparr>
      else catch
        (bind (session_hook L now) (\<lambda>user. allRoutes L E w app fresh route (req\<lparr>rq_user := user\<rparr>)))
        (\<lambda>e. ret (errorHandler L e)))"

text \<open>A client: its session before the next request is the one of the last reply, unless it was deleted.\<close>

record visit =
  v_world :: world
  v_now :: int
  v_fresh :: string
  v_route :: route
  v_request :: request

definition client_step :: "'abi lib \<Rightarrow> platform \<Rightarrow> proxy_app \<Rightarrow> visit \<Rightarrow> session \<Rightarrow> session" where
  "client_step L E app v ses =
     (let ses' = http_session (fst (serve_request L E (v_world v) app (v_now v) (v_fresh v) (v_route v) (v_request v)
                   \<lparr>trace = [], http_session = ses\<rparr>))
      in if ses_deleted ses' then empty_session else ses')"

definition client_run :: "'abi lib \<Rightarrow> platform \<Rightarrow> proxy_app \<Rightarrow> visit list \<Rightarrow> session" where
  "client_run L E app vs = fold (client_step L E app) vs empty_session"

section \<open>What changes a session\<close>

abbreviation quiet :: "('z net_scheme, 'a) act \<Rightarrow> bool" where
  "quiet m \<equiv> sends (\<lambda>_. True) m"

lemma quiet_session: "quiet m \<Longrightarrow> http_session (fst (m s)) = http_session s"
  unfolding sends_def by (metis http.select_convs(1) net.update_convs(1) http.surjective)

lemma quiet_pipe [simp]: "quiet (pipeGetRequest w url)" "quiet (pipePostRequest w url b)" "quiet (getContractOwner w url a)"
  unfolding pipeGetRequest_def pipePostRequest_def getContractOwner_def
  by (auto split: body.split json.split)

lemma quiet_piped_route [simp]: "quiet (piped_route L E w ps p qs target req)"
  unfolding piped_route_def by auto

lemma quiet_explorer [simp]:
  "quiet (address_details L E w app a req)" "quiet (address_logs L E w app a req)"
  "quiet (address_transfers L E w app a req)" "quiet (transactions_index L E w app req)"
  unfolding address_details_def show_contract_def show_account_def address_logs_def address_transfers_def
    address_list_def requestAndFilterCollection_def transactions_index_def Let_def
  by (intro sends_bind sends_if; simp)+

lemma quiet_default [simp]: "quiet (api_defaultHandler w app req)"
  by (simp add: api_defaultHandler_def)

lemma quiet_own [simp]:
  "quiet (passIfAddressIsCurrentUser L w app req)" "quiet (balancemulti L w app req)"
  "quiet (getsourcecode L w app req)" "quiet (getcontractcreation L w app req)"
  unfolding passIfAddressIsCurrentUser_def balancemulti_def getsourcecode_def getcontractcreation_def Let_def
  by (intro sends_bind sends_if sends_case_option; simp)+

lemma quiet_lists [simp]:
  "quiet (txlist L E w app req)" "quiet (filtered_api L E w schema f app req)"
  unfolding txlist_def filtered_api_def
  by (intro sends_bind sends_if; simp)+

lemma quiet_inherited [simp]: "quiet (inherited_handler E action app req)"
  unfolding inherited_handler_def by (intro sends_if sends_case_option; simp)

lemma quiet_findHandler [simp]: "quiet (findHandler L E w m action app req)"
proof (cases "(m, action) \<in> set restricted_actions")
  case False
  then show ?thesis by (simp add: find_handler_cases)
next
  case True
  have "\<forall>(m, action) \<in> set restricted_actions. quiet (findHandler L E w m action app req)"
    by (simp add: restricted_actions_def guarded_actions_def findHandler_def api_handlers_def accountHandlers_def
        contractHandlers_def logHandlers_def txlistinternal_def getLogs_def)
  with True show ?thesis by blast
qed

lemma quiet_api [simp]: "quiet (api_get L E w app req)" "quiet (api_post L E w app req)"
  unfolding api_get_def api_post_def by (intro sends_bind; simp)+

lemma quiet_bff [simp]:
  "quiet (transaction_details L E w app h req)" "quiet (transaction_parts L E w app h req)"
  "quiet (blocks_index L E w app req)" "quiet (block_route L E w app h req)"
  "quiet (batches_index L E w app req)" "quiet (batch_details L E w app h req)"
  "quiet (stats_index E w app)" "quiet (tokens_index L E w app req)"
  "quiet (token_details L E w app h req)" "quiet (token_transfers L E w app h req)"
  "quiet (auth_token w app req)" "quiet (auth_user req)"
  unfolding transaction_details_def transaction_parts_def blocks_index_def block_route_def batches_index_def
    batch_details_def stats_index_def tokens_index_def token_details_def token_transfers_def auth_token_def auth_user_def
  by (simp_all add: sends_bind)

text \<open>Outside of development only three routes touch the session.\<close>

lemma handle_route_session:
  assumes "nodeEnv app \<noteq> ''development''" "route \<notin> {AuthNonce, AuthVerify, AuthLogout}"
  shows "http_session (fst (handle_route L E w app fresh route req s)) = http_session s"
  by (rule quiet_session, use assms in \<open>cases route\<close>) simp_all

lemma save_session [simp]:
  "bind (saveAuthSession n m) f s = f () (s\<lparr>http_session :=
     (let ses = (case m of None \<Rightarrow> http_session s | Some x \<Rightarrow> (http_session s)\<lparr>ses_siwe := Some x\<rparr>)
      in (case n of None \<Rightarrow> ses | Some x \<Rightarrow> if x = [] then ses else ses\<lparr>ses_nonce := Some x\<rparr>))\<rparr>)"
  by (simp add: saveAuthSession_def update_session_def)

lemma nonce_session:
  "http_session (fst (auth_nonce fresh s)) =
     (if fresh = [] then http_session s else (http_session s)\<lparr>ses_nonce := Some fresh\<rparr>)"
  by (simp add: auth_nonce_def act_simps)

lemma logout_session: "http_session (fst (auth_logout s)) = (http_session s)\<lparr>ses_deleted := True\<rparr>"
  by (simp add: auth_logout_def deleteAuthSession_def update_session_def act_simps)

lemma verify_session:
  "http_session (fst (auth_verify E req s)) = http_session s \<or>
   (\<exists>m. verify_body E (rq_body req) = Inr m \<and> ses_nonce (http_session s) = Some (sw_nonce m) \<and>
      http_session (fst (auth_verify E req s)) = (http_session s)\<lparr>ses_siwe := Some m\<rparr>)"
proof (cases "verify_body E (rq_body req)")
  case (Inl e)
  then show ?thesis by (simp add: auth_verify_def act_simps)
next
  case (Inr m)
  then show ?thesis
    by (cases "ses_nonce (http_session s) = Some (sw_nonce m)")
       (auto simp: auth_verify_def catch_def readAuthSession_def act_simps)
qed

lemma renew_session_same [simp]:
  "ses_nonce (renew_session now ses) = ses_nonce ses" "ses_siwe (renew_session now ses) = ses_siwe ses"
  "ses_deleted (renew_session now ses) = ses_deleted ses"
  by (simp_all add: renew_session_def split: option.split)

lemma catch_fst_ret: "fst (catch m (\<lambda>e. ret (f e)) s) = fst (m s)"
  by (auto simp: catch_def act_simps split: prod.split sum.split)

text \<open>The session after a request: what the route does to the renewed session, when the route is reached.\<close>

lemma serve_session:
  "http_session (fst (serve_request L E w app now fresh route req s)) = http_session s \<or>
   (\<exists>user u. session_user L (http_session s) = Inr user \<and> http_session u = renew_session now (http_session s) \<and>
      \<not> csrf_blocked E app req \<and>
      http_session (fst (serve_request L E w app now fresh route req s)) =
        http_session (fst (allRoutes L E w app fresh route (req\<lparr>rq_user := user\<rparr>) u)))"
proof (cases "csrf_blocked E app req")
  case True
  then show ?thesis by (simp add: serve_request_def act_simps)
next
  case False
  show ?thesis
  proof (cases "session_user L (http_session s)")
    case (Inl e)
    with False show ?thesis
      by (simp add: serve_request_def catch_fst_ret session_hook_def readAuthSession_def act_simps bind_assoc)
  next
    case (Inr user)
    let ?u = "s\<lparr>http_session := renew_session now (http_session s)\<rparr>"
    have "fst (serve_request L E w app now fresh route req s) = fst (allRoutes L E w app fresh route (req\<lparr>rq_user := user\<rparr>) ?u)"
      using False Inr
      by (simp add: serve_request_def catch_fst_ret session_hook_def readAuthSession_def update_session_def act_simps bind_assoc)
    then show ?thesis using False Inr by (intro disjI2 exI [of _ user] exI [of _ ?u]) simp
  qed
qed

text \<open>A request that leaves a signed-in session found it, or signed in; one that leaves a nonce found or issued it.\<close>

lemma client_step_cases:
  assumes "nodeEnv app \<noteq> ''development''" "\<not> ses_deleted ses"
  shows "\<not> ses_deleted (client_step L E app v ses)"
    and "ses_siwe (client_step L E app v ses) = Some m \<Longrightarrow>
      ses_siwe ses = Some m \<or>
      (v_route v = AuthVerify \<and> verify_body E (rq_body (v_request v)) = Inr m \<and> ses_nonce ses = Some (sw_nonce m))"
    and "ses_nonce (client_step L E app v ses) = Some n \<Longrightarrow>
      ses_nonce ses = Some n \<or> (v_route v = AuthNonce \<and> v_fresh v = n)"
proof -
  let ?s = "\<lparr>trace = [], http_session = ses\<rparr>"
  let ?t = "http_session (fst (serve_request L E (v_world v) app (v_now v) (v_fresh v) (v_route v) (v_request v) ?s))"
  have step: "client_step L E app v ses = (if ses_deleted ?t then empty_session else ?t)"
    by (simp add: client_step_def Let_def)
  have "?t = ses \<or> ses_deleted ?t \<or>
    (\<not> ses_deleted ?t \<and>
     (ses_siwe ?t = ses_siwe ses \<or> (\<exists>m. v_route v = AuthVerify \<and> verify_body E (rq_body (v_request v)) = Inr m \<and>
        ses_nonce ses = Some (sw_nonce m) \<and> ses_siwe ?t = Some m)) \<and>
     (ses_nonce ?t = ses_nonce ses \<or> (v_route v = AuthNonce \<and> ses_nonce ?t = Some (v_fresh v))))"
    using serve_session [of L E "v_world v" app "v_now v" "v_fresh v" "v_route v" "v_request v" ?s]
  proof
    assume "\<exists>user u. session_user L (http_session ?s) = Inr user \<and>
      http_session u = renew_session (v_now v) (http_session ?s) \<and> \<not> csrf_blocked E app (v_request v) \<and>
      ?t = http_session (fst (allRoutes L E (v_world v) app (v_fresh v) (v_route v) ((v_request v)\<lparr>rq_user := user\<rparr>) u))"
    then obtain user u where u: "http_session u = renew_session (v_now v) ses"
      and t: "?t = http_session (fst (allRoutes L E (v_world v) app (v_fresh v) (v_route v) ((v_request v)\<lparr>rq_user := user\<rparr>) u))"
      by auto
    let ?req = "(v_request v)\<lparr>rq_user := user\<rparr>"
    consider "?t = http_session u" | "v_route v = AuthNonce" "?t = http_session (fst (auth_nonce (v_fresh v) u))"
      | "v_route v = AuthVerify" "?t = http_session (fst (auth_verify E ?req u))"
      | "v_route v = AuthLogout" "?t = http_session (fst (auth_logout u))"
    proof (cases "rq_method ?req = route_method (v_route v)")
      case False
      then show ?thesis using that(1) t by (simp add: allRoutes_def act_simps)
    next
      case True
      with t have t: "?t = http_session (fst (handle_route L E (v_world v) app (v_fresh v) (v_route v) ?req u))"
        by (simp add: allRoutes_def)
      show ?thesis
      proof (cases "v_route v \<in> {AuthNonce, AuthVerify, AuthLogout}")
        case True
        with t that(2,3,4) show ?thesis by auto
      next
        case False
        from handle_route_session [OF assms(1) this] t show ?thesis by (intro that(1)) simp
      qed
    qed
    then show ?thesis
    proof cases
      case 3
      with verify_session [of E ?req u] u assms(2) show ?thesis by auto
    qed (use u assms(2) in \<open>auto simp: nonce_session logout_session\<close>)
  qed simp
  then have "?t = ses \<or> ses_deleted ?t \<or>
    (\<not> ses_deleted ?t \<and>
     (ses_siwe ?t = ses_siwe ses \<or> (\<exists>m. v_route v = AuthVerify \<and> verify_body E (rq_body (v_request v)) = Inr m \<and>
        ses_nonce ses = Some (sw_nonce m) \<and> ses_siwe ?t = Some m)) \<and>
     (ses_nonce ?t = ses_nonce ses \<or> (v_route v = AuthNonce \<and> ses_nonce ?t = Some (v_fresh v))))" .
  with assms(2) show "\<not> ses_deleted (client_step L E app v ses)"
    "ses_siwe (client_step L E app v ses) = Some m \<Longrightarrow> ses_siwe ses = Some m \<or>
      (v_route v = AuthVerify \<and> verify_body E (rq_body (v_request v)) = Inr m \<and> ses_nonce ses = Some (sw_nonce m))"
    "ses_nonce (client_step L E app v ses) = Some n \<Longrightarrow>
      ses_nonce ses = Some n \<or> (v_route v = AuthNonce \<and> v_fresh v = n)"
    unfolding step by (auto simp: empty_session_def split: if_splits)
qed

section \<open>Signing in\<close>

text \<open>An event of a run, and two events one of which comes first.\<close>

definition issued :: "string \<Rightarrow> visit \<Rightarrow> bool" where
  "issued n v \<longleftrightarrow> v_route v = AuthNonce \<and> v_fresh v = n"

definition signed :: "platform \<Rightarrow> siwe \<Rightarrow> visit \<Rightarrow> bool" where
  "signed E m v \<longleftrightarrow> v_route v = AuthVerify \<and> verify_body E (rq_body (v_request v)) = Inr m"

definition first_then :: "(visit \<Rightarrow> bool) \<Rightarrow> (visit \<Rightarrow> bool) \<Rightarrow> visit list \<Rightarrow> bool" where
  "first_then P Q vs \<longleftrightarrow> (\<exists>before v after. vs = before @ v # after \<and> P v \<and> (\<exists>u \<in> set after. Q u))"

lemma first_then_snoc: "first_then P Q vs \<Longrightarrow> first_then P Q (vs @ [v])"
  unfolding first_then_def by fastforce

lemma first_then_last: "u \<in> set vs \<Longrightarrow> P u \<Longrightarrow> Q v \<Longrightarrow> first_then P Q (vs @ [v])"
  unfolding first_then_def by (metis append_Cons append_assoc in_set_conv_decomp last_in_set snoc_eq_iff_butlast last_snoc)

lemma client_run_snoc: "client_run L E app (vs @ [v]) = client_step L E app v (client_run L E app vs)"
  by (simp add: client_run_def)

lemma run_invariant:
  assumes "nodeEnv app \<noteq> ''development''"
  shows "\<not> ses_deleted (client_run L E app vs) \<and>
    (\<forall>n. ses_nonce (client_run L E app vs) = Some n \<longrightarrow> (\<exists>v \<in> set vs. issued n v)) \<and>
    (\<forall>m. ses_siwe (client_run L E app vs) = Some m \<longrightarrow> first_then (issued (sw_nonce m)) (signed E m) vs)"
proof (induction vs rule: rev_induct)
  case Nil
  then show ?case by (simp add: client_run_def empty_session_def)
next
  case (snoc v vs)
  note step = client_step_cases [OF assms conjunct1 [OF snoc.IH], of L E v]
  have "\<exists>u \<in> set (vs @ [v]). issued n u" if "ses_nonce (client_run L E app (vs @ [v])) = Some n" for n
    using step(3) [of n] that snoc.IH by (auto simp: client_run_snoc issued_def)
  moreover have "first_then (issued (sw_nonce m)) (signed E m) (vs @ [v])"
    if "ses_siwe (client_run L E app (vs @ [v])) = Some m" for m
    using step(2) [of m] that snoc.IH unfolding client_run_snoc
    by (metis first_then_snoc first_then_last signed_def)
  ultimately show ?case using step(1) by (simp add: client_run_snoc)
qed

text \<open>
  C4: Outside of development, whoever the proxy takes a client for has signed in as that user: a message
  with the user's address verified against its signature, in a request that came after the one that issued
  the message's nonce to this client.
\<close>

theorem user_has_signed_in:
  assumes "nodeEnv app \<noteq> ''development''"
    and "session_user L (client_run L E app vs) = Inr (Some user)"
  shows "\<exists>m. getAddress L (sw_address m) = Some user \<and> first_then (issued (sw_nonce m)) (signed E m) vs"
proof -
  from assms(2) obtain m where "ses_siwe (client_run L E app vs) = Some m" "getAddress L (sw_address m) = Some user"
    by (auto simp: session_user_def split: option.splits if_splits elim!: sbind_returned)
  with run_invariant [OF assms(1), of L E vs] show ?thesis by blast
qed

text \<open>
  In production, a request that may change something (any method but GET) is stopped with status 403
  before it reaches the session or a route, unless its \<open>Origin\<close> header is a URL whose host is that of the
  \<open>Host\<close> header; and no request goes unanswered.
\<close>

theorem cross_site_requests_stopped:
  "(\<exists>reply. snd (serve_request L E w app now fresh route req s) = Inr reply) \<and>
   (nodeEnv app = ''production'' \<and> rq_method req \<noteq> ''GET'' \<longrightarrow>
      serve_request L E w app now fresh route req s = (s, Inr \<lparr>rp_status = 403, rp_headers = [], rp_payload = PEmpty\<rparr>) \<or>
      (\<exists>origin host h. rq_origin req = Some origin \<and> rq_host req = Some host \<and> h \<noteq> [] \<and>
         urlHost E origin = Some h \<and> origin_host E host = Some h))"
proof
  show "\<exists>reply. snd (serve_request L E w app now fresh route req s) = Inr reply"
    by (auto simp: serve_request_def catch_def act_simps split: prod.split sum.split)
  show "nodeEnv app = ''production'' \<and> rq_method req \<noteq> ''GET'' \<longrightarrow>
      serve_request L E w app now fresh route req s = (s, Inr \<lparr>rp_status = 403, rp_headers = [], rp_payload = PEmpty\<rparr>) \<or>
      (\<exists>origin host h. rq_origin req = Some origin \<and> rq_host req = Some host \<and> h \<noteq> [] \<and>
         urlHost E origin = Some h \<and> origin_host E host = Some h)"
  proof
    assume "nodeEnv app = ''production'' \<and> rq_method req \<noteq> ''GET''"
    then consider "csrf_blocked E app req"
      | origin host where "rq_origin req = Some origin" "rq_host req = Some host" "verifyRequestOrigin E origin [host]"
      by (cases "rq_origin req"; cases "rq_host req") (auto simp: csrf_blocked_def)
    then show "serve_request L E w app now fresh route req s = (s, Inr \<lparr>rp_status = 403, rp_headers = [], rp_payload = PEmpty\<rparr>) \<or>
      (\<exists>origin host h. rq_origin req = Some origin \<and> rq_host req = Some host \<and> h \<noteq> [] \<and>
         urlHost E origin = Some h \<and> origin_host E host = Some h)"
    proof cases
      case 1
      then show ?thesis by (simp add: serve_request_def act_simps)
    next
      case 2
      then show ?thesis by (auto simp: verifyRequestOrigin_def split: if_splits option.splits)
    qed
  qed
qed

text \<open>
  A session that is used is never about to expire: after the hook, its expiry is at least half the term
  away, it has not moved back, and it has moved only to the full term.
\<close>

lemma renewed_expiry:
  assumes "ses_ts ses = Some e" "e \<noteq> 0"
  shows "\<exists>e'. ses_ts (renew_session now ses) = Some e' \<and> e \<le> e' \<and> seconds_from_now now (SESSION_EXPIRY div 2) \<le> e' \<and>
    (e' = e \<or> e' = seconds_from_now now SESSION_EXPIRY)"
  using assms by (auto simp: renew_session_def seconds_from_now_def SESSION_EXPIRY_def)

section \<open>A concrete client\<close>

definition demo_visit :: "route \<Rightarrow> string \<Rightarrow> json option \<Rightarrow> visit" where
  "demo_visit route method body = \<lparr>v_world = demo_explorer JNull demo_bob, v_now = 0, v_fresh = ''n1'', v_route = route,
     v_request = \<lparr>rq_method = method, rq_url = ''/'', rq_query = JObj [], rq_body = body,
       rq_origin = Some ''https://here'', rq_host = Some ''here'', rq_user = None\<rparr>\<rparr>"

definition demo_visits :: "visit list" where
  "demo_visits = [demo_visit AuthNonce ''GET'' None,
     demo_visit AuthVerify ''POST'' (Some (JObj [(''message'', JStr (demo_alice @ ''n1'')), (''signature'', JStr ''signed'')]))]"

lemma demo_signed_in:
  "session_user demo_lib (client_run demo_lib demo_platform demo_app demo_visits) = Inr (Some demo_alice)"
  by code_simp

theorem user_has_signed_in_witness:
  "session_user demo_lib (client_run demo_lib demo_platform demo_app demo_visits) = Inr (Some demo_alice) \<and>
   (\<exists>m. getAddress demo_lib (sw_address m) = Some demo_alice \<and>
      first_then (issued (sw_nonce m)) (signed demo_platform m) demo_visits)"
proof -
  have "nodeEnv demo_app \<noteq> ''development''" by (simp add: demo_app_def)
  from user_has_signed_in [OF this demo_signed_in] demo_signed_in show ?thesis by blast
qed

theorem cross_site_requests_stopped_witness:
  "snd (serve_request demo_lib demo_platform (demo_explorer JNull demo_bob) demo_app 0 ''n1'' AuthVerify
      ((v_request (demo_visit AuthVerify ''POST'' None))\<lparr>rq_origin := Some ''https://there''\<rparr>)
      \<lparr>trace = [], http_session = empty_session\<rparr>) =
   Inr \<lparr>rp_status = 403, rp_headers = [], rp_payload = PEmpty\<rparr>"
proof -
  let ?req = "(v_request (demo_visit AuthVerify ''POST'' None))\<lparr>rq_origin := Some ''https://there''\<rparr>"
  have facts: "nodeEnv demo_app = ''production''" "rq_method ?req \<noteq> ''GET''" "rq_origin ?req = Some ''https://there''"
    "rq_host ?req = Some ''here''" "urlHost demo_platform ''https://there'' \<noteq> origin_host demo_platform ''here''"
    by code_simp+
  then show ?thesis
    using cross_site_requests_stopped [of demo_lib demo_platform "demo_explorer JNull demo_bob" demo_app 0 "''n1''" AuthVerify ?req
        "\<lparr>trace = [], http_session = empty_session\<rparr>"]
    by auto
qed

end
