(* ===== verification/Fetcher_Logs.thy ===== *)
theory Fetcher_Logs
  imports Worker_Entities
begin

text \<open>
  The logs the data fetcher reads (\<open>src/packages/data-fetcher/src\<close>: \<open>constants.ts\<close>, \<open>log/logType.ts\<close>,
  \<open>utils/parseLog.ts\<close>, \<open>utils/token.ts\<close>, \<open>utils/date.ts\<close>) and what it knows of a transaction.

  A log, a token type and a transfer type have the shape the worker receives them in, so their types
  are the worker's. The decoder of event logs (\<open>Interface.parseLog\<close> and \<open>AbiCoder\<close> of the library
  ethers) and the address constants of zksync-ethers are parameters, the record \<open>zk_lib\<close>.
\<close>

section \<open>Constants\<close>

definition BASE_TOKEN_ADDRESS :: string where
  "BASE_TOKEN_ADDRESS = ''0x000000000000000000000000000000000000800a''"

definition ETH_L1_ADDRESS :: string where
  "ETH_L1_ADDRESS = ''0x0000000000000000000000000000000000000000''"

datatype contract_interface =
    I_ERC20 | I_ERC721 | I_L2_STANDARD_ERC20 | I_TRANSFER_WITH_NO_INDEXES | I_ETH_TOKEN | I_L2_SHARED_BRIDGE

text \<open>The topics of the events the code reacts to.\<close>

definition EventLog_Transfer :: string where
  "EventLog_Transfer = ''0xddf252ad1be2c89b69c2b068fc378daa952ba7f163c4a11628f55a4df523b3ef''"

definition EventLog_BridgeInitialization :: string where
  "EventLog_BridgeInitialization = ''0xe6b2ac4004ee4493db8844da5db69722d2128345671818c3c41928655a83fb2c''"

definition EventLog_BridgeInitialize :: string where
  "EventLog_BridgeInitialize = ''0x81e8e92e5873539605a102eddae7ed06d19bea042099a437cbc3644415eb7404''"

definition EventLog_FinalizeDeposit :: string where
  "EventLog_FinalizeDeposit = ''0xb84fba9af218da60d299dc177abd5805e7ac541d2673cbee7808c10017874f63''"

definition EventLog_WithdrawalInitiated :: string where
  "EventLog_WithdrawalInitiated = ''0x2fc3848834aac8e883a2d2a17a7514dc4f2d3dd268089df9b9f5d918259ef3b0''"

definition EventLog_ContractDeployed :: string where
  "EventLog_ContractDeployed = ''0x290afdae231a3fc0bbae8b1af63698b0a1d79b21ad17df0342dfb952fe74f8e5''"

definition EventLog_Mint :: string where
  "EventLog_Mint = ''0x0f6798a560793a54c3bcfe86a93cde1e73087d944c0ea20544137d4121396885''"

definition EventLog_Withdrawal :: string where
  "EventLog_Withdrawal = ''0x2717ead6b9200dd235aad468c9809ea400fe33ac69b5bfaa6d3e90fc922b6398''"

text \<open>\<open>topics[i]\<close> is \<open>undefined\<close> out of range.\<close>

definition topic :: "nat \<Rightarrow> log_data \<Rightarrow> string option" where
  "topic i l = (if i < length (lg_topics l) then Some (lg_topics l ! i) else None)"

definition log_is_of_type :: "log_data \<Rightarrow> string list \<Rightarrow> bool" where
  "log_is_of_type l types \<longleftrightarrow> list_ex (\<lambda>t. topic 0 l = Some t) types"

definition isBaseToken :: "string \<Rightarrow> bool" where
  "isBaseToken tokenAddress \<longleftrightarrow> lower BASE_TOKEN_ADDRESS = lower tokenAddress"

definition unixTimeToDate :: "int \<Rightarrow> int" where
  "unixTimeToDate unixTime = unixTime * 1000"

section \<open>Decoded logs\<close>

text \<open>
  An argument that could not be decoded raises its error only when it is read. The error carries the
  code, the fault and the type of the fault it wraps, when it wraps one.
\<close>

datatype abi_value = VString string | VInt int

datatype abi_arg =
    Decoded abi_value
  | Deferred "(string \<times> string \<times> string) option"

text \<open>An input of the event: its name and whether it is indexed.\<close>

record log_description =
  ds_isEvent :: bool
  ds_inputs :: "(string \<times> bool) list"
  ds_args :: "abi_arg list"

record zk_lib =
  zk_ETH_ADDRESS :: string
  zk_BOOTLOADER_FORMAL_ADDRESS :: string
  zk_CONTRACT_DEPLOYER_ADDRESS :: string
  zk_parseLog :: "contract_interface \<Rightarrow> log_data \<Rightarrow> exn + log_description option"
  zk_decodeAddress :: "string option \<Rightarrow> exn + string"

fun position_of :: "string \<Rightarrow> (string \<times> bool) list \<Rightarrow> nat option" where
  "position_of k [] = None"
| "position_of k ((n, _) # ins) = (if n = k then Some 0 else map_option Suc (position_of k ins))"

definition arg_at :: "log_description \<Rightarrow> nat \<Rightarrow> exn + abi_value option" where
  "arg_at d i =
     (if i < length (ds_args d)
      then case ds_args d ! i of Decoded v \<Rightarrow> Inr (Some v) | Deferred _ \<Rightarrow> Inl (LibError JNull)
      else Inr None)"

definition arg :: "log_description \<Rightarrow> string \<Rightarrow> exn + abi_value option" where
  "arg d k = (case position_of k (ds_inputs d) of None \<Rightarrow> Inr None | Some i \<Rightarrow> arg_at d i)"

text \<open>\<open>args.k.toLowerCase()\<close> and the comparison of \<open>args.k\<close> with a string.\<close>

definition lower_of :: "abi_value option \<Rightarrow> exn + string" where
  "lower_of v = (case v of Some (VString s) \<Rightarrow> Inr (lower s) | _ \<Rightarrow> Inl TypeError)"

definition arg_lower :: "log_description \<Rightarrow> string \<Rightarrow> exn + string" where
  "arg_lower d k = sbind (arg d k) lower_of"

section \<open>utils/parseLog.ts\<close>

definition ADDRESS_LENGTH :: nat where
  "ADDRESS_LENGTH = 40"

definition last_chars :: "nat \<Rightarrow> string \<Rightarrow> string" where
  "last_chars n s = drop (length s - n) s"

definition repaired_topic :: "string \<Rightarrow> string" where
  "repaired_topic t = ''0x000000000000000000000000'' @ last_chars ADDRESS_LENGTH t"

text \<open>The loop over the arguments: the topics so far, and whether one of them was repaired.\<close>

definition repair_arg :: "log_description \<Rightarrow> nat \<Rightarrow> string list \<times> bool \<Rightarrow> exn + string list \<times> bool" where
  "repair_arg d i acc =
     (case ds_args d ! i of
        Decoded _ \<Rightarrow> Inr acc
      | Deferred None \<Rightarrow> Inr acc
      | Deferred (Some (errcode, fault, type)) \<Rightarrow>
          if errcode \<noteq> ''NUMERIC_FAULT'' \<or> fault \<noteq> ''overflow'' \<or> type \<noteq> ''address'' then Inr acc
          else if length (ds_inputs d) \<le> i then Inl TypeError
          else if \<not> snd (ds_inputs d ! i) then Inr acc
          else if length (fst acc) \<le> i + 1 \<or> fst acc ! (i + 1) = [] then Inr acc
          else Inr ((fst acc)[i + 1 := repaired_topic (fst acc ! (i + 1))], True))"

definition the_description :: "exn + log_description option \<Rightarrow> exn + log_description" where
  "the_description r = sbind r (\<lambda>d. case d of None \<Rightarrow> Inl TypeError | Some d \<Rightarrow> Inr d)"

definition parseLog :: "zk_lib \<Rightarrow> contract_interface \<Rightarrow> log_data \<Rightarrow> exn + log_description" where
  "parseLog Z iface l =
     sbind (the_description (zk_parseLog Z iface l)) (\<lambda>d.
     if \<not> ds_isEvent d \<or> ds_inputs d = [] then Inr d
     else
       sbind (fold_act (repair_arg d) [0..<length (ds_args d)] (lg_topics l, False)) (\<lambda>(topics, broken).
       if broken then the_description (zk_parseLog Z iface (l\<lparr>lg_topics := topics\<rparr>)) else Inr d))"

text \<open>
  When the second parse happens, its \<open>null\<close> would be returned as it is and every reader of its
  arguments would throw; the model throws at once.
\<close>

subsection \<open>Which topics are repaired\<close>

definition overflows :: "log_description \<Rightarrow> nat \<Rightarrow> bool" where
  "overflows d i \<longleftrightarrow>
     i < length (ds_args d) \<and> ds_args d ! i = Deferred (Some (''NUMERIC_FAULT'', ''overflow'', ''address'')) \<and>
     i < length (ds_inputs d) \<and> snd (ds_inputs d ! i)"

definition repaired :: "log_description \<Rightarrow> string list \<Rightarrow> string list" where
  "repaired d ts =
     map (\<lambda>j. if 0 < j \<and> overflows d (j - 1) \<and> ts ! j \<noteq> [] then repaired_topic (ts ! j) else ts ! j) [0..<length ts]"

definition needs_repair :: "log_description \<Rightarrow> string list \<Rightarrow> bool" where
  "needs_repair d ts \<longleftrightarrow> (\<exists>i < length (ds_args d). overflows d i \<and> i + 1 < length ts \<and> ts ! (i + 1) \<noteq> [])"

lemma repair_arg_step:
  assumes "length (ds_args d) \<le> length (ds_inputs d)" "i < length (ds_args d)"
  shows "repair_arg d i (ts, b) =
    Inr (if overflows d i \<and> i + 1 < length ts \<and> ts ! (i + 1) \<noteq> []
         then (ts[i + 1 := repaired_topic (ts ! (i + 1))], True) else (ts, b))"
  using assms by (auto simp: repair_arg_def overflows_def split: abi_arg.splits option.splits)

lemma fold_act_append: "fold_act f (xs @ ys) b = sbind (fold_act f xs b) (fold_act f ys)"
  by (induction xs arbitrary: b) (auto simp: sbind_def split: sum.splits)

lemma repair_loop:
  assumes "length (ds_args d) \<le> length (ds_inputs d)" "n \<le> length (ds_args d)"
  shows "\<exists>us. fold_act (repair_arg d) [0..<n] (ts, False) =
      Inr (us, \<exists>i < n. overflows d i \<and> i + 1 < length ts \<and> ts ! (i + 1) \<noteq> []) \<and>
    length us = length ts \<and>
    (\<forall>j < length ts. us ! j =
       (if 0 < j \<and> j \<le> n \<and> overflows d (j - 1) \<and> ts ! j \<noteq> [] then repaired_topic (ts ! j) else ts ! j))"
  using assms(2)
proof (induction n)
  case (Suc n)
  then obtain us where us: "fold_act (repair_arg d) [0..<n] (ts, False) =
      Inr (us, \<exists>i < n. overflows d i \<and> i + 1 < length ts \<and> ts ! (i + 1) \<noteq> [])" "length us = length ts"
    "\<forall>j < length ts. us ! j =
       (if 0 < j \<and> j \<le> n \<and> overflows d (j - 1) \<and> ts ! j \<noteq> [] then repaired_topic (ts ! j) else ts ! j)"
    by auto
  let ?c = "overflows d n \<and> n + 1 < length ts \<and> ts ! (n + 1) \<noteq> []"
  let ?b = "\<exists>i < n. overflows d i \<and> i + 1 < length ts \<and> ts ! (i + 1) \<noteq> []"
  have next_topic: "n + 1 < length ts \<Longrightarrow> us ! (n + 1) = ts ! (n + 1)" using us(3) by simp
  have "repair_arg d n (us, ?b) = Inr (if ?c then (us[n + 1 := repaired_topic (ts ! (n + 1))], True) else (us, ?b))"
    using Suc.prems next_topic us(2) by (subst repair_arg_step [OF assms(1)]) auto
  then have "fold_act (repair_arg d) [0..<Suc n] (ts, False) =
      Inr (if ?c then (us[n + 1 := repaired_topic (ts ! (n + 1))], True) else (us, ?b))"
    using us(1) by (simp add: fold_act_append)
  moreover have "(\<exists>i < Suc n. overflows d i \<and> i + 1 < length ts \<and> ts ! (i + 1) \<noteq> []) \<longleftrightarrow> ?c \<or> ?b"
    by (auto simp: less_Suc_eq)
  moreover have "\<forall>j < length ts. (if ?c then us[n + 1 := repaired_topic (ts ! (n + 1))] else us) ! j =
      (if 0 < j \<and> j \<le> Suc n \<and> overflows d (j - 1) \<and> ts ! j \<noteq> [] then repaired_topic (ts ! j) else ts ! j)"
  proof (intro allI impI)
    fix j assume "j < length ts"
    with us(2,3) show "(if ?c then us[n + 1 := repaired_topic (ts ! (n + 1))] else us) ! j =
        (if 0 < j \<and> j \<le> Suc n \<and> overflows d (j - 1) \<and> ts ! j \<noteq> [] then repaired_topic (ts ! j) else ts ! j)"
      by (cases "j = Suc n") (auto simp: nth_list_update)
  qed
  ultimately show ?case using us(2)
    by (intro exI [of _ "if ?c then us[n + 1 := repaired_topic (ts ! (n + 1))] else us"]) (cases ?c; auto)
qed simp

text \<open>
  A log whose indexed address arguments do not fit an address is parsed a second time, with exactly
  the topics of these arguments cut to their last forty digits; any other log is parsed once.
\<close>

theorem parse_log_repairs:
  assumes "zk_parseLog Z iface l = Inr (Some d)" "ds_isEvent d" "ds_inputs d \<noteq> []"
    and "length (ds_args d) \<le> length (ds_inputs d)"
  shows "parseLog Z iface l =
    (if needs_repair d (lg_topics l)
     then the_description (zk_parseLog Z iface (l\<lparr>lg_topics := repaired d (lg_topics l)\<rparr>)) else Inr d)"
proof -
  let ?ts = "lg_topics l"
  obtain us where us: "fold_act (repair_arg d) [0..<length (ds_args d)] (?ts, False) = Inr (us, needs_repair d ?ts)"
    "length us = length ?ts"
    "\<forall>j < length ?ts. us ! j = (if 0 < j \<and> j \<le> length (ds_args d) \<and> overflows d (j - 1) \<and> ?ts ! j \<noteq> []
       then repaired_topic (?ts ! j) else ?ts ! j)"
    using repair_loop [OF assms(4) order_refl, of ?ts] by (auto simp: needs_repair_def)
  have "us = repaired d ?ts"
  proof (rule nth_equalityI)
    fix j assume "j < length us"
    moreover have "overflows d (j - 1) \<Longrightarrow> j \<le> length (ds_args d)" by (auto simp: overflows_def)
    ultimately show "us ! j = repaired d ?ts ! j" using us(2,3) by (simp add: repaired_def)
  qed (simp add: us repaired_def)
  with us(1) assms(1-3) show ?thesis by (simp add: parseLog_def the_description_def)
qed

end
