(* ===== verification/Fetcher_Transfers.thy ===== *)
theory Fetcher_Transfers
  imports Fetcher_Logs
begin

text \<open>
  The transfers of a transaction (\<open>transfer/transfer.service.ts\<close>, \<open>transfer/extractHandlers\<close>,
  \<open>utils/isInternalTransaction.ts\<close> under \<open>src/packages/data-fetcher/src\<close>). An amount and a token id are
  the decoded values as they are (\<open>undefined\<close> is \<open>None\<close>); \<open>xf_fields\<close> is the object \<open>{ tokenId }\<close>.
\<close>

record transfer =
  xf_from :: string
  xf_to :: string
  xf_transactionHash :: "string option"
  xf_transactionIndex :: int
  xf_timestamp :: int
  xf_blockNumber :: int
  xf_amount :: "abi_value option"
  xf_tokenAddress :: string
  xf_type :: TransferType
  xf_tokenType :: TokenType
  xf_isFeeOrRefund :: bool
  xf_logIndex :: int
  xf_fields :: "abi_value option option"
  xf_isInternal :: "bool option"

text \<open>
  What the node says of a transaction. \<open>to\<close> is \<open>null\<close> for a transaction without a recipient; the other
  fields of the details are the entries of an object.
\<close>

record node_tx_details =
  dt_isL1Originated :: bool
  dt_initiatorAddress :: string
  dt_receivedAt :: "int option"
  dt_fields :: "(string \<times> json) list"

record node_receipt =
  nr_hash :: string
  nr_to :: "string option"
  nr_from :: string
  nr_blockNumber :: int
  nr_status :: "int option"
  nr_logs :: "log_data list option"

section \<open>Handlers\<close>

record transfer_handler =
  matches_log :: "log_data \<Rightarrow> node_receipt option \<Rightarrow> bool"
  extract_of :: "log_data \<Rightarrow> block_details \<Rightarrow> node_tx_details option \<Rightarrow> exn + transfer"

definition transfer_time :: "block_details \<Rightarrow> node_tx_details option \<Rightarrow> int" where
  "transfer_time bd td =
     (case Option.bind td dt_receivedAt of None \<Rightarrow> unixTimeToDate (bd_timestamp bd) | Some t \<Rightarrow> t)"

text \<open>\<open>l2Token === ETH_ADDRESS ? BASE_TOKEN_ADDRESS : l2Token.toLowerCase()\<close>\<close>

definition bridged_token :: "zk_lib \<Rightarrow> log_description \<Rightarrow> exn + string" where
  "bridged_token Z d =
     sbind (arg d ''l2Token'') (\<lambda>t.
     if t = Some (VString (zk_ETH_ADDRESS Z)) then Inr BASE_TOKEN_ADDRESS else lower_of t)"

definition defaultFinalizeDepositHandler :: "zk_lib \<Rightarrow> transfer_handler" where
  "defaultFinalizeDepositHandler Z = \<lparr>
     matches_log = (\<lambda>_ _. True),
     extract_of = (\<lambda>l bd td.
       sbind (parseLog Z I_L2_SHARED_BRIDGE l) (\<lambda>d.
       sbind (bridged_token Z d) (\<lambda>token.
       sbind (arg_lower d ''l1Sender'') (\<lambda>sender.
       sbind (arg_lower d ''l2Receiver'') (\<lambda>receiver.
       sbind (arg d ''amount'') (\<lambda>amount.
       Inr \<lparr>xf_from = sender, xf_to = receiver, xf_transactionHash = lg_transactionHash l,
            xf_transactionIndex = lg_transactionIndex l, xf_timestamp = transfer_time bd td,
            xf_blockNumber = lg_blockNumber l, xf_amount = amount, xf_tokenAddress = token, xf_type = Deposit,
            xf_tokenType = (if isBaseToken token then BaseToken else ERC20), xf_isFeeOrRefund = False,
            xf_logIndex = lg_index l, xf_fields = None, xf_isInternal = None\<rparr>))))))\<rparr>"

definition defaultWithdrawalInitiatedHandler :: "zk_lib \<Rightarrow> transfer_handler" where
  "defaultWithdrawalInitiatedHandler Z = \<lparr>
     matches_log = (\<lambda>_ _. True),
     extract_of = (\<lambda>l bd td.
       sbind (parseLog Z I_L2_SHARED_BRIDGE l) (\<lambda>d.
       sbind (bridged_token Z d) (\<lambda>token.
       sbind (arg_lower d ''l2Sender'') (\<lambda>sender.
       sbind (arg_lower d ''l1Receiver'') (\<lambda>receiver.
       sbind (arg d ''amount'') (\<lambda>amount.
       Inr \<lparr>xf_from = sender, xf_to = receiver, xf_transactionHash = lg_transactionHash l,
            xf_transactionIndex = lg_transactionIndex l, xf_timestamp = transfer_time bd td,
            xf_blockNumber = lg_blockNumber l, xf_amount = amount, xf_tokenAddress = token, xf_type = Withdrawal,
            xf_tokenType = (if isBaseToken token then BaseToken else ERC20), xf_isFeeOrRefund = False,
            xf_logIndex = lg_index l, xf_fields = None, xf_isInternal = None\<rparr>))))))\<rparr>"

definition ethMintFromL1Handler :: "zk_lib \<Rightarrow> transfer_handler" where
  "ethMintFromL1Handler Z = \<lparr>
     matches_log = (\<lambda>l _. lower (lg_address l) = BASE_TOKEN_ADDRESS),
     extract_of = (\<lambda>l bd td.
       sbind (parseLog Z I_ETH_TOKEN l) (\<lambda>d.
       sbind (arg_lower d ''account'') (\<lambda>account.
       sbind (arg d ''amount'') (\<lambda>amount.
       Inr \<lparr>xf_from = account, xf_to = account, xf_transactionHash = lg_transactionHash l,
            xf_transactionIndex = lg_transactionIndex l, xf_timestamp = transfer_time bd td,
            xf_blockNumber = lg_blockNumber l, xf_amount = amount, xf_tokenAddress = BASE_TOKEN_ADDRESS,
            xf_type = Deposit, xf_tokenType = BaseToken, xf_isFeeOrRefund = False,
            xf_logIndex = lg_index l, xf_fields = None, xf_isInternal = None\<rparr>))))\<rparr>"

definition ethWithdrawalToL1Handler :: "zk_lib \<Rightarrow> transfer_handler" where
  "ethWithdrawalToL1Handler Z = \<lparr>
     matches_log = (\<lambda>l _. lower (lg_address l) = BASE_TOKEN_ADDRESS),
     extract_of = (\<lambda>l bd td.
       sbind (parseLog Z I_ETH_TOKEN l) (\<lambda>d.
       sbind (arg_lower d ''_l2Sender'') (\<lambda>sender.
       sbind (arg_lower d ''_l1Receiver'') (\<lambda>receiver.
       sbind (arg d ''_amount'') (\<lambda>amount.
       Inr \<lparr>xf_from = sender, xf_to = receiver, xf_transactionHash = lg_transactionHash l,
            xf_transactionIndex = lg_transactionIndex l, xf_timestamp = transfer_time bd td,
            xf_blockNumber = lg_blockNumber l, xf_amount = amount, xf_tokenAddress = BASE_TOKEN_ADDRESS,
            xf_type = Withdrawal, xf_tokenType = BaseToken, xf_isFeeOrRefund = False,
            xf_logIndex = lg_index l, xf_fields = None, xf_isInternal = None\<rparr>)))))\<rparr>"

definition erc721TransferHandler :: "zk_lib \<Rightarrow> transfer_handler" where
  "erc721TransferHandler Z = \<lparr>
     matches_log = (\<lambda>l _. length (lg_topics l) = 4),
     extract_of = (\<lambda>l bd td.
       sbind (parseLog Z I_ERC721 l) (\<lambda>d.
       sbind (arg d ''from'') (\<lambda>sender.
       let minted = sender = Some (VString (zk_ETH_ADDRESS Z)) in
       sbind (if minted then arg d ''to'' else Inr sender) (\<lambda>from.
       sbind (lower_of from) (\<lambda>from.
       sbind (arg_lower d ''to'') (\<lambda>to.
       sbind (arg d ''value'') (\<lambda>amount.
       sbind (arg_at d 2) (\<lambda>tokenId.
       Inr \<lparr>xf_from = from, xf_to = to, xf_transactionHash = lg_transactionHash l,
            xf_transactionIndex = lg_transactionIndex l, xf_timestamp = transfer_time bd td,
            xf_blockNumber = lg_blockNumber l, xf_amount = amount, xf_tokenAddress = lower (lg_address l),
            xf_type = (if minted then Mint else Transfer), xf_tokenType = ERC721, xf_isFeeOrRefund = False,
            xf_logIndex = lg_index l, xf_fields = Some tokenId, xf_isInternal = None\<rparr>))))))))\<rparr>"

definition contractDeployerTransferHandler :: "zk_lib \<Rightarrow> transfer_handler" where
  "contractDeployerTransferHandler Z = \<lparr>
     matches_log = (\<lambda>l receipt.
       Option.bind receipt nr_to = Some (zk_CONTRACT_DEPLOYER_ADDRESS Z) \<and>
       (length (lg_topics l) = 1 \<or> topic 1 l = Some ZERO_HASH_64)),
     extract_of = (\<lambda>l bd td.
       sbind (if length (lg_topics l) = 1 then parseLog Z I_TRANSFER_WITH_NO_INDEXES l else parseLog Z I_ERC20 l) (\<lambda>d.
       sbind (arg_lower d ''to'') (\<lambda>to.
       sbind (arg d ''value'') (\<lambda>amount.
       Inr \<lparr>xf_from = to, xf_to = to, xf_transactionHash = lg_transactionHash l,
            xf_transactionIndex = lg_transactionIndex l, xf_timestamp = transfer_time bd td,
            xf_blockNumber = lg_blockNumber l, xf_amount = amount, xf_tokenAddress = lower (lg_address l),
            xf_type = Mint, xf_tokenType = ERC20, xf_isFeeOrRefund = False,
            xf_logIndex = lg_index l, xf_fields = None, xf_isInternal = None\<rparr>))))\<rparr>"

definition defaultTransferHandler :: "zk_lib \<Rightarrow> transfer_handler" where
  "defaultTransferHandler Z = \<lparr>
     matches_log = (\<lambda>l _. length (lg_topics l) = 3),
     extract_of = (\<lambda>l bd td.
       sbind (parseLog Z I_ERC20 l) (\<lambda>d.
       sbind (arg d ''to'') (\<lambda>to.
       sbind (if to = Some (VString (zk_BOOTLOADER_FORMAL_ADDRESS Z)) then Inr Fee
              else sbind (arg d ''from'') (\<lambda>from.
                Inr (if from = Some (VString (zk_BOOTLOADER_FORMAL_ADDRESS Z)) \<and> td \<noteq> None
                     then Refund else Transfer))) (\<lambda>type.
       sbind (arg_lower d ''from'') (\<lambda>from.
       sbind (lower_of to) (\<lambda>to.
       sbind (arg d ''value'') (\<lambda>amount.
       let token = lower (lg_address l) in
       Inr \<lparr>xf_from = from, xf_to = to, xf_transactionHash = lg_transactionHash l,
            xf_transactionIndex = lg_transactionIndex l, xf_timestamp = transfer_time bd td,
            xf_blockNumber = lg_blockNumber l, xf_amount = amount, xf_tokenAddress = token,
            xf_type = type, xf_tokenType = (if isBaseToken token then BaseToken else ERC20),
            xf_isFeeOrRefund = (type \<in> {Fee, Refund}),
            xf_logIndex = lg_index l, xf_fields = None, xf_isInternal = None\<rparr>)))))))\<rparr>"

section \<open>transfer.service.ts\<close>

text \<open>A topic is \<open>0x\<close> and hexadecimal digits, so it is never the name of an inherited property.\<close>

definition extractTransfersHandlers :: "zk_lib \<Rightarrow> string \<Rightarrow> transfer_handler list" where
  "extractTransfersHandlers Z t =
     (if t = EventLog_FinalizeDeposit then [defaultFinalizeDepositHandler Z]
      else if t = EventLog_WithdrawalInitiated then [defaultWithdrawalInitiatedHandler Z]
      else if t = EventLog_Transfer
        then [erc721TransferHandler Z, contractDeployerTransferHandler Z, defaultTransferHandler Z]
      else if t = EventLog_Mint then [ethMintFromL1Handler Z]
      else if t = EventLog_Withdrawal then [ethWithdrawalToL1Handler Z]
      else [])"

definition handlerForLog :: "zk_lib \<Rightarrow> node_receipt option \<Rightarrow> log_data \<Rightarrow> transfer_handler option" where
  "handlerForLog Z receipt l =
     (case topic 0 l of
        None \<Rightarrow> None
      | Some t \<Rightarrow> List.find (\<lambda>h. matches_log h l receipt) (extractTransfersHandlers Z t))"

fun extract_transfers ::
  "zk_lib \<Rightarrow> block_details \<Rightarrow> node_tx_details option \<Rightarrow> node_receipt option \<Rightarrow> log_data list \<Rightarrow> exn + transfer list" where
  "extract_transfers Z bd td receipt [] = Inr []"
| "extract_transfers Z bd td receipt (l # ls) =
     (case handlerForLog Z receipt l of
        None \<Rightarrow> extract_transfers Z bd td receipt ls
      | Some h \<Rightarrow>
          sbind (extract_of h l bd td) (\<lambda>t.
          sbind (extract_transfers Z bd td receipt ls) (\<lambda>ts. Inr (t # ts))))"

fun find_index :: "('a \<Rightarrow> bool) \<Rightarrow> 'a list \<Rightarrow> nat option" where
  "find_index P [] = None"
| "find_index P (x # xs) = (if P x then Some 0 else map_option Suc (find_index P xs))"

definition eth_deposit :: "transfer \<Rightarrow> bool" where
  "eth_deposit t \<longleftrightarrow> xf_type t = Deposit \<and> xf_tokenAddress t = BASE_TOKEN_ADDRESS"

text \<open>
  The code changes the objects of the list in place; here they are changed at their positions.
  \<open>nonFee\<close> holds the positions of the deposits to another address than the bootloader's.
\<close>

definition formatFeeAndRefundDeposits ::
  "zk_lib \<Rightarrow> node_tx_details option \<Rightarrow> transfer list \<Rightarrow> transfer list" where
  "formatFeeAndRefundDeposits Z td ts =
     (case td of
        None \<Rightarrow> ts
      | Some d \<Rightarrow>
          if \<not> dt_isL1Originated d then ts
          else
            (case find_index (\<lambda>t. eth_deposit t \<and> xf_to t = zk_BOOTLOADER_FORMAL_ADDRESS Z) ts of
               None \<Rightarrow> ts
             | Some i \<Rightarrow>
                 let nonFee = filter (\<lambda>j. eth_deposit (ts ! j) \<and> xf_to (ts ! j) \<noteq> zk_BOOTLOADER_FORMAL_ADDRESS Z)
                                [0..<length ts];
                     payer = (case nonFee of [] \<Rightarrow> dt_initiatorAddress d | j # _ \<Rightarrow> xf_from (ts ! j));
                     ts = ts[i := (ts ! i)\<lparr>xf_type := Fee, xf_isFeeOrRefund := True, xf_from := payer\<rparr>];
                     after = filter (\<lambda>j. xf_logIndex (ts ! j) > xf_logIndex (ts ! i)) nonFee
                 in if after = [] then ts
                    else ts[last after := (ts ! last after)\<lparr>xf_type := Refund, xf_isFeeOrRefund := True,
                           xf_from := zk_BOOTLOADER_FORMAL_ADDRESS Z\<rparr>]))"

definition isInternalTransaction :: "transfer \<Rightarrow> node_receipt option \<Rightarrow> exn + bool" where
  "isInternalTransaction t receipt =
     (if xf_type t \<noteq> Transfer then Inr False
      else if lower (xf_tokenAddress t) \<noteq> lower BASE_TOKEN_ADDRESS then Inr False
      else
        (case receipt of
           None \<Rightarrow> Inr True
         | Some r \<Rightarrow>
             if lower (nr_from r) = lower (xf_from t)
             then (case nr_to r of None \<Rightarrow> Inl TypeError | Some to \<Rightarrow> Inr (lower to \<noteq> lower (xf_to t)))
             else Inr True))"

definition markInternalTransactions :: "node_receipt option \<Rightarrow> transfer list \<Rightarrow> exn + transfer list" where
  "markInternalTransactions receipt ts =
     map_act (\<lambda>t. sbind (isInternalTransaction t receipt) (\<lambda>b. Inr (t\<lparr>xf_isInternal := Some b\<rparr>))) ts"

definition getTransfers ::
  "zk_lib \<Rightarrow> log_data list option \<Rightarrow> block_details \<Rightarrow> node_tx_details option \<Rightarrow> node_receipt option \<Rightarrow> exn + transfer list" where
  "getTransfers Z logs bd td receipt =
     (case logs of
        None \<Rightarrow> Inr []
      | Some ls \<Rightarrow>
          sbind (extract_transfers Z bd td receipt ls) (\<lambda>ts.
          if ts = [] then Inr []
          else markInternalTransactions receipt (formatFeeAndRefundDeposits Z td ts)))"

section \<open>Every matching log gives one transfer\<close>

definition transfer_of_log :: "block_details \<Rightarrow> node_tx_details option \<Rightarrow> log_data \<Rightarrow> transfer \<Rightarrow> bool" where
  "transfer_of_log bd td l t \<longleftrightarrow>
     xf_logIndex t = lg_index l \<and> xf_blockNumber t = lg_blockNumber l \<and>
     xf_transactionHash t = lg_transactionHash l \<and> xf_transactionIndex t = lg_transactionIndex l \<and>
     xf_timestamp t = transfer_time bd td \<and> (xf_isFeeOrRefund t \<longleftrightarrow> xf_type t \<in> {Fee, Refund})"

lemma handler_extracts:
  assumes "h \<in> set (extractTransfersHandlers Z tp)" "extract_of h l bd td = Inr t"
  shows "transfer_of_log bd td l t"
proof -
  have "h \<in> {defaultFinalizeDepositHandler Z, defaultWithdrawalInitiatedHandler Z, erc721TransferHandler Z,
      contractDeployerTransferHandler Z, defaultTransferHandler Z, ethMintFromL1Handler Z, ethWithdrawalToL1Handler Z}"
    using assms(1) by (auto simp: extractTransfersHandlers_def split: if_splits)
  with assms(2) show ?thesis
    unfolding transfer_of_log_def
    by (auto simp: defaultFinalizeDepositHandler_def defaultWithdrawalInitiatedHandler_def erc721TransferHandler_def
        contractDeployerTransferHandler_def defaultTransferHandler_def ethMintFromL1Handler_def
        ethWithdrawalToL1Handler_def Let_def elim!: sbind_returned split: if_splits)
qed

lemma handlerForLog_extracts:
  "handlerForLog Z receipt l = Some h \<Longrightarrow> extract_of h l bd td = Inr t \<Longrightarrow> transfer_of_log bd td l t"
  by (auto simp: handlerForLog_def find_Some_iff split: option.splits intro: handler_extracts [OF nth_mem])

lemma extract_transfers_of_logs:
  "extract_transfers Z bd td receipt ls = Inr ts \<Longrightarrow>
     list_all2 (transfer_of_log bd td) (filter (\<lambda>l. handlerForLog Z receipt l \<noteq> None) ls) ts"
  by (induction ls arbitrary: ts)
    (auto split: option.splits elim!: sbind_returned intro: handlerForLog_extracts)

section \<open>Fee and refund of a transaction from L1\<close>

lemma find_index_Some:
  "find_index P xs = Some i \<longleftrightarrow> i < length xs \<and> P (xs ! i) \<and> (\<forall>j < i. \<not> P (xs ! j))"
proof (induction xs arbitrary: i)
  case (Cons x xs)
  show ?case
  proof (cases i)
    case 0
    then show ?thesis by auto
  next
    case (Suc k)
    with Cons.IH [of k] show ?thesis by (auto simp: All_less_Suc2)
  qed
qed simp

lemma find_index_None: "find_index P xs = None \<longleftrightarrow> (\<forall>x \<in> set xs. \<not> P x)"
  by (induction xs) auto

lemma find_index_filter:
  "find_index P xs = (case filter (\<lambda>j. P (xs ! j)) [0..<length xs] of [] \<Rightarrow> None | j # _ \<Rightarrow> Some j)"
proof (induction xs)
  case (Cons x xs)
  have "[0..<length (x # xs)] = 0 # map Suc [0..<length xs]" by (simp add: map_Suc_upt upt_conv_Cons del: upt_Suc)
  then show ?case by (simp add: Cons.IH filter_map comp_def del: upt_Suc split: list.split)
qed simp

lemma sorted_le_last: "sorted xs \<Longrightarrow> x \<in> set xs \<Longrightarrow> x \<le> last xs"
  by (induction xs) auto

definition fee_deposit :: "zk_lib \<Rightarrow> transfer list \<Rightarrow> nat \<Rightarrow> bool" where
  "fee_deposit Z ts i \<longleftrightarrow> i < length ts \<and> eth_deposit (ts ! i) \<and> xf_to (ts ! i) = zk_BOOTLOADER_FORMAL_ADDRESS Z"

definition other_deposit :: "zk_lib \<Rightarrow> transfer list \<Rightarrow> nat \<Rightarrow> bool" where
  "other_deposit Z ts i \<longleftrightarrow> i < length ts \<and> eth_deposit (ts ! i) \<and> xf_to (ts ! i) \<noteq> zk_BOOTLOADER_FORMAL_ADDRESS Z"

definition the_fee :: "zk_lib \<Rightarrow> transfer list \<Rightarrow> nat \<Rightarrow> bool" where
  "the_fee Z ts i \<longleftrightarrow> fee_deposit Z ts i \<and> (\<forall>j < i. \<not> fee_deposit Z ts j)"

definition the_refund :: "zk_lib \<Rightarrow> transfer list \<Rightarrow> nat \<Rightarrow> nat \<Rightarrow> bool" where
  "the_refund Z ts i r \<longleftrightarrow>
     other_deposit Z ts r \<and> xf_logIndex (ts ! i) < xf_logIndex (ts ! r) \<and>
     list_all (\<lambda>k. other_deposit Z ts k \<longrightarrow> \<not> xf_logIndex (ts ! i) < xf_logIndex (ts ! k)) [Suc r..<length ts]"

lemma the_refund_iff:
  "the_refund Z ts i r \<longleftrightarrow>
     other_deposit Z ts r \<and> xf_logIndex (ts ! i) < xf_logIndex (ts ! r) \<and>
     (\<forall>k > r. other_deposit Z ts k \<longrightarrow> \<not> xf_logIndex (ts ! i) < xf_logIndex (ts ! k))"
  unfolding the_refund_def by (auto simp: list_all_iff Suc_le_eq) (auto simp: other_deposit_def)

definition fee_payer :: "zk_lib \<Rightarrow> node_tx_details \<Rightarrow> transfer list \<Rightarrow> string" where
  "fee_payer Z d ts =
     (case find_index (\<lambda>t. eth_deposit t \<and> xf_to t \<noteq> zk_BOOTLOADER_FORMAL_ADDRESS Z) ts of
        None \<Rightarrow> dt_initiatorAddress d | Some k \<Rightarrow> xf_from (ts ! k))"

lemma the_fee_unique: "the_fee Z ts i \<Longrightarrow> the_fee Z ts j \<Longrightarrow> i = j"
  unfolding the_fee_def by (metis linorder_neqE_nat)

lemma the_refund_unique: "the_refund Z ts i r \<Longrightarrow> the_refund Z ts i q \<Longrightarrow> r = q"
  unfolding the_refund_iff by (metis linorder_neqE_nat)

lemma format_with_fee:
  assumes "dt_isL1Originated d" "the_fee Z ts i"
  defines "ts' \<equiv> ts[i := (ts ! i)\<lparr>xf_type := Fee, xf_isFeeOrRefund := True, xf_from := fee_payer Z d ts\<rparr>]"
  shows "\<exists>after. (\<forall>r. r \<in> set after \<longleftrightarrow> other_deposit Z ts r \<and> xf_logIndex (ts ! i) < xf_logIndex (ts ! r)) \<and> sorted after \<and>
    formatFeeAndRefundDeposits Z (Some d) ts =
      (if after = [] then ts'
       else ts'[last after := (ts ! last after)\<lparr>xf_type := Refund, xf_isFeeOrRefund := True,
                 xf_from := zk_BOOTLOADER_FORMAL_ADDRESS Z\<rparr>])"
proof -
  let ?nonFee = "filter (\<lambda>j. eth_deposit (ts ! j) \<and> xf_to (ts ! j) \<noteq> zk_BOOTLOADER_FORMAL_ADDRESS Z) [0..<length ts]"
  let ?after = "filter (\<lambda>j. xf_logIndex (ts' ! j) > xf_logIndex (ts' ! i)) ?nonFee"
  have i: "i < length ts" "xf_to (ts ! i) = zk_BOOTLOADER_FORMAL_ADDRESS Z"
    using assms(2) by (auto simp: the_fee_def fee_deposit_def)
  have found: "find_index (\<lambda>t. eth_deposit t \<and> xf_to t = zk_BOOTLOADER_FORMAL_ADDRESS Z) ts = Some i"
    using assms(2) by (auto simp: find_index_Some the_fee_def fee_deposit_def)
  have payer: "(case ?nonFee of [] \<Rightarrow> dt_initiatorAddress d | j # _ \<Rightarrow> xf_from (ts ! j)) = fee_payer Z d ts"
    by (simp add: fee_payer_def find_index_filter split: list.split)
  have idx: "xf_logIndex (ts' ! j) = xf_logIndex (ts ! j)" for j
    using i by (simp add: ts'_def nth_list_update)
  have after: "r \<in> set ?after \<longleftrightarrow> other_deposit Z ts r \<and> xf_logIndex (ts ! i) < xf_logIndex (ts ! r)" for r
    by (auto simp: idx other_deposit_def)
  have "sorted ?after" by (simp add: sorted_wrt_filter)
  moreover have "ts' ! last ?after = ts ! last ?after" if "?after \<noteq> []"
  proof -
    from last_in_set [OF that] after have "other_deposit Z ts (last ?after)" by blast
    then have "last ?after \<noteq> i" using i by (auto simp: other_deposit_def)
    then show ?thesis by (simp add: ts'_def)
  qed
  moreover have "formatFeeAndRefundDeposits Z (Some d) ts =
      (if ?after = [] then ts'
       else ts'[last ?after := (ts' ! last ?after)\<lparr>xf_type := Refund, xf_isFeeOrRefund := True,
                 xf_from := zk_BOOTLOADER_FORMAL_ADDRESS Z\<rparr>])"
    by (simp only: formatFeeAndRefundDeposits_def option.case found Let_def payer assms(1) not_True_eq_False if_False
        flip: ts'_def)
  ultimately show ?thesis using after by (intro exI [of _ ?after]) (auto simp del: filter_filter)
qed

lemma format_nth:
  assumes "j < length ts"
  shows "formatFeeAndRefundDeposits Z td ts ! j =
    (case td of
       None \<Rightarrow> ts ! j
     | Some d \<Rightarrow>
         if dt_isL1Originated d \<and> the_fee Z ts j
         then (ts ! j)\<lparr>xf_type := Fee, xf_isFeeOrRefund := True, xf_from := fee_payer Z d ts\<rparr>
         else if dt_isL1Originated d \<and> list_ex (\<lambda>i. the_fee Z ts i \<and> the_refund Z ts i j) [0..<length ts]
         then (ts ! j)\<lparr>xf_type := Refund, xf_isFeeOrRefund := True, xf_from := zk_BOOTLOADER_FORMAL_ADDRESS Z\<rparr>
         else ts ! j) \<and>
    length (formatFeeAndRefundDeposits Z td ts) = length ts"
proof (cases td)
  case (Some d)
  have ex: "list_ex (\<lambda>i. the_fee Z ts i \<and> the_refund Z ts i j) [0..<length ts] \<longleftrightarrow>
      (\<exists>i. the_fee Z ts i \<and> the_refund Z ts i j)"
    by (auto simp: list_ex_iff the_fee_def fee_deposit_def)
  show ?thesis
  proof (cases "dt_isL1Originated d \<and> (\<exists>i. the_fee Z ts i)")
    case True
    then obtain i where i: "dt_isL1Originated d" "the_fee Z ts i" by blast
    obtain after where after: "\<forall>r. r \<in> set after \<longleftrightarrow> other_deposit Z ts r \<and> xf_logIndex (ts ! i) < xf_logIndex (ts ! r)"
      "sorted after" and eq: "formatFeeAndRefundDeposits Z (Some d) ts =
      (let ts' = ts[i := (ts ! i)\<lparr>xf_type := Fee, xf_isFeeOrRefund := True, xf_from := fee_payer Z d ts\<rparr>] in
       if after = [] then ts'
       else ts'[last after := (ts ! last after)\<lparr>xf_type := Refund, xf_isFeeOrRefund := True,
                 xf_from := zk_BOOTLOADER_FORMAL_ADDRESS Z\<rparr>])"
      using format_with_fee [OF i] unfolding Let_def by blast
    have refund: "the_refund Z ts i r \<longleftrightarrow> after \<noteq> [] \<and> r = last after" for r
    proof
      assume r: "the_refund Z ts i r"
      then have mem: "r \<in> set after" using after(1) by (simp add: the_refund_def)
      moreover have "last after \<in> set after" using mem by (cases after) auto
      then have "\<not> r < last after" using r after(1) unfolding the_refund_iff by blast
      ultimately show "after \<noteq> [] \<and> r = last after" using sorted_le_last [OF after(2)] by fastforce
    next
      assume r: "after \<noteq> [] \<and> r = last after"
      then have "r \<in> set after" by simp
      moreover have "k \<le> r" if "k \<in> set after" for k using sorted_le_last [OF after(2) that] r by simp
      ultimately show "the_refund Z ts i r" using after(1) unfolding the_refund_iff by (metis leD)
    qed
    have other: "the_fee Z ts j \<longleftrightarrow> j = i" using i(2) the_fee_unique by blast
    have ref: "(\<exists>i. the_fee Z ts i \<and> the_refund Z ts i j) \<longleftrightarrow> after \<noteq> [] \<and> j = last after"
      using i(2) the_fee_unique refund by blast
    have "i \<noteq> last after" if "after \<noteq> []"
      using refund that i(2) by (auto simp: the_refund_def the_fee_def other_deposit_def fee_deposit_def)
    then show ?thesis
      unfolding Some eq option.case ex other ref Let_def using i(1) assms
      by (auto simp: nth_list_update)
  next
    case False
    then have "find_index (\<lambda>t. eth_deposit t \<and> xf_to t = zk_BOOTLOADER_FORMAL_ADDRESS Z) ts = None"
      if "dt_isL1Originated d"
      using that by (cases "find_index (\<lambda>t. eth_deposit t \<and> xf_to t = zk_BOOTLOADER_FORMAL_ADDRESS Z) ts")
        (auto simp: find_index_Some the_fee_def fee_deposit_def)
    then have "formatFeeAndRefundDeposits Z (Some d) ts = ts"
      by (simp add: formatFeeAndRefundDeposits_def)
    with False show ?thesis by (auto simp: Some ex)
  qed
qed (simp add: formatFeeAndRefundDeposits_def)

text \<open>
  C16: Of the deposits of a transaction that comes from L1, the first one to the bootloader becomes the fee,
  paid by whoever makes the first other deposit (by the initiator when there is none), and the last
  other deposit after the fee becomes the refund, from the bootloader. Nothing else changes, and
  nothing at all for any other transaction or without a deposit to the bootloader.
\<close>

theorem fee_and_refund_exact:
  assumes "j < length ts"
  shows "formatFeeAndRefundDeposits Z td ts ! j =
    (case td of
       None \<Rightarrow> ts ! j
     | Some d \<Rightarrow>
         if dt_isL1Originated d \<and> the_fee Z ts j
         then (ts ! j)\<lparr>xf_type := Fee, xf_isFeeOrRefund := True, xf_from := fee_payer Z d ts\<rparr>
         else if dt_isL1Originated d \<and> list_ex (\<lambda>i. the_fee Z ts i \<and> the_refund Z ts i j) [0..<length ts]
         then (ts ! j)\<lparr>xf_type := Refund, xf_isFeeOrRefund := True, xf_from := zk_BOOTLOADER_FORMAL_ADDRESS Z\<rparr>
         else ts ! j) \<and>
    length (formatFeeAndRefundDeposits Z td ts) = length ts"
  using assms by (rule format_nth)

section \<open>The whole service\<close>

definition internal_transfer :: "node_receipt option \<Rightarrow> transfer \<Rightarrow> bool" where
  "internal_transfer receipt t \<longleftrightarrow>
     xf_type t = Transfer \<and> lower (xf_tokenAddress t) = lower BASE_TOKEN_ADDRESS \<and>
     (case receipt of
        None \<Rightarrow> True
      | Some r \<Rightarrow> \<not> (lower (nr_from r) = lower (xf_from t) \<and> map_option lower (nr_to r) = Some (lower (xf_to t))))"

lemma isInternalTransaction_Inr: "isInternalTransaction t receipt = Inr b \<Longrightarrow> b = internal_transfer receipt t"
  by (auto simp: isInternalTransaction_def internal_transfer_def split: option.splits if_splits)

lemma internal_transfer_update [simp]: "internal_transfer r (t\<lparr>xf_isInternal := b\<rparr>) = internal_transfer r t"
  by (simp add: internal_transfer_def split: option.split)

lemma transfer_of_log_update [simp]: "transfer_of_log bd td l (t\<lparr>xf_isInternal := b\<rparr>) = transfer_of_log bd td l t"
  by (simp add: transfer_of_log_def)

lemma map_act_Inr_map:
  "map_act f xs = Inr ys \<Longrightarrow> (\<And>x y. f x = Inr y \<Longrightarrow> y = g x) \<Longrightarrow> ys = map g xs"
  by (induction xs arbitrary: ys) (auto split: sum.splits)

lemma markInternalTransactions_Inr:
  assumes "markInternalTransactions receipt ts = Inr us"
  shows "us = map (\<lambda>t. t\<lparr>xf_isInternal := Some (internal_transfer receipt t)\<rparr>) ts"
proof (rule map_act_Inr_map [OF assms [unfolded markInternalTransactions_def]])
  fix t u
  assume "sbind (isInternalTransaction t receipt) (\<lambda>b. Inr (t\<lparr>xf_isInternal := Some b\<rparr>)) = Inr u"
  then show "u = t\<lparr>xf_isInternal := Some (internal_transfer receipt t)\<rparr>"
    by (rule sbind_returned) (auto dest: isInternalTransaction_Inr)
qed

lemma format_keeps_logs:
  assumes "list_all2 (transfer_of_log bd td) ls ts"
  shows "list_all2 (transfer_of_log bd td) ls (formatFeeAndRefundDeposits Z td ts)"
proof -
  have len: "length (formatFeeAndRefundDeposits Z td ts) = length ts"
  proof (cases ts)
    case Nil
    then show ?thesis by (simp add: formatFeeAndRefundDeposits_def split: option.split)
  next
    case Cons
    then have "0 < length ts" by simp
    from conjunct2 [OF format_nth [OF this]] show ?thesis .
  qed
  show ?thesis
  proof (rule list_all2_all_nthI)
    fix j assume "j < length ls"
    then have "j < length ts" "transfer_of_log bd td (ls ! j) (ts ! j)"
      using assms by (auto simp: list_all2_conv_all_nth)
    then show "transfer_of_log bd td (ls ! j) (formatFeeAndRefundDeposits Z td ts ! j)"
      by (simp add: format_nth transfer_of_log_def split: option.split)
  qed (use assms len in \<open>simp add: list_all2_lengthD\<close>)
qed

lemma getTransfers_of_logs:
  assumes "getTransfers Z (Some ls) bd td receipt = Inr ts"
  shows "list_all2 (transfer_of_log bd td) (filter (\<lambda>l. handlerForLog Z receipt l \<noteq> None) ls) ts \<and>
    list_all (\<lambda>t. xf_isInternal t = Some (internal_transfer receipt t)) ts"
proof -
  let ?ms = "filter (\<lambda>l. handlerForLog Z receipt l \<noteq> None) ls"
  from assms obtain us where us: "extract_transfers Z bd td receipt ls = Inr us"
    "us = [] \<and> ts = [] \<or> markInternalTransactions receipt (formatFeeAndRefundDeposits Z td us) = Inr ts"
    by (auto simp: getTransfers_def split: if_splits elim!: sbind_returned)
  have all: "list_all2 (transfer_of_log bd td) ?ms us" by (rule extract_transfers_of_logs) (rule us(1))
  from us(2) show ?thesis
  proof
    assume "us = [] \<and> ts = []"
    with all show ?thesis by simp
  next
    assume "markInternalTransactions receipt (formatFeeAndRefundDeposits Z td us) = Inr ts"
    then have "ts = map (\<lambda>t. t\<lparr>xf_isInternal := Some (internal_transfer receipt t)\<rparr>) (formatFeeAndRefundDeposits Z td us)"
      by (rule markInternalTransactions_Inr)
    with format_keeps_logs [OF all, of Z] show ?thesis
      by (simp add: list_all2_map2 list_all_iff)
  qed
qed

text \<open>
  C20: The transfers of a transaction are one for each log that has a handler, in the order of the logs,
  each with the position, the block and the transaction of its log; a transfer is marked as fee or
  refund exactly when its type says so, and as internal exactly when it moves the base token and is
  not the transfer of value of the transaction itself.
\<close>

theorem transfers_follow_logs:
  assumes "getTransfers Z (Some ls) bd td receipt = Inr ts"
  shows "list_all2 (transfer_of_log bd td) (filter (\<lambda>l. handlerForLog Z receipt l \<noteq> None) ls) ts \<and>
    list_all (\<lambda>t. xf_isInternal t = Some (internal_transfer receipt t)) ts"
  using assms by (rule getTransfers_of_logs)

section \<open>A deposit from L1\<close>

definition demo_zk :: zk_lib where
  "demo_zk = \<lparr>
     zk_ETH_ADDRESS = ''0x0000'', zk_BOOTLOADER_FORMAL_ADDRESS = ''0x8001'', zk_CONTRACT_DEPLOYER_ADDRESS = ''0x8006'',
     zk_parseLog = (\<lambda>iface l. Inr (Some
       (if iface = I_ETH_TOKEN
        then \<lparr>ds_isEvent = True, ds_inputs = [(''account'', True), (''amount'', False)],
              ds_args = [Decoded (VString (lg_topics l ! 1)), Decoded (VInt 5)]\<rparr>
        else \<lparr>ds_isEvent = True, ds_inputs = [(''from'', True), (''to'', True), (''value'', False)],
              ds_args = [Decoded (VString (lg_topics l ! 1)), Decoded (VString (lg_topics l ! 2)), Decoded (VInt 7)]\<rparr>))),
     zk_decodeAddress = (\<lambda>t. case t of None \<Rightarrow> Inl TypeError | Some s \<Rightarrow> Inr s)\<rparr>"

definition demo_log :: "int \<Rightarrow> string list \<Rightarrow> log_data" where
  "demo_log i topics =
     \<lparr>lg_address = BASE_TOKEN_ADDRESS, lg_data = ''0x'', lg_topics = topics, lg_index = i, lg_blockNumber = 5,
      lg_transactionHash = Some ''0x77'', lg_transactionIndex = 0, lg_removed = None\<rparr>"

definition demo_receipt :: node_receipt where
  "demo_receipt = \<lparr>nr_hash = ''0x77'', nr_to = Some ''0xbb'', nr_from = ''0xaa'', nr_blockNumber = 5, nr_status = Some 1,
     nr_logs = Some [demo_log 1 [EventLog_Mint, ''0x8001''], demo_log 2 [EventLog_Transfer, ''0xaa'', ''0xbb''],
       demo_log 3 [EventLog_Mint, ''0xaa''], demo_log 4 [''0x1234'']]\<rparr>"

definition demo_tx_details :: node_tx_details where
  "demo_tx_details = \<lparr>dt_isL1Originated = True, dt_initiatorAddress = ''0xaa'', dt_receivedAt = None, dt_fields = []\<rparr>"

definition demo_block_details :: block_details where
  "demo_block_details = \<lparr>bd_timestamp = 60, bd_l1BatchNumber = 1, bd_l1TxCount = 1, bd_l2TxCount = 0\<rparr>"

definition demo_transfers :: "transfer list" where
  "demo_transfers =
     (case getTransfers demo_zk (nr_logs demo_receipt) demo_block_details (Some demo_tx_details) (Some demo_receipt)
      of Inl _ \<Rightarrow> [] | Inr ts \<Rightarrow> ts)"

lemma demo_get_transfers:
  "getTransfers demo_zk (nr_logs demo_receipt) demo_block_details (Some demo_tx_details) (Some demo_receipt) =
     Inr demo_transfers"
  "map xf_type demo_transfers = [Fee, Transfer, Refund]"
  by code_simp+

theorem transfers_follow_logs_witness:
  "list_all2 (transfer_of_log demo_block_details (Some demo_tx_details))
     (filter (\<lambda>l. handlerForLog demo_zk (Some demo_receipt) l \<noteq> None) (the (nr_logs demo_receipt))) demo_transfers \<and>
   map xf_type demo_transfers = [Fee, Transfer, Refund]"
proof -
  have "nr_logs demo_receipt = Some (the (nr_logs demo_receipt))" by (simp add: demo_receipt_def)
  then show ?thesis
    using transfers_follow_logs [of demo_zk "the (nr_logs demo_receipt)"] demo_get_transfers by metis
qed

definition demo_extracted :: "transfer list" where
  "demo_extracted =
     (case extract_transfers demo_zk demo_block_details (Some demo_tx_details) (Some demo_receipt) (the (nr_logs demo_receipt))
      of Inl _ \<Rightarrow> [] | Inr ts \<Rightarrow> ts)"

theorem fee_and_refund_exact_witness:
  "xf_type (formatFeeAndRefundDeposits demo_zk (Some demo_tx_details) demo_extracted ! 2) = Refund \<and>
   xf_from (formatFeeAndRefundDeposits demo_zk (Some demo_tx_details) demo_extracted ! 2) = ''0x8001''"
proof -
  have "2 < length demo_extracted" "dt_isL1Originated demo_tx_details" "\<not> the_fee demo_zk demo_extracted 2"
    "list_ex (\<lambda>i. the_fee demo_zk demo_extracted i \<and> the_refund demo_zk demo_extracted i 2) [0..<length demo_extracted]"
    "zk_BOOTLOADER_FORMAL_ADDRESS demo_zk = ''0x8001''"
    by code_simp+
  then show ?thesis using fee_and_refund_exact [of 2 demo_extracted demo_zk "Some demo_tx_details"] by simp
qed

end
