(* ===== verification/Fetcher_Balances.thy ===== *)
theory Fetcher_Balances
  imports Fetcher_Transfers "HOL-Library.AList"
begin

text \<open>
  The balances that change in a block (\<open>src/packages/data-fetcher/src/balance/balance.service.ts\<close>): the
  state the data fetcher keeps, a JavaScript \<open>Map\<close> of \<open>Map\<close>s. A \<open>Map\<close> is an association list in the
  order of insertion: \<open>set\<close> keeps the place of a key that is there and appends a new one, which is what
  \<open>AList.update\<close> does.
\<close>

record tracked_balance =
  tb_balance :: "int option"
  tb_tokenType :: TokenType

type_synonym block_balances = "(string \<times> (string \<times> tracked_balance) list) list"

record fetcher =
  changedBalances :: "(int \<times> block_balances) list"

record balance_record =
  br_address :: string
  br_tokenAddress :: string
  br_blockNumber :: int
  br_balance :: "int option"
  br_tokenType :: TokenType

definition clearTrackedState :: "int \<Rightarrow> fetcher \<Rightarrow> fetcher" where
  "clearTrackedState n s = s\<lparr>changedBalances := AList.delete n (changedBalances s)\<rparr>"

definition track_address :: "zk_lib \<Rightarrow> transfer \<Rightarrow> string \<Rightarrow> block_balances \<Rightarrow> block_balances" where
  "track_address Z t a m =
     (if a = zk_ETH_ADDRESS Z then m
      else AList.update a
        (AList.update (xf_tokenAddress t) \<lparr>tb_balance = None, tb_tokenType = xf_tokenType t\<rparr>
          (case map_of m a of None \<Rightarrow> [] | Some i \<Rightarrow> i)) m)"

text \<open>\<open>new Set([from, to])\<close>\<close>

definition transfer_addresses :: "transfer \<Rightarrow> string list" where
  "transfer_addresses t = (if xf_from t = xf_to t then [xf_from t] else [xf_from t, xf_to t])"

definition track_transfer :: "zk_lib \<Rightarrow> transfer \<Rightarrow> block_balances \<Rightarrow> block_balances" where
  "track_transfer Z t m = fold (track_address Z t) (transfer_addresses t) m"

definition trackChangedBalances :: "zk_lib \<Rightarrow> transfer list \<Rightarrow> fetcher \<Rightarrow> fetcher" where
  "trackChangedBalances Z ts s =
     (case ts of
        [] \<Rightarrow> s
      | t # _ \<Rightarrow>
          s\<lparr>changedBalances := AList.update (xf_blockNumber t)
              (fold (track_transfer Z) ts
                (case map_of (changedBalances s) (xf_blockNumber t) of None \<Rightarrow> [] | Some m \<Rightarrow> m))
              (changedBalances s)\<rparr>)"

text \<open>
  The answer for one tracked pair: the balance replaces the entry, whose token type it keeps; a pair
  whose balance cannot be had is dropped.
\<close>

definition settle_balance ::
  "(string \<Rightarrow> int \<Rightarrow> string \<Rightarrow> exn + int) \<Rightarrow> int \<Rightarrow> string \<times> string \<Rightarrow> block_balances \<Rightarrow> block_balances" where
  "settle_balance getBalance n p m =
     (case getBalance (fst p) n (snd p) of
        Inr v \<Rightarrow> AList.map_entry (fst p) (AList.map_entry (snd p) (\<lambda>b. b\<lparr>tb_balance := Some v\<rparr>)) m
      | Inl _ \<Rightarrow> AList.map_entry (fst p) (AList.delete (snd p)) m)"

definition tracked_pairs :: "block_balances \<Rightarrow> (string \<times> string) list" where
  "tracked_pairs m = concat (map (\<lambda>(a, i). map (\<lambda>(t, _). (a, t)) i) m)"

definition balance_records :: "int \<Rightarrow> block_balances \<Rightarrow> balance_record list" where
  "balance_records n m =
     concat (map (\<lambda>(a, i). map (\<lambda>(t, b).
       \<lparr>br_address = a, br_tokenAddress = t, br_blockNumber = n, br_balance = tb_balance b,
        br_tokenType = tb_tokenType b\<rparr>) i) m)"

definition getChangedBalances ::
  "(string \<Rightarrow> int \<Rightarrow> string \<Rightarrow> exn + int) \<Rightarrow> int \<Rightarrow> fetcher \<Rightarrow> fetcher \<times> balance_record list option" where
  "getChangedBalances getBalance n s =
     (case map_of (changedBalances s) n of
        None \<Rightarrow> (s, None)
      | Some m \<Rightarrow>
          let m' = fold (settle_balance getBalance n) (tracked_pairs m) m
          in (s\<lparr>changedBalances := AList.update n m' (changedBalances s)\<rparr>, Some (balance_records n m')))"

section \<open>What is tracked\<close>

definition entry_of :: "block_balances \<Rightarrow> string \<Rightarrow> string \<Rightarrow> tracked_balance option" where
  "entry_of m a t = Option.bind (map_of m a) (\<lambda>i. map_of i t)"

definition block_of :: "fetcher \<Rightarrow> int \<Rightarrow> block_balances" where
  "block_of s n = (case map_of (changedBalances s) n of None \<Rightarrow> [] | Some m \<Rightarrow> m)"

definition touches :: "zk_lib \<Rightarrow> string \<Rightarrow> string \<Rightarrow> transfer \<Rightarrow> bool" where
  "touches Z a tok t \<longleftrightarrow> a \<noteq> zk_ETH_ADDRESS Z \<and> a \<in> {xf_from t, xf_to t} \<and> xf_tokenAddress t = tok"

text \<open>Keys are distinct on both levels, as in a \<open>Map\<close>.\<close>

definition proper_map :: "block_balances \<Rightarrow> bool" where
  "proper_map m \<longleftrightarrow> distinct (map fst m) \<and> (\<forall>p \<in> set m. distinct (map fst (snd p)))"

definition proper_state :: "fetcher \<Rightarrow> bool" where
  "proper_state s \<longleftrightarrow> distinct (map fst (changedBalances s)) \<and> (\<forall>n. proper_map (block_of s n))"

lemma set_AList_update: "set (AList.update k v al) \<subseteq> insert (k, v) (set al)"
  by (induction al) auto

lemma set_AList_map_entry: "p \<in> set (AList.map_entry k f al) \<Longrightarrow> p \<in> set al \<or> (\<exists>v. (k, v) \<in> set al \<and> p = (k, f v))"
  by (induction al) (auto split: if_splits)

lemma proper_map_update: "proper_map m \<Longrightarrow> distinct (map fst i) \<Longrightarrow> proper_map (AList.update a i m)"
  using set_AList_update [of a i m] by (fastforce simp: proper_map_def AList.distinct_update)

lemma proper_map_entry:
  "proper_map m \<Longrightarrow> (\<And>i. distinct (map fst i) \<Longrightarrow> distinct (map fst (f i))) \<Longrightarrow> proper_map (AList.map_entry a f m)"
  by (fastforce simp: proper_map_def AList.distinct_map_entry dest: set_AList_map_entry)

lemma proper_map_inner: "proper_map m \<Longrightarrow> map_of m a = Some i \<Longrightarrow> distinct (map fst i)"
  by (force simp: proper_map_def dest: map_of_SomeD)

lemma entry_of_Nil [simp]: "entry_of [] a t = None"
  by (simp add: entry_of_def)

lemma entry_of_track_address:
  "entry_of (track_address Z x a m) b t =
     (if a \<noteq> zk_ETH_ADDRESS Z \<and> b = a \<and> t = xf_tokenAddress x
      then Some \<lparr>tb_balance = None, tb_tokenType = xf_tokenType x\<rparr> else entry_of m b t)"
  by (auto simp: track_address_def entry_of_def AList.update_conv' split: option.splits)

lemma entry_of_track_transfer:
  "entry_of (track_transfer Z x m) a t =
     (if touches Z a t x then Some \<lparr>tb_balance = None, tb_tokenType = xf_tokenType x\<rparr> else entry_of m a t)"
  by (auto simp: track_transfer_def transfer_addresses_def entry_of_track_address touches_def)

lemma entry_of_track_transfers:
  "entry_of (fold (track_transfer Z) ts m) a t =
     (case find_last (touches Z a t) ts of
        Some x \<Rightarrow> Some \<lparr>tb_balance = None, tb_tokenType = xf_tokenType x\<rparr> | None \<Rightarrow> entry_of m a t)"
  by (induction ts arbitrary: m) (auto simp: entry_of_track_transfer split: option.splits)

lemma proper_track_address: "proper_map m \<Longrightarrow> proper_map (track_address Z x a m)"
  by (auto simp: track_address_def intro!: proper_map_update AList.distinct_update intro: proper_map_inner split: option.splits)

lemma proper_track_transfers: "proper_map m \<Longrightarrow> proper_map (fold (track_transfer Z) ts m)"
  by (rule fold_invariant [where Q = "\<lambda>_. True" and P = proper_map])
    (auto simp: track_transfer_def transfer_addresses_def intro: proper_track_address)

lemma block_of_track:
  "block_of (trackChangedBalances Z ts s) n =
     (if ts \<noteq> [] \<and> n = xf_blockNumber (hd ts) then fold (track_transfer Z) ts (block_of s n) else block_of s n)"
  by (auto simp: trackChangedBalances_def block_of_def AList.update_conv' split: list.splits)

lemma block_of_clear: "block_of (clearTrackedState m s) n = (if n = m then [] else block_of s n)"
  by (simp add: clearTrackedState_def block_of_def AList.delete_conv')

lemma block_of_getChanged: "n \<noteq> m \<Longrightarrow> block_of (fst (getChangedBalances B m s)) n = block_of s n"
  by (auto simp: getChangedBalances_def block_of_def AList.update_conv' Let_def split: option.splits)

subsection \<open>Asking for the balances\<close>

lemma entry_of_settle:
  "entry_of (settle_balance B n p m) a t =
     (if p = (a, t)
      then (case B a n t of
              Inr v \<Rightarrow> map_option (\<lambda>b. b\<lparr>tb_balance := Some v\<rparr>) (entry_of m a t) | Inl _ \<Rightarrow> None)
      else entry_of m a t)"
  by (cases p)
    (auto simp: settle_balance_def entry_of_def AList.map_of_map_entry AList.delete_conv' split: sum.splits option.splits)

lemma proper_settle: "proper_map m \<Longrightarrow> proper_map (settle_balance B n p m)"
  by (auto simp: settle_balance_def AList.distinct_map_entry AList.distinct_delete intro!: proper_map_entry split: sum.splits)

lemma proper_settles: "proper_map m \<Longrightarrow> proper_map (fold (settle_balance B n) ps m)"
  by (rule fold_invariant [where Q = "\<lambda>_. True" and P = proper_map]) (auto intro: proper_settle)

lemma entry_of_settles:
  "entry_of (fold (settle_balance B n) ps m) a t =
     (if (a, t) \<in> set ps
      then (case B a n t of
              Inr v \<Rightarrow> map_option (\<lambda>b. b\<lparr>tb_balance := Some v\<rparr>) (entry_of m a t) | Inl _ \<Rightarrow> None)
      else entry_of m a t)"
  by (induction ps arbitrary: m)
    (auto simp: entry_of_settle option.map_comp comp_def split: sum.splits)

lemma entry_of_iff:
  "proper_map m \<Longrightarrow> entry_of m a t = Some b \<longleftrightarrow> (\<exists>i. (a, i) \<in> set m \<and> (t, b) \<in> set i)"
  unfolding entry_of_def proper_map_def
  by (auto simp: bind_eq_Some_conv) (metis map_of_eq_Some_iff snd_conv)+

lemma tracked_pairs_iff: "proper_map m \<Longrightarrow> (a, t) \<in> set (tracked_pairs m) \<longleftrightarrow> entry_of m a t \<noteq> None"
  by (simp add: entry_of_iff) (force simp: tracked_pairs_def)

lemma balance_records_iff:
  assumes "proper_map m"
  shows "r \<in> set (balance_records n m) \<longleftrightarrow>
     br_blockNumber r = n \<and>
     entry_of m (br_address r) (br_tokenAddress r) = Some \<lparr>tb_balance = br_balance r, tb_tokenType = br_tokenType r\<rparr>"
proof -
  define R where "R x y = \<lparr>br_address = fst x, br_tokenAddress = fst y, br_blockNumber = n,
    br_balance = tb_balance (snd y), br_tokenType = tb_tokenType (snd y)\<rparr>"
    for x :: "string \<times> (string \<times> tracked_balance) list" and y :: "string \<times> tracked_balance"
  have "r \<in> set (balance_records n m) \<longleftrightarrow> (\<exists>x \<in> set m. \<exists>y \<in> set (snd x). r = R x y)"
    by (auto simp: balance_records_def case_prod_unfold R_def)
  moreover have "r = R x y \<longleftrightarrow> br_blockNumber r = n \<and> fst x = br_address r \<and> fst y = br_tokenAddress r \<and>
      snd y = \<lparr>tb_balance = br_balance r, tb_tokenType = br_tokenType r\<rparr>" for x y
    by (cases r; cases "snd y") (auto simp: R_def)
  moreover have "entry_of m a t = Some c \<longleftrightarrow> (\<exists>x \<in> set m. \<exists>y \<in> set (snd x). fst x = a \<and> fst y = t \<and> snd y = c)"
    for a t c
    using assms by (simp add: entry_of_iff) force
  ultimately show ?thesis by auto
qed

lemma distinct_records:
  assumes "proper_map m"
  shows "distinct (map (\<lambda>r. (br_address r, br_tokenAddress r)) (balance_records n m))"
proof -
  have "map (\<lambda>r. (br_address r, br_tokenAddress r)) (balance_records n m) = tracked_pairs m"
    by (simp add: balance_records_def tracked_pairs_def map_concat comp_def case_prod_unfold)
  moreover have "distinct (tracked_pairs m)"
    using assms unfolding tracked_pairs_def proper_map_def
    by (induction m) (auto simp: distinct_map inj_on_def case_prod_unfold)
  ultimately show ?thesis by simp
qed

definition balances_of_transfers ::
  "zk_lib \<Rightarrow> (string \<Rightarrow> int \<Rightarrow> string \<Rightarrow> exn + int) \<Rightarrow> int \<Rightarrow> transfer list \<Rightarrow> balance_record list \<Rightarrow> bool" where
  "balances_of_transfers Z B n ts rs \<longleftrightarrow>
     distinct (map (\<lambda>r. (br_address r, br_tokenAddress r)) rs) \<and>
     (\<forall>r. r \<in> set rs \<longleftrightarrow>
        br_blockNumber r = n \<and>
        B (br_address r) n (br_tokenAddress r) = Inr (the (br_balance r)) \<and> br_balance r \<noteq> None \<and>
        map_option xf_tokenType (find_last (touches Z (br_address r) (br_tokenAddress r)) ts) = Some (br_tokenType r))"

lemma getChanged_of_transfers:
  assumes "map_of (changedBalances s) n = Some (fold (track_transfer Z) ts [])"
  shows "\<exists>rs. snd (getChangedBalances B n s) = Some rs \<and> balances_of_transfers Z B n ts rs"
proof -
  let ?m = "fold (track_transfer Z) ts []"
  let ?m' = "fold (settle_balance B n) (tracked_pairs ?m) ?m"
  have proper: "proper_map ?m" by (rule proper_track_transfers) (simp add: proper_map_def)
  then have proper': "proper_map ?m'" by (rule proper_settles)
  have entry: "entry_of ?m' a t = Some b \<longleftrightarrow>
      (\<exists>x v. find_last (touches Z a t) ts = Some x \<and> B a n t = Inr v \<and>
         b = \<lparr>tb_balance = Some v, tb_tokenType = xf_tokenType x\<rparr>)" for a t b
    using tracked_pairs_iff [OF proper, of a t]
    by (auto simp: entry_of_settles entry_of_track_transfers split: option.splits sum.splits)
  have "balances_of_transfers Z B n ts (balance_records n ?m')"
    unfolding balances_of_transfers_def
    using distinct_records [OF proper'] by (auto simp: balance_records_iff [OF proper'] entry)
  with assms show ?thesis by (auto simp: getChangedBalances_def Let_def)
qed

section \<open>Requests in parallel\<close>

text \<open>
  The service answers many requests at once. What each does to the shared state are the calls above,
  and the calls of different requests interleave in any order: a run is the list of all of them.
\<close>

datatype state_call =
    TrackCall "transfer list"
  | ReadCall int
  | ClearCall int

definition state_call_step ::
  "zk_lib \<Rightarrow> (string \<Rightarrow> int \<Rightarrow> string \<Rightarrow> exn + int) \<Rightarrow> state_call \<Rightarrow> fetcher \<Rightarrow> fetcher" where
  "state_call_step Z B c s =
     (case c of
        TrackCall ts \<Rightarrow> trackChangedBalances Z ts s
      | ReadCall n \<Rightarrow> fst (getChangedBalances B n s)
      | ClearCall n \<Rightarrow> clearTrackedState n s)"

definition call_of_block :: "int \<Rightarrow> state_call \<Rightarrow> bool" where
  "call_of_block n c \<longleftrightarrow>
     (case c of
        TrackCall ts \<Rightarrow> ts \<noteq> [] \<and> xf_blockNumber (hd ts) = n
      | ReadCall m \<Rightarrow> m = n
      | ClearCall m \<Rightarrow> m = n)"

lemma state_call_other:
  "\<not> call_of_block n c \<Longrightarrow> map_of (changedBalances (state_call_step Z B c s)) n = map_of (changedBalances s) n"
  by (auto simp: call_of_block_def state_call_step_def trackChangedBalances_def getChangedBalances_def Let_def
      clearTrackedState_def AList.update_conv' split: state_call.splits list.splits option.splits)

lemma state_call_own:
  assumes "map_of (changedBalances s) n = map_of (changedBalances t) n" "call_of_block n c"
  shows "map_of (changedBalances (state_call_step Z B c s)) n = map_of (changedBalances (state_call_step Z B c t)) n"
  using assms
  by (cases c)
    (auto simp: call_of_block_def state_call_step_def trackChangedBalances_def getChangedBalances_def Let_def
      clearTrackedState_def AList.update_conv' AList.delete_conv' split: list.splits option.splits)

lemma run_projection:
  "map_of (changedBalances s) n = map_of (changedBalances t) n \<Longrightarrow>
   map_of (changedBalances (fold (state_call_step Z B) cs s)) n =
   map_of (changedBalances (fold (state_call_step Z B) (filter (call_of_block n) cs) t)) n"
proof (induction cs arbitrary: s t)
  case (Cons c cs)
  show ?case
  proof (cases "call_of_block n c")
    case True
    with Cons.IH [OF state_call_own [OF Cons.prems True]] show ?thesis by simp
  next
    case False
    with state_call_other [OF False] Cons.prems
    have "map_of (changedBalances (state_call_step Z B c s)) n = map_of (changedBalances t) n" by simp
    from Cons.IH [OF this] False show ?thesis by simp
  qed
qed simp

lemma getChanged_cong:
  "map_of (changedBalances s) n = map_of (changedBalances t) n \<Longrightarrow>
     snd (getChangedBalances B n s) = snd (getChangedBalances B n t)"
  by (simp add: getChangedBalances_def Let_def split: option.split)

text \<open>
  C27: Requests for different blocks do not disturb each other: whatever calls of other requests come in
  between, in whatever order, the balances read for a block are those its own calls lead to.
\<close>

theorem requests_do_not_interfere:
  "snd (getChangedBalances B n (fold (state_call_step Z B) cs s)) =
   snd (getChangedBalances B n (fold (state_call_step Z B) (filter (call_of_block n) cs) s))"
  by (rule getChanged_cong) (rule run_projection [OF refl])

text \<open>
  Two requests for the same block share the tracked pairs: the one that reads after the other has
  finished finds nothing, although it has tracked its transfers; and a call of the block that tracks
  after the request has been answered leaves its pairs in the state.
\<close>

theorem same_block_requests_interfere:
  assumes "ts \<noteq> []" "\<forall>t \<in> set ts. xf_blockNumber t = n"
  shows "snd (getChangedBalances B n
      (fold (state_call_step Z B) [TrackCall ts, TrackCall ts, ReadCall n, ClearCall n] s)) = None"
    and "map_of (changedBalances (fold (state_call_step Z B) [ClearCall n, TrackCall ts] s)) n \<noteq> None"
proof -
  show "snd (getChangedBalances B n
      (fold (state_call_step Z B) [TrackCall ts, TrackCall ts, ReadCall n, ClearCall n] s)) = None"
    by (simp add: state_call_step_def clearTrackedState_def getChangedBalances_def AList.delete_conv')
  from assms show "map_of (changedBalances (fold (state_call_step Z B) [ClearCall n, TrackCall ts] s)) n \<noteq> None"
    by (cases ts) (auto simp: state_call_step_def trackChangedBalances_def AList.update_conv')
qed

end
