(* ===== verification/Fetcher_Blocks.thy ===== *)
theory Fetcher_Blocks
  imports Fetcher_Balances
begin

text \<open>
  The data of a block (\<open>src/packages/data-fetcher/src\<close>: \<open>address\<close>, \<open>token\<close>, \<open>log\<close>, \<open>transaction\<close>, \<open>block\<close>,
  \<open>common/pipes/parseLimitedInt.pipe.ts\<close>). The methods of \<open>BlockchainService\<close>, which repeat their calls to
  the node (theory Fetcher_Retries), are the record \<open>blockchain\<close>: what each call finally returns.

  Within a request the transactions of a block are read one after the other here; the code starts them
  together. What the state goes through when calls interleave is the subject of Fetcher_Balances.
\<close>

record erc20_data =
  e2_symbol :: "abi_value option"
  e2_decimals :: "abi_value option"
  e2_name :: "abi_value option"
  e2_l1Address :: "abi_value option"

record token_found = erc20_data +
  to_blockNumber :: int
  to_transactionHash :: string
  to_l2Address :: string
  to_logIndex :: int

record node_block = block_dto +
  nb_transactions :: "string list"

record trace_result =
  tx_error :: "string option"
  tx_revertReason :: "string option"

record blockchain =
  ch_getBlock :: "int \<Rightarrow> exn + node_block option"
  ch_getBlockDetails :: "int \<Rightarrow> exn + block_details option"
  ch_getTransaction :: "string \<Rightarrow> exn + (string \<times> json) list option"
  ch_getTransactionDetails :: "string \<Rightarrow> exn + node_tx_details option"
  ch_getTransactionReceipt :: "string \<Rightarrow> exn + node_receipt option"
  ch_getLogs :: "int \<Rightarrow> int \<Rightarrow> exn + log_data list"
  ch_getCode :: "string \<Rightarrow> exn + string"
  ch_debugTraceTransaction :: "string \<Rightarrow> exn + trace_result option"
  ch_getERC20TokenData :: "string \<Rightarrow> exn + erc20_data"
  ch_getBalance :: "string \<Rightarrow> int \<Rightarrow> string \<Rightarrow> exn + int"
  ch_l2Erc20DefaultBridge :: "string option"

section \<open>Contract addresses\<close>

definition defaultContractDeployedHandler :: "zk_lib \<Rightarrow> node_receipt \<Rightarrow> log_data \<Rightarrow> exn + contract_address" where
  "defaultContractDeployedHandler Z receipt l =
     sbind (zk_decodeAddress Z (topic 3 l)) (\<lambda>address.
     Inr \<lparr>ca_address = address, ca_blockNumber = nr_blockNumber receipt, ca_transactionHash = nr_hash receipt,
          ca_creatorAddress = nr_from receipt, ca_logIndex = lg_index l, ca_bytecode = None\<rparr>)"

definition getContractAddresses ::
  "zk_lib \<Rightarrow> blockchain \<Rightarrow> log_data list option \<Rightarrow> node_receipt \<Rightarrow> exn + contract_address list" where
  "getContractAddresses Z C logs receipt =
     (case logs of
        None \<Rightarrow> Inr []
      | Some ls \<Rightarrow>
          sbind (map_act (defaultContractDeployedHandler Z receipt)
                   (filter (\<lambda>l. topic 0 l = Some EventLog_ContractDeployed) ls)) (\<lambda>addresses.
          map_act (\<lambda>c. sbind (ch_getCode C (ca_address c)) (\<lambda>b. Inr (c\<lparr>ca_bytecode := Some b\<rparr>))) addresses))"

section \<open>Tokens\<close>

definition abi_truthy :: "abi_value option \<Rightarrow> bool" where
  "abi_truthy v = (case v of None \<Rightarrow> False | Some (VString s) \<Rightarrow> s \<noteq> [] | Some (VInt i) \<Rightarrow> i \<noteq> 0)"

definition removeSpecialChars :: "abi_value option \<Rightarrow> exn + abi_value option" where
  "removeSpecialChars str =
     (if \<not> abi_truthy str then Inr str
      else (case str of Some (VString s) \<Rightarrow> Inr (Some (VString (filter (\<lambda>c. c \<noteq> CHR 0x00) s))) | _ \<Rightarrow> Inl TypeError))"

text \<open>The log of the bridge that initialises the token, when the transaction called the bridge.\<close>

definition fetcher_bridge_log :: "blockchain \<Rightarrow> contract_address \<Rightarrow> node_receipt option \<Rightarrow> exn + log_data option" where
  "fetcher_bridge_log C c receipt =
     (case receipt of
        None \<Rightarrow> Inr None
      | Some r \<Rightarrow>
          (case nr_to r of
             None \<Rightarrow> Inl TypeError
           | Some to \<Rightarrow>
               if Some (lower to) \<noteq> ch_l2Erc20DefaultBridge C then Inr None
               else Inr (case nr_logs r of
                 None \<Rightarrow> None
               | Some ls \<Rightarrow> List.find (\<lambda>l. log_is_of_type l [EventLog_BridgeInitialization, EventLog_BridgeInitialize] \<and>
                   lower (lg_address l) = lower (ca_address c)) ls)))"

definition erc20_of_log :: "zk_lib \<Rightarrow> log_data \<Rightarrow> exn + erc20_data" where
  "erc20_of_log Z l =
     sbind (parseLog Z I_L2_STANDARD_ERC20 l) (\<lambda>d.
     sbind (arg d ''name'') (\<lambda>name.
     sbind (arg d ''symbol'') (\<lambda>symbol.
     sbind (arg d ''decimals'') (\<lambda>decimals.
     sbind (arg d ''l1Token'') (\<lambda>l1Token.
     Inr \<lparr>e2_symbol = symbol, e2_decimals = decimals, e2_name = name, e2_l1Address = l1Token\<rparr>)))))"

definition getERC20TokenData :: "blockchain \<Rightarrow> string \<Rightarrow> erc20_data option" where
  "getERC20TokenData C contractAddress =
     (case ch_getERC20TokenData C contractAddress of Inl _ \<Rightarrow> None | Inr d \<Rightarrow> Some d)"

definition getERC20Token ::
  "zk_lib \<Rightarrow> blockchain \<Rightarrow> contract_address \<Rightarrow> node_receipt option \<Rightarrow> exn + token_found option" where
  "getERC20Token Z C c receipt =
     sbind (fetcher_bridge_log C c receipt) (\<lambda>bridgeLog.
     sbind (case bridgeLog of
              Some l \<Rightarrow> sbind (erc20_of_log Z l) (\<lambda>d. Inr (Some d))
            | None \<Rightarrow> Inr (getERC20TokenData C (ca_address c))) (\<lambda>erc20Token.
     case erc20Token of
       None \<Rightarrow> Inr None
     | Some d \<Rightarrow>
         sbind (removeSpecialChars (e2_symbol d)) (\<lambda>symbol.
         sbind (removeSpecialChars (e2_name d)) (\<lambda>name.
         if \<not> abi_truthy symbol then Inr None
         else Inr (Some
           \<lparr>e2_symbol = symbol, e2_decimals = e2_decimals d, e2_name = name,
            e2_l1Address = (if lower (ca_address c) = BASE_TOKEN_ADDRESS then Some (VString ETH_L1_ADDRESS)
                            else e2_l1Address d),
            to_blockNumber = ca_blockNumber c, to_transactionHash = ca_transactionHash c,
            to_l2Address = ca_address c, to_logIndex = ca_logIndex c\<rparr>)))))"

section \<open>Logs\<close>

text \<open>\<open>contractAddresses\<close> and \<open>tokens\<close> are set only when there is a receipt.\<close>

record logs_data =
  ld_transfers :: "transfer list"
  ld_contractAddresses :: "contract_address list option"
  ld_tokens :: "token_found list option"

definition LogService_getData ::
  "zk_lib \<Rightarrow> blockchain \<Rightarrow> log_data list option \<Rightarrow> block_details \<Rightarrow> node_tx_details option \<Rightarrow>
     node_receipt option \<Rightarrow> (fetcher, logs_data) act" where
  "LogService_getData Z C logs bd td receipt =
     bind (of_sum (getTransfers Z logs bd td receipt)) (\<lambda>transfers.
     bind (modify (trackChangedBalances Z transfers)) (\<lambda>_.
     case receipt of
       None \<Rightarrow> ret \<lparr>ld_transfers = transfers, ld_contractAddresses = None, ld_tokens = None\<rparr>
     | Some r \<Rightarrow>
         bind (of_sum (getContractAddresses Z C logs r)) (\<lambda>addresses.
         bind (of_sum (map_act (\<lambda>c. getERC20Token Z C c (Some r)) addresses)) (\<lambda>tokens.
         ret \<lparr>ld_transfers = transfers, ld_contractAddresses = Some addresses,
              ld_tokens = Some (List.map_filter (\<lambda>t. t) tokens)\<rparr>))))"

section \<open>Transactions\<close>

record transaction_result =
  xr_logsData :: logs_data
  xr_transaction :: json
  xr_transactionReceipt :: node_receipt

definition put_truthy :: "string \<Rightarrow> string option \<Rightarrow> (string \<times> json) list" where
  "put_truthy k v = (case v of Some s \<Rightarrow> if s = [] then [] else [(k, JStr s)] | None \<Rightarrow> [])"

text \<open>
  \<open>{ ...transaction, ...transactionDetails, l1BatchNumber, receiptStatus }\<close>, and the error and the
  revert reason of a failed transaction. A block number or a status is a JSON number.
\<close>

definition transaction_info_of ::
  "(string \<times> json) list \<Rightarrow> node_tx_details \<Rightarrow> block_details \<Rightarrow> node_receipt \<Rightarrow> trace_result option \<Rightarrow> json" where
  "transaction_info_of tx td bd receipt tr =
     spread (spread (JObj tx) (dt_fields td))
       ([(''l1BatchNumber'', JNum (of_int (bd_l1BatchNumber bd))),
         (''receiptStatus'', case nr_status receipt of None \<Rightarrow> JNull | Some n \<Rightarrow> JNum (of_int n))] @
        (case tr of None \<Rightarrow> [] | Some r \<Rightarrow> put_truthy ''error'' (tx_error r) @ put_truthy ''revertReason'' (tx_revertReason r)))"

definition TransactionService_getData ::
  "zk_lib \<Rightarrow> blockchain \<Rightarrow> block_details \<Rightarrow> string \<Rightarrow> (fetcher, transaction_result) act" where
  "TransactionService_getData Z C bd hash =
     bind (of_sum (ch_getTransaction C hash)) (\<lambda>transaction.
     bind (of_sum (ch_getTransactionDetails C hash)) (\<lambda>details.
     bind (of_sum (ch_getTransactionReceipt C hash)) (\<lambda>receipt.
     case (transaction, details, receipt) of
       (Some tx, Some td, Some r) \<Rightarrow>
         bind (if nr_status r = Some 0 then of_sum (ch_debugTraceTransaction C hash) else ret None) (\<lambda>tr.
         bind (LogService_getData Z C (nr_logs r) bd (Some td) (Some r)) (\<lambda>logsData.
         ret \<lparr>xr_logsData = logsData, xr_transaction = transaction_info_of tx td bd r tr,
              xr_transactionReceipt = r\<rparr>))
     | _ \<Rightarrow> throw (LibError (JStr
         (''Some of the blockchain transaction APIs returned null for a transaction '' @ hash))))))"

section \<open>Blocks\<close>

record block_result =
  rs_block :: node_block
  rs_blockDetails :: block_details
  rs_transactions :: "transaction_result list"
  rs_blockLogs :: "log_data list"
  rs_blockTransfers :: "transfer list"
  rs_changedBalances :: "balance_record list"

fun map_each :: "('a \<Rightarrow> ('s, 'b) act) \<Rightarrow> 'a list \<Rightarrow> ('s, 'b list) act" where
  "map_each f [] = ret []"
| "map_each f (x # xs) = bind (f x) (\<lambda>y. bind (map_each f xs) (\<lambda>ys. ret (y # ys)))"

definition changed_balances :: "blockchain \<Rightarrow> int \<Rightarrow> (fetcher, balance_record list option) act" where
  "changed_balances C n = (\<lambda>s. (fst (getChangedBalances (ch_getBalance C) n s),
     Inr (snd (getChangedBalances (ch_getBalance C) n s))))"

text \<open>The logs of a block without transactions; \<open>None\<close> for a block that has some.\<close>

definition block_logs ::
  "zk_lib \<Rightarrow> blockchain \<Rightarrow> int \<Rightarrow> node_block \<Rightarrow> block_details \<Rightarrow> (fetcher, (log_data list \<times> logs_data) option) act" where
  "block_logs Z C n block bd =
     (if nb_transactions block = []
      then bind (of_sum (ch_getLogs C n n)) (\<lambda>logs.
           bind (LogService_getData Z C (Some logs) bd None None) (\<lambda>d. ret (Some (logs, d))))
      else ret None)"

definition BlockService_getData :: "zk_lib \<Rightarrow> blockchain \<Rightarrow> int \<Rightarrow> (fetcher, block_result option) act" where
  "BlockService_getData Z C n =
     bind (of_sum (ch_getBlock C n)) (\<lambda>block.
     bind (of_sum (ch_getBlockDetails C n)) (\<lambda>blockDetails.
     case (block, blockDetails) of
       (Some b, Some bd) \<Rightarrow>
         finally_do
           (bind (map_each (TransactionService_getData Z C bd) (nb_transactions b)) (\<lambda>transactions.
            bind (block_logs Z C n b bd) (\<lambda>blockLogData.
            bind (changed_balances C n) (\<lambda>balances.
            ret (Some \<lparr>rs_block = b, rs_blockDetails = bd, rs_transactions = transactions,
              rs_blockLogs = (case blockLogData of None \<Rightarrow> [] | Some (logs, _) \<Rightarrow> logs),
              rs_blockTransfers = (case blockLogData of None \<Rightarrow> [] | Some (_, d) \<Rightarrow> ld_transfers d),
              rs_changedBalances = (case balances of None \<Rightarrow> [] | Some bs \<Rightarrow> bs)\<rparr>)))))
           (clearTrackedState n)
     | _ \<Rightarrow> ret None))"

section \<open>The controller\<close>

record limited_int_options =
  lo_min :: "int option"
  lo_max :: "int option"
  lo_isOptional :: bool

definition MAX_SAFE_INTEGER :: int where
  "MAX_SAFE_INTEGER = 9007199254740991"

text \<open>
  \<open>parseInt\<close> is \<open>ParseIntPipe.transform\<close> of NestJS, a parameter. \<open>!value && value !== 0\<close> holds of
  \<open>undefined\<close>, \<open>null\<close> and the empty string.
\<close>

definition absent :: "json option \<Rightarrow> bool" where
  "absent v \<longleftrightarrow> v \<in> {None, Some JNull, Some (JStr []), Some (JBool False)}"

definition ParseLimitedIntPipe_transform ::
  "(json option \<Rightarrow> exn + int) \<Rightarrow> limited_int_options \<Rightarrow> json option \<Rightarrow> exn + int option" where
  "ParseLimitedIntPipe_transform parseInt opts v =
     (if absent v \<and> lo_isOptional opts then Inr None
      else
        sbind (parseInt v) (\<lambda>i.
        let lo = (case lo_min opts of None \<Rightarrow> 0 | Some m \<Rightarrow> m);
            hi = (case lo_max opts of None \<Rightarrow> MAX_SAFE_INTEGER | Some m \<Rightarrow> m)
        in if i < lo \<or> i > hi
           then Inl (HttpError (''Validation failed: specified int is out of defined boundaries: ['' @
                  show_int lo @ '';'' @ show_int hi @ ''].'') 400)
           else Inr (Some i)))"

definition getBlocks ::
  "zk_lib \<Rightarrow> blockchain \<Rightarrow> int \<Rightarrow> int \<Rightarrow> int option \<Rightarrow> (fetcher, block_result option list) act" where
  "getBlocks Z C maxBlocksBatchSize from to =
     (let to = (case to of None \<Rightarrow> from | Some t \<Rightarrow> t) in
      if to < from then throw (HttpError ''To block is less than from block.'' 400)
      else if to - from + 1 > maxBlocksBatchSize
      then throw (HttpError (''Max supported batch is '' @ show_int maxBlocksBatchSize @ ''.'') 400)
      else map_each (BlockService_getData Z C) [from..to])"

definition blocks_request ::
  "zk_lib \<Rightarrow> blockchain \<Rightarrow> (json option \<Rightarrow> exn + int) \<Rightarrow> int \<Rightarrow> json option \<Rightarrow> json option \<Rightarrow>
     (fetcher, block_result option list) act" where
  "blocks_request Z C parseInt maxBlocksBatchSize from to =
     bind (of_sum (ParseLimitedIntPipe_transform parseInt
       \<lparr>lo_min = Some 0, lo_max = None, lo_isOptional = False\<rparr> from)) (\<lambda>from.
     bind (of_sum (ParseLimitedIntPipe_transform parseInt
       \<lparr>lo_min = Some 0, lo_max = None, lo_isOptional = True\<rparr> to)) (\<lambda>to.
     bind (of_opt TypeError from) (\<lambda>from. getBlocks Z C maxBlocksBatchSize from to)))"

section \<open>What a request leaves behind and delivers\<close>

definition track_all :: "zk_lib \<Rightarrow> int \<Rightarrow> transfer list \<Rightarrow> fetcher \<Rightarrow> fetcher" where
  "track_all Z n ts s =
     (if ts = [] then s
      else s\<lparr>changedBalances := AList.update n (fold (track_transfer Z) ts (block_of s n)) (changedBalances s)\<rparr>)"

lemma track_all_Nil [simp]: "track_all Z n [] s = s"
  by (simp add: track_all_def)

lemma block_of_track_all: "block_of (track_all Z n ts s) n = fold (track_transfer Z) ts (block_of s n)"
  by (simp add: track_all_def block_of_def AList.update_conv')

lemma track_all_append: "track_all Z n us (track_all Z n ts s) = track_all Z n (ts @ us) s"
  using block_of_track_all [of Z n ts s] by (auto simp: track_all_def)

lemma track_all_is_track:
  "\<forall>t \<in> set ts. xf_blockNumber t = n \<Longrightarrow> trackChangedBalances Z ts s = track_all Z n ts s"
  by (cases ts) (auto simp: trackChangedBalances_def track_all_def block_of_def)

lemma clear_track_all:
  "map_of (changedBalances s) n = None \<Longrightarrow> clearTrackedState n (track_all Z n ts s) = s"
  by (cases s) (auto simp: clearTrackedState_def track_all_def AList.delete_update_same map_of_eq_None_iff)

text \<open>The computation only tracks transfers of the block; when it returns, those that \<open>get\<close> finds in its value.\<close>

definition tracks :: "zk_lib \<Rightarrow> int \<Rightarrow> ('a \<Rightarrow> transfer list) \<Rightarrow> (fetcher, 'a) act \<Rightarrow> bool" where
  "tracks Z n get m \<longleftrightarrow>
     (\<forall>s. \<exists>ts. fst (m s) = track_all Z n ts s \<and> (\<forall>a. snd (m s) = Inr a \<longrightarrow> get a = ts))"

lemma tracks_of_sum: "(\<And>a. get a = []) \<Longrightarrow> tracks Z n get (of_sum x)"
  by (auto simp: tracks_def act_simps intro: exI [of _ "[]"])

lemma tracks_ret: "get a = [] \<Longrightarrow> tracks Z n get (ret a)"
  by (auto simp: tracks_def act_simps intro: exI [of _ "[]"])

lemma tracks_throw: "tracks Z n get (throw e)"
  by (auto simp: tracks_def act_simps intro: exI [of _ "[]"])

lemma tracks_weaken: "tracks Z n get m \<Longrightarrow> (\<And>s a. snd (m s) = Inr a \<Longrightarrow> get' a = get a) \<Longrightarrow> tracks Z n get' m"
  unfolding tracks_def by metis

lemma tracks_bind:
  assumes m: "tracks Z n get m"
    and f: "\<And>s a. snd (m s) = Inr a \<Longrightarrow> tracks Z n (get' a) (f a)"
    and g: "\<And>s a t b. snd (m s) = Inr a \<Longrightarrow> snd (f a t) = Inr b \<Longrightarrow> g b = get a @ get' a b"
  shows "tracks Z n g (bind m f)"
  unfolding tracks_def
proof
  fix s
  from m obtain ts where ts: "fst (m s) = track_all Z n ts s" "\<forall>a. snd (m s) = Inr a \<longrightarrow> get a = ts"
    unfolding tracks_def by blast
  show "\<exists>ts. fst (bind m f s) = track_all Z n ts s \<and> (\<forall>a. snd (bind m f s) = Inr a \<longrightarrow> g a = ts)"
  proof (cases "snd (m s)")
    case (Inl e)
    with ts show ?thesis by (intro exI [of _ ts]) (auto simp: bind_def split: prod.splits)
  next
    case (Inr a)
    obtain us where us: "fst (f a (fst (m s))) = track_all Z n us (fst (m s))"
      "\<forall>b. snd (f a (fst (m s))) = Inr b \<longrightarrow> get' a b = us"
      using f [OF Inr] unfolding tracks_def by blast
    have "bind m f s = f a (fst (m s))" using Inr by (cases "m s") (simp add: bind_def)
    with us ts g [OF Inr] Inr show ?thesis
      by (intro exI [of _ "ts @ us"]) (simp add: track_all_append)
  qed
qed

lemma list_all2_set2: "list_all2 P xs ys \<Longrightarrow> y \<in> set ys \<Longrightarrow> \<exists>x \<in> set xs. P x y"
  by (induction rule: list_all2_induct) auto

lemma snd_bind_Inr: "snd (bind m f s) = Inr b \<Longrightarrow> \<exists>a. snd (m s) = Inr a \<and> snd (f a (fst (m s))) = Inr b"
  by (cases "m s") (auto simp: bind_def split: sum.splits)

lemma tracks_map_each:
  "(\<And>x. x \<in> set xs \<Longrightarrow> tracks Z n get (f x)) \<Longrightarrow> tracks Z n (\<lambda>ys. concat (map get ys)) (map_each f xs)"
proof (induction xs)
  case (Cons x xs)
  have inner: "tracks Z n (\<lambda>zs. concat (map get (tl zs))) (bind (map_each f xs) (\<lambda>ys. ret (y # ys)))" for y
    by (rule tracks_bind [where get' = "\<lambda>_ _. []", OF Cons.IH])
      (use Cons.prems in \<open>auto simp: act_simps intro: tracks_ret\<close>)
  have "b = y # tl b" if "snd (bind (map_each f xs) (\<lambda>ys. ret (y # ys)) t) = Inr b" for y b t
    using snd_bind_Inr [OF that] by (auto simp: act_simps)
  then have "concat (map get b) = get y @ concat (map get (tl b))"
    if "snd (bind (map_each f xs) (\<lambda>ys. ret (y # ys)) t) = Inr b" for y b t
    using that by (metis concat.simps(2) list.simps(9))
  then show ?case
    by (simp only: map_each.simps)
      (rule tracks_bind [where get = get and get' = "\<lambda>_ zs. concat (map get (tl zs))"]; (use Cons.prems inner in simp)?)
qed (simp add: tracks_ret)

lemma tracks_LogService:
  assumes "\<forall>ls. logs = Some ls \<longrightarrow> list_all (\<lambda>l. lg_blockNumber l = n) ls"
  shows "tracks Z n ld_transfers (LogService_getData Z C logs bd td receipt)"
  unfolding LogService_getData_def
proof (rule tracks_bind [where get = "\<lambda>_. []" and get' = "\<lambda>ts _. ts"])
  fix s :: fetcher and ts
  assume got: "snd (of_sum (getTransfers Z logs bd td receipt) s) = Inr ts"
  have "\<forall>t \<in> set ts. xf_blockNumber t = n"
  proof (cases logs)
    case None
    with got show ?thesis by (simp add: getTransfers_def act_simps)
  next
    case (Some ls)
    with got have "getTransfers Z (Some ls) bd td receipt = Inr ts" by (simp add: act_simps)
    from getTransfers_of_logs [OF this] have "list_all2 (transfer_of_log bd td) (filter (\<lambda>l. handlerForLog Z receipt l \<noteq> None) ls) ts" ..
    then show ?thesis
      using assms Some by (auto simp: transfer_of_log_def list_all_iff dest!: list_all2_set2)
  qed
  then have "tracks Z n (\<lambda>_. ts) (modify (trackChangedBalances Z ts))"
    by (auto simp: tracks_def act_simps track_all_is_track)
  then show "tracks Z n (\<lambda>_. ts) (bind (modify (trackChangedBalances Z ts)) (\<lambda>_. case receipt of
       None \<Rightarrow> ret \<lparr>ld_transfers = ts, ld_contractAddresses = None, ld_tokens = None\<rparr>
     | Some r \<Rightarrow>
         bind (of_sum (getContractAddresses Z C logs r)) (\<lambda>addresses.
         bind (of_sum (map_act (\<lambda>c. getERC20Token Z C c (Some r)) addresses)) (\<lambda>tokens.
         ret \<lparr>ld_transfers = ts, ld_contractAddresses = Some addresses,
              ld_tokens = Some (List.map_filter (\<lambda>t. t) tokens)\<rparr>))))"
    by (rule tracks_bind [where get' = "\<lambda>_ _. []"])
      (auto split: option.split intro!: tracks_ret tracks_bind [where get = "\<lambda>_. []" and get' = "\<lambda>_ _. []"] tracks_of_sum)
qed (auto simp: act_simps split: option.splits intro: tracks_of_sum dest!: snd_bind_Inr)

lemma tracks_TransactionService:
  assumes "\<forall>r ls. ch_getTransactionReceipt C hash = Inr (Some r) \<longrightarrow> nr_logs r = Some ls \<longrightarrow> list_all (\<lambda>l. lg_blockNumber l = n) ls"
  shows "tracks Z n (\<lambda>x. ld_transfers (xr_logsData x)) (TransactionService_getData Z C bd hash)"
proof -
  have step: "tracks Z n (\<lambda>x. ld_transfers (xr_logsData x)) (bind (of_sum e) f)"
    if "\<And>a. e = Inr a \<Longrightarrow> tracks Z n (\<lambda>x. ld_transfers (xr_logsData x)) (f a)"
    for e :: "exn + 'b" and f :: "'b \<Rightarrow> (fetcher, transaction_result) act"
    by (rule tracks_bind [where get = "\<lambda>_. []" and get' = "\<lambda>_ x. ld_transfers (xr_logsData x)"])
      (use that in \<open>auto simp: act_simps intro: tracks_of_sum\<close>)
  have rest: "tracks Z n (\<lambda>x. ld_transfers (xr_logsData x))
      (bind (LogService_getData Z C (nr_logs r) bd (Some td) (Some r)) (\<lambda>logsData.
         ret \<lparr>xr_logsData = logsData, xr_transaction = transaction_info_of tx td bd r tr, xr_transactionReceipt = r\<rparr>))"
    if "ch_getTransactionReceipt C hash = Inr (Some r)" for r tx td tr
    by (rule tracks_bind [where get = ld_transfers and get' = "\<lambda>_ _. []"])
      (use assms that in \<open>auto simp: act_simps intro!: tracks_LogService tracks_ret\<close>)
  have "tracks Z n (\<lambda>x. ld_transfers (xr_logsData x))
      (bind (if nr_status r = Some 0 then of_sum (ch_debugTraceTransaction C hash) else ret None) (\<lambda>tr.
       bind (LogService_getData Z C (nr_logs r) bd (Some td) (Some r)) (\<lambda>logsData.
         ret \<lparr>xr_logsData = logsData, xr_transaction = transaction_info_of tx td bd r tr, xr_transactionReceipt = r\<rparr>)))"
    if "ch_getTransactionReceipt C hash = Inr (Some r)" for r tx td
    using rest [OF that] by (cases "nr_status r = Some 0") (simp_all add: step)
  then show ?thesis
    unfolding TransactionService_getData_def
    by (intro step) (auto split: option.splits intro: tracks_throw)
qed

text \<open>The logs that the node gives for a block are of that block.\<close>

definition logs_are_of_block :: "blockchain \<Rightarrow> int \<Rightarrow> bool" where
  "logs_are_of_block C n \<longleftrightarrow>
     (\<forall>b. ch_getBlock C n = Inr (Some b) \<longrightarrow>
       (\<forall>h \<in> set (nb_transactions b). \<forall>r ls. ch_getTransactionReceipt C h = Inr (Some r) \<longrightarrow> nr_logs r = Some ls \<longrightarrow>
          list_all (\<lambda>l. lg_blockNumber l = n) ls)) \<and>
     (\<forall>ls. ch_getLogs C n n = Inr ls \<longrightarrow> list_all (\<lambda>l. lg_blockNumber l = n) ls)"

definition logs_transfers :: "(log_data list \<times> logs_data) option \<Rightarrow> transfer list" where
  "logs_transfers x = (case x of None \<Rightarrow> [] | Some (_, d) \<Rightarrow> ld_transfers d)"

lemma tracks_block_logs:
  assumes "\<forall>ls. ch_getLogs C n n = Inr ls \<longrightarrow> list_all (\<lambda>l. lg_blockNumber l = n) ls"
  shows "tracks Z n logs_transfers (block_logs Z C n b bd)"
proof (cases "nb_transactions b = []")
  case True
  have inner: "tracks Z n logs_transfers (bind (LogService_getData Z C (Some logs) bd None None) (\<lambda>d. ret (Some (logs, d))))"
    if "ch_getLogs C n n = Inr logs" for logs
    by (rule tracks_bind [where get = ld_transfers and get' = "\<lambda>_ _. []"])
      (use assms that in \<open>auto simp: act_simps logs_transfers_def intro!: tracks_LogService tracks_ret\<close>)
  have "tracks Z n logs_transfers (bind (of_sum (ch_getLogs C n n)) (\<lambda>logs.
      bind (LogService_getData Z C (Some logs) bd None None) (\<lambda>d. ret (Some (logs, d)))))"
    by (rule tracks_bind [where get = "\<lambda>_. []" and get' = "\<lambda>_. logs_transfers"])
      (use inner in \<open>auto simp: act_simps intro: tracks_of_sum\<close>)
  with True show ?thesis by (simp add: block_logs_def)
qed (simp add: block_logs_def tracks_ret logs_transfers_def)

subsection \<open>The state after a request\<close>

text \<open>The computation touches nothing but what is tracked for the block.\<close>

definition only_block :: "int \<Rightarrow> (fetcher, 'a) act \<Rightarrow> bool" where
  "only_block n m \<longleftrightarrow> (\<forall>s. clearTrackedState n (fst (m s)) = clearTrackedState n s)"

lemma only_block_effect_free: "effect_free m \<Longrightarrow> only_block n m"
  by (simp add: only_block_def effect_free_def)

lemma only_block_bind: "only_block n m \<Longrightarrow> (\<And>a. only_block n (f a)) \<Longrightarrow> only_block n (bind m f)"
  unfolding only_block_def bind_def by (auto split: prod.splits sum.splits) (metis fst_conv)+

lemma clear_track: "clearTrackedState n (track_all Z n ts s) = clearTrackedState n s"
  by (simp add: clearTrackedState_def track_all_def AList.delete_update_same)

lemma tracks_only_block: "tracks Z n get m \<Longrightarrow> only_block n m"
  unfolding tracks_def only_block_def by (metis clear_track)

lemma only_block_changed_balances: "only_block n (changed_balances C n)"
  by (auto simp: only_block_def changed_balances_def getChangedBalances_def Let_def clearTrackedState_def
      AList.delete_update_same split: option.split)

lemma finally_state: "only_block n m \<Longrightarrow> fst (finally_do m (clearTrackedState n) s) = clearTrackedState n s"
  by (simp add: finally_do_def only_block_def)

definition block_body :: "zk_lib \<Rightarrow> blockchain \<Rightarrow> int \<Rightarrow> node_block \<Rightarrow> block_details \<Rightarrow> (fetcher, block_result option) act" where
  "block_body Z C n b bd =
     bind (map_each (TransactionService_getData Z C bd) (nb_transactions b)) (\<lambda>transactions.
     bind (block_logs Z C n b bd) (\<lambda>blockLogData.
     bind (changed_balances C n) (\<lambda>balances.
     ret (Some \<lparr>rs_block = b, rs_blockDetails = bd, rs_transactions = transactions,
       rs_blockLogs = (case blockLogData of None \<Rightarrow> [] | Some (logs, _) \<Rightarrow> logs),
       rs_blockTransfers = (case blockLogData of None \<Rightarrow> [] | Some (_, d) \<Rightarrow> ld_transfers d),
       rs_changedBalances = (case balances of None \<Rightarrow> [] | Some bs \<Rightarrow> bs)\<rparr>))))"

lemma BlockService_getData_cases:
  obtains (thrown) e where "BlockService_getData Z C n s = (s, Inl e)"
  | (missing) "BlockService_getData Z C n s = (s, Inr None)"
  | (found) b bd where "ch_getBlock C n = Inr (Some b)" "ch_getBlockDetails C n = Inr (Some bd)"
      "BlockService_getData Z C n s = finally_do (block_body Z C n b bd) (clearTrackedState n) s"
proof (cases "ch_getBlock C n")
  case (Inl e)
  then show ?thesis by (intro thrown [of e]) (simp add: BlockService_getData_def act_simps)
next
  case block: (Inr x)
  show ?thesis
  proof (cases "ch_getBlockDetails C n")
    case (Inl e)
    with block show ?thesis by (intro thrown [of e]) (simp add: BlockService_getData_def act_simps)
  next
    case details: (Inr y)
    show ?thesis
    proof (cases "x = None \<or> y = None")
      case True
      with block details show ?thesis
        by (intro missing) (auto simp: BlockService_getData_def act_simps split: option.split)
    next
      case False
      then obtain b bd where "x = Some b" "y = Some bd" by auto
      with block details show ?thesis
        by (intro found [of b bd]) (simp_all add: BlockService_getData_def block_body_def)
    qed
  qed
qed

lemma tracks_transactions:
  assumes "logs_are_of_block C n" "ch_getBlock C n = Inr (Some b)"
  shows "tracks Z n (\<lambda>xs. concat (map (\<lambda>x. ld_transfers (xr_logsData x)) xs))
    (map_each (TransactionService_getData Z C bd) (nb_transactions b))"
  by (rule tracks_map_each, rule tracks_TransactionService) (use assms in \<open>auto simp: logs_are_of_block_def\<close>)

lemma only_block_body:
  assumes "logs_are_of_block C n" "ch_getBlock C n = Inr (Some b)"
  shows "only_block n (block_body Z C n b bd)"
  unfolding block_body_def
  using tracks_only_block [OF tracks_transactions [OF assms, of Z bd]]
    tracks_only_block [OF tracks_block_logs [of C n Z b bd]] assms(1)
  by (intro only_block_bind only_block_changed_balances) (auto simp: logs_are_of_block_def intro: only_block_effect_free)

lemma getData_state:
  assumes "logs_are_of_block C n" "map_of (changedBalances s) n = None"
  shows "fst (BlockService_getData Z C n s) = s"
proof (cases rule: BlockService_getData_cases [of Z C n s])
  case (found b bd)
  from finally_state [OF only_block_body [OF assms(1) found(1)]] found(3)
  have "fst (BlockService_getData Z C n s) = clearTrackedState n s" by simp
  with clear_track_all [OF assms(2), of Z "[]"] show ?thesis by simp
qed simp_all

subsection \<open>The answer for a block\<close>

definition block_transfers :: "block_result \<Rightarrow> transfer list" where
  "block_transfers r = concat (map (\<lambda>x. ld_transfers (xr_logsData x)) (rs_transactions r)) @ rs_blockTransfers r"

lemma map_each_results: "map_each f xs s = (t, Inr ys) \<Longrightarrow> list_all2 (\<lambda>x y. \<exists>u v. f x u = (v, Inr y)) xs ys"
  by (induction xs arbitrary: s ys) (auto simp: act_simps elim!: bind_returned, blast)

lemma balances_of_no_transfers: "balances_of_transfers Z B n [] []"
  by (simp add: balances_of_transfers_def)

lemma TransactionService_receipt:
  assumes "TransactionService_getData Z C bd hash s = (t, Inr x)"
  shows "ch_getTransactionReceipt C hash = Inr (Some (xr_transactionReceipt x))"
  using assms unfolding TransactionService_getData_def
  by (auto simp: act_simps split: option.splits elim!: bind_returned)

lemma block_body_returned:
  assumes "block_body Z C n b bd s = (t, Inr a)" "logs_are_of_block C n" "ch_getBlock C n = Inr (Some b)"
    "map_of (changedBalances s) n = None"
  obtains r where "a = Some r" "rs_block r = b" "rs_blockDetails r = bd"
    "list_all2 (\<lambda>h x. ch_getTransactionReceipt C h = Inr (Some (xr_transactionReceipt x))) (nb_transactions b) (rs_transactions r)"
    "balances_of_transfers Z (ch_getBalance C) n (block_transfers r) (rs_changedBalances r)"
proof -
  from assms(1) obtain xs s1 l s2 bs s3 where
    xs: "map_each (TransactionService_getData Z C bd) (nb_transactions b) s = (s1, Inr xs)" and
    l: "block_logs Z C n b bd s1 = (s2, Inr l)" and
    bs: "changed_balances C n s2 = (s3, Inr bs)" and
    a: "a = Some \<lparr>rs_block = b, rs_blockDetails = bd, rs_transactions = xs,
       rs_blockLogs = (case l of None \<Rightarrow> [] | Some (logs, _) \<Rightarrow> logs),
       rs_blockTransfers = (case l of None \<Rightarrow> [] | Some (_, d) \<Rightarrow> ld_transfers d),
       rs_changedBalances = (case bs of None \<Rightarrow> [] | Some bs \<Rightarrow> bs)\<rparr>" (is "a = Some ?r")
    unfolding block_body_def by (auto simp: act_simps elim!: bind_returned)
  let ?ts = "concat (map (\<lambda>x. ld_transfers (xr_logsData x)) xs) @ logs_transfers l"
  have s1: "s1 = track_all Z n (concat (map (\<lambda>x. ld_transfers (xr_logsData x)) xs)) s"
    using tracks_transactions [OF assms(2,3), of Z bd] xs unfolding tracks_def by (metis fst_conv snd_conv)
  have "tracks Z n logs_transfers (block_logs Z C n b bd)"
    using assms(2) by (intro tracks_block_logs) (simp add: logs_are_of_block_def)
  then have "s2 = track_all Z n (logs_transfers l) s1" using l unfolding tracks_def by (metis fst_conv snd_conv)
  then have s2: "s2 = track_all Z n ?ts s" by (simp add: s1 track_all_append)
  have ts: "block_transfers ?r = ?ts" by (simp add: block_transfers_def logs_transfers_def)
  have "balances_of_transfers Z (ch_getBalance C) n ?ts (case bs of None \<Rightarrow> [] | Some bs \<Rightarrow> bs)"
  proof (cases "?ts = []")
    case True
    with bs s2 assms(4) have "bs = None" by (simp add: changed_balances_def getChangedBalances_def)
    then show ?thesis unfolding True by (simp add: balances_of_no_transfers)
  next
    case False
    with s2 assms(4) have "map_of (changedBalances s2) n = Some (fold (track_transfer Z) ?ts [])"
      by (simp add: track_all_def AList.update_conv' block_of_def)
    from getChanged_of_transfers [OF this, of "ch_getBalance C"] bs show ?thesis
      by (auto simp: changed_balances_def)
  qed
  moreover have "list_all2 (\<lambda>h x. ch_getTransactionReceipt C h = Inr (Some (xr_transactionReceipt x))) (nb_transactions b) xs"
    using map_each_results [OF xs] by (rule list_all2_mono) (auto dest: TransactionService_receipt)
  ultimately show ?thesis using a ts by (intro that [of ?r]) auto
qed


subsection \<open>The answer to a request\<close>

lemma BlockService_getData_block:
  assumes "BlockService_getData Z C n s = (t, Inr a)"
  shows "case a of
     Some r \<Rightarrow> ch_getBlock C n = Inr (Some (rs_block r)) \<and> ch_getBlockDetails C n = Inr (Some (rs_blockDetails r))
   | None \<Rightarrow> ch_getBlock C n = Inr None \<or> ch_getBlockDetails C n = Inr None"
proof (cases "\<exists>b bd. ch_getBlock C n = Inr (Some b) \<and> ch_getBlockDetails C n = Inr (Some bd)")
  case True
  then obtain b bd where b: "ch_getBlock C n = Inr (Some b)" "ch_getBlockDetails C n = Inr (Some bd)" by blast
  then have "snd (BlockService_getData Z C n s) = snd (block_body Z C n b bd s)"
    by (simp add: BlockService_getData_def block_body_def finally_do_def)
  with assms have "snd (block_body Z C n b bd s) = Inr a" by simp
  then obtain r where "a = Some r" "rs_block r = b" "rs_blockDetails r = bd"
    unfolding block_body_def by (auto simp: act_simps dest!: snd_bind_Inr)
  with b show ?thesis by simp
next
  case False
  with assms show ?thesis
    unfolding BlockService_getData_def
    by (auto simp: act_simps bind_of_sum split: sum.splits option.splits)
qed

text \<open>\<open>b\<close> is the answer for block \<open>n\<close>.\<close>

definition answers_block :: "blockchain \<Rightarrow> int \<Rightarrow> block_result option \<Rightarrow> bool" where
  "answers_block C n a =
     (case a of
        Some r \<Rightarrow> ch_getBlock C n = Inr (Some (rs_block r)) \<and> ch_getBlockDetails C n = Inr (Some (rs_blockDetails r))
      | None \<Rightarrow> ch_getBlock C n = Inr None \<or> ch_getBlockDetails C n = Inr None)"

lemma getBlocks_returned:
  assumes "getBlocks Z C mx from to s = (t, Inr bs)" "upto_block = (case to of None \<Rightarrow> from | Some l \<Rightarrow> l)"
  shows "from \<le> upto_block \<and> upto_block - from + 1 \<le> mx \<and> list_all2 (answers_block C) [from..upto_block] bs"
proof -
  from assms have "from \<le> upto_block" "upto_block - from + 1 \<le> mx"
    and each: "map_each (BlockService_getData Z C) [from..upto_block] s = (t, Inr bs)"
    by (auto simp: getBlocks_def Let_def act_simps split: if_splits)
  moreover have "list_all2 (answers_block C) [from..upto_block] bs"
    using map_each_results [OF each]
    by (rule list_all2_mono) (auto simp: answers_block_def dest: BlockService_getData_block)
  ultimately show ?thesis by blast
qed

lemma transform_returned:
  assumes "ParseLimitedIntPipe_transform parseInt opts v = Inr a"
  shows "case a of
     None \<Rightarrow> absent v \<and> lo_isOptional opts
   | Some i \<Rightarrow> parseInt v = Inr i \<and> (case lo_min opts of None \<Rightarrow> 0 | Some m \<Rightarrow> m) \<le> i \<and>
       i \<le> (case lo_max opts of None \<Rightarrow> MAX_SAFE_INTEGER | Some m \<Rightarrow> m) \<and> \<not> (absent v \<and> lo_isOptional opts)"
  using assms by (auto simp: ParseLimitedIntPipe_transform_def Let_def split: if_splits elim!: sbind_returned)

text \<open>
  A request that is answered asks for a range of block numbers in order, of no more than the configured
  size and within the safe integers (the range of one block when \<open>to\<close> is absent), and its answer is one
  element for each number of the range, in order: the node's block of that number, or \<open>null\<close> when the
  node does not know it.
\<close>

theorem blocks_request_answers:
  assumes "blocks_request Z C parseInt mx from to s = (t, Inr bs)"
  shows "\<exists>f l. parseInt from = Inr f \<and> (if absent to then l = f else parseInt to = Inr l) \<and>
    0 \<le> f \<and> f \<le> l \<and> l \<le> MAX_SAFE_INTEGER \<and> int (length bs) = l - f + 1 \<and> int (length bs) \<le> mx \<and>
    list_all2 (answers_block C) [f..l] bs"
proof -
  from assms obtain fo lo where
    fo: "ParseLimitedIntPipe_transform parseInt \<lparr>lo_min = Some 0, lo_max = None, lo_isOptional = False\<rparr> from = Inr fo" and
    lo: "ParseLimitedIntPipe_transform parseInt \<lparr>lo_min = Some 0, lo_max = None, lo_isOptional = True\<rparr> to = Inr lo" and
    run: "bind (of_opt TypeError fo) (\<lambda>f. getBlocks Z C mx f lo) s = (t, Inr bs)"
    unfolding blocks_request_def by - ((erule bind_returned)+, auto simp: act_simps bind_Inr)
  from transform_returned [OF fo] obtain f where f: "fo = Some f" "parseInt from = Inr f" "0 \<le> f" "f \<le> MAX_SAFE_INTEGER"
    by (cases fo) auto
  define l where "l = (case lo of None \<Rightarrow> f | Some l \<Rightarrow> l)"
  have l: "l \<le> MAX_SAFE_INTEGER" "if absent to then l = f else parseInt to = Inr l"
    using transform_returned [OF lo] f by (auto simp: l_def split: option.splits)
  from run f(1) have "getBlocks Z C mx f lo s = (t, Inr bs)" by simp
  from getBlocks_returned [OF this l_def] have r: "f \<le> l" "l - f + 1 \<le> mx" "list_all2 (answers_block C) [f..l] bs" by blast+
  moreover have "int (length bs) = l - f + 1"
    using r(1) list_all2_lengthD [OF r(3)] by simp
  ultimately show ?thesis using f l by (intro exI [of _ f] exI [of _ l]) auto
qed

text \<open>
  A range that ends before it starts or that exceeds the configured size is answered with status 400,
  whatever the node holds and without a change of the state; so is a number out of bounds.
\<close>

theorem bad_ranges_rejected:
  assumes "parseInt from = Inr f" "parseInt to = Inr l" "\<not> absent to"
    and "f < 0 \<or> f > MAX_SAFE_INTEGER \<or> l < 0 \<or> l > MAX_SAFE_INTEGER \<or> l < f \<or> mx < l - f + 1"
  shows "\<exists>m. blocks_request Z C parseInt mx from to s = (s, Inl (HttpError m 400))"
  using assms
  by (auto simp: blocks_request_def ParseLimitedIntPipe_transform_def getBlocks_def Let_def act_simps)

section \<open>A concrete block\<close>

definition demo_node_block :: node_block where
  "demo_node_block = \<lparr>bk_number = 5, bk_hash = ''0x05'', bk_parentHash = Some ''0x04'', bk_nonce = ''0x00'',
     bk_difficulty = 0, bk_gasLimit = ''1'', bk_gasUsed = ''1'', bk_baseFeePerGas = ''1'', bk_miner = ''0x00'',
     bk_extraData = ''0x'', nb_transactions = [''0x77'']\<rparr>"

text \<open>Block 5 has one transaction, a deposit from L1; no other block is known. Balances of \<open>0xbb\<close> cannot be had.\<close>

definition demo_node :: blockchain where
  "demo_node = \<lparr>
     ch_getBlock = (\<lambda>n. Inr (if n = 5 then Some demo_node_block else None)),
     ch_getBlockDetails = (\<lambda>n. Inr (if n = 5 then Some demo_block_details else None)),
     ch_getTransaction = (\<lambda>_. Inr (Some [(''hash'', JStr ''0x77'')])),
     ch_getTransactionDetails = (\<lambda>_. Inr (Some demo_tx_details)),
     ch_getTransactionReceipt = (\<lambda>_. Inr (Some demo_receipt)),
     ch_getLogs = (\<lambda>_ _. Inr []),
     ch_getCode = (\<lambda>_. Inr ''0x''),
     ch_debugTraceTransaction = (\<lambda>_. Inr None),
     ch_getERC20TokenData = (\<lambda>_. Inl (LibError JNull)),
     ch_getBalance = (\<lambda>a n t. if a = ''0xbb'' then Inl (LibError JNull) else Inr 9),
     ch_l2Erc20DefaultBridge = Some ''0xb1''\<rparr>"

definition demo_fetcher :: fetcher where
  "demo_fetcher = \<lparr>changedBalances = []\<rparr>"

definition demo_answer :: "exn + block_result option" where
  "demo_answer = snd (BlockService_getData demo_zk demo_node 5 demo_fetcher)"

definition demo_parse_int :: "json option \<Rightarrow> exn + int" where
  "demo_parse_int v = (case v of Some (JNum r) \<Rightarrow> Inr (floor r) | _ \<Rightarrow> Inl (HttpError ''numeric string is expected'' 400))"

lemma demo_logs_of_block: "logs_are_of_block demo_node 5"
  by (simp add: logs_are_of_block_def demo_node_def demo_receipt_def demo_log_def demo_node_block_def)

lemma demo_changed_balances:
  "(case demo_answer of
      Inr (Some r) \<Rightarrow> map (\<lambda>b. (br_address b, br_balance b)) (rs_changedBalances r) | _ \<Rightarrow> []) =
     [(''0xaa'', Some 9), (''0x8001'', Some 9)]"
  by code_simp


theorem blocks_request_answers_witness:
  "\<exists>bs t. blocks_request demo_zk demo_node demo_parse_int 20 (Some (JNum 5)) (Some (JNum 6)) demo_fetcher = (t, Inr bs) \<and>
     length bs = 2 \<and> list_all2 (answers_block demo_node) [5..6] bs"
proof -
  have "isl (snd (blocks_request demo_zk demo_node demo_parse_int 20 (Some (JNum 5)) (Some (JNum 6)) demo_fetcher)) = False"
    by code_simp
  then obtain t bs where run:
    "blocks_request demo_zk demo_node demo_parse_int 20 (Some (JNum 5)) (Some (JNum 6)) demo_fetcher = (t, Inr bs)"
    by (cases "blocks_request demo_zk demo_node demo_parse_int 20 (Some (JNum 5)) (Some (JNum 6)) demo_fetcher"; cases "snd (blocks_request demo_zk demo_node demo_parse_int 20 (Some (JNum 5)) (Some (JNum 6)) demo_fetcher)") auto
  have "demo_parse_int (Some (JNum 5)) = Inr 5" "demo_parse_int (Some (JNum 6)) = Inr 6" "\<not> absent (Some (JNum 6))"
    by (simp_all add: demo_parse_int_def absent_def)
  with blocks_request_answers [OF run] have "length bs = 2" "list_all2 (answers_block demo_node) [5..6] bs" by auto
  with run show ?thesis by blast
qed

theorem bad_ranges_rejected_witness:
  "\<exists>m. blocks_request demo_zk demo_node demo_parse_int 20 (Some (JNum 5)) (Some (JNum 30)) demo_fetcher =
     (demo_fetcher, Inl (HttpError m 400))"
  by (rule bad_ranges_rejected [of _ _ 5 _ 30]) (simp_all add: demo_parse_int_def absent_def)

end
