(* ===== verification/Fetcher_Retries.thy ===== *)
theory Fetcher_Retries
  imports Worker_Retries
begin

text \<open>
  How the data fetcher repeats calls to the node (\<open>blockchain/blockchain.service.ts\<close> and
  \<open>blockchain/retryableContract.ts\<close> under \<open>src/packages/data-fetcher/src\<close>). Unlike the worker it gives up: once
  the delays would exceed a total, the last error is thrown. Which errors are permanent and which are
  repeated quickly is the same code as the worker's (theory Worker_Retries). The answers to the
  successive attempts are a sequence; the result is the answer and the delays between the attempts.
\<close>

partial_function (option) retry_capped ::
  "('e \<Rightarrow> bool) \<Rightarrow> ('e \<Rightarrow> nat \<Rightarrow> nat) \<Rightarrow> (nat \<Rightarrow> nat) \<Rightarrow> nat \<Rightarrow> (nat \<Rightarrow> 'e + 'a) \<Rightarrow> nat \<Rightarrow> nat \<Rightarrow> nat \<Rightarrow>
     (('e + 'a) \<times> nat list) option" where
  "retry_capped retryable delay next_timeout max_total attempt i timeout awaited =
     (case attempt i of
        Inr a \<Rightarrow> Some (Inr a, [])
      | Inl e \<Rightarrow>
          if \<not> retryable e \<or> awaited + delay e timeout > max_total then Some (Inl e, [])
          else
            Option.bind
              (retry_capped retryable delay next_timeout max_total attempt (i + 1) (next_timeout timeout)
                (awaited + delay e timeout))
              (\<lambda>(r, ds). Some (r, delay e timeout # ds)))"

text \<open>Every error is repeated, after the quick delay or the usual one.\<close>

definition fetcher_rpcCall ::
  "nat \<Rightarrow> nat \<Rightarrow> nat \<Rightarrow> (nat \<Rightarrow> ethers_error + 'a) \<Rightarrow> ((ethers_error + 'a) \<times> nat list) option" where
  "fetcher_rpcCall quick usual rpcCallRetriesMaxTotalTimeout action =
     retry_capped (\<lambda>_. True) (\<lambda>e _. rpc_delay quick usual e) (\<lambda>t. t) rpcCallRetriesMaxTotalTimeout action 0 0 0"

text \<open>A permanent error is not repeated; the delay doubles up to a minute.\<close>

definition fetcher_retryableFunctionCall ::
  "nat \<Rightarrow> (nat \<Rightarrow> ethers_error + 'a) \<Rightarrow> nat \<Rightarrow> ((ethers_error + 'a) \<times> nat list) option" where
  "fetcher_retryableFunctionCall rpcCallRetriesMaxTotalTimeout result retryTimeout =
     retry_capped shouldRetry (\<lambda>_ t. t) (\<lambda>t. min (t * 2) MAX_RETRY_INTERVAL) rpcCallRetriesMaxTotalTimeout
       result 0 retryTimeout 0"

text \<open>
  With positive delays the loop ends: at the first answer that is a value or is not repeated, or when
  the next delay would exceed the total.
\<close>

lemma retry_capped_ends:
  assumes "\<And>e t. P t \<Longrightarrow> 0 < delay e t" "\<And>t. P t \<Longrightarrow> P (nx t)"
  shows "P t \<Longrightarrow> awaited \<le> mx \<Longrightarrow>
    \<exists>ds. retry_capped retryable delay nx mx attempt i t awaited = Some (attempt (i + length ds), ds) \<and>
      awaited + sum_list ds \<le> mx \<and>
      (\<forall>j < length ds. \<exists>e. attempt (i + j) = Inl e \<and> retryable e \<and> ds ! j = delay e ((nx ^^ j) t)) \<and>
      (\<forall>e. attempt (i + length ds) = Inl e \<longrightarrow>
         \<not> retryable e \<or> mx < awaited + sum_list ds + delay e ((nx ^^ length ds) t))"
proof (induction "mx - awaited" arbitrary: i t awaited rule: less_induct)
  case less
  show ?case
  proof (cases "attempt i")
    case (Inr a)
    then show ?thesis
      using less.prems(2) by (intro exI [of _ "[]"]) (simp add: retry_capped.simps)
  next
    case (Inl e)
    show ?thesis
    proof (cases "\<not> retryable e \<or> awaited + delay e t > mx")
      case True
      with Inl less.prems(2) show ?thesis
        by (intro exI [of _ "[]"]) (auto simp: retry_capped.simps)
    next
      case False
      let ?w = "awaited + delay e t"
      have "mx - ?w < mx - awaited" using assms(1) [OF less.prems(1), of e] False by linarith
      from less.hyps [OF this assms(2) [OF less.prems(1)], of "i + 1"] False obtain ds where ds:
        "retry_capped retryable delay nx mx attempt (i + 1) (nx t) ?w = Some (attempt (i + 1 + length ds), ds)"
        "?w + sum_list ds \<le> mx"
        "\<forall>j < length ds. \<exists>e. attempt (i + 1 + j) = Inl e \<and> retryable e \<and> ds ! j = delay e ((nx ^^ j) (nx t))"
        "\<forall>e. attempt (i + 1 + length ds) = Inl e \<longrightarrow>
         \<not> retryable e \<or> mx < ?w + sum_list ds + delay e ((nx ^^ length ds) (nx t))"
        by auto
      have "retry_capped retryable delay nx mx attempt i t awaited = Some (attempt (i + Suc (length ds)), delay e t # ds)"
        using ds(1) False by (subst retry_capped.simps) (simp add: Inl)
      moreover have "\<forall>j < Suc (length ds). \<exists>e'. attempt (i + j) = Inl e' \<and> retryable e' \<and>
          (delay e t # ds) ! j = delay e' ((nx ^^ j) t)"
        using ds(3) Inl False by (auto simp: less_Suc_eq_0_disj funpow_swap1)
      ultimately show ?thesis
        using ds(2,4) by (intro exI [of _ "delay e t # ds"]) (auto simp: funpow_swap1 add.assoc)
    qed
  qed
qed

lemma fetcher_rpcCall_ends:
  assumes "0 < quick" "0 < usual"
  shows "\<exists>ds. fetcher_rpcCall quick usual mx action = Some (action (length ds), ds) \<and>
    sum_list ds \<le> mx \<and> length ds * min quick usual \<le> mx \<and>
    (\<forall>j < length ds. \<exists>e. action j = Inl e \<and> ds ! j = rpc_delay quick usual e) \<and>
    (\<forall>e. action (length ds) = Inl e \<longrightarrow> mx < sum_list ds + rpc_delay quick usual e)"
proof -
  have pos: "0 < rpc_delay quick usual e" for e using assms by (simp add: rpc_delay_def)
  obtain ds where ds: "fetcher_rpcCall quick usual mx action = Some (action (length ds), ds)" "sum_list ds \<le> mx"
    "\<forall>j < length ds. \<exists>e. action j = Inl e \<and> ds ! j = rpc_delay quick usual e"
    "\<forall>e. action (length ds) = Inl e \<longrightarrow> mx < sum_list ds + rpc_delay quick usual e"
    using retry_capped_ends [where P = "\<lambda>_. True" and delay = "\<lambda>e _. rpc_delay quick usual e" and nx = "\<lambda>t. t"
        and awaited = 0 and i = 0 and t = 0 and retryable = "\<lambda>_. True" and mx = mx and attempt = action, OF pos]
    by (auto simp: fetcher_rpcCall_def)
  have "\<forall>d \<in> set ds. min quick usual \<le> d"
    using ds(3) by (auto simp: in_set_conv_nth rpc_delay_def) (metis min.cobounded1 min.cobounded2)
  then have "length ds * min quick usual \<le> sum_list ds"
    by (induction ds) auto
  with ds show ?thesis by (intro exI [of _ ds]) auto
qed

text \<open>
  A call to the node always ends: with the answer of the last attempt, all earlier ones having failed,
  after delays that add up to the configured total at most, so after at most total / delay + 1
  attempts; and it fails only when one more delay would exceed the total.
\<close>

theorem fetcher_calls_end:
  assumes "0 < quick" "0 < usual"
  shows "\<exists>ds. fetcher_rpcCall quick usual mx action = Some (action (length ds), ds) \<and>
    sum_list ds \<le> mx \<and> length ds * min quick usual \<le> mx \<and>
    (\<forall>j < length ds. \<exists>e. action j = Inl e \<and> ds ! j = rpc_delay quick usual e) \<and>
    (\<forall>e. action (length ds) = Inl e \<longrightarrow> mx < sum_list ds + rpc_delay quick usual e)"
  using fetcher_rpcCall_ends [OF assms] .

theorem fetcher_calls_end_witness:
  "\<exists>ds. fetcher_rpcCall 5 30 60 (\<lambda>_. Inl \<lparr>er_code = JNum 3, er_shortMessage = None\<rparr> :: ethers_error + int) =
      Some (Inl \<lparr>er_code = JNum 3, er_shortMessage = None\<rparr>, ds) \<and> sum_list ds \<le> 60 \<and> length ds \<le> 12"
  using fetcher_calls_end [of 5 30 60 "\<lambda>_. Inl \<lparr>er_code = JNum 3, er_shortMessage = None\<rparr> :: ethers_error + int"] by auto

text \<open>A contract call ends too, and is not repeated after a permanent error.\<close>

lemma fetcher_contract_calls_end:
  assumes "0 < retryTimeout"
  shows "\<exists>ds. fetcher_retryableFunctionCall mx result retryTimeout = Some (result (length ds), ds) \<and>
    sum_list ds \<le> mx \<and>
    (\<forall>j < length ds. \<exists>e. result j = Inl e \<and> shouldRetry e \<and>
       ds ! j = ((\<lambda>t. min (t * 2) MAX_RETRY_INTERVAL) ^^ j) retryTimeout)"
proof -
  have pos: "0 < min (t * 2) MAX_RETRY_INTERVAL" if "0 < t" for t
    using that by (simp add: MAX_RETRY_INTERVAL_def)
  show ?thesis
    using retry_capped_ends [where P = "\<lambda>t. 0 < t" and delay = "\<lambda>_ t. t" and nx = "\<lambda>t. min (t * 2) MAX_RETRY_INTERVAL"
        and awaited = 0 and i = 0 and t = retryTimeout and retryable = shouldRetry and mx = mx and attempt = result]
      assms pos
    by (auto simp: fetcher_retryableFunctionCall_def)
qed

end
