(* ===== verification/Fetcher_Node.thy ===== *)
theory Fetcher_Node
  imports Fetcher_Blocks Fetcher_Retries
begin

text \<open>
  The methods of \<open>BlockchainService\<close> of the data fetcher (\<open>src/packages/data-fetcher/src/blockchain\<close>) over a node
  that may fail: what it answers to each attempt of a call is an argument, and the record \<open>blockchain\<close> with which
  the data of blocks are modelled (theory Fetcher_Blocks) is shown to be what these methods return. \<open>isETH\<close> of
  zksync-ethers is an argument, and so is the exception that an error of ethers is. Metrics and logs are left out.
\<close>

section \<open>The node\<close>

text \<open>The provider and the functions of a token contract: the last argument is the number of the attempt.\<close>

record node_provider =
  pv_getL1BatchNumber :: "nat \<Rightarrow> ethers_error + int"
  pv_getL1BatchDetails :: "int \<Rightarrow> nat \<Rightarrow> ethers_error + batch_row option"
  pv_getBlock :: "int \<Rightarrow> nat \<Rightarrow> ethers_error + node_block option"
  pv_getBlockNumber :: "nat \<Rightarrow> ethers_error + int"
  pv_getBlockDetails :: "int \<Rightarrow> nat \<Rightarrow> ethers_error + block_details option"
  pv_getTransaction :: "string \<Rightarrow> nat \<Rightarrow> ethers_error + (string \<times> json) list option"
  pv_getTransactionDetails :: "string \<Rightarrow> nat \<Rightarrow> ethers_error + node_tx_details option"
  pv_getTransactionReceipt :: "string \<Rightarrow> nat \<Rightarrow> ethers_error + node_receipt option"
  pv_getLogs :: "int \<Rightarrow> int \<Rightarrow> nat \<Rightarrow> ethers_error + log_data list"
  pv_getCode :: "string \<Rightarrow> nat \<Rightarrow> ethers_error + string"
  pv_getDefaultBridgeAddresses :: "nat \<Rightarrow> ethers_error + string \<times> string option"
  pv_send :: "string \<Rightarrow> json list \<Rightarrow> nat \<Rightarrow> ethers_error + trace_result option"
  pv_getBalance :: "string \<Rightarrow> int \<Rightarrow> string option \<Rightarrow> nat \<Rightarrow> ethers_error + int"
  pv_symbol :: "string \<Rightarrow> nat \<Rightarrow> ethers_error + abi_value"
  pv_decimals :: "string \<Rightarrow> nat \<Rightarrow> ethers_error + abi_value"
  pv_name :: "string \<Rightarrow> nat \<Rightarrow> ethers_error + abi_value"

record rpc_config =
  rc_quick :: nat
  rc_usual :: nat
  rc_maxTotal :: nat
  rc_contract :: nat

definition rpc_config_ok :: "rpc_config \<Rightarrow> bool" where
  "rpc_config_ok k \<longleftrightarrow> 0 < rc_quick k \<and> 0 < rc_usual k \<and> 0 < rc_contract k"

section \<open>blockchain.service.ts\<close>

text \<open>What a call returns or throws in the end, or \<open>None\<close> when it goes on for ever.\<close>

definition service_call :: "rpc_config \<Rightarrow> (nat \<Rightarrow> ethers_error + 'a) \<Rightarrow> (ethers_error + 'a) option" where
  "service_call k action = map_option fst (fetcher_rpcCall (rc_quick k) (rc_usual k) (rc_maxTotal k) action)"

definition service_getL1BatchNumber :: "rpc_config \<Rightarrow> node_provider \<Rightarrow> (ethers_error + int) option" where
  "service_getL1BatchNumber k p = service_call k (pv_getL1BatchNumber p)"

text \<open>The genesis batch is given dates.\<close>

definition service_getL1BatchDetails :: "rpc_config \<Rightarrow> node_provider \<Rightarrow> int \<Rightarrow> (ethers_error + batch_row option) option" where
  "service_getL1BatchDetails k p batchNumber =
     service_call k (\<lambda>i. case pv_getL1BatchDetails p batchNumber i of
         Inl e \<Rightarrow> Inl e
       | Inr batch \<Rightarrow> Inr (map_option (\<lambda>b.
           if batchNumber = 0 then b\<lparr>bt_committedAt := Some 0, bt_provenAt := Some 0, bt_executedAt := Some 0\<rparr> else b) batch))"

definition service_getBlock :: "rpc_config \<Rightarrow> node_provider \<Rightarrow> int \<Rightarrow> (ethers_error + node_block option) option" where
  "service_getBlock k p n = service_call k (pv_getBlock p n)"

definition service_getBlockNumber :: "rpc_config \<Rightarrow> node_provider \<Rightarrow> (ethers_error + int) option" where
  "service_getBlockNumber k p = service_call k (pv_getBlockNumber p)"

definition service_getBlockDetails :: "rpc_config \<Rightarrow> node_provider \<Rightarrow> int \<Rightarrow> (ethers_error + block_details option) option" where
  "service_getBlockDetails k p n = service_call k (pv_getBlockDetails p n)"

definition service_getTransaction ::
  "rpc_config \<Rightarrow> node_provider \<Rightarrow> string \<Rightarrow> (ethers_error + (string \<times> json) list option) option" where
  "service_getTransaction k p hash = service_call k (pv_getTransaction p hash)"

definition service_getTransactionDetails ::
  "rpc_config \<Rightarrow> node_provider \<Rightarrow> string \<Rightarrow> (ethers_error + node_tx_details option) option" where
  "service_getTransactionDetails k p hash = service_call k (pv_getTransactionDetails p hash)"

definition service_getTransactionReceipt ::
  "rpc_config \<Rightarrow> node_provider \<Rightarrow> string \<Rightarrow> (ethers_error + node_receipt option) option" where
  "service_getTransactionReceipt k p hash = service_call k (pv_getTransactionReceipt p hash)"

definition service_getLogs :: "rpc_config \<Rightarrow> node_provider \<Rightarrow> int \<Rightarrow> int \<Rightarrow> (ethers_error + log_data list) option" where
  "service_getLogs k p fromBlock toBlock = service_call k (pv_getLogs p fromBlock toBlock)"

definition service_getCode :: "rpc_config \<Rightarrow> node_provider \<Rightarrow> string \<Rightarrow> (ethers_error + string) option" where
  "service_getCode k p address = service_call k (pv_getCode p address)"

definition service_getDefaultBridgeAddresses ::
  "rpc_config \<Rightarrow> node_provider \<Rightarrow> (ethers_error + string \<times> string option) option" where
  "service_getDefaultBridgeAddresses k p = service_call k (pv_getDefaultBridgeAddresses p)"

definition service_debugTraceTransaction ::
  "rpc_config \<Rightarrow> node_provider \<Rightarrow> string \<Rightarrow> bool \<Rightarrow> (ethers_error + trace_result option) option" where
  "service_debugTraceTransaction k p txHash onlyTopCall =
     service_call k (pv_send p ''debug_traceTransaction''
       [JStr txHash, JObj [(''tracer'', JStr ''callTracer''), (''tracerConfig'', JObj [(''onlyTopCall'', JBool onlyTopCall)])]])"

definition service_getBalance ::
  "(string \<Rightarrow> bool) \<Rightarrow> rpc_config \<Rightarrow> node_provider \<Rightarrow> string \<Rightarrow> int \<Rightarrow> string \<Rightarrow> (ethers_error + int) option" where
  "service_getBalance isETH k p address blockNumber tokenAddress =
     service_call k (pv_getBalance p address blockNumber (if isETH tokenAddress then None else Some tokenAddress))"

text \<open>
  \<open>Promise.all\<close> over three calls that repeat on their own: their values, or the error of the call that fails first,
  after the delays that it has waited for.
\<close>

definition first_failure :: "((ethers_error + abi_value) \<times> nat list) list \<Rightarrow> ethers_error option" where
  "first_failure rs =
     map_option fst (fold (\<lambda>(r, ds) found.
         case r of
           Inr _ \<Rightarrow> found
         | Inl e \<Rightarrow>
             (case found of
                None \<Rightarrow> Some (e, sum_list ds)
              | Some (_, t) \<Rightarrow> if sum_list ds < t then Some (e, sum_list ds) else found)) rs None)"

definition service_getERC20TokenData ::
  "rpc_config \<Rightarrow> node_provider \<Rightarrow> string \<Rightarrow> (ethers_error + erc20_data) option" where
  "service_getERC20TokenData k p contractAddress =
     (let contract_call = (\<lambda>f. fetcher_retryableFunctionCall (rc_maxTotal k) (f contractAddress) (rc_contract k)) in
      Option.bind (contract_call (pv_symbol p)) (\<lambda>symbol.
      Option.bind (contract_call (pv_decimals p)) (\<lambda>decimals.
      Option.bind (contract_call (pv_name p)) (\<lambda>name.
      Some (case first_failure [symbol, decimals, name] of
              Some e \<Rightarrow> Inl e
            | None \<Rightarrow> Inr \<lparr>e2_symbol = Some (projr (fst symbol)), e2_decimals = Some (projr (fst decimals)),
                e2_name = Some (projr (fst name)), e2_l1Address = None\<rparr>)))))"

text \<open>On start the address of the bridge on L2, in lower case; when the node does not answer, the service does not start.\<close>

definition service_onModuleInit :: "rpc_config \<Rightarrow> node_provider \<Rightarrow> (ethers_error + string option) option" where
  "service_onModuleInit k p =
     map_option (\<lambda>r. case r of Inl e \<Rightarrow> Inl e | Inr (_, erc20L2) \<Rightarrow> Inr (map_option lower erc20L2))
       (service_getDefaultBridgeAddresses k p)"

section \<open>The answers that the data of blocks are made of\<close>

definition thrown_as :: "(ethers_error \<Rightarrow> exn) \<Rightarrow> ethers_error + 'a \<Rightarrow> exn + 'a" where
  "thrown_as thrown r = (case r of Inl e \<Rightarrow> Inl (thrown e) | Inr a \<Rightarrow> Inr a)"

text \<open>The record \<open>C\<close> is what the started service returns for each call.\<close>

definition served_by ::
  "(ethers_error \<Rightarrow> exn) \<Rightarrow> (string \<Rightarrow> bool) \<Rightarrow> rpc_config \<Rightarrow> node_provider \<Rightarrow> blockchain \<Rightarrow> bool" where
  "served_by thrown isETH k p C \<longleftrightarrow>
     (\<forall>n. map_option (thrown_as thrown) (service_getBlock k p n) = Some (ch_getBlock C n)) \<and>
     (\<forall>n. map_option (thrown_as thrown) (service_getBlockDetails k p n) = Some (ch_getBlockDetails C n)) \<and>
     (\<forall>h. map_option (thrown_as thrown) (service_getTransaction k p h) = Some (ch_getTransaction C h)) \<and>
     (\<forall>h. map_option (thrown_as thrown) (service_getTransactionDetails k p h) = Some (ch_getTransactionDetails C h)) \<and>
     (\<forall>h. map_option (thrown_as thrown) (service_getTransactionReceipt k p h) = Some (ch_getTransactionReceipt C h)) \<and>
     (\<forall>a b. map_option (thrown_as thrown) (service_getLogs k p a b) = Some (ch_getLogs C a b)) \<and>
     (\<forall>a. map_option (thrown_as thrown) (service_getCode k p a) = Some (ch_getCode C a)) \<and>
     (\<forall>h. map_option (thrown_as thrown) (service_debugTraceTransaction k p h True) = Some (ch_debugTraceTransaction C h)) \<and>
     (\<forall>a. map_option (thrown_as thrown) (service_getERC20TokenData k p a) = Some (ch_getERC20TokenData C a)) \<and>
     (\<forall>a n t. map_option (thrown_as thrown) (service_getBalance isETH k p a n t) = Some (ch_getBalance C a n t)) \<and>
     service_onModuleInit k p = Some (Inr (ch_l2Erc20DefaultBridge C))"

lemma service_call_answer:
  assumes "rpc_config_ok k"
  shows "\<exists>i. service_call k action = Some (action i) \<and> (\<forall>j < i. \<exists>e. action j = Inl e)"
proof -
  obtain ds where "fetcher_rpcCall (rc_quick k) (rc_usual k) (rc_maxTotal k) action = Some (action (length ds), ds)"
    "\<forall>j < length ds. \<exists>e. action j = Inl e \<and> ds ! j = rpc_delay (rc_quick k) (rc_usual k) e"
    using fetcher_rpcCall_ends [of "rc_quick k" "rc_usual k"] assms unfolding rpc_config_ok_def by blast
  then show ?thesis by (intro exI [of _ "length ds"]) (auto simp: service_call_def)
qed

lemma served_call:
  assumes "rpc_config_ok k"
  shows "\<exists>r. map_option (thrown_as thrown) (service_call k action) = Some r"
  using service_call_answer [OF assms, of action] by auto

lemma erc20_answer:
  assumes "rpc_config_ok k"
  shows "\<exists>r. service_getERC20TokenData k p a = Some r"
proof -
  have call: "\<exists>r. fetcher_retryableFunctionCall (rc_maxTotal k) f (rc_contract k) = Some r"
    for f :: "nat \<Rightarrow> ethers_error + abi_value"
    using fetcher_contract_calls_end [of "rc_contract k" "rc_maxTotal k" f] assms unfolding rpc_config_ok_def by fast
  obtain s d n where "fetcher_retryableFunctionCall (rc_maxTotal k) (pv_symbol p a) (rc_contract k) = Some s"
    "fetcher_retryableFunctionCall (rc_maxTotal k) (pv_decimals p a) (rc_contract k) = Some d"
    "fetcher_retryableFunctionCall (rc_maxTotal k) (pv_name p a) (rc_contract k) = Some n"
    using call by meson
  then show ?thesis by (simp add: service_getERC20TokenData_def Let_def)
qed

text \<open>The token data of a contract that answers every attempt.\<close>

lemma erc20_of_answers:
  assumes "pv_symbol p a 0 = Inr s" "pv_decimals p a 0 = Inr d" "pv_name p a 0 = Inr n"
  shows "service_getERC20TokenData k p a =
    Some (Inr \<lparr>e2_symbol = Some s, e2_decimals = Some d, e2_name = Some n, e2_l1Address = None\<rparr>)"
  using assms
  by (simp add: service_getERC20TokenData_def fetcher_retryableFunctionCall_def retry_capped.simps first_failure_def)

lemma served_unique:
  assumes "served_by thrown isETH k p C" "served_by thrown isETH k p D"
  shows "C = D"
proof (intro blockchain.equality)
  show "ch_getBlock C = ch_getBlock D" using assms unfolding served_by_def fun_eq_iff by (metis option.inject)
  show "ch_getBlockDetails C = ch_getBlockDetails D" using assms unfolding served_by_def fun_eq_iff by (metis option.inject)
  show "ch_getTransaction C = ch_getTransaction D" using assms unfolding served_by_def fun_eq_iff by (metis option.inject)
  show "ch_getTransactionDetails C = ch_getTransactionDetails D" using assms unfolding served_by_def fun_eq_iff by (metis option.inject)
  show "ch_getTransactionReceipt C = ch_getTransactionReceipt D" using assms unfolding served_by_def fun_eq_iff by (metis option.inject)
  show "ch_getLogs C = ch_getLogs D" using assms unfolding served_by_def fun_eq_iff by (metis option.inject)
  show "ch_getCode C = ch_getCode D" using assms unfolding served_by_def fun_eq_iff by (metis option.inject)
  show "ch_debugTraceTransaction C = ch_debugTraceTransaction D" using assms unfolding served_by_def fun_eq_iff by (metis option.inject)
  show "ch_getERC20TokenData C = ch_getERC20TokenData D" using assms unfolding served_by_def fun_eq_iff by (metis option.inject)
  show "ch_getBalance C = ch_getBalance D" using assms unfolding served_by_def fun_eq_iff by (metis option.inject)
  show "ch_l2Erc20DefaultBridge C = ch_l2Erc20DefaultBridge D" using assms unfolding served_by_def by simp
qed simp


text \<open>A node that refuses the first attempt of every call, and then answers as \<open>demo_node\<close> does.\<close>

definition refused_once :: "'a \<Rightarrow> nat \<Rightarrow> ethers_error + 'a" where
  "refused_once a i = (if i = 0 then Inl \<lparr>er_code = JStr ''ECONNREFUSED'', er_shortMessage = None\<rparr> else Inr a)"

definition demo_provider :: node_provider where
  "demo_provider = \<lparr>
     pv_getL1BatchNumber = refused_once 1, pv_getL1BatchDetails = (\<lambda>_. refused_once None),
     pv_getBlock = (\<lambda>n. refused_once (if n = 5 then Some demo_node_block else None)),
     pv_getBlockNumber = refused_once 5,
     pv_getBlockDetails = (\<lambda>n. refused_once (if n = 5 then Some demo_block_details else None)),
     pv_getTransaction = (\<lambda>_. refused_once (Some [(''hash'', JStr ''0x77'')])),
     pv_getTransactionDetails = (\<lambda>_. refused_once (Some demo_tx_details)),
     pv_getTransactionReceipt = (\<lambda>_. refused_once (Some demo_receipt)),
     pv_getLogs = (\<lambda>_ _. refused_once []), pv_getCode = (\<lambda>_. refused_once ''0x''),
     pv_getDefaultBridgeAddresses = refused_once (''0xb0'', Some ''0xB1''),
     pv_send = (\<lambda>_ _. refused_once None), pv_getBalance = (\<lambda>_ _ _. refused_once 9),
     pv_symbol = (\<lambda>_. refused_once (VString ''T'')), pv_decimals = (\<lambda>_. refused_once (VInt 18)),
     pv_name = (\<lambda>_. refused_once (VString ''Token''))\<rparr>"

definition demo_rpc :: rpc_config where
  "demo_rpc = \<lparr>rc_quick = 5, rc_usual = 30, rc_maxTotal = 60, rc_contract = 10\<rparr>"

lemma refused_once_call: "service_call demo_rpc (refused_once a) = Some (Inr a)"
  by (simp add: service_call_def fetcher_rpcCall_def retry_capped.simps refused_once_def demo_rpc_def rpc_delay_def
    errorCodesForQuickRetry_def)


end
