(* ===== verification/Api_Queries.thy ===== *)
theory Api_Queries
  imports Worker_Balances
begin

text \<open>
  What the services of the explorer's API share (\<open>src/packages/api/src/common\<close>): the pipes that check
  parameters, the formatting helpers and the pagination of queries, \<open>utils.ts\<close>. The API reads the
  tables that the worker writes, so a row is the worker's row. A query is a list of rows: the rows that
  satisfy its conditions, in its order; sorting by several columns is sorting by the last one first.
  The links of a page are made by the library nestjs-typeorm-paginate, an argument.
\<close>

section \<open>Pipes\<close>

definition bad_request :: "string \<Rightarrow> exn" where
  "bad_request m = HttpError m 400"

definition address_regex :: "string \<Rightarrow> bool" where
  "address_regex s \<longleftrightarrow>
     list_all is_hex_digit (if starts_with s ''0x'' then drop 2 s else s) \<and>
     length (if starts_with s ''0x'' then drop 2 s else s) = 40"

record address_pipe =
  ap_required :: bool
  ap_each :: bool
  ap_errorMessage :: string

definition parse_hex_address :: "address_pipe \<Rightarrow> string \<Rightarrow> exn + string" where
  "parse_hex_address p a = (if address_regex a then Inr (lower a) else Inl (bad_request (ap_errorMessage p)))"

text \<open>
  The text a regular expression is matched against: an array is joined with commas. No other value has
  the text of an address or a hash, so any other text does.
\<close>

fun regex_text :: "json \<Rightarrow> string" where
  "regex_text (JStr t) = t"
| "regex_text (JArr js) = join_with '','' (map regex_text js)"
| "regex_text _ = ''?''"

definition parse_address_item :: "address_pipe \<Rightarrow> json \<Rightarrow> exn + json" where
  "parse_address_item p j =
     (case j of
        JStr a \<Rightarrow> sbind (parse_hex_address p a) (\<lambda>b. Inr (JStr b))
      | _ \<Rightarrow> if address_regex (regex_text j) then Inl TypeError else Inl (bad_request (ap_errorMessage p)))"

definition ParseAddressPipe_transform :: "address_pipe \<Rightarrow> json option \<Rightarrow> exn + json option" where
  "ParseAddressPipe_transform p v =
     (if \<not> ap_required p \<and> \<not> truthy v then Inr v
      else if ap_each p then
        (case v of
           Some (JArr js) \<Rightarrow> sbind (map_act (parse_address_item p) js) (\<lambda>bs. Inr (Some (JArr bs)))
         | _ \<Rightarrow> Inl (bad_request (ap_errorMessage p)))
      else
        (case v of
           Some (JStr a) \<Rightarrow> sbind (parse_hex_address p a) (\<lambda>b. Inr (Some (JStr b)))
         | _ \<Rightarrow> Inl (bad_request (ap_errorMessage p))))"

definition hash_regex :: "string \<Rightarrow> bool" where
  "hash_regex h \<longleftrightarrow> starts_with h ''0x'' \<and> list_all is_hex_digit (drop 2 h) \<and> length (drop 2 h) = 64"

definition ParseTransactionHashPipe_transform :: "bool \<Rightarrow> string \<Rightarrow> json option \<Rightarrow> exn + json option" where
  "ParseTransactionHashPipe_transform is_required errorMessage v =
     (if \<not> is_required \<and> \<not> truthy v then Inr v
      else if hash_regex (case v of None \<Rightarrow> ''?'' | Some j \<Rightarrow> regex_text j) then Inr v
      else Inl (bad_request errorMessage))"

section \<open>Formatting: utils.ts\<close>

definition formatHexAddress :: "string \<Rightarrow> string option" where
  "formatHexAddress address = hex_col (Some address)"

definition getMethodId :: "string \<Rightarrow> string" where
  "getMethodId data = (if length data > 10 then take 10 data else ''0x'')"

definition dateToTimestamp :: "int \<Rightarrow> int" where
  "dateToTimestamp ms = ms div 1000"

definition numberToHex :: "int option \<Rightarrow> string" where
  "numberToHex num =
     (case num of None \<Rightarrow> ''0x''
      | Some n \<Rightarrow> ''0x'' @ show_int_hex n)"

text \<open>\<open>parseInt(s, 10)\<close>: the digits at the start, after white space and a sign; without a digit it is \<open>NaN\<close>.\<close>

fun decimal_value :: "nat \<Rightarrow> string \<Rightarrow> nat" where
  "decimal_value v [] = v"
| "decimal_value v (c # cs) = decimal_value (10 * v + (code c - 48)) cs"

definition js_parseInt :: "string \<Rightarrow> int option" where
  "js_parseInt s =
     (let t = dropWhile is_space s;
          neg = (case t of c # _ \<Rightarrow> c = CHR ''-'' | [] \<Rightarrow> False);
          u = (case t of c # cs \<Rightarrow> if c = CHR ''-'' \<or> c = CHR ''+'' then cs else t | [] \<Rightarrow> []);
          ds = takeWhile is_digit u
      in if ds = [] then None
         else Some (if neg then - int (decimal_value 0 ds) else int (decimal_value 0 ds)))"

definition parseIntToHex :: "string option \<Rightarrow> string" where
  "parseIntToHex numStr =
     (case numStr of
        None \<Rightarrow> ''0x''
      | Some s \<Rightarrow> (case js_parseInt s of None \<Rightarrow> ''0x'' | Some n \<Rightarrow> numberToHex (Some n)))"

text \<open>The condition on a date column; a date text names an instant, and the empty text is no date.\<close>

definition given :: "string option \<Rightarrow> bool" where
  "given d \<longleftrightarrow> d \<noteq> None \<and> d \<noteq> Some []"

definition buildDateFilter :: "(string \<Rightarrow> int) \<Rightarrow> string option \<Rightarrow> string option \<Rightarrow> int \<Rightarrow> bool" where
  "buildDateFilter date fromDate toDate t =
     (if given fromDate \<and> given toDate then date (the fromDate) \<le> t \<and> t \<le> date (the toDate)
      else (given fromDate \<longrightarrow> date (the fromDate) \<le> t) \<and> (given toDate \<longrightarrow> t \<le> date (the toDate)))"

section \<open>Queries\<close>

datatype SortingOrder = Desc | Asc

text \<open>\<open>orderBy(a).addOrderBy(b)\<close>, each in the given direction.\<close>

definition order_by2 :: "SortingOrder \<Rightarrow> ('r \<Rightarrow> int) \<Rightarrow> ('r \<Rightarrow> int) \<Rightarrow> 'r list \<Rightarrow> 'r list" where
  "order_by2 d a b rows =
     (case d of
        Asc \<Rightarrow> sort_key a (sort_key b rows)
      | Desc \<Rightarrow> sort_key (\<lambda>r. - a r) (sort_key (\<lambda>r. - b r) rows))"

definition page_of :: "nat \<Rightarrow> nat \<Rightarrow> 'r list \<Rightarrow> 'r list" where
  "page_of page limit rows = take limit (drop ((page - 1) * limit) rows)"

definition block_range :: "int option \<Rightarrow> int option \<Rightarrow> int \<Rightarrow> bool" where
  "block_range startBlock endBlock n \<longleftrightarrow>
     (case startBlock of None \<Rightarrow> True | Some s \<Rightarrow> s \<le> n) \<and> (case endBlock of None \<Rightarrow> True | Some e \<Rightarrow> n \<le> e)"

section \<open>Pagination: utils.ts\<close>

record paging_options =
  op_page :: nat
  op_limit :: nat
  op_maxLimit :: "nat option"
  op_filterOptions :: "(string \<times> string option) list"
  op_route :: string
  op_canUseNumberFilterAsOffset :: bool

record 'r pagination =
  pg_items :: "'r list"
  pg_totalItems :: int
  pg_currentPage :: nat
  pg_limit :: nat
  pg_links :: "(string \<times> string) list"

definition MIN_OFFSET_TO_USE_NUMBER_FILTER :: nat where
  "MIN_OFFSET_TO_USE_NUMBER_FILTER = 1000"

text \<open>The rows of the query once the number filter has been added to it.\<close>

definition uses_number_filter :: "paging_options \<Rightarrow> bool" where
  "uses_number_filter opts \<longleftrightarrow>
     op_canUseNumberFilterAsOffset opts \<and> (op_page opts - 1) * op_limit opts \<ge> MIN_OFFSET_TO_USE_NUMBER_FILTER"

definition number_filtered :: "('r \<Rightarrow> int) \<Rightarrow> nat \<Rightarrow> 'r list \<Rightarrow> 'r list" where
  "number_filtered num offset rows =
     (let topItemNumber = (case rows of [] \<Rightarrow> -1 | r # _ \<Rightarrow> num r)
      in filter (\<lambda>r. num r \<le> topItemNumber - int offset) rows)"

definition countQueryWithLimit :: "paging_options \<Rightarrow> 'r list \<Rightarrow> int" where
  "countQueryWithLimit opts rows =
     int (case op_maxLimit opts of None \<Rightarrow> length rows | Some m \<Rightarrow> min m (length rows))"

definition paginate_items :: "('r \<Rightarrow> int) \<Rightarrow> paging_options \<Rightarrow> 'r list \<Rightarrow> 'r list" where
  "paginate_items num opts rows =
     (let offset = (op_page opts - 1) * op_limit opts in
      if uses_number_filter opts then take (op_limit opts) (number_filtered num offset rows)
      else take (op_limit opts) (drop offset rows))"

definition paginateQueryBuilder ::
  "(paging_options \<Rightarrow> int \<Rightarrow> (string \<times> string) list) \<Rightarrow> ('r \<Rightarrow> int) \<Rightarrow> paging_options \<Rightarrow> int option \<Rightarrow> 'r list \<Rightarrow> 'r pagination" where
  "paginateQueryBuilder links num opts countQuery rows =
     (let total = (case countQuery of
            Some n \<Rightarrow> n
          | None \<Rightarrow> countQueryWithLimit opts
              (if uses_number_filter opts then number_filtered num ((op_page opts - 1) * op_limit opts) rows else rows))
      in \<lparr>pg_items = paginate_items num opts rows, pg_totalItems = total, pg_currentPage = op_page opts,
          pg_limit = op_limit opts, pg_links = links opts total\<rparr>)"

text \<open>Each link gets the filters of the request; \<open>enc\<close> is \<open>encodeURIComponent\<close>.\<close>

definition with_filters :: "(string \<Rightarrow> string) \<Rightarrow> (string \<times> string option) list \<Rightarrow> string \<Rightarrow> string" where
  "with_filters enc filters link =
     (if link = [] then link
      else fold (\<lambda>(k, v) l. case v of None \<Rightarrow> l | Some t \<Rightarrow> l @ ''&'' @ k @ ''='' @ enc t) filters link)"

definition api_paginate ::
  "(string \<Rightarrow> string) \<Rightarrow> (paging_options \<Rightarrow> int \<Rightarrow> (string \<times> string) list) \<Rightarrow> ('r \<Rightarrow> int) \<Rightarrow> paging_options \<Rightarrow>
     int option \<Rightarrow> 'r list \<Rightarrow> 'r pagination" where
  "api_paginate enc links num opts countQuery rows =
     (let result = paginateQueryBuilder links num opts countQuery rows
      in result\<lparr>pg_links := map (\<lambda>(k, l). (k, with_filters enc (op_filterOptions opts) l)) (pg_links result)\<rparr>)"

section \<open>The number filter is an offset\<close>

text \<open>Rows with consecutive numbers, the highest first, as a query over blocks or batches in descending order.\<close>

definition numbered_down :: "('r \<Rightarrow> int) \<Rightarrow> 'r list \<Rightarrow> bool" where
  "numbered_down num rows \<longleftrightarrow> (\<forall>i < length rows. num (rows ! i) = num (hd rows) - int i)"

lemma filter_by_index:
  "filter (\<lambda>r. num r \<le> num (hd rows) - int k) rows = drop k rows" if "numbered_down num rows"
proof -
  have "filter P xs = drop k xs" if "\<forall>i < length xs. P (xs ! i) \<longleftrightarrow> k \<le> i" for P :: "'a \<Rightarrow> bool" and xs
    using that
  proof (induction xs arbitrary: k)
    case (Cons x xs)
    show ?case
    proof (cases k)
      case 0
      with Cons.prems have "\<forall>y \<in> set (x # xs). P y" by (metis in_set_conv_nth le0)
      with 0 show ?thesis by simp
    next
      case (Suc j)
      have "\<forall>i < length xs. P (xs ! i) \<longleftrightarrow> j \<le> i" using Cons.prems Suc by force
      moreover have "\<not> P x" using Cons.prems Suc by force
      ultimately show ?thesis using Cons.IH Suc by simp
    qed
  qed simp
  then show ?thesis using that by (simp add: numbered_down_def)
qed

text \<open>
  A page far from the start, fetched by filtering on the number of the first row instead of skipping
  rows, holds the same rows as the offset would give, when the numbers are consecutive.
\<close>

theorem number_filter_is_offset:
  assumes "numbered_down num rows"
  shows "paginate_items num opts rows = page_of (op_page opts) (op_limit opts) rows"
proof (cases rows)
  case Nil
  then show ?thesis by (simp add: paginate_items_def page_of_def number_filtered_def Let_def)
next
  case (Cons r rs)
  then have "number_filtered num k rows = drop k rows" for k
    using filter_by_index [OF assms, of k] by (simp add: number_filtered_def)
  then show ?thesis by (simp add: paginate_items_def page_of_def Let_def)
qed

text \<open>Over rows with gaps it is not: the second row is skipped with the first.\<close>

lemma number_filter_with_gaps:
  "\<exists>opts. paginate_items (\<lambda>n. n) opts [5000, 3000, 2999] = [3000, 2999::int] \<and>
     page_of (op_page opts) (op_limit opts) [5000, 3000, 2999::int] = []"
  by (rule exI [of _ "\<lparr>op_page = 2, op_limit = 1000, op_maxLimit = None, op_filterOptions = [], op_route = [],
       op_canUseNumberFilterAsOffset = True\<rparr>"])
    (simp add: paginate_items_def page_of_def number_filtered_def uses_number_filter_def MIN_OFFSET_TO_USE_NUMBER_FILTER_def)

text \<open>
  The pages of a query are its rows, each once and in order: the first \<open>k\<close> pages one after the other are
  the first \<open>k * limit\<close> rows.
\<close>

theorem pages_cover:
  "concat (map (\<lambda>p. page_of p limit rows) [1..<Suc k]) = take (k * limit) rows"
proof (induction k)
  case (Suc k)
  have "take (Suc k * limit) rows = take (k * limit) rows @ page_of (Suc k) limit rows"
    unfolding page_of_def by (simp add: take_add [of "k * limit" limit, symmetric] add.commute)
  with Suc.IH show ?case by simp
qed simp

theorem number_filter_is_offset_witness:
  "paginate_items (\<lambda>n. n) \<lparr>op_page = 2, op_limit = 1, op_maxLimit = None, op_filterOptions = [], op_route = [],
     op_canUseNumberFilterAsOffset = True\<rparr> [3::int, 2] = [2]"
  using number_filter_is_offset [of "\<lambda>n. n" "[3::int, 2]" "\<lparr>op_page = 2, op_limit = 1, op_maxLimit = None, op_filterOptions = [],
     op_route = [], op_canUseNumberFilterAsOffset = True\<rparr>"]
  by (simp add: numbered_down_def less_Suc_eq page_of_def)

end
