(* ===== verification/Api_Services.thy ===== *)
theory Api_Services
  imports Api_Queries
begin

text \<open>
  The services of the explorer's API over the tables that the worker writes
  (\<open>src/packages/api/src\<close>: \<open>balance\<close>, \<open>block\<close>, \<open>batch\<close>, \<open>counter\<close>, \<open>log\<close>, \<open>token\<close>, \<open>transaction\<close>, \<open>transfer\<close>,
  \<open>address\<close>). A parameter that is an address or a hash is compared as the column stores it, \<open>hexc\<close>. A
  joined row is looked up by its key; the joined columns are the whole row. The services change nothing.
\<close>

section \<open>Balances: balance.service.ts\<close>

definition newest_balance :: "balance_row list \<Rightarrow> balance_row \<Rightarrow> bool" where
  "newest_balance rows b \<longleftrightarrow> list_all (\<lambda>c. bl_key c = bl_key b \<longrightarrow> bl_blockNumber c \<le> bl_blockNumber b) rows"

definition token_row_of :: "'z db_scheme \<Rightarrow> string \<Rightarrow> token_row option" where
  "token_row_of s a = find (\<lambda>k. tk_l2Address (k_token k) = a) (tokens s)"

text \<open>
  The configuration of the API: the tokens that need no row, and \<open>getAddress\<close> of ethers, through which
  every address column is read (\<open>normalizeAddress.transformer.ts\<close>; the columns hold twenty bytes, on
  which it does not throw).
\<close>

record api_config =
  checksum :: "string \<Rightarrow> string"
  baseToken :: token_row
  ethToken :: token_row

definition normalizeAddressTransformer_from :: "api_config \<Rightarrow> string option \<Rightarrow> string option" where
  "normalizeAddressTransformer_from A hex = map_option (checksum A) hex"

abbreviation l2Address :: "token_row \<Rightarrow> string" where
  "l2Address k \<equiv> tk_l2Address (k_token k)"

text \<open>\<open>populateBaseToken\<close>: a row whose token has no row is given the base token or ether when it is one of them.\<close>

definition populateBaseToken :: "api_config \<Rightarrow> string \<Rightarrow> token_row option \<Rightarrow> token_row option" where
  "populateBaseToken A tokenAddress tok =
     (if tokenAddress = [] \<or> tok \<noteq> None then tok
      else if lower tokenAddress = lower (l2Address (baseToken A)) then Some (baseToken A)
      else if lower tokenAddress = lower (l2Address (ethToken A)) then Some (ethToken A)
      else None)"

text \<open>The object \<open>balances\<close>: a later record of the same token replaces an earlier one.\<close>

definition latest_records :: "string \<Rightarrow> balance_row list \<Rightarrow> balance_row list" where
  "latest_records address rows = filter (\<lambda>b. bl_address b = hexc address \<and> newest_balance rows b) rows"

definition getBalances ::
  "api_config \<Rightarrow> string \<Rightarrow> 'z db_scheme \<Rightarrow> (string \<times> string \<times> token_row option) list \<times> int" where
  "getBalances A address s =
     (fold (\<lambda>b. put_pair (checksum A (bl_tokenAddress b))
          (bl_balance b, populateBaseToken A (checksum A (bl_tokenAddress b)) (token_row_of s (bl_tokenAddress b))))
        (latest_records address (balances s)) [],
      fold (\<lambda>b n. max n (bl_blockNumber b)) (latest_records address (balances s)) 0)"

definition or_zero :: "string option \<Rightarrow> string" where
  "or_zero v = (case v of None \<Rightarrow> ''0'' | Some b \<Rightarrow> if b = [] then ''0'' else b)"

definition api_getBalance :: "string \<Rightarrow> string \<Rightarrow> 'z db_scheme \<Rightarrow> string" where
  "api_getBalance address tokenAddress s =
     or_zero (map_option bl_balance
       (last_by bl_blockNumber (filter (\<lambda>b. bl_address b = hexc address \<and> bl_tokenAddress b = hexc tokenAddress) (balances s))))"

definition getBalancesByAddresses :: "string list \<Rightarrow> string \<Rightarrow> 'z db_scheme \<Rightarrow> balance_row list" where
  "getBalancesByAddresses addrs tokenAddress s =
     filter (\<lambda>b. bl_address b \<in> hexc ` set addrs \<and> bl_tokenAddress b = hexc tokenAddress \<and> newest_balance (balances s) b)
       (balances s)"

section \<open>Blocks and batches: block.service.ts, batch.service.ts\<close>

text \<open>\<open>x?.number || 0\<close>\<close>

definition number_or_zero :: "int option \<Rightarrow> int" where
  "number_or_zero n = (case n of None \<Rightarrow> 0 | Some i \<Rightarrow> i)"

definition getLastBlockNumber :: "'z db_scheme \<Rightarrow> int" where
  "getLastBlockNumber s = number_or_zero (map_option bk_number (last_by bk_number (blocks s)))"

definition batch_of :: "'z db_scheme \<Rightarrow> int \<Rightarrow> batch_row option" where
  "batch_of s n = find (\<lambda>b. bt_number b = n) (batches s)"

definition getLastVerifiedBlockNumber :: "'z db_scheme \<Rightarrow> int" where
  "getLastVerifiedBlockNumber s =
     number_or_zero (map_option bk_number (last_by bk_number
       (filter (\<lambda>b. Option.bind (batch_of s (b_l1BatchNumber b)) bt_executedAt \<noteq> None) (blocks s))))"

definition BlockService_findOne :: "int \<Rightarrow> 'z db_scheme \<Rightarrow> block_row option" where
  "BlockService_findOne n s = find (\<lambda>b. bk_number b = n) (blocks s)"

text \<open>\<open>getBlockNumber\<close> of the block nearest to an instant, before it or after it.\<close>

definition getBlockNumber :: "(block_row \<Rightarrow> bool) \<Rightarrow> (block_row \<Rightarrow> int) \<Rightarrow> 'z db_scheme \<Rightarrow> int option" where
  "getBlockNumber wher order s = map_option bk_number (last_by order (filter wher (blocks s)))"

text \<open>The count from the last and the first number; a last number of zero counts as no block.\<close>

definition count_by_number :: "('r \<Rightarrow> int) \<Rightarrow> 'r list \<Rightarrow> int" where
  "count_by_number num rows =
     (case (last_by num rows, last_by (\<lambda>r. - num r) rows) of
        (Some l, Some f) \<Rightarrow> if num l = 0 then 0 else num l - num f + 1
      | _ \<Rightarrow> 0)"

definition BlockService_findAll ::
  "(string \<Rightarrow> string) \<Rightarrow> (paging_options \<Rightarrow> int \<Rightarrow> (string \<times> string) list) \<Rightarrow> (block_row \<Rightarrow> bool) \<Rightarrow> paging_options \<Rightarrow>
     'z db_scheme \<Rightarrow> block_row pagination" where
  "BlockService_findAll enc links wher opts s =
     api_paginate enc links bk_number opts (Some (count_by_number bk_number (filter wher (blocks s))))
       (sort_key (\<lambda>b. - bk_number b) (filter wher (blocks s)))"

definition BlockService_findMany :: "string option \<Rightarrow> nat \<Rightarrow> nat \<Rightarrow> 'z db_scheme \<Rightarrow> block_row list" where
  "BlockService_findMany miner page offset s =
     page_of page offset (sort_key (\<lambda>b. - bk_number b)
       (filter (\<lambda>b. case miner of None \<Rightarrow> True | Some m \<Rightarrow> bk_miner b = hexc m) (blocks s)))"

definition getLastBatchNumber :: "(batch_row \<Rightarrow> bool) \<Rightarrow> 'z db_scheme \<Rightarrow> int" where
  "getLastBatchNumber wher s = number_or_zero (map_option bt_number (last_by bt_number (filter wher (batches s))))"

definition BatchService_findAll ::
  "(string \<Rightarrow> string) \<Rightarrow> (paging_options \<Rightarrow> int \<Rightarrow> (string \<times> string) list) \<Rightarrow> (batch_row \<Rightarrow> bool) \<Rightarrow> paging_options \<Rightarrow>
     'z db_scheme \<Rightarrow> batch_row pagination" where
  "BatchService_findAll enc links wher opts s =
     api_paginate enc links bt_number opts (Some (count_by_number bt_number (filter wher (batches s))))
       (sort_key (\<lambda>b. - bt_number b) (filter wher (batches s)))"

section \<open>Counters: counter.service.ts, counter.utils.ts, counter.config.ts\<close>

definition supported_criteria :: "string \<Rightarrow> string list list option" where
  "supported_criteria tableName =
     (if tableName = ''transactions'' then Some [[''from|to'']]
      else if tableName = ''transfers'' then Some [[''tokenAddress''], [''from|to''], [''tokenAddress'', ''from|to'']]
      else None)"

definition haveSameItems :: "string list \<Rightarrow> string list \<Rightarrow> bool" where
  "haveSameItems xs ys \<longleftrightarrow> length xs = length ys \<and> sort xs = sort ys"

definition isCounterSupported :: "string \<Rightarrow> counter_query \<Rightarrow> bool" where
  "isCounterSupported tableName criteria =
     (case supported_criteria tableName of
        None \<Rightarrow> False
      | Some cs \<Rightarrow> criteria = [] \<or> list_ex (haveSameItems (map fst criteria)) cs)"

definition CounterService_count :: "string \<Rightarrow> counter_query \<Rightarrow> 'z db_scheme \<Rightarrow> exn + int" where
  "CounterService_count tableName criteria s =
     (if \<not> isCounterSupported tableName criteria
      then Inl (LibError (JStr (''Counter for table '' @ tableName @ '' and criteria \"'' @ getQueryString criteria @
             ''\" is not supported'')))
      else Inr (case find (\<lambda>c. c_tableName c = tableName \<and> c_queryString c = getQueryString criteria) (counters s) of
                  None \<Rightarrow> 0 | Some c \<Rightarrow> c_count c))"

section \<open>Logs and tokens: log.service.ts, token.service.ts\<close>

definition tx_of :: "'z db_scheme \<Rightarrow> string option \<Rightarrow> transaction_row option" where
  "tx_of s h = (case h of None \<Rightarrow> None | Some h \<Rightarrow> find (\<lambda>t. tr_hash t = h) (transactions s))"

definition receipt_of_tx :: "'z db_scheme \<Rightarrow> string \<Rightarrow> receipt_row option" where
  "receipt_of_tx s h = find (\<lambda>r. r_transactionHash r = h) (receipts s)"

definition LogService_findAll ::
  "(string \<Rightarrow> string) \<Rightarrow> (paging_options \<Rightarrow> int \<Rightarrow> (string \<times> string) list) \<Rightarrow> (log_row \<Rightarrow> bool) \<Rightarrow> paging_options \<Rightarrow>
     'z db_scheme \<Rightarrow> log_row pagination" where
  "LogService_findAll enc links wher opts s =
     api_paginate enc links l_number opts None
       (sort_key (\<lambda>l. - l_timestamp l) (sort_key lg_index (filter wher (logs s))))"

definition LogService_findMany :: "string \<Rightarrow> int option \<Rightarrow> int option \<Rightarrow> nat \<Rightarrow> nat \<Rightarrow> 'z db_scheme \<Rightarrow> log_row list" where
  "LogService_findMany address fromBlock toBlock page offset s =
     page_of page offset (order_by2 Asc lg_blockNumber lg_index
       (filter (\<lambda>l. lg_address l = hexc address \<and> block_range fromBlock toBlock (lg_blockNumber l)) (logs s)))"

text \<open>The base token is known without a row: \<open>base\<close> is its configured description.\<close>

definition TokenService_findOne :: "token_row \<Rightarrow> string \<Rightarrow> string \<Rightarrow> 'z db_scheme \<Rightarrow> token_row option" where
  "TokenService_findOne base baseAddress address s =
     (case token_row_of s (hexc address) of
        Some k \<Rightarrow> Some k
      | None \<Rightarrow> if lower address = lower baseAddress then Some base else None)"

definition TokenService_exists :: "string \<Rightarrow> string \<Rightarrow> 'z db_scheme \<Rightarrow> bool" where
  "TokenService_exists baseAddress address s \<longleftrightarrow>
     token_row_of s (hexc address) \<noteq> None \<or> address = lower baseAddress"

text \<open>\<open>findAll\<close>: the tokens with the highest liquidity first, those without a known one last.\<close>

definition by_liquidity :: "token_row list \<Rightarrow> token_row list" where
  "by_liquidity rows =
     (let rs = sort_key (\<lambda>k. - tk_blockNumber (k_token k)) (sort_key (\<lambda>k. - tk_logIndex (k_token k)) rows)
      in sort_key (\<lambda>k. - the (k_liquidity k)) (filter (\<lambda>k. k_liquidity k \<noteq> None) rs) @
         filter (\<lambda>k. k_liquidity k = None) rs)"

definition TokenService_findAll ::
  "(string \<Rightarrow> string) \<Rightarrow> (paging_options \<Rightarrow> int \<Rightarrow> (string \<times> string) list) \<Rightarrow> int option \<Rightarrow> paging_options \<Rightarrow>
     'z db_scheme \<Rightarrow> token_row pagination" where
  "TokenService_findAll enc links minLiquidity opts s =
     api_paginate enc links k_number opts None (by_liquidity
       (filter (\<lambda>k. case minLiquidity of
            Some m \<Rightarrow> m \<ge> 0 \<longrightarrow> (case k_liquidity k of None \<Rightarrow> False | Some l \<Rightarrow> of_int m \<le> l)
          | None \<Rightarrow> True) (tokens s)))"

text \<open>A text that is neither missing nor empty.\<close>

definition asked :: "string option \<Rightarrow> bool" where
  "asked v \<longleftrightarrow> v \<noteq> None \<and> v \<noteq> Some []"

section \<open>Transactions: transaction.service.ts\<close>

definition TransactionService_findOne :: "string \<Rightarrow> 'z db_scheme \<Rightarrow> transaction_row option" where
  "TransactionService_findOne hash s = tx_of s (Some (hexc hash))"

text \<open>\<open>findByAddress\<close>: the rows of the address, with the transaction each refers to.\<close>

definition findByAddress ::
  "string \<Rightarrow> int option \<Rightarrow> int option \<Rightarrow> nat \<Rightarrow> nat \<Rightarrow> SortingOrder \<Rightarrow> 'z db_scheme \<Rightarrow>
     (address_transaction \<times> transaction_row option) list" where
  "findByAddress address startBlock endBlock page offset srt s =
     map (\<lambda>x. (x, tx_of s (Some (ax_transactionHash x))))
       (page_of page offset
         (case srt of
            Asc \<Rightarrow> sort_key ax_blockNumber (sort_key ax_receivedAt (sort_key ax_transactionIndex
              (filter (\<lambda>x. ax_address x = hexc address \<and> block_range startBlock endBlock (ax_blockNumber x)) (address_transactions s))))
          | Desc \<Rightarrow> sort_key (\<lambda>x. - ax_blockNumber x) (sort_key (\<lambda>x. - ax_receivedAt x) (sort_key (\<lambda>x. - ax_transactionIndex x)
              (filter (\<lambda>x. ax_address x = hexc address \<and> block_range startBlock endBlock (ax_blockNumber x)) (address_transactions s))))))"

text \<open>\<open>findAll\<close>: the transactions of an address, or those that satisfy the conditions.\<close>

definition TransactionService_findAll ::
  "(string \<Rightarrow> string) \<Rightarrow> (paging_options \<Rightarrow> int \<Rightarrow> (string \<times> string) list) \<Rightarrow> string option \<Rightarrow> int option \<Rightarrow> int option \<Rightarrow>
     (int \<Rightarrow> bool) \<Rightarrow> paging_options \<Rightarrow> 'z db_scheme \<Rightarrow> transaction_row option list" where
  "TransactionService_findAll enc links address blockNumber l1BatchNumber receivedAt opts s =
     (if asked address then
        map (\<lambda>x. tx_of s (Some (ax_transactionHash x)))
          (pg_items (api_paginate enc links ax_number opts None
            (sort_key (\<lambda>x. - ax_blockNumber x) (sort_key (\<lambda>x. - ax_receivedAt x) (sort_key (\<lambda>x. - ax_transactionIndex x)
              (filter (\<lambda>x. ax_address x = hexc (the address) \<and> receivedAt (ax_receivedAt x) \<and>
                 (case tx_of s (Some (ax_transactionHash x)) of
                    None \<Rightarrow> blockNumber = None \<and> l1BatchNumber = None
                  | Some t \<Rightarrow> blockNumber \<in> {None, Some (tr_blockNumber t)} \<and> l1BatchNumber \<in> {None, Some (tr_l1BatchNumber t)}))
                (address_transactions s)))))))
      else
        map Some (pg_items (api_paginate enc links t_number opts None
          (sort_key (\<lambda>t. - tr_blockNumber t) (sort_key (\<lambda>t. - tr_receivedAt t) (sort_key (\<lambda>t. - tr_index t)
            (filter (\<lambda>t. blockNumber \<in> {None, Some (tr_blockNumber t)} \<and> l1BatchNumber \<in> {None, Some (tr_l1BatchNumber t)} \<and>
               receivedAt (tr_receivedAt t)) (transactions s))))))))"

text \<open>The batch executed last; a comparison with \<open>NULL\<close> holds of no row.\<close>

definition last_verified_batch :: "'z db_scheme \<Rightarrow> int option" where
  "last_verified_batch s =
     map_option bt_number (last_by (\<lambda>b. the (bt_executedAt b))
       (sort_key bt_number (filter (\<lambda>b. bt_executedAt b \<noteq> None) (batches s))))"

definition getAccountNonce :: "string \<Rightarrow> bool \<Rightarrow> 'z db_scheme \<Rightarrow> int" where
  "getAccountNonce accountAddress isVerified s =
     (let own = filter (\<lambda>t. tr_from t = hexc accountAddress \<and> \<not> tr_isL1Originated t) (transactions s);
          rows = (if isVerified
                  then (case last_verified_batch s of None \<Rightarrow> [] | Some n \<Rightarrow> filter (\<lambda>t. tr_l1BatchNumber t \<le> n) own)
                  else own)
      in (case order_by2 Desc tr_l1BatchNumber tr_nonce rows of [] \<Rightarrow> 0 | t # _ \<Rightarrow> tr_nonce t + 1))"

section \<open>Transfers: transfer.service.ts\<close>

definition transfer_of :: "'z db_scheme \<Rightarrow> address_transfer \<Rightarrow> transfer_row option" where
  "transfer_of s x = find (\<lambda>t. f_number t = at_transferNumber x) (transfers s)"

definition TransferService_findAll ::
  "(string \<Rightarrow> string) \<Rightarrow> (paging_options \<Rightarrow> int \<Rightarrow> (string \<times> string) list) \<Rightarrow> string \<Rightarrow> (address_transfer \<Rightarrow> bool) \<Rightarrow>
     paging_options \<Rightarrow> 'z db_scheme \<Rightarrow> transfer_row option list \<times> address_transfer pagination" where
  "TransferService_findAll enc links address wher opts s =
     (let p = api_paginate enc links at_number opts None
        (sort_key (\<lambda>x. - at_timestamp x) (sort_key at_logIndex
          (filter (\<lambda>x. at_address x = hexc address \<and> wher x) (address_transfers s))))
      in (map (transfer_of s) (pg_items p), p))"

text \<open>Without an address the conditions are on the transfers themselves.\<close>

definition transfers_findAll ::
  "(string \<Rightarrow> string) \<Rightarrow> (paging_options \<Rightarrow> int \<Rightarrow> (string \<times> string) list) \<Rightarrow> (transfer_row \<Rightarrow> bool) \<Rightarrow>
     paging_options \<Rightarrow> 'z db_scheme \<Rightarrow> transfer_row pagination" where
  "transfers_findAll enc links wher opts s =
     api_paginate enc links f_number opts None
       (sort_key (\<lambda>t. - tf_timestamp t) (sort_key tf_logIndex (filter wher (transfers s))))"

definition findTokenTransfers ::
  "string option \<Rightarrow> string option \<Rightarrow> TokenType \<Rightarrow> int option \<Rightarrow> int option \<Rightarrow> nat \<Rightarrow> nat \<Rightarrow> SortingOrder \<Rightarrow>
     'z db_scheme \<Rightarrow> exn + transfer_row option list" where
  "findTokenTransfers tokenAddress address tokenType startBlock endBlock page offset srt s =
     (if asked address then
        Inr (map (transfer_of s) (page_of page offset (order_by2 srt at_blockNumber at_logIndex
          (filter (\<lambda>x. at_address x = hexc (the address) \<and>
             (if asked tokenAddress then at_tokenAddress x = hex_col tokenAddress else at_tokenType x = tokenType) \<and>
             block_range startBlock endBlock (at_blockNumber x)) (address_transfers s)))))
      else if \<not> asked tokenAddress then Inl (bad_request ''Error! Missing address or contract address'')
      else
        Inr (map Some (page_of page offset (order_by2 srt tf_blockNumber tf_logIndex
          (filter (\<lambda>t. tf_tokenAddress t = hex_col tokenAddress \<and> block_range startBlock endBlock (tf_blockNumber t))
            (transfers s))))))"

definition findInternalTransfers ::
  "string option \<Rightarrow> string option \<Rightarrow> int option \<Rightarrow> int option \<Rightarrow> nat \<Rightarrow> nat \<Rightarrow> SortingOrder \<Rightarrow>
     'z db_scheme \<Rightarrow> transfer_row option list" where
  "findInternalTransfers address transactionHash startBlock endBlock page offset srt s =
     (if asked address then
        map (transfer_of s) (page_of page offset (order_by2 srt at_blockNumber at_logIndex
          (filter (\<lambda>x. at_address x = hexc (the address) \<and> at_isInternal x \<and> block_range startBlock endBlock (at_blockNumber x))
            (address_transfers s))))
      else
        map Some (page_of page offset (order_by2 srt tf_blockNumber tf_logIndex
          (filter (\<lambda>t. (asked transactionHash \<longrightarrow> tf_transactionHash t = hex_col transactionHash) \<and> tf_isInternal t \<and>
             block_range startBlock endBlock (tf_blockNumber t)) (transfers s)))))"

section \<open>Addresses: address.service.ts\<close>

definition AddressService_findOne :: "string \<Rightarrow> 'z db_scheme \<Rightarrow> address_row option" where
  "AddressService_findOne address s = find (\<lambda>a. ad_address a = hexc address) (addresses s)"

definition findByAddresses :: "string list \<Rightarrow> 'z db_scheme \<Rightarrow> address_row list" where
  "findByAddresses addrs s = filter (\<lambda>a. ad_address a \<in> hexc ` set addrs) (addresses s)"

end
