(* ===== verification/Api_Controllers.thy ===== *)
theory Api_Controllers
  imports Api_Services
begin

text \<open>
  The endpoints of the explorer's API that block explorers' clients call
  (\<open>src/packages/api/src/api\<close>: the mappers, the controllers and the filter of exceptions) and the page of
  an address (\<open>address/address.controller.ts\<close>). A handler answers from the database or throws; the pipes of
  its parameters come first. Block numbers have gone through \<open>ParseLimitedIntPipe\<close>, and paging and sorting
  options are validated by class-validator, so they are numbers and an order here.
\<close>

section \<open>Answers\<close>

definition ResponseStatus_OK :: string where "ResponseStatus_OK = ''1''"
definition ResponseStatus_NOTOK :: string where "ResponseStatus_NOTOK = ''0''"

datatype ResponseMessage = OK | NOTOK | NO_DATA_FOUND | NO_RECORD_FOUND | NO_TRANSACTIONS_FOUND

fun response_text :: "ResponseMessage \<Rightarrow> string" where
  "response_text OK = ''OK''"
| "response_text NOTOK = ''NOTOK''"
| "response_text NO_DATA_FOUND = ''No data found''"
| "response_text NO_RECORD_FOUND = ''No record found''"
| "response_text NO_TRANSACTIONS_FOUND = ''No transactions found''"

record api_response =
  ar_status :: string
  ar_message :: string
  ar_result :: json

definition response :: "bool \<Rightarrow> ResponseMessage \<Rightarrow> json \<Rightarrow> api_response" where
  "response ok m r =
     \<lparr>ar_status = (if ok then ResponseStatus_OK else ResponseStatus_NOTOK), ar_message = response_text m, ar_result = r\<rparr>"

text \<open>The answer to a request for a list, which says when it is empty.\<close>

definition list_response :: "ResponseMessage \<Rightarrow> json list \<Rightarrow> api_response" where
  "list_response none_found items = (if items = [] then response False none_found (JArr []) else response True OK (JArr items))"

text \<open>An object literal; \<open>undefined\<close> fields are not sent.\<close>

definition fields_of :: "(string \<times> json option) list \<Rightarrow> json" where
  "fields_of kvs = JObj (map (\<lambda>(k, v). (k, the v)) (filter (\<lambda>(k, v). v \<noteq> None) kvs))"

definition nullable :: "string option \<Rightarrow> json option" where
  "nullable v = Some (case v of None \<Rightarrow> JNull | Some t \<Rightarrow> JStr t)"

abbreviation plain_text :: "string \<Rightarrow> json option" where
  "plain_text t \<equiv> Some (JStr t)"

abbreviation int_text :: "int \<Rightarrow> json option" where
  "int_text i \<equiv> Some (JStr (show_int i))"

section \<open>The status of a transaction: transaction.entity.ts\<close>

datatype TransactionStatus = Included | TxCommitted | Proved | Verified | Failed

definition transaction_status :: "int \<Rightarrow> batch_row option \<Rightarrow> TransactionStatus" where
  "transaction_status receiptStatus batch =
     (if receiptStatus = 0 then Failed
      else
        (case batch of
           Some b \<Rightarrow>
             if asked (bt_executeTxHash b) then Verified
             else if asked (bt_proveTxHash b) then Proved
             else if asked (bt_commitTxHash b) then TxCommitted
             else Included
         | None \<Rightarrow> Included))"

definition batch_hash :: "(batch_row \<Rightarrow> string option) \<Rightarrow> batch_row option \<Rightarrow> string option" where
  "batch_hash col batch = Option.bind batch col"

section \<open>Mappers\<close>

text \<open>\<open>BigInt(s)\<close>: hexadecimal or decimal digits, a sign before decimal ones; the empty text is zero.\<close>

fun hex_number :: "nat \<Rightarrow> string \<Rightarrow> nat" where
  "hex_number v [] = v"
| "hex_number v (c # cs) =
     hex_number (16 * v + (if is_digit c then code c - 48 else code (lower_char c) - 87)) cs"

definition js_BigInt :: "string \<Rightarrow> exn + int" where
  "js_BigInt s =
     (let t = trim s;
          u = (if starts_with t ''-'' \<or> starts_with t ''+'' then drop 1 t else t)
      in if t = [] then Inr 0
         else if starts_with t ''0x'' \<or> starts_with t ''0X'' then
           (if drop 2 t \<noteq> [] \<and> list_all is_hex_digit (drop 2 t) then Inr (int (hex_number 0 (drop 2 t)))
            else Inl (LibError (JStr (''Cannot convert '' @ s @ '' to a BigInt''))))
         else if u \<noteq> [] \<and> list_all is_digit u then
           Inr (if starts_with t ''-'' then - int (decimal_value 0 u) else int (decimal_value 0 u))
         else Inl (LibError (JStr (''Cannot convert '' @ s @ '' to a BigInt''))))"

text \<open>The transaction a row refers to, with its receipt; a field of an absent object throws.\<close>

definition the_row :: "'a option \<Rightarrow> exn + 'a" where
  "the_row v = (case v of None \<Rightarrow> Inl TypeError | Some a \<Rightarrow> Inr a)"

definition tx_field :: "transaction_row option \<Rightarrow> (transaction_row \<Rightarrow> json) \<Rightarrow> json option" where
  "tx_field tx f = map_option f tx"

definition receipt_field ::
  "'z db_scheme \<Rightarrow> transaction_row option \<Rightarrow> (receipt_row \<Rightarrow> json) \<Rightarrow> exn + json option" where
  "receipt_field s tx f =
     (case tx of
        None \<Rightarrow> Inr None
      | Some t \<Rightarrow> sbind (the_row (receipt_of_tx s (tr_hash t))) (\<lambda>r. Inr (Some (f r))))"

definition fee_field :: "transaction_row option \<Rightarrow> exn + json option" where
  "fee_field tx =
     (case tx of
        None \<Rightarrow> Inr None
      | Some t \<Rightarrow> if tr_fee t = [] then Inr None else sbind (js_BigInt (tr_fee t)) (\<lambda>i. Inr (int_text i)))"

definition contract_json :: "api_config \<Rightarrow> receipt_row \<Rightarrow> json" where
  "contract_json A r = the (nullable (normalizeAddressTransformer_from A (r_contractAddress r)))"

definition mapTransactionListItem ::
  "api_config \<Rightarrow> 'z db_scheme \<Rightarrow> int \<Rightarrow> transaction_row option \<Rightarrow> exn + json" where
  "mapTransactionListItem A s lastBlockNumber tx =
     sbind (the_row tx) (\<lambda>t.
     sbind (the_row (receipt_of_tx s (tr_hash t))) (\<lambda>r.
     sbind (js_BigInt (tr_fee t)) (\<lambda>fee.
     let batch = batch_of s (tr_l1BatchNumber t) in
     Inr (fields_of
       [(''blockNumber'', int_text (tr_blockNumber t)),
        (''timeStamp'', int_text (dateToTimestamp (tr_receivedAt t))),
        (''hash'', plain_text (tr_hash t)),
        (''nonce'', int_text (tr_nonce t)),
        (''blockHash'', plain_text (tr_blockHash t)),
        (''transactionIndex'', int_text (tr_index t)),
        (''from'', plain_text (checksum A (tr_from t))),
        (''to'', plain_text (checksum A (tr_to t))),
        (''value'', plain_text (tr_value t)),
        (''gas'', plain_text (tr_gasLimit t)),
        (''gasPrice'', plain_text (tr_gasPrice t)),
        (''isError'', plain_text (if transaction_status (tr_receiptStatus t) batch = Failed then ''1'' else ''0'')),
        (''txreceipt_status'', int_text (tr_receiptStatus t)),
        (''input'', plain_text (tr_data t)),
        (''contractAddress'', Some (contract_json A r)),
        (''cumulativeGasUsed'', plain_text (r_cumulativeGasUsed r)),
        (''gasUsed'', plain_text (r_gasUsed r)),
        (''confirmations'', int_text (lastBlockNumber - tr_blockNumber t)),
        (''fee'', int_text fee),
        (''commitTxHash'', nullable (batch_hash bt_commitTxHash batch)),
        (''proveTxHash'', nullable (batch_hash bt_proveTxHash batch)),
        (''executeTxHash'', nullable (batch_hash bt_executeTxHash batch)),
        (''isL1Originated'', plain_text (if tr_isL1Originated t then ''1'' else ''0'')),
        (''l1BatchNumber'', int_text (tr_l1BatchNumber t)),
        (''type'', int_text (tr_type t)),
        (''methodId'', plain_text (getMethodId (tr_data t))),
        (''functionName'', plain_text [])]))))"

definition mapInternalTransactionListItem ::
  "api_config \<Rightarrow> 'z db_scheme \<Rightarrow> transfer_row option \<Rightarrow> exn + json" where
  "mapInternalTransactionListItem A s transfer =
     sbind (the_row transfer) (\<lambda>f.
     let tx = tx_of s (tf_transactionHash f) in
     sbind (receipt_field s tx (contract_json A)) (\<lambda>contractAddress.
     sbind (receipt_field s tx (\<lambda>r. JStr (r_gasUsed r))) (\<lambda>gasUsed.
     sbind (fee_field tx) (\<lambda>fee.
     Inr (fields_of
       [(''blockNumber'', int_text (tf_blockNumber f)),
        (''timeStamp'', int_text (tf_timestamp f div 1000)),
        (''hash'', nullable (tf_transactionHash f)),
        (''from'', plain_text (checksum A (tf_from f))),
        (''to'', plain_text (checksum A (tf_to f))),
        (''value'', nullable (tf_amount f)),
        (''gas'', tx_field tx (\<lambda>t. JStr (tr_gasLimit t))),
        (''input'', plain_text []),
        (''type'', plain_text ''call''),
        (''contractAddress'', contractAddress),
        (''gasUsed'', gasUsed),
        (''fee'', fee),
        (''l1BatchNumber'', tx_field tx (\<lambda>t. JStr (show_int (tr_l1BatchNumber t)))),
        (''traceId'', plain_text ''0''),
        (''transactionType'', tx_field tx (\<lambda>t. JStr (show_int (tr_type t)))),
        (''isError'', plain_text (if map_option (\<lambda>t. transaction_status (tr_receiptStatus t) None) tx = Some Failed
           then ''1'' else ''0'')),
        (''errCode'', plain_text [])])))))"

text \<open>\<open>tokenId\<close> of the column \<open>fields\<close> is read by a parameter, for the column holds the text of an object.\<close>

definition mapTransferListItem ::
  "api_config \<Rightarrow> (string \<Rightarrow> json option) \<Rightarrow> 'z db_scheme \<Rightarrow> int \<Rightarrow> transfer_row option \<Rightarrow> exn + json" where
  "mapTransferListItem A tokenId s lastBlockNumber transfer =
     sbind (the_row transfer) (\<lambda>f.
     let tx = tx_of s (tf_transactionHash f);
         tokenAddress = normalizeAddressTransformer_from A (tf_tokenAddress f);
         tok = populateBaseToken A (case tokenAddress of None \<Rightarrow> [] | Some a \<Rightarrow> a)
           (Option.bind (tf_tokenAddress f) (token_row_of s))
     in
     sbind (receipt_field s tx (\<lambda>r. JStr (r_cumulativeGasUsed r))) (\<lambda>cumulativeGasUsed.
     sbind (receipt_field s tx (\<lambda>r. JStr (r_gasUsed r))) (\<lambda>gasUsed.
     sbind (fee_field tx) (\<lambda>fee.
     Inr (fields_of
       [(''blockNumber'', int_text (tf_blockNumber f)),
        (''timeStamp'', int_text (tf_timestamp f div 1000)),
        (''hash'', nullable (tf_transactionHash f)),
        (''nonce'', tx_field tx (\<lambda>t. JStr (show_int (tr_nonce t)))),
        (''blockHash'', tx_field tx (\<lambda>t. JStr (tr_blockHash t))),
        (''transactionIndex'', tx_field tx (\<lambda>t. JStr (show_int (tr_index t)))),
        (''from'', plain_text (checksum A (tf_from f))),
        (''to'', plain_text (checksum A (tf_to f))),
        (''value'', if asked (tf_amount f) then map_option JStr (tf_amount f) else None),
        (''tokenID'', Option.bind (tf_fields f) tokenId),
        (''tokenName'', Option.bind tok (\<lambda>k. nullable (tk_name (k_token k)))),
        (''tokenSymbol'', map_option (\<lambda>k. JStr (tk_symbol (k_token k))) tok),
        (''tokenDecimal'', map_option (\<lambda>k. JStr (show_int (tk_decimals (k_token k)))) tok),
        (''gas'', tx_field tx (\<lambda>t. JStr (tr_gasLimit t))),
        (''gasPrice'', tx_field tx (\<lambda>t. JStr (tr_gasPrice t))),
        (''input'', tx_field tx (\<lambda>t. JStr (tr_data t))),
        (''contractAddress'', nullable tokenAddress),
        (''cumulativeGasUsed'', cumulativeGasUsed),
        (''gasUsed'', gasUsed),
        (''confirmations'', int_text (lastBlockNumber - tf_blockNumber f)),
        (''fee'', fee),
        (''l1BatchNumber'', tx_field tx (\<lambda>t. JStr (show_int (tr_l1BatchNumber t)))),
        (''transactionType'', tx_field tx (\<lambda>t. JStr (show_int (tr_type t))))])))))"

definition mapLogListItem :: "api_config \<Rightarrow> 'z db_scheme \<Rightarrow> log_row \<Rightarrow> json" where
  "mapLogListItem A s l =
     (let tx = tx_of s (lg_transactionHash l) in
      fields_of
       [(''address'', plain_text (checksum A (lg_address l))),
        (''topics'', Some (JArr (map JStr (lg_topics l)))),
        (''data'', plain_text (lg_data l)),
        (''blockNumber'', plain_text (numberToHex (Some (lg_blockNumber l)))),
        (''timeStamp'', plain_text (numberToHex (Some (dateToTimestamp (l_timestamp l))))),
        (''gasPrice'', plain_text (parseIntToHex (map_option tr_gasPrice tx))),
        (''gasUsed'', plain_text (parseIntToHex (map_option r_gasUsed (Option.bind tx (\<lambda>t. receipt_of_tx s (tr_hash t)))))),
        (''logIndex'', plain_text (numberToHex (Some (lg_index l)))),
        (''transactionHash'', nullable (lg_transactionHash l)),
        (''transactionIndex'', plain_text (numberToHex (Some (lg_transactionIndex l))))])"

section \<open>Parameters\<close>

definition required_address :: "string \<Rightarrow> address_pipe" where
  "required_address m = \<lparr>ap_required = True, ap_each = False, ap_errorMessage = m\<rparr>"

definition optional_address :: "string \<Rightarrow> address_pipe" where
  "optional_address m = \<lparr>ap_required = False, ap_each = False, ap_errorMessage = m\<rparr>"

definition default_address :: address_pipe where
  "default_address = required_address ''Invalid Address format''"

text \<open>The parameter as the services use it; a value that is not given or empty is no text.\<close>

definition text_arg :: "exn + json option \<Rightarrow> exn + string option" where
  "text_arg r = sbind r (\<lambda>v. Inr (case v of Some j \<Rightarrow> (if truthy v then Some (regex_text j) else None) | None \<Rightarrow> None))"

definition api_address_param :: "address_pipe \<Rightarrow> json option \<Rightarrow> (string \<Rightarrow> exn + 'a) \<Rightarrow> exn + 'a" where
  "api_address_param p v k =
     sbind (text_arg (ParseAddressPipe_transform p v)) (\<lambda>a. case a of None \<Rightarrow> Inl TypeError | Some a \<Rightarrow> k a)"

section \<open>account.controller.ts\<close>

definition getAccountTransactions ::
  "api_config \<Rightarrow> json option \<Rightarrow> int option \<Rightarrow> int option \<Rightarrow> nat \<Rightarrow> nat \<Rightarrow> SortingOrder \<Rightarrow> 'z db_scheme \<Rightarrow> exn + api_response" where
  "getAccountTransactions A address startBlock endBlock page offset srt s =
     api_address_param default_address address (\<lambda>address.
     let lastBlockNumber = getLastBlockNumber s;
         transactions = findByAddress address startBlock endBlock page offset srt s
     in sbind (map_act (\<lambda>x. mapTransactionListItem A s lastBlockNumber (snd x)) transactions) (\<lambda>items.
        Inr (list_response NO_TRANSACTIONS_FOUND items)))"

definition getAccountInternalTransactions ::
  "api_config \<Rightarrow> json option \<Rightarrow> json option \<Rightarrow> int option \<Rightarrow> int option \<Rightarrow> nat \<Rightarrow> nat \<Rightarrow> SortingOrder \<Rightarrow> 'z db_scheme \<Rightarrow>
     exn + api_response" where
  "getAccountInternalTransactions A address txhash startBlock endBlock page offset srt s =
     sbind (text_arg (ParseAddressPipe_transform (optional_address ''Error! Invalid address format'') address)) (\<lambda>address.
     sbind (text_arg (ParseTransactionHashPipe_transform False ''Error! Invalid transaction hash format'' txhash)) (\<lambda>hash.
     sbind (map_act (mapInternalTransactionListItem A s)
         (findInternalTransfers address hash startBlock endBlock page offset srt s)) (\<lambda>items.
     Inr (list_response NO_TRANSACTIONS_FOUND items))))"

text \<open>\<open>tokentx\<close> and \<open>tokennfttx\<close>, which differ in the type of the tokens.\<close>

definition account_token_transfers ::
  "api_config \<Rightarrow> (string \<Rightarrow> json option) \<Rightarrow> TokenType \<Rightarrow> json option \<Rightarrow> json option \<Rightarrow> int option \<Rightarrow> int option \<Rightarrow> nat \<Rightarrow> nat \<Rightarrow>
     SortingOrder \<Rightarrow> 'z db_scheme \<Rightarrow> exn + api_response" where
  "account_token_transfers A tokenId tokenType address contractAddress startBlock endBlock page offset srt s =
     sbind (text_arg (ParseAddressPipe_transform (optional_address ''Error! Invalid address format'') address)) (\<lambda>address.
     sbind (text_arg (ParseAddressPipe_transform (optional_address ''Error! Invalid contract address format'') contractAddress))
       (\<lambda>contractAddress.
     let lastBlockNumber = getLastBlockNumber s in
     sbind (findTokenTransfers contractAddress address tokenType startBlock endBlock page offset srt s) (\<lambda>transfers.
     sbind (map_act (mapTransferListItem A tokenId s lastBlockNumber) transfers) (\<lambda>items.
     Inr (list_response NO_TRANSACTIONS_FOUND items)))))"

definition getAccountTokenTransfers ::
  "api_config \<Rightarrow> (string \<Rightarrow> json option) \<Rightarrow> json option \<Rightarrow> json option \<Rightarrow> int option \<Rightarrow> int option \<Rightarrow> nat \<Rightarrow> nat \<Rightarrow>
     SortingOrder \<Rightarrow> 'z db_scheme \<Rightarrow> exn + api_response" where
  "getAccountTokenTransfers A tokenId = account_token_transfers A tokenId ERC20"

definition getAccountNFTTransfers ::
  "api_config \<Rightarrow> (string \<Rightarrow> json option) \<Rightarrow> json option \<Rightarrow> json option \<Rightarrow> int option \<Rightarrow> int option \<Rightarrow> nat \<Rightarrow> nat \<Rightarrow>
     SortingOrder \<Rightarrow> 'z db_scheme \<Rightarrow> exn + api_response" where
  "getAccountNFTTransfers A tokenId = account_token_transfers A tokenId ERC721"

text \<open>\<open>base\<close> is the constant \<open>BASE_TOKEN_L2_ADDRESS\<close>, of zksync-ethers.\<close>

definition getAccountEtherBalance :: "string \<Rightarrow> json option \<Rightarrow> 'z db_scheme \<Rightarrow> exn + api_response" where
  "getAccountEtherBalance base address s =
     api_address_param default_address address (\<lambda>address.
     Inr (response True OK (JStr (api_getBalance address base s))))"

definition getAccountTokenBalance :: "json option \<Rightarrow> json option \<Rightarrow> 'z db_scheme \<Rightarrow> exn + api_response" where
  "getAccountTokenBalance address contractAddress s =
     api_address_param default_address address (\<lambda>address.
     api_address_param (required_address ''Invalid contractAddress format'') contractAddress (\<lambda>contractAddress.
     Inr (response True OK (JStr (api_getBalance address contractAddress s)))))"

text \<open>
  \<open>ParseArrayPipe\<close> of NestJS is a parameter, which splits the text at the commas; it gives \<open>None\<close> where it
  throws, and then the given exception is thrown.
\<close>

definition api_address_list ::
  "(json option \<Rightarrow> json option) \<Rightarrow> string \<Rightarrow> string \<Rightarrow> json option \<Rightarrow> exn + string list" where
  "api_address_list parseArray missing invalid v =
     (case parseArray v of
        None \<Rightarrow> Inl (bad_request missing)
      | Some j \<Rightarrow>
          sbind (ParseAddressPipe_transform \<lparr>ap_required = True, ap_each = True, ap_errorMessage = invalid\<rparr> (Some j))
            (\<lambda>r. Inr (case r of Some (JArr js) \<Rightarrow> map regex_text js | _ \<Rightarrow> [])))"

definition balance_of_account :: "api_config \<Rightarrow> balance_row list \<Rightarrow> string \<Rightarrow> string" where
  "balance_of_account A rows address =
     or_zero (map_option bl_balance (find (\<lambda>b. lower (checksum A (bl_address b)) = lower address) rows))"

definition getAccountsEtherBalances ::
  "api_config \<Rightarrow> string \<Rightarrow> (json option \<Rightarrow> json option) \<Rightarrow> json option \<Rightarrow> 'z db_scheme \<Rightarrow> exn + api_response" where
  "getAccountsEtherBalances A base parseArray address s =
     sbind (api_address_list parseArray ''Error! Missing address'' ''Error! Invalid address format'' address) (\<lambda>addrs.
     let uniqueAddresses = fold set_add addrs [] in
     if length uniqueAddresses > 20 then Inl (bad_request ''Maximum 20 addresses per request'')
     else
       let rows = getBalancesByAddresses addrs base s in
       Inr (response True OK (JArr (map (\<lambda>a. JObj [(''account'', JStr a), (''balance'', JStr (balance_of_account A rows a))]) addrs))))"

definition getAccountMinedBlocks :: "json option \<Rightarrow> nat \<Rightarrow> nat \<Rightarrow> 'z db_scheme \<Rightarrow> exn + api_response" where
  "getAccountMinedBlocks address page offset s =
     api_address_param default_address address (\<lambda>address.
     Inr (list_response NO_TRANSACTIONS_FOUND
       (map (\<lambda>b. JObj [(''blockNumber'', JStr (show_int (bk_number b))),
              (''timeStamp'', JStr (show_int (dateToTimestamp (b_timestamp b)))), (''blockReward'', JStr ''0'')])
         (BlockService_findMany (Some address) page offset s))))"

end
