(* ===== verification/Api_Endpoints.thy ===== *)
theory Api_Endpoints
  imports Api_Controllers
begin

text \<open>
  The other endpoints of the explorer's API: blocks, transactions, logs, tokens, statistics and contracts
  (\<open>src/packages/api/src/api\<close>), the page of an address (\<open>address/address.controller.ts\<close>), the routing of
  \<open>/api?module=..&action=..\<close> (\<open>api/api.controller.ts\<close>) and the filter of exceptions.
\<close>

section \<open>block.controller.ts\<close>

text \<open>\<open>timestamp\<close> is the parameter, a whole number of seconds.\<close>

definition closest_block :: "bool \<Rightarrow> int \<Rightarrow> 'z db_scheme \<Rightarrow> int option" where
  "closest_block before ms s =
     (if before then getBlockNumber (\<lambda>b. b_timestamp b \<le> ms) b_timestamp s
      else getBlockNumber (\<lambda>b. b_timestamp b \<ge> ms) (\<lambda>b. - b_timestamp b) s)"

definition getBlockNumberByTimestamp :: "int \<Rightarrow> string \<Rightarrow> 'z db_scheme \<Rightarrow> api_response" where
  "getBlockNumberByTimestamp timestamp closest s =
     (if closest \<notin> {''before'', ''after''} \<or> timestamp < 0 \<or> timestamp > 9999999999
      then response False NOTOK (JStr ''Error! Invalid parameter'')
      else
        (case closest_block (closest = ''before'') (timestamp * 1000) s of
           Some n \<Rightarrow> response True OK (JStr (show_int n))
         | None \<Rightarrow> response True NOTOK (JStr ''Error! No closest block found'')))"

definition getBlockCountdown :: "int \<Rightarrow> 'z db_scheme \<Rightarrow> api_response" where
  "getBlockCountdown blockNumber s =
     (let current = getLastBlockNumber s in
      if blockNumber \<le> current then response False NOTOK (JStr ''Error! Block number already pass'')
      else
        response True OK (JObj
          [(''CurrentBlock'', JStr (show_int current)), (''CountdownBlock'', JStr (show_int blockNumber)),
           (''RemainingBlock'', JStr (show_int (blockNumber - current))),
           (''EstimateTimeInSec'', JStr (show_int (blockNumber - current)))]))"

definition getBlockReward :: "int \<Rightarrow> 'z db_scheme \<Rightarrow> api_response" where
  "getBlockReward blockNumber s =
     (case BlockService_findOne blockNumber s of
        None \<Rightarrow> response False NO_RECORD_FOUND (JObj (map (\<lambda>k. (k, JNull))
          [''blockNumber'', ''timeStamp'', ''blockMiner'', ''blockReward'', ''uncles'', ''uncleInclusionReward'']))
      | Some b \<Rightarrow> response True OK (JObj
          [(''blockNumber'', JStr (show_int (bk_number b))), (''timeStamp'', JStr (show_int (dateToTimestamp (b_timestamp b)))),
           (''blockMiner'', JStr (bk_miner b)), (''blockReward'', JStr ''0''), (''uncles'', JArr []),
           (''uncleInclusionReward'', JStr ''0'')]))"

section \<open>transaction.controller.ts, log.controller.ts\<close>

definition hash_param :: "json option \<Rightarrow> (string \<Rightarrow> exn + 'a) \<Rightarrow> exn + 'a" where
  "hash_param v k =
     sbind (text_arg (ParseTransactionHashPipe_transform True ''Invalid transaction hash format'' v))
       (\<lambda>h. case h of None \<Rightarrow> Inl TypeError | Some h \<Rightarrow> k h)"

definition getTransactionStatus :: "json option \<Rightarrow> 'z db_scheme \<Rightarrow> exn + api_response" where
  "getTransactionStatus txhash s =
     hash_param txhash (\<lambda>h.
     let tx = TransactionService_findOne h s;
         hasError = (map_option (\<lambda>t. transaction_status (tr_receiptStatus t) (batch_of s (tr_l1BatchNumber t))) tx = Some Failed);
         description = (case tx of
             Some t \<Rightarrow> if asked (tr_error t) then the (tr_error t) else if asked (tr_revertReason t) then the (tr_revertReason t) else []
           | None \<Rightarrow> [])
     in Inr (response True OK (JObj
          [(''isError'', JStr (if hasError then ResponseStatus_OK else ResponseStatus_NOTOK)), (''errDescription'', JStr description)])))"

definition getTransactionReceiptStatus :: "json option \<Rightarrow> 'z db_scheme \<Rightarrow> exn + api_response" where
  "getTransactionReceiptStatus txhash s =
     hash_param txhash (\<lambda>h.
     Inr (response True OK (JObj [(''status'',
       JStr (case receipt_of_tx s (hexc h) of None \<Rightarrow> [] | Some r \<Rightarrow> show_int (r_status r)))])))"

definition api_getLogs ::
  "api_config \<Rightarrow> json option \<Rightarrow> int option \<Rightarrow> int option \<Rightarrow> nat \<Rightarrow> nat \<Rightarrow> 'z db_scheme \<Rightarrow> exn + api_response" where
  "api_getLogs A address fromBlock toBlock page offset s =
     api_address_param (required_address ''Error! Invalid address format'') address (\<lambda>address.
     Inr (list_response NO_RECORD_FOUND (map (mapLogListItem A s) (LogService_findMany address fromBlock toBlock page offset s))))"

section \<open>token.controller.ts, stats.controller.ts\<close>

text \<open>\<open>number\<close> is the text of a number column; a token of the configuration is given as it is.\<close>

definition or_empty :: "string option \<Rightarrow> json" where
  "or_empty v = JStr (case v of None \<Rightarrow> [] | Some t \<Rightarrow> t)"

definition token_info :: "(rat \<Rightarrow> string) \<Rightarrow> (string \<Rightarrow> string) \<Rightarrow> token_row \<Rightarrow> api_response" where
  "token_info number address k = response True OK (JArr [JObj
     [(''contractAddress'', JStr (address (l2Address k))),
      (''tokenName'', or_empty (tk_name (k_token k))),
      (''symbol'', JStr (tk_symbol (k_token k))),
      (''tokenDecimal'', JStr (show_int (tk_decimals (k_token k)))),
      (''tokenPriceUSD'', or_empty (map_option number (k_usdPrice k))),
      (''liquidity'', or_empty (map_option number (k_liquidity k))),
      (''l1Address'', or_empty (map_option address (tk_l1Address (k_token k)))),
      (''iconURL'', or_empty (k_iconURL k))]])"

definition tokenInfo ::
  "(rat \<Rightarrow> string) \<Rightarrow> api_config \<Rightarrow> string \<Rightarrow> json option \<Rightarrow> 'z db_scheme \<Rightarrow> exn + api_response" where
  "tokenInfo number A base contractAddress s =
     api_address_param (required_address ''Error! Invalid contract address format'') contractAddress (\<lambda>a.
     Inr (case TokenService_findOne (baseToken A) base a s of
            None \<Rightarrow> response False NO_DATA_FOUND (JArr [])
          | Some k \<Rightarrow> token_info number (if token_row_of s (hexc a) = None then (\<lambda>x. x) else checksum A) k))"

definition ethPrice :: "(rat \<Rightarrow> string) \<Rightarrow> api_config \<Rightarrow> string \<Rightarrow> 'z db_scheme \<Rightarrow> api_response" where
  "ethPrice number A base s =
     (case TokenService_findOne (baseToken A) base (l2Address (ethToken A)) s of
        None \<Rightarrow> response False NO_DATA_FOUND JNull
      | Some k \<Rightarrow> response True OK (JObj
          [(''ethusd'', or_empty (map_option number (k_usdPrice k))),
           (''ethusd_timestamp'', or_empty (map_option (\<lambda>t. show_int (dateToTimestamp t)) (k_offChainDataUpdatedAt k)))]))"

text \<open>\<open>GET /stats\<close>\<close>

record chain_stats =
  cs_lastSealedBatch :: int
  cs_lastVerifiedBatch :: int
  cs_lastSealedBlock :: int
  cs_lastVerifiedBlock :: int
  cs_totalTransactions :: int

definition get_stats :: "'z db_scheme \<Rightarrow> exn + chain_stats" where
  "get_stats s =
     sbind (CounterService_count ''transactions'' [] s) (\<lambda>total.
     Inr \<lparr>cs_lastSealedBatch = getLastBatchNumber (\<lambda>_. True) s,
          cs_lastVerifiedBatch = getLastBatchNumber (\<lambda>b. bt_executedAt b \<noteq> None) s,
          cs_lastSealedBlock = getLastBlockNumber s, cs_lastVerifiedBlock = getLastVerifiedBlockNumber s,
          cs_totalTransactions = total\<rparr>)"

section \<open>contract.controller.ts\<close>

definition getContractCreation ::
  "api_config \<Rightarrow> (json option \<Rightarrow> json option) \<Rightarrow> json option \<Rightarrow> 'z db_scheme \<Rightarrow> exn + api_response" where
  "getContractCreation A parseArray contractaddresses s =
     sbind (api_address_list parseArray ''Missing contract addresses'' ''Invalid contract addresses'' contractaddresses) (\<lambda>addrs.
     let uniqueAddresses = fold set_add addrs [] in
     if length uniqueAddresses > 5 then Inl (bad_request ''Maximum 5 contract addresses per request'')
     else
       let contracts = findByAddresses uniqueAddresses s in
       if contracts = [] then Inr (response False NO_DATA_FOUND JNull)
       else Inr (response True OK (JArr (map (\<lambda>c. fields_of
         [(''contractAddress'', plain_text (checksum A (ad_address c))),
          (''contractCreator'', nullable (normalizeAddressTransformer_from A (ad_creatorAddress c))),
          (''txHash'', nullable (ad_creatorTxHash c))]) contracts))))"

text \<open>The answer of the verification service: its data, or the status of the error if there was a response.\<close>

datatype verifier_answer = VData json | VError "int option" "json option"

definition internal_error :: "string \<Rightarrow> exn" where
  "internal_error m = HttpError m 500"

definition getContractAbi ::
  "(json \<Rightarrow> string) \<Rightarrow> (string \<Rightarrow> verifier_answer) \<Rightarrow> json option \<Rightarrow> exn + api_response" where
  "getContractAbi stringify verifier address =
     api_address_param default_address address (\<lambda>a.
     case verifier (''/contract_verification/info/'' @ a) of
       VError st _ \<Rightarrow>
         if st = Some 404 then Inl (bad_request ''Contract source code not verified'')
         else Inl (internal_error ''Failed to get contract ABI'')
     | VData d \<Rightarrow>
         sbind (access (Some d) ''artifacts'') (\<lambda>artifacts.
         if truthy (opt_access artifacts ''abi'')
         then Inr (response True OK (JStr (stringify (the (opt_access artifacts ''abi'')))))
         else Inl (bad_request ''Contract source code not verified'')))"

definition getVerificationStatus :: "(string \<Rightarrow> verifier_answer) \<Rightarrow> string option \<Rightarrow> exn + api_response" where
  "getVerificationStatus verifier guid =
     (if \<not> asked guid then Inl (bad_request ''Verification ID is not specified'')
      else
        (case verifier (''/contract_verification/'' @ the guid) of
           VError st _ \<Rightarrow>
             if st = Some 404 then Inl (bad_request ''Contract verification submission not found'')
             else Inl (internal_error ''Failed to get verification status'')
         | VData d \<Rightarrow>
             sbind (access (Some d) ''status'') (\<lambda>status.
             if status = plain_text ''successful'' then Inr (response True OK (JStr ''Pass - Verified''))
             else if status = plain_text ''queued'' then Inr (response True OK (JStr ''Pending in queue''))
             else if status = plain_text ''in_progress'' then Inr (response True OK (JStr ''In progress''))
             else sbind (access (Some d) ''error'') (\<lambda>e. Inr (response False NOTOK (case e of None \<Rightarrow> JNull | Some j \<Rightarrow> j))))))"

section \<open>address.controller.ts\<close>

datatype address_page =
    ContractPage (ap_row: address_row) (ap_block: "int option")
      (ap_balances: "(string \<times> string \<times> token_row option) list") (ap_totalTransactions: int)
  | AccountPage (ap_address: string) (ap_blockNumber: int)
      (ap_accountBalances: "(string \<times> string \<times> token_row option) list") (ap_sealedNonce: int) (ap_verifiedNonce: int)

text \<open>
  The row of a contract is read through the transformers; a row without bytecode (\<open>null\<close>) makes the
  property \<open>length\<close> throw.
\<close>

definition address_row_from :: "api_config \<Rightarrow> address_row \<Rightarrow> address_row" where
  "address_row_from A r = r\<lparr>ad_address := checksum A (ad_address r),
     ad_creatorAddress := normalizeAddressTransformer_from A (ad_creatorAddress r)\<rparr>"

definition long_bytecode :: "address_row option \<Rightarrow> exn + bool" where
  "long_bytecode r =
     (case r of
        None \<Rightarrow> Inr False
      | Some r \<Rightarrow> (case ad_bytecode r of None \<Rightarrow> Inl TypeError | Some b \<Rightarrow> Inr (length b > 2)))"

definition getAddress_page :: "api_config \<Rightarrow> json option \<Rightarrow> 'z db_scheme \<Rightarrow> exn + address_page" where
  "getAddress_page A address s =
     api_address_param default_address address (\<lambda>address.
     let addressRecord = AddressService_findOne address s;
         addressBalance = getBalances A address s
     in
     sbind (long_bytecode addressRecord) (\<lambda>is_contract.
     if is_contract then
       sbind (CounterService_count ''transactions'' [(''from|to'', FStr (hexc address))] s) (\<lambda>totalTransactions.
       Inr (ContractPage (address_row_from A (the addressRecord))
         (if snd addressBalance \<noteq> 0 then Some (snd addressBalance) else ad_createdInBlockNumber (the addressRecord))
         (fst addressBalance) totalTransactions))
     else if snd addressBalance \<noteq> 0 then
       Inr (AccountPage (checksum A address) (snd addressBalance) (fst addressBalance)
         (getAccountNonce address False s) (getAccountNonce address True s))
     else Inr (AccountPage (checksum A address) (getLastBlockNumber s) [] 0 0)))"

definition getAddressLogs ::
  "(string \<Rightarrow> string) \<Rightarrow> (paging_options \<Rightarrow> int \<Rightarrow> (string \<times> string) list) \<Rightarrow> json option \<Rightarrow> nat \<Rightarrow> nat \<Rightarrow> nat \<Rightarrow> 'z db_scheme \<Rightarrow>
     exn + log_row pagination" where
  "getAddressLogs enc links address page limit maxLimit s =
     api_address_param default_address address (\<lambda>address.
     Inr (LogService_findAll enc links (\<lambda>l. lg_address l = hexc address)
       \<lparr>op_page = page, op_limit = limit, op_maxLimit = Some maxLimit, op_filterOptions = [],
        op_route = ''address/'' @ address @ ''/logs'', op_canUseNumberFilterAsOffset = False\<rparr> s))"

text \<open>\<open>typ\<close> is the validated filter, \<open>typ_text\<close> its text in the query.\<close>

definition getAddressTransfers ::
  "(string \<Rightarrow> string) \<Rightarrow> (paging_options \<Rightarrow> int \<Rightarrow> (string \<times> string) list) \<Rightarrow> (string \<Rightarrow> int) \<Rightarrow> json option \<Rightarrow>
     (TransferType \<times> string) option \<Rightarrow> string option \<Rightarrow> string option \<Rightarrow> nat \<Rightarrow> nat \<Rightarrow> nat \<Rightarrow> 'z db_scheme \<Rightarrow>
     exn + transfer_row option list \<times> address_transfer pagination" where
  "getAddressTransfers enc links date address typ fromDate toDate page limit maxLimit s =
     api_address_param default_address address (\<lambda>address.
     Inr (TransferService_findAll enc links address
       (\<lambda>x. buildDateFilter date fromDate toDate (at_timestamp x) \<and>
          (case typ of Some (t, _) \<Rightarrow> at_type x = t | None \<Rightarrow> \<not> at_isFeeOrRefund x))
       \<lparr>op_page = page, op_limit = limit, op_maxLimit = Some maxLimit,
        op_filterOptions = [(''type'', map_option snd typ), (''fromDate'', fromDate), (''toDate'', toDate)],
        op_route = ''address/'' @ address @ ''/transfers'', op_canUseNumberFilterAsOffset = False\<rparr> s))"

section \<open>The pages of blocks, batches, transactions and tokens\<close>

definition no_such_item :: exn where
  "no_such_item = HttpError ''Not Found'' 404"

definition found :: "'a option \<Rightarrow> exn + 'a" where
  "found v = (case v of None \<Rightarrow> Inl no_such_item | Some a \<Rightarrow> Inr a)"

definition page_options :: "string \<Rightarrow> nat \<Rightarrow> nat \<Rightarrow> nat option \<Rightarrow> (string \<times> string option) list \<Rightarrow> bool \<Rightarrow> paging_options" where
  "page_options route page limit maxLimit filters byNumber =
     \<lparr>op_page = page, op_limit = limit, op_maxLimit = maxLimit, op_filterOptions = filters, op_route = route,
      op_canUseNumberFilterAsOffset = byNumber\<rparr>"

definition getBlocks_page ::
  "(string \<Rightarrow> string) \<Rightarrow> (paging_options \<Rightarrow> int \<Rightarrow> (string \<times> string) list) \<Rightarrow> (string \<Rightarrow> int) \<Rightarrow> string option \<Rightarrow> string option \<Rightarrow>
     nat \<Rightarrow> nat \<Rightarrow> 'z db_scheme \<Rightarrow> block_row pagination" where
  "getBlocks_page enc links date fromDate toDate page limit s =
     BlockService_findAll enc links (\<lambda>b. buildDateFilter date fromDate toDate (b_timestamp b))
       (page_options ''blocks'' page limit None [(''fromDate'', fromDate), (''toDate'', toDate)] True) s"

definition getBlock_page :: "int \<Rightarrow> 'z db_scheme \<Rightarrow> exn + block_row" where
  "getBlock_page n s = found (BlockService_findOne n s)"

definition getBatches_page ::
  "(string \<Rightarrow> string) \<Rightarrow> (paging_options \<Rightarrow> int \<Rightarrow> (string \<times> string) list) \<Rightarrow> (string \<Rightarrow> int) \<Rightarrow> string option \<Rightarrow> string option \<Rightarrow>
     nat \<Rightarrow> nat \<Rightarrow> 'z db_scheme \<Rightarrow> batch_row pagination" where
  "getBatches_page enc links date fromDate toDate page limit s =
     BatchService_findAll enc links (\<lambda>b. buildDateFilter date fromDate toDate (bt_timestamp b))
       (page_options ''batches'' page limit None [(''fromDate'', fromDate), (''toDate'', toDate)] True) s"

definition getBatch_page :: "int \<Rightarrow> 'z db_scheme \<Rightarrow> exn + batch_row" where
  "getBatch_page n s = found (batch_of s n)"

definition getTransactions_page ::
  "(string \<Rightarrow> string) \<Rightarrow> (paging_options \<Rightarrow> int \<Rightarrow> (string \<times> string) list) \<Rightarrow> (string \<Rightarrow> int) \<Rightarrow> string option \<Rightarrow>
     int option \<Rightarrow> int option \<Rightarrow> string option \<Rightarrow> string option \<Rightarrow> paging_options \<Rightarrow> 'z db_scheme \<Rightarrow> transaction_row option list" where
  "getTransactions_page enc links date address blockNumber l1BatchNumber fromDate toDate opts s =
     TransactionService_findAll enc links address blockNumber l1BatchNumber (buildDateFilter date fromDate toDate) opts s"

definition getTransaction_page :: "json option \<Rightarrow> 'z db_scheme \<Rightarrow> exn + transaction_row" where
  "getTransaction_page transactionHash s = hash_param transactionHash (\<lambda>h. found (TransactionService_findOne h s))"

definition TransactionService_exists :: "string \<Rightarrow> 'z db_scheme \<Rightarrow> bool" where
  "TransactionService_exists hash s \<longleftrightarrow> tx_of s (Some (hexc hash)) \<noteq> None"

definition getTransactionTransfers ::
  "(string \<Rightarrow> string) \<Rightarrow> (paging_options \<Rightarrow> int \<Rightarrow> (string \<times> string) list) \<Rightarrow> json option \<Rightarrow> nat \<Rightarrow> nat \<Rightarrow> nat \<Rightarrow> 'z db_scheme \<Rightarrow>
     exn + transfer_row pagination" where
  "getTransactionTransfers enc links transactionHash page limit maxLimit s =
     hash_param transactionHash (\<lambda>h.
     if \<not> TransactionService_exists h s then Inl no_such_item
     else Inr (transfers_findAll enc links (\<lambda>f. tf_transactionHash f = Some (hexc h))
       (page_options (''transactions/'' @ h @ ''/transfers'') page limit (Some maxLimit) [] False) s))"

definition getTransactionLogs ::
  "(string \<Rightarrow> string) \<Rightarrow> (paging_options \<Rightarrow> int \<Rightarrow> (string \<times> string) list) \<Rightarrow> json option \<Rightarrow> nat \<Rightarrow> nat \<Rightarrow> nat \<Rightarrow> 'z db_scheme \<Rightarrow>
     exn + log_row pagination" where
  "getTransactionLogs enc links transactionHash page limit maxLimit s =
     hash_param transactionHash (\<lambda>h.
     if \<not> TransactionService_exists h s then Inl no_such_item
     else Inr (LogService_findAll enc links (\<lambda>l. lg_transactionHash l = Some (hexc h))
       (page_options (''transactions/'' @ h @ ''/logs'') page limit (Some maxLimit) [] False) s))"

definition getTokens_page ::
  "(string \<Rightarrow> string) \<Rightarrow> (paging_options \<Rightarrow> int \<Rightarrow> (string \<times> string) list) \<Rightarrow> int option \<Rightarrow> nat \<Rightarrow> nat \<Rightarrow> 'z db_scheme \<Rightarrow>
     token_row pagination" where
  "getTokens_page enc links minLiquidity page limit s =
     TokenService_findAll enc links minLiquidity
       (page_options ''tokens'' page limit None [(''minLiquidity'', map_option show_int minLiquidity)] False) s"

definition getToken_page :: "api_config \<Rightarrow> string \<Rightarrow> json option \<Rightarrow> 'z db_scheme \<Rightarrow> exn + token_row" where
  "getToken_page A base address s =
     api_address_param default_address address (\<lambda>a. found (TokenService_findOne (baseToken A) base a s))"

definition getTokenTransfers ::
  "(string \<Rightarrow> string) \<Rightarrow> (paging_options \<Rightarrow> int \<Rightarrow> (string \<times> string) list) \<Rightarrow> string \<Rightarrow> json option \<Rightarrow> nat \<Rightarrow> nat \<Rightarrow> nat \<Rightarrow>
     'z db_scheme \<Rightarrow> exn + transfer_row pagination" where
  "getTokenTransfers enc links base address page limit maxLimit s =
     api_address_param default_address address (\<lambda>a.
     if \<not> TokenService_exists base a s then Inl no_such_item
     else Inr (transfers_findAll enc links (\<lambda>f. tf_tokenAddress f = Some (hexc a) \<and> \<not> tf_isFeeOrRefund f)
       (page_options (''tokens/'' @ a @ ''/transfers'') page limit (Some maxLimit) [] False) s))"

section \<open>exceptionFilter.ts\<close>

text \<open>
  An \<open>HttpException\<close> is answered with status 200 and its message; anything else reaches NestJS, which
  answers 500. \<open>validation\<close> gives the first message of a failed validation.
\<close>

definition ApiExceptionFilter_catch :: "(exn \<Rightarrow> string option) \<Rightarrow> exn \<Rightarrow> (int \<times> api_response) option" where
  "ApiExceptionFilter_catch validation e =
     (case e of
        HttpError m status \<Rightarrow>
          Some (200, response False NOTOK (JStr (if status = 400 \<and> asked (validation e) then the (validation e) else m)))
      | _ \<Rightarrow> None)"

section \<open>api.controller.ts, types.ts, parseModule.pipe.ts, parseAction.pipe.ts\<close>

definition apiActionsMap :: "(string \<times> string list) list" where
  "apiActionsMap =
     [(''account'', [''txlist'', ''txlistinternal'', ''balance'', ''balancemulti'', ''tokenbalance'', ''tokentx'', ''tokennfttx'',
        ''getminedblocks'']),
      (''contract'', [''getabi'', ''getsourcecode'', ''getcontractcreation'', ''verifysourcecode'', ''checkverifystatus'']),
      (''transaction'', [''getstatus'', ''gettxreceiptstatus'']),
      (''block'', [''getblocknobytime'', ''getblockcountdown'', ''getblockreward'']),
      (''logs'', [''getLogs'']),
      (''token'', [''tokeninfo'']),
      (''stats'', [''ethprice''])]"

definition ParseModulePipe_transform :: "string option \<Rightarrow> exn + string" where
  "ParseModulePipe_transform value =
     (case value of
        Some m \<Rightarrow> if m \<in> set (map fst apiActionsMap) then Inr m else Inl (bad_request ''Error! Missing Or invalid Module name'')
      | None \<Rightarrow> Inl (bad_request ''Error! Missing Or invalid Module name''))"

text \<open>
  The action of a module in the table. An inherited property of the table is no array: its \<open>includes\<close> is
  \<open>undefined\<close>, and calling it throws.
\<close>

definition ParseActionPipe_transform :: "string option \<Rightarrow> string option \<Rightarrow> exn + string" where
  "ParseActionPipe_transform modul action =
     (case Option.bind modul (map_of apiActionsMap) of
        Some actions \<Rightarrow>
          (case action of
             Some a \<Rightarrow> if a \<in> set actions then Inr a else Inl (bad_request ''Error! Missing Or invalid Action name'')
           | None \<Rightarrow> Inl (bad_request ''Error! Missing Or invalid Action name''))
      | None \<Rightarrow>
          if modul \<noteq> None \<and> the modul \<in> set object_prototype then Inl TypeError
          else Inl (bad_request ''Error! Missing Or invalid Action name''))"

text \<open>\<open>apiGetHandler\<close>: the URL and the query that the request goes on with.\<close>

definition apiGetHandler :: "(string \<times> string) list \<Rightarrow> exn + string \<times> (string \<times> string) list" where
  "apiGetHandler query =
     sbind (ParseActionPipe_transform (map_of query ''module'') (map_of query ''action'')) (\<lambda>action.
     sbind (ParseModulePipe_transform (map_of query ''module'')) (\<lambda>modul.
     Inr (''/api/'' @ modul @ ''/'' @ action, filter (\<lambda>(k, _). k \<noteq> ''module'' \<and> k \<noteq> ''action'') query)))"

definition apiPostHandler :: "(string \<times> string) list \<Rightarrow> exn + string" where
  "apiPostHandler body =
     sbind (ParseActionPipe_transform (map_of body ''module'') (map_of body ''action'')) (\<lambda>action.
     sbind (ParseModulePipe_transform (map_of body ''module'')) (\<lambda>modul. Inr (''/api/'' @ modul @ ''/'' @ action)))"

end
