(* ===== verification/Api_Consistency.thy ===== *)
theory Api_Consistency
  imports Api_Endpoints
begin

text \<open>
  What the explorer's API says against what the worker has stored: balances do not depend on the cleaning
  of old rows and agree across the endpoints, counts are the numbers of rows, and every action the API
  lists is routed.
\<close>

section \<open>Balances\<close>

lemma api_balance_as_of:
  assumes "\<forall>b \<in> set (balances s). bl_blockNumber b \<le> n"
  shows "api_getBalance a t s = or_zero (Some (balance_as_of (balances s) (hexc a, hexc t) n))"
proof -
  have "filter (\<lambda>b. bl_address b = hexc a \<and> bl_tokenAddress b = hexc t) (balances s) =
      rows_as_of (balances s) (hexc a, hexc t) n"
    unfolding rows_as_of_def using assms by (intro filter_cong) auto
  then show ?thesis
    by (auto simp: api_getBalance_def balance_as_of_def or_zero_def split: option.splits)
qed

lemma clean_balance:
  assumes "db_ok s"
  shows "api_getBalance a t (fst (clean_balances f1 f2 f3 s)) = api_getBalance a t s"
proof -
  let ?n = "Max (insert (last_executed s) (bl_blockNumber ` set (balances s)))"
  let ?from = "delete_balances_from s" and ?to = "last_executed s"
  let ?t = "fst (clean_balances f1 f2 f3 s)"
  have n: "?to \<le> ?n" "\<forall>b \<in> set (balances s). bl_blockNumber b \<le> ?n" by simp_all
  obtain P where P: "clean_rows f1 f2 ?from ?to (balances s) = filter P (balances s)"
    using clean_rows_filter by metis
  have rows: "balances ?t = (if ?to > ?from then clean_rows f1 f2 ?from ?to (balances s) else balances s)"
    by (simp add: clean_balances_run Let_def)
  then have n': "\<forall>b \<in> set (balances ?t). bl_blockNumber b \<le> ?n" using n(2) P by (simp split: if_splits)
  have keys: "balance_keys (balances s)"
    using assms by (simp add: db_ok_def keys_ok_def balance_keys_def)
  moreover have "balance_keys (deleteOldBalances_rows ?from ?to (balances s))"
    using keys by (simp add: deleteOldBalances_rows_def balance_keys_filter)
  ultimately have "balance_as_of (balances ?t) k ?n = balance_as_of (balances s) k ?n" for k
    using n(1) by (simp add: rows clean_rows_def Let_def deleteOldBalances_keeps_balance deleteZeroBalances_keeps_balance)
  then show ?thesis
    using api_balance_as_of [OF n(2)] api_balance_as_of [OF n'] by simp
qed


text \<open>The latest row of a key is found by both queries.\<close>

lemma newest_unique:
  assumes "balance_keys rows" "b \<in> set rows" "newest_balance rows b"
  shows "last_by bl_blockNumber (filter (\<lambda>c. bl_address c = bl_address b \<and> bl_tokenAddress c = bl_tokenAddress b) rows) = Some b"
proof (rule last_by_unique)
  show "inj_on bl_blockNumber (set (filter (\<lambda>c. bl_address c = bl_address b \<and> bl_tokenAddress c = bl_tokenAddress b) rows))"
  proof (rule inj_onI)
    fix x y
    assume "x \<in> set (filter (\<lambda>c. bl_address c = bl_address b \<and> bl_tokenAddress c = bl_tokenAddress b) rows)"
      "y \<in> set (filter (\<lambda>c. bl_address c = bl_address b \<and> bl_tokenAddress c = bl_tokenAddress b) rows)"
      "bl_blockNumber x = bl_blockNumber y"
    then show "x = y"
      using assms(1) inj_onD [of "\<lambda>b. (bl_address b, bl_tokenAddress b, bl_blockNumber b)" "set rows" x y]
      by (simp add: balance_keys_def distinct_map)
  qed
qed (use assms(2,3) in \<open>auto simp: newest_balance_def list_all_iff\<close>)

lemma newest_exists:
  assumes "last_by bl_blockNumber (filter (\<lambda>c. bl_address c = x \<and> bl_tokenAddress c = t) rows) = Some b"
  shows "b \<in> set rows \<and> bl_address b = x \<and> bl_tokenAddress b = t \<and> newest_balance rows b"
  using last_by_max [OF assms] by (auto simp: newest_balance_def list_all_iff)

lemma latest_value:
  assumes "balance_keys rows"
  shows "find (\<lambda>b. bl_address b = x) (filter (\<lambda>b. bl_address b \<in> X \<and> bl_tokenAddress b = t \<and> newest_balance rows b) rows) =
    (if x \<in> X then last_by bl_blockNumber (filter (\<lambda>c. bl_address c = x \<and> bl_tokenAddress c = t) rows) else None)"
    (is "find ?p ?rs = _")
proof (cases "find ?p ?rs")
  case None
  have "last_by bl_blockNumber (filter (\<lambda>c. bl_address c = x \<and> bl_tokenAddress c = t) rows) = None" if "x \<in> X"
  proof (rule ccontr)
    assume "last_by bl_blockNumber (filter (\<lambda>c. bl_address c = x \<and> bl_tokenAddress c = t) rows) \<noteq> None"
    then obtain b where "last_by bl_blockNumber (filter (\<lambda>c. bl_address c = x \<and> bl_tokenAddress c = t) rows) = Some b" by (metis not_None_eq)
    from newest_exists [OF this] None that show False by (auto simp: find_None_iff)
  qed
  with None show ?thesis by auto
next
  case (Some b)
  then have b: "b \<in> set rows" "bl_address b = x" "x \<in> X" "bl_tokenAddress b = t" "newest_balance rows b"
    by (auto simp: find_Some_iff dest: nth_mem)
  with newest_unique [OF assms b(1,5)] Some show ?thesis by simp
qed

text \<open>The addresses of the column are in lower case with the prefix, and checksumming changes letter case only.\<close>

definition addresses_normal :: "api_config \<Rightarrow> 'z db_scheme \<Rightarrow> bool" where
  "addresses_normal A s \<longleftrightarrow>
     (\<forall>b \<in> set (balances s). starts_with (bl_address b) ''0x'' \<and> lower (checksum A (bl_address b)) = bl_address b)"

lemma take_0x: "starts_with a ''0x'' \<Longrightarrow> take 2 a = ''0x''"
  by (simp add: starts_with_def numeral_2_eq_2)

lemma starts_with_0x: "starts_with a ''0x'' \<Longrightarrow> a = ''0x'' @ drop 2 a"
  by (metis append_take_drop_id take_0x)

lemma hexc_address:
  assumes "address_regex a" "starts_with a ''0x''"
  shows "hexc a = lower a"
proof -
  have a: "a = ''0x'' @ drop 2 a"
    using starts_with_0x [OF assms(2)] .
  then have "length a = 42" "hex_regex a"
    using assms take_0x [OF assms(2)] by (auto simp: address_regex_def hex_regex_def)
  then show ?thesis using hex_col_lower [of a] by (simp add: hexc_def)
qed

lemma lower_starts: "list_all is_hex_digit a \<and> starts_with (lower a) ''0x'' \<Longrightarrow> False"
proof -
  assume h': "list_all is_hex_digit a \<and> starts_with (lower a) ''0x''"
  then have h: "list_all is_hex_digit a" "starts_with (lower a) ''0x''" by simp_all
  from h(1) have "list_all is_hex_digit (lower a)" by (simp add: lower_def list.pred_map comp_def)
  moreover have "lower a = ''0x'' @ drop 2 (lower a)"
    by (rule starts_with_0x [OF h(2)])
  ultimately have "list_all is_hex_digit (''0x'' @ drop 2 (lower a))" by simp
  moreover have "\<not> is_hex_digit CHR ''x''" by code_simp
  ultimately show False by simp
qed

text \<open>
  C28: \<open>balancemulti\<close> answers each address it is asked for as \<open>balance\<close> does, however many addresses it is asked
  for together, when the address is given with the prefix \<open>0x\<close>. The parameter may also be given without it,
  and then the answer is zero whatever the balance.
\<close>

theorem balance_multi_agrees:
  assumes "db_ok s" "addresses_normal A s" "a \<in> set addrs" "address_regex a"
  shows "balance_of_account A (getBalancesByAddresses addrs base s) a =
    (if starts_with a ''0x'' then api_getBalance a base s else ''0'')"
proof -
  have keys: "balance_keys (balances s)"
    using assms(1) by (simp add: db_ok_def keys_ok_def balance_keys_def)
  have eq: "find (\<lambda>b. lower (checksum A (bl_address b)) = lower a) (getBalancesByAddresses addrs base s) =
      find (\<lambda>b. bl_address b = lower a) (getBalancesByAddresses addrs base s)"
    by (rule find_cong) (use assms(2) in \<open>auto simp: addresses_normal_def getBalancesByAddresses_def\<close>)
  show ?thesis
  proof (cases "starts_with a ''0x''")
    case True
    from hexc_address [OF assms(4) True] have "hexc a = lower a" .
    moreover have "hexc a \<in> hexc ` set addrs" using assms(3) by simp
    ultimately show ?thesis
      using latest_value [OF keys, of "lower a" "hexc ` set addrs" "hexc base"] eq True
      by (simp add: balance_of_account_def getBalancesByAddresses_def api_getBalance_def)
  next
    case False
    have "find (\<lambda>b. bl_address b = lower a) (getBalancesByAddresses addrs base s) = None"
      using assms(2) lower_starts [of a] assms(4) False
      by (auto simp: find_None_iff getBalancesByAddresses_def addresses_normal_def address_regex_def)
    with eq False show ?thesis by (simp add: balance_of_account_def or_zero_def)
  qed
qed

lemma balances_object:
  assumes "\<forall>b \<in> set bs. \<forall>c \<in> set bs. f b = f c \<longrightarrow> b = c"
  shows "map_of (fold (\<lambda>b. put_pair (f b) (g b)) bs m) k = (case find (\<lambda>b. f b = k) bs of None \<Rightarrow> map_of m k | Some b \<Rightarrow> Some (g b))"
  using assms
proof (induction bs arbitrary: m)
  case (Cons b bs)
  show ?case
  proof (cases "find (\<lambda>b. f b = k) bs")
    case (Some c)
    then have "c \<in> set bs" "f c = k" by (auto simp: find_Some_iff)
    with Cons.prems have "f b = k \<longrightarrow> b = c" by auto
    with Cons Some show ?thesis by simp
  qed (use Cons in simp)
qed simp

text \<open>
  The balances on the page of an address are the ones \<open>tokenbalance\<close> gives: each token is listed under its
  checksummed address, with the balance of its latest row, and a token that is not listed has none.
\<close>

theorem address_page_balances:
  assumes "db_ok s" "inj_on (checksum A) (insert (hexc t) (bl_tokenAddress ` set (balances s)))"
  shows "or_zero (map_option fst (map_of (fst (getBalances A a s)) (checksum A (hexc t)))) = api_getBalance a t s"
proof -
  have keys: "balance_keys (balances s)"
    using assms(1) by (simp add: db_ok_def keys_ok_def balance_keys_def)
  let ?rs = "latest_records a (balances s)"
  have same: "checksum A (bl_tokenAddress b) = checksum A (hexc t) \<longleftrightarrow> bl_tokenAddress b = hexc t" if "b \<in> set ?rs" for b
    using that inj_on_eq_iff [OF assms(2), of "bl_tokenAddress b" "hexc t"] by (simp add: latest_records_def)
  have unique: "b = c" if "b \<in> set ?rs" "c \<in> set ?rs" "checksum A (bl_tokenAddress b) = checksum A (bl_tokenAddress c)" for b c
  proof -
    have "bl_tokenAddress b = bl_tokenAddress c"
      using that inj_on_eq_iff [OF assms(2), of "bl_tokenAddress b" "bl_tokenAddress c"] by (simp add: latest_records_def)
    then show ?thesis
      using that newest_unique [OF keys, of b] newest_unique [OF keys, of c] by (auto simp: latest_records_def)
  qed
  have "find (\<lambda>b. checksum A (bl_tokenAddress b) = checksum A (hexc t)) ?rs = find (\<lambda>b. bl_tokenAddress b = hexc t) ?rs"
    by (rule find_cong) (simp_all add: same)
  also have "\<dots> = last_by bl_blockNumber (filter (\<lambda>c. bl_address c = hexc a \<and> bl_tokenAddress c = hexc t) (balances s))"
  proof (cases "find (\<lambda>b. bl_tokenAddress b = hexc t) ?rs")
    case None
    have "last_by bl_blockNumber (filter (\<lambda>c. bl_address c = hexc a \<and> bl_tokenAddress c = hexc t) (balances s)) = None"
    proof (rule ccontr)
      assume "last_by bl_blockNumber (filter (\<lambda>c. bl_address c = hexc a \<and> bl_tokenAddress c = hexc t) (balances s)) \<noteq> None"
      then obtain b where
        "last_by bl_blockNumber (filter (\<lambda>c. bl_address c = hexc a \<and> bl_tokenAddress c = hexc t) (balances s)) = Some b"
        by (metis not_None_eq)
      from newest_exists [OF this] None show False by (auto simp: find_None_iff latest_records_def)
    qed
    with None show ?thesis by simp
  next
    case (Some b)
    then have "b \<in> set ?rs" "bl_tokenAddress b = hexc t" by (auto simp: find_Some_iff)
    with newest_unique [OF keys, of b] Some show ?thesis by (simp add: latest_records_def)
  qed
  finally have found: "find (\<lambda>b. checksum A (bl_tokenAddress b) = checksum A (hexc t)) ?rs =
      last_by bl_blockNumber (filter (\<lambda>c. bl_address c = hexc a \<and> bl_tokenAddress c = hexc t) (balances s))" .
  have "\<forall>b \<in> set ?rs. \<forall>c \<in> set ?rs. checksum A (bl_tokenAddress b) = checksum A (bl_tokenAddress c) \<longrightarrow> b = c"
    using unique by blast
  note object = balances_object [OF this]
  show ?thesis by (simp add: getBalances_def api_getBalance_def object found split: option.splits)
qed

section \<open>Counts\<close>

lemma last_by_value:
  assumes "x \<in> set rows" "\<forall>r \<in> set rows. key r \<le> key x"
  shows "\<exists>b. last_by key rows = Some b \<and> key b = key x"
proof -
  obtain b where b: "last_by key rows = Some b" using assms(1) by (cases "last_by key rows") auto
  with last_by_max [OF b] assms show ?thesis by (auto intro: antisym)
qed

text \<open>
  The total of the list of blocks, which the API computes from the first and the last number, is the number
  of blocks when their numbers are consecutive, except that a list that holds nothing but block zero has
  the total zero.
\<close>

theorem count_by_number_exact:
  assumes "distinct (map num rows)" "num ` set rows = {lo..hi}" "lo \<le> hi"
  shows "count_by_number num rows = (if hi = 0 then 0 else int (length rows))"
proof -
  from assms(2,3) have "lo \<in> num ` set rows" "hi \<in> num ` set rows" by auto
  then obtain x y where x: "x \<in> set rows" "num x = hi" and y: "y \<in> set rows" "num y = lo" by auto
  have all: "\<forall>r \<in> set rows. num r \<le> hi \<and> lo \<le> num r" using assms(2) by auto
  obtain b c where "last_by num rows = Some b" "num b = hi" "last_by (\<lambda>r. - num r) rows = Some c" "num c = lo"
    using last_by_value [of x rows num] last_by_value [of y rows "\<lambda>r. - num r"] x y all by auto
  moreover have "int (length rows) = hi - lo + 1"
    using distinct_card [OF assms(1)] assms(2,3) by simp
  ultimately show ?thesis by (simp add: count_by_number_def)
qed

lemma genesis_not_counted: "count_by_number (\<lambda>n. n) [0::int] = 0"
  by (simp add: count_by_number_def)

text \<open>The counters of one address: each transaction contributes once, also one from the address to itself.\<close>

lemma transaction_record_counters:
  "record_counters [''from|to''] r =
     (if cn_fields r ''from'' = cn_fields r ''to'' then [[(''from|to'', cn_fields r ''from'')]]
      else [[(''from|to'', cn_fields r ''from'')], [(''from|to'', cn_fields r ''to'')]])"
proof -
  have "split_on CHR ''|'' ''from|to'' = [''from'', ''to'']" by code_simp
  then show ?thesis by (auto simp: record_counters_def)
qed

definition plain :: "string \<Rightarrow> bool" where
  "plain t \<longleftrightarrow> list_all url_plain t"

lemma url_encode_plain: "plain t \<Longrightarrow> url_encode t = t"
  by (induction t) (auto simp: plain_def url_encode_def url_char_def)

lemma from_to_query: "plain t \<Longrightarrow> getQueryString [(''from|to'', FStr t)] = url_encode ''from|to'' @ ''='' @ t"
  by (simp add: getQueryString_def url_encode_plain)

definition is_party :: "string \<Rightarrow> transaction_row \<Rightarrow> bool" where
  "is_party a t \<longleftrightarrow> tr_from t = a \<or> tr_to t = a"

definition plain_parties :: "'z db_scheme \<Rightarrow> bool" where
  "plain_parties s \<longleftrightarrow> (\<forall>t \<in> set (transactions s). plain (tr_from t) \<and> plain (tr_to t))"

text \<open>The transactions that the counter processor of the worker has seen.\<close>

definition seen_transactions :: "'z db_scheme \<Rightarrow> transaction_row list" where
  "seen_transactions s = filter (\<lambda>t. t_number t \<le> getLastProcessedRecordNumber ''transactions'' s) (transactions s)"

definition countable_of :: "transaction_row \<Rightarrow> countable" where
  "countable_of t = \<lparr>cn_number = t_number t, cn_blockNumber = tr_blockNumber t, cn_fields = transaction_fields t\<rparr>"

lemma counted_seen: "counted (transaction_counters k) s = map countable_of (seen_transactions s)"
  by (simp add: counted_def seen_transactions_def transaction_counters_def filter_map comp_def countable_of_def)

lemma service_count:
  assumes "counters_exact (transaction_counters k) s" "isCounterSupported ''transactions'' q"
  shows "CounterService_count ''transactions'' q s =
    Inr (ref_count [[''from|to'']] (getQueryString q) (map countable_of (seen_transactions s)))"
proof -
  have "count_of s (''transactions'', p) = ref_count [[''from|to'']] p (map countable_of (seen_transactions s))" for p
    using assms(1) by (simp only: counters_exact_def counted_seen) (simp add: transaction_counters_def)
  from this [of "getQueryString q"] assms(2) show ?thesis
    by (simp add: CounterService_count_def count_of_def counter_key_def)
qed

lemma total_count:
  "ref_count [[''from|to'']] [] (map countable_of ts) = int (length ts)"
proof -
  have "record_count [[''from|to'']] [] r = 1" for r
    by (simp add: record_count_def transaction_record_counters getQueryString_def)
  then show ?thesis by (simp add: ref_count_def comp_def sum_list_triv)
qed

lemma address_count:
  assumes "plain a" "\<forall>t \<in> set ts. plain (tr_from t) \<and> plain (tr_to t)"
  shows "ref_count [[''from|to'']] (getQueryString [(''from|to'', FStr a)]) (map countable_of ts) =
    int (length (filter (is_party a) ts))"
  using assms(2)
proof (induction ts)
  case (Cons t ts)
  have "record_count [[''from|to'']] (getQueryString [(''from|to'', FStr a)]) (countable_of t) = (if is_party a t then 1 else 0)"
    using Cons.prems assms(1)
    by (simp add: record_count_def transaction_record_counters countable_of_def transaction_fields_def from_to_query is_party_def)
  with Cons show ?case by (simp add: ref_count_def)
qed (simp add: ref_count_def)

text \<open>
  C19: The counts that the API shows are the worker's: with exact counters the total of the statistics is the
  number of transactions that have been processed, and the total on the page of a contract is the number of
  those from or to it, each counted once.
\<close>

theorem api_counts_exact:
  assumes "counters_exact (transaction_counters k) s" "plain a" "plain_parties s"
  shows "CounterService_count ''transactions'' [] s = Inr (int (length (seen_transactions s))) \<and>
    CounterService_count ''transactions'' [(''from|to'', FStr a)] s =
      Inr (int (length (filter (is_party a) (seen_transactions s))))"
proof
  have "isCounterSupported ''transactions'' []" by (simp add: isCounterSupported_def supported_criteria_def)
  from service_count [OF assms(1) this] total_count
  show "CounterService_count ''transactions'' [] s = Inr (int (length (seen_transactions s)))" by simp
  have "isCounterSupported ''transactions'' [(''from|to'', FStr a)]"
    by (simp add: isCounterSupported_def supported_criteria_def haveSameItems_def)
  from service_count [OF assms(1) this] address_count [of a "seen_transactions s"] assms(2,3)
  show "CounterService_count ''transactions'' [(''from|to'', FStr a)] s =
      Inr (int (length (filter (is_party a) (seen_transactions s))))"
    by (simp add: plain_parties_def seen_transactions_def)
qed

section \<open>Routing\<close>

text \<open>
  A request is routed exactly when its module is one of the seven and lists its action, and then to that
  module and action, with the other parameters in their order. It is rejected with status 400 otherwise,
  except that a module with the name of an inherited property ends in a \<open>TypeError\<close>, which the filter of
  exceptions does not answer.
\<close>

theorem api_routing:
  "case (map_of query ''module'', map_of query ''action'') of
     (Some m, Some a) \<Rightarrow>
       if m \<in> set (map fst apiActionsMap) \<and> a \<in> set (the (map_of apiActionsMap m))
       then apiGetHandler query = Inr (''/api/'' @ m @ ''/'' @ a, filter (\<lambda>(k, _). k \<noteq> ''module'' \<and> k \<noteq> ''action'') query)
       else if m \<in> set object_prototype then apiGetHandler query = Inl TypeError
       else apiGetHandler query = Inl (bad_request ''Error! Missing Or invalid Action name'')
   | (m, a) \<Rightarrow> apiGetHandler query \<in> {Inl TypeError, Inl (bad_request ''Error! Missing Or invalid Action name'')}"
proof -
  have disjoint: "m \<notin> set object_prototype" if "m \<in> set (map fst apiActionsMap)" for m
    using that by (auto simp: apiActionsMap_def object_prototype_def)
  have known: "m \<in> set (map fst apiActionsMap) \<longleftrightarrow> (\<exists>as. map_of apiActionsMap m = Some as)" for m
    by (metis list.set_map map_of_eq_None_iff option.exhaust option.simps(3))
  show ?thesis
    using disjoint known
    by (auto simp: apiGetHandler_def ParseActionPipe_transform_def ParseModulePipe_transform_def sbind_def
        split: option.splits)
qed

section \<open>Concrete answers\<close>

definition demo_config_api :: api_config where
  "demo_config_api =
     \<lparr>checksum = (\<lambda>a. a),
      baseToken = \<lparr>k_token = \<lparr>tk_l2Address = ''0x0b'', tk_l1Address = None, tk_symbol = ''T'', tk_name = None,
         tk_decimals = 18, tk_blockNumber = 0, tk_transactionHash = [], tk_logIndex = 0\<rparr>, k_number = 0,
         k_usdPrice = None, k_liquidity = None, k_iconURL = None, k_offChainDataUpdatedAt = None\<rparr>,
      ethToken = \<lparr>k_token = \<lparr>tk_l2Address = ''0x0c'', tk_l1Address = None, tk_symbol = ''E'', tk_name = None,
         tk_decimals = 18, tk_blockNumber = 0, tk_transactionHash = [], tk_logIndex = 0\<rparr>, k_number = 0,
         k_usdPrice = None, k_liquidity = None, k_iconURL = None, k_offChainDataUpdatedAt = None\<rparr>\<rparr>"

theorem address_page_balances_witness:
  "api_getBalance ''0x0a'' ''0x0b'' demo_balances_db = ''7'' \<and>
   or_zero (map_option fst (map_of (fst (getBalances demo_config_api ''0x0a'' demo_balances_db)) ''0x0b'')) = ''7''"
proof -
  have hex: "hexc ''0x0b'' = ''0x0b''" by code_simp
  have known: "api_getBalance ''0x0a'' ''0x0b'' demo_balances_db = ''7''" by code_simp
  have "checksum demo_config_api = (\<lambda>a. a)" by (simp add: demo_config_api_def)
  with known hex address_page_balances [OF demo_balances_ok, of demo_config_api "''0x0b''" "''0x0a''"]
  show ?thesis by (simp add: inj_on_def)
qed

text \<open>An account whose address has forty digits.\<close>

definition demo_account :: string where
  "demo_account = ''0x'' @ replicate 40 CHR ''1''"

definition demo_account_db :: db where
  "demo_account_db = empty_db\<lparr>blocks := [block_row_of (demo_block 1 ''0x01'' ''0x00'') demo_details,
       block_row_of (demo_block 2 ''0x02'' ''0x01'') demo_details],
     batches := [demo_batch_row],
     balances := [\<lparr>bl_address = demo_account, bl_tokenAddress = ''0x0b'', bl_blockNumber = 1, bl_balance = ''3''\<rparr>,
       \<lparr>bl_address = demo_account, bl_tokenAddress = ''0x0b'', bl_blockNumber = 2, bl_balance = ''5''\<rparr>]\<rparr>"

lemma demo_account_ok: "db_ok demo_account_db"
proof -
  have "keys_ok demo_account_db" unfolding keys_ok_def by code_simp
  moreover have "fk_ok demo_account_db"
    by (simp add: fk_ok_def demo_account_db_def empty_db_def has_block_def block_row_of_def
        demo_block_def block_row.defs block_dto.defs)
  ultimately show ?thesis by (simp add: db_ok_def)
qed


theorem balance_multi_agrees_witness:
  "balance_of_account demo_config_api (getBalancesByAddresses [demo_account, drop 2 demo_account] ''0x0b'' demo_account_db)
     demo_account = ''5'' \<and>
   balance_of_account demo_config_api (getBalancesByAddresses [demo_account, drop 2 demo_account] ''0x0b'' demo_account_db)
     (drop 2 demo_account) = ''0'' \<and>
   api_getBalance (drop 2 demo_account) ''0x0b'' demo_account_db = ''5''"
proof -
  have lower: "lower demo_account = demo_account" by code_simp
  have "address_regex demo_account" "address_regex (drop 2 demo_account)" "starts_with demo_account ''0x''"
    "\<not> starts_with (drop 2 demo_account) ''0x''" "api_getBalance demo_account ''0x0b'' demo_account_db = ''5''"
    "api_getBalance (drop 2 demo_account) ''0x0b'' demo_account_db = ''5''"
    by code_simp+
  moreover have "addresses_normal demo_config_api demo_account_db"
    using \<open>starts_with demo_account ''0x''\<close> lower
    by (simp add: addresses_normal_def demo_account_db_def demo_config_api_def)
  ultimately show ?thesis
    using balance_multi_agrees [OF demo_account_ok, of demo_config_api demo_account "[demo_account, drop 2 demo_account]" "''0x0b''"]
      balance_multi_agrees [OF demo_account_ok, of demo_config_api "drop 2 demo_account" "[demo_account, drop 2 demo_account]" "''0x0b''"]
    by simp
qed

theorem count_by_number_exact_witness:
  "count_by_number (\<lambda>n. n) [3::int, 2, 1] = 3 \<and> int (length [3::int, 2, 1]) = 3"
proof -
  have "(\<lambda>n. n) ` set [3::int, 2, 1] = {1..3}" by auto
  then show ?thesis using count_by_number_exact [of "\<lambda>n. n" "[3::int, 2, 1]" 1 3] by simp
qed

definition demo_tx :: transaction_row where
  "demo_tx = \<lparr>tr_hash = ''0x01'', tr_to = ''0x0b'', tr_from = ''0x0a'', tr_nonce = 0, tr_index = 0, tr_gasLimit = ''0'',
     tr_gasPrice = ''0'', tr_maxFeePerGas = None, tr_maxPriorityFeePerGas = None, tr_data = [], tr_value = ''0'',
     tr_chainId = 0, tr_blockNumber = 1, tr_blockHash = ''0x01'', tr_type = 0, tr_accessList = None,
     tr_l1BatchNumber = 0, tr_fee = ''0x0'', tr_gasPerPubdata = None, tr_isL1Originated = False, tr_receivedAt = 0,
     tr_receiptStatus = 1, tr_error = None, tr_revertReason = None, t_number = 0\<rparr>"

definition demo_tx_db :: db where
  "demo_tx_db = empty_db\<lparr>transactions := [demo_tx]\<rparr>"

definition demo_counted_tx :: db where
  "demo_counted_tx = fst (next_batch (transaction_counters 5) False None demo_tx_db)"

lemma demo_counted_tx_exact: "counters_exact (transaction_counters 5) demo_counted_tx"
proof -
  have rows: "counters demo_tx_db = []" "counter_states demo_tx_db = []" "transactions demo_tx_db = [demo_tx]" "t_number demo_tx = 0"
    by code_simp+
  have "counted (transaction_counters 5) demo_tx_db = []"
    by (simp add: counted_def transaction_counters_def getLastProcessedRecordNumber_def rows)
  then have "counters_exact (transaction_counters 5) demo_tx_db"
    by (simp add: counters_exact_def ref_count_def count_of_def rows)
  moreover have "numbers_distinct (transaction_counters 5) demo_tx_db"
    by (simp add: numbers_distinct_def transaction_counters_def rows)
  ultimately show ?thesis
    using next_batch_keeps_exact [of "transaction_counters 5" demo_tx_db None False] unfolding demo_counted_tx_def
    by (metis prod.collapse reads_rows(1))
qed

theorem api_counts_exact_witness:
  "CounterService_count ''transactions'' [(''from|to'', FStr ''0x0b'')] demo_counted_tx = Inr 1"
proof -
  have rows: "transactions demo_counted_tx = [demo_tx]" "plain ''0x0b''" "plain (tr_from demo_tx)" "plain (tr_to demo_tx)"
    "filter (is_party ''0x0b'') (seen_transactions demo_counted_tx) = [demo_tx]"
    by code_simp+
  then have "plain_parties demo_counted_tx" by (simp add: plain_parties_def)
  from api_counts_exact [OF demo_counted_tx_exact rows(2) this] rows(5) show ?thesis by simp
qed

end
