(* ===== verification/App_Session.thy ===== *)
theory App_Session
  imports Json
begin

text \<open>
  The session of the explorer's front end (\<open>src/packages/app/src/composables\<close>: \<open>useContext\<close>, \<open>useWallet\<close>,
  \<open>useLogin\<close>, \<open>useRpcToken\<close>, and the steps of \<open>views/LoginView.vue\<close>): the selected network, the wallet, the
  login and the token of the private RPC. The reactive variables of these modules are one record; the
  wallet and the server are arguments. A wallet error is the object that was thrown, with its \<open>code\<close>.
\<close>

section \<open>State\<close>

datatype user_context = LoggedIn string | LoggedOut

record network =
  nw_name :: string
  nw_apiUrl :: string
  nw_rpcUrl :: string
  nw_hostnames :: "string list"
  nw_l1ChainId :: "int option"
  nw_l2ChainId :: int
  nw_chainName :: string
  nw_explorerUrl :: string
  nw_baseTokenAddress :: string

text \<open>\<open>rpcToken\<close>, \<open>isAuthenticated\<close> and \<open>selected\<close> are kept in the storage of the browser.\<close>

record app =
  selected :: string
  contextReady :: bool
  app_user :: user_context
  l2Provider :: "string option"
  rpcToken :: "string option"
  isLoginPending :: bool
  walletReady :: bool
  isConnectPending :: bool
  isConnectFailed :: bool
  isMetamaskInstalled :: bool
  isAddNetworkPending :: bool
  wallet_address :: "string option"
  isAuthenticated :: bool

section \<open>useContext.ts\<close>

definition context_networks :: "(string \<Rightarrow> string) \<Rightarrow> network \<Rightarrow> network list option \<Rightarrow> network list" where
  "context_networks checksum dflt configured =
     map (\<lambda>n. n\<lparr>nw_baseTokenAddress := checksum (nw_baseTokenAddress n)\<rparr>)
       (case configured of None \<Rightarrow> [dflt] | Some ns \<Rightarrow> if ns = [] then [dflt] else ns)"

definition first_network :: "network \<Rightarrow> network list \<Rightarrow> network" where
  "first_network dflt ns = (case ns of [] \<Rightarrow> dflt | n # _ \<Rightarrow> n)"

definition currentNetwork :: "network \<Rightarrow> network list \<Rightarrow> app \<Rightarrow> network" where
  "currentNetwork dflt ns s =
     (case find (\<lambda>n. nw_name n = selected s) ns of Some n \<Rightarrow> n | None \<Rightarrow> first_network dflt ns)"

text \<open>
  Selecting a network; the watcher of \<open>currentNetwork\<close> forgets the provider when it changes. It has run before
  the next step of the page.
\<close>

definition select_network :: "network \<Rightarrow> network list \<Rightarrow> string \<Rightarrow> app \<Rightarrow> app" where
  "select_network dflt ns name s =
     (let t = s\<lparr>selected := name\<rparr> in
      if currentNetwork dflt ns t = currentNetwork dflt ns s then t else t\<lparr>l2Provider := None\<rparr>)"

text \<open>\<open>query\<close> is the parameter \<open>network\<close> of the page's address; an empty one counts as missing.\<close>

definition identifyNetwork :: "network \<Rightarrow> network list \<Rightarrow> string option \<Rightarrow> string \<Rightarrow> app \<Rightarrow> app" where
  "identifyNetwork dflt ns query origin s =
     (let onDomain = find (\<lambda>n. origin \<in> set (nw_hostnames n)) ns;
          defaultNetwork = first_network dflt ns;
          t = (if query \<noteq> None \<and> query \<noteq> Some [] then select_network dflt ns (the query) s
               else if selected s = nw_name defaultNetwork then
                 (case onDomain of
                    Some n \<Rightarrow> select_network dflt ns (nw_name n) s
                  | None \<Rightarrow> select_network dflt ns (nw_name defaultNetwork) s)
               else s)
      in t\<lparr>contextReady := True\<rparr>)"

section \<open>useRpcToken.ts\<close>

definition rpc_url :: "network \<Rightarrow> network list \<Rightarrow> app \<Rightarrow> string option" where
  "rpc_url dflt ns s =
     map_option (\<lambda>token. nw_rpcUrl (currentNetwork dflt ns s) @ ''/'' @ token) (rpcToken s)"

text \<open>The provider is kept by the URL it was made with; without a token that is the empty one.\<close>

definition getL2Provider :: "network \<Rightarrow> network list \<Rightarrow> (app, string) act" where
  "getL2Provider dflt ns s =
     (case l2Provider s of
        Some url \<Rightarrow> (s, Inr url)
      | None \<Rightarrow>
          let url = (case rpc_url dflt ns s of None \<Rightarrow> [] | Some u \<Rightarrow> u)
          in (s\<lparr>l2Provider := Some url\<rparr>, Inr url))"

text \<open>The proxy's session endpoints, as they answer the browser's session.\<close>

record auth_server =
  sv_user :: "exn + json"
  sv_nonce :: "exn + string"
  sv_verify :: "string \<Rightarrow> string \<Rightarrow> exn + unit"
  sv_token :: "exn + string"
  sv_logout :: "exn + unit"

definition updateRpcToken :: "auth_server \<Rightarrow> (app, unit) act" where
  "updateRpcToken S =
     bind (gets rpcToken) (\<lambda>token.
     if token \<noteq> None then ret ()
     else bind (of_sum (sv_token S)) (\<lambda>t. modify (\<lambda>s. s\<lparr>rpcToken := Some t\<rparr>)))"

section \<open>useLogin.ts\<close>

record wallet =
  wl_detect :: "exn + bool"
  wl_signer :: "exn + string"
  wl_sign :: "string \<Rightarrow> exn + string"
  wl_accounts :: "exn + string list"
  wl_requestAccounts :: "exn + string list"
  wl_chainId :: string
  wl_switchChain :: "string \<Rightarrow> json option + unit"
  wl_addChain :: "string \<Rightarrow> json option + unit"

text \<open>\<open>prepareMessage\<close> of the library siwe for an address, a chain and a nonce.\<close>

type_synonym siwe_text = "string \<Rightarrow> int \<Rightarrow> string \<Rightarrow> string"

definition initializeLogin :: "auth_server \<Rightarrow> (app, unit) act" where
  "initializeLogin S =
     catch
       (bind (of_sum (sv_user S)) (\<lambda>response.
        bind (of_sum (access (Some response) ''address'')) (\<lambda>a.
        case a of
          Some (JStr x) \<Rightarrow> if x \<noteq> [] then modify (\<lambda>s. s\<lparr>app_user := LoggedIn x\<rparr>) else ret ()
        | _ \<Rightarrow> ret ())))
       (\<lambda>_. modify (\<lambda>s. s\<lparr>app_user := LoggedOut\<rparr>))"

text \<open>A page without a provider has no signer: \<open>new BrowserProvider(undefined)\<close> throws.\<close>

definition login :: "siwe_text \<Rightarrow> network \<Rightarrow> network list \<Rightarrow> wallet \<Rightarrow> auth_server \<Rightarrow> (app, unit) act" where
  "login siwe dflt ns W S =
     bind (modify (\<lambda>s. s\<lparr>app_user := LoggedOut, isLoginPending := True\<rparr>)) (\<lambda>_.
     bind (of_sum (wl_detect W)) (\<lambda>found.
     bind (if found then of_sum (wl_signer W) else throw TypeError) (\<lambda>address.
     bind (of_sum (sv_nonce S)) (\<lambda>nonce.
     bind (gets (currentNetwork dflt ns)) (\<lambda>net.
     let message = siwe address (nw_l2ChainId net) nonce in
     bind (of_sum (wl_sign W message)) (\<lambda>signature.
     bind (of_sum (sv_verify S signature message)) (\<lambda>_.
     modify (\<lambda>s. s\<lparr>isLoginPending := False, app_user := LoggedIn address\<rparr>))))))))"

definition logout :: "auth_server \<Rightarrow> (app, unit) act" where
  "logout S = bind (of_sum (sv_logout S)) (\<lambda>_. modify (\<lambda>s. s\<lparr>app_user := LoggedOut\<rparr>))"

section \<open>useWallet.ts\<close>

datatype wallet_error = WalletError (we_message: string) (we_code: string)

text \<open>\<open>processException\<close>: what is thrown instead; \<open>e?.k\<close> is \<open>opt_access\<close>.\<close>

definition text_of :: "json option \<Rightarrow> string option" where
  "text_of v = (case v of Some (JStr t) \<Rightarrow> if t \<noteq> [] then Some t else None | _ \<Rightarrow> None)"

definition message_or :: "json option \<Rightarrow> string \<Rightarrow> string" where
  "message_or v dflt = (case v of Some (JStr t) \<Rightarrow> t | _ \<Rightarrow> dflt)"

definition processException :: "wallet_error + json option \<Rightarrow> string \<Rightarrow> wallet_error" where
  "processException e message =
     (case e of
        Inl w \<Rightarrow> w
      | Inr e \<Rightarrow>
          let code = opt_access e ''code'' in
          if code = Some (JNum 4001) \<or> code = Some (JStr ''ACTION_REJECTED'')
          then WalletError ''Transaction was rejected'' ''transaction_rejected''
          else if code = Some (JNum (-32603)) then
            WalletError
              (case text_of (opt_access (opt_access (opt_access e ''data'') ''data'') ''message'') of
                 Some t \<Rightarrow> t
               | None \<Rightarrow> message_or (opt_access e ''message'') ''JsonRpcError occurred'') ''json_rpc_error''
          else if code = Some (JStr ''SERVER_ERROR'') then WalletError ''Internal Server Error'' ''internal_server_error''
          else if code = Some (JStr ''CALL_EXCEPTION'') \<and>
            opt_access (opt_access (opt_access (opt_access e ''info'') ''error'') ''data'') ''code'' = Some (JNum (-32090))
          then WalletError
            (message_or (opt_access (opt_access (opt_access (opt_access e ''info'') ''error'') ''data'') ''message'')
               ''Unauthorized'') ''unauthorized''
          else if code = Some (JStr ''UNKNOWN_ERROR'') \<and> opt_access (opt_access e ''error'') ''code'' = Some (JNum (-32603))
          then WalletError ''Unauthorized'' ''unauthorized''
          else WalletError (case text_of (opt_access e ''message'') of Some t \<Rightarrow> t | None \<Rightarrow> message) ''unknown_error_occurred'')"

definition handleAccountsChanged :: "string list \<Rightarrow> app \<Rightarrow> app" where
  "handleAccountsChanged accounts s =
     (case accounts of
        a # _ \<Rightarrow> s\<lparr>wallet_address := Some a, isAuthenticated := True\<rparr>
      | [] \<Rightarrow> s\<lparr>wallet_address := None\<rparr>)"

definition wallet_initialize :: "wallet \<Rightarrow> app \<Rightarrow> app" where
  "wallet_initialize W s =
     (if wl_detect W \<noteq> Inr True then s\<lparr>walletReady := True, isMetamaskInstalled := False\<rparr>
      else
        let t = s\<lparr>isMetamaskInstalled := True\<rparr> in
        if isAuthenticated t
        then (case wl_accounts W of Inr as \<Rightarrow> handleAccountsChanged as t | Inl _ \<Rightarrow> t)\<lparr>walletReady := True\<rparr>
        else t\<lparr>walletReady := True\<rparr>)"

definition connect :: "wallet \<Rightarrow> (app, unit) act" where
  "connect W =
     finally_do
       (catch
         (bind (modify (\<lambda>s. s\<lparr>isConnectPending := True, isConnectFailed := False\<rparr>)) (\<lambda>_.
          bind (of_sum (wl_detect W)) (\<lambda>found.
          bind (if found then of_sum (wl_requestAccounts W) else throw TypeError) (\<lambda>as.
          modify (handleAccountsChanged as)))))
         (\<lambda>_. modify (\<lambda>s. s\<lparr>isConnectFailed := True\<rparr>)))
       (\<lambda>s. s\<lparr>isConnectPending := False\<rparr>)"

definition disconnect :: "app \<Rightarrow> app" where
  "disconnect s = s\<lparr>wallet_address := None, isAuthenticated := False\<rparr>"

text \<open>
  \<open>switchNetwork\<close>: whether the wallet ends up on the chain. A thrown value that is falsy is \<open>None\<close>.
\<close>

definition chain_hex :: "int \<Rightarrow> string" where
  "chain_hex n = ''0x'' @ show_int_hex n"

definition chain_unknown :: "json \<Rightarrow> bool" where
  "chain_unknown e \<longleftrightarrow> opt_access (Some e) ''code'' = Some (JNum 4902) \<or>
     opt_access (opt_access (opt_access (Some e) ''data'') ''originalError'') ''code'' = Some (JNum 4902)"

definition switchNetwork :: "network \<Rightarrow> wallet \<Rightarrow> int \<Rightarrow> bool" where
  "switchNetwork net W target =
     (if wl_chainId W = chain_hex target then True
      else
        (case wl_switchChain W (chain_hex target) of
           Inr _ \<Rightarrow> True
         | Inl None \<Rightarrow> False
         | Inl (Some e) \<Rightarrow>
             if \<not> chain_unknown e then False
             else if Some target = nw_l1ChainId net then False
             else (case wl_addChain W (chain_hex (nw_l2ChainId net)) of Inr _ \<Rightarrow> True | Inl _ \<Rightarrow> False)))"

text \<open>
  A signer: its account and the URL of the provider of the second layer, or the error. A missing chain
  number throws when it is turned into text.
\<close>

definition signer_on :: "network \<Rightarrow> network list \<Rightarrow> wallet \<Rightarrow> (network \<Rightarrow> int option) \<Rightarrow> (app, wallet_error + string \<times> string) act" where
  "signer_on dflt ns W chain =
     bind (of_sum (wl_detect W)) (\<lambda>found.
     bind (gets (currentNetwork dflt ns)) (\<lambda>net.
     if \<not> found then ret (Inl (WalletError ''Network change rejected'' ''network_change_rejected''))
     else bind (of_opt TypeError (chain net)) (\<lambda>target.
       if \<not> switchNetwork net W target
       then ret (Inl (WalletError ''Network change rejected'' ''network_change_rejected''))
       else bind (of_sum (wl_signer W)) (\<lambda>address.
         bind (getL2Provider dflt ns) (\<lambda>url. ret (Inr (address, url)))))))"

definition getL1Signer :: "network \<Rightarrow> network list \<Rightarrow> wallet \<Rightarrow> (app, wallet_error + string \<times> string) act" where
  "getL1Signer dflt ns W = signer_on dflt ns W nw_l1ChainId"

definition getL2Signer :: "network \<Rightarrow> network list \<Rightarrow> wallet \<Rightarrow> (app, wallet_error + string \<times> string) act" where
  "getL2Signer dflt ns W = signer_on dflt ns W (\<lambda>net. Some (nw_l2ChainId net))"

definition addNetwork :: "network \<Rightarrow> network list \<Rightarrow> wallet \<Rightarrow> (app, wallet_error option) act" where
  "addNetwork dflt ns W =
     bind (of_sum (wl_detect W)) (\<lambda>found.
      if \<not> found then ret (Some (WalletError ''MetaMask not installed'' ''unknown_error_occurred''))
      else
        finally_do
          (bind (modify (\<lambda>s. s\<lparr>isAddNetworkPending := True\<rparr>)) (\<lambda>_.
           bind (gets (currentNetwork dflt ns)) (\<lambda>net.
           case wl_addChain W (chain_hex (nw_l2ChainId net)) of
             Inr _ \<Rightarrow> ret None
           | Inl e \<Rightarrow> ret (Some (processException (Inr e) ''Failed to add network to MetaMask'')))))
          (\<lambda>s. s\<lparr>isAddNetworkPending := False\<rparr>))"

section \<open>LoginView.vue\<close>

definition view_logout :: "auth_server \<Rightarrow> (app, unit) act" where
  "view_logout S = bind (modify (\<lambda>s. (disconnect s)\<lparr>rpcToken := None\<rparr>)) (\<lambda>_. logout S)"

text \<open>The steps in their order: connected, signed in, with a token. The first that is incomplete is active.\<close>

definition steps_completed :: "app \<Rightarrow> bool list" where
  "steps_completed s =
     [wallet_address s \<noteq> None \<and> wallet_address s \<noteq> Some [], app_user s \<noteq> LoggedOut, rpcToken s \<noteq> None \<and> rpcToken s \<noteq> Some []]"

definition active_step :: "app \<Rightarrow> nat option" where
  "active_step s = find (\<lambda>i. \<not> steps_completed s ! i) [0, 1, 2]"

section \<open>Steps of a session\<close>

text \<open>
  One step of the page: an operation of one of the modules, however the wallet and the server answer, and
  the wallet announcing other accounts.
\<close>

inductive app_step :: "siwe_text \<Rightarrow> network \<Rightarrow> network list \<Rightarrow> app \<Rightarrow> app \<Rightarrow> bool"
  for siwe dflt ns where
  step_identify: "app_step siwe dflt ns s (identifyNetwork dflt ns query origin s)"
| step_provider: "getL2Provider dflt ns s = (t, r) \<Longrightarrow> app_step siwe dflt ns s t"
| step_token: "updateRpcToken S s = (t, r) \<Longrightarrow> app_step siwe dflt ns s t"
| step_user: "initializeLogin S s = (t, r) \<Longrightarrow> app_step siwe dflt ns s t"
| step_login: "login siwe dflt ns W S s = (t, r) \<Longrightarrow> app_step siwe dflt ns s t"
| step_logout: "view_logout S s = (t, r) \<Longrightarrow> app_step siwe dflt ns s t"
| step_wallet: "app_step siwe dflt ns s (wallet_initialize W s)"
| step_connect: "connect W s = (t, r) \<Longrightarrow> app_step siwe dflt ns s t"
| step_accounts: "app_step siwe dflt ns s (handleAccountsChanged accounts s)"
| step_signer: "signer_on dflt ns W chain s = (t, r) \<Longrightarrow> app_step siwe dflt ns s t"
| step_add: "addNetwork dflt ns W s = (t, r') \<Longrightarrow> app_step siwe dflt ns s t"

text \<open>A connected wallet is remembered, and a provider is one of the current network.\<close>

definition provider_of_network :: "network \<Rightarrow> network list \<Rightarrow> app \<Rightarrow> bool" where
  "provider_of_network dflt ns s \<longleftrightarrow>
     (\<forall>u. l2Provider s = Some u \<longrightarrow> u = [] \<or> (\<exists>token. u = nw_rpcUrl (currentNetwork dflt ns s) @ ''/'' @ token))"

definition app_ok :: "network \<Rightarrow> network list \<Rightarrow> app \<Rightarrow> bool" where
  "app_ok dflt ns s \<longleftrightarrow>
     provider_of_network dflt ns s \<and> (wallet_address s \<noteq> None \<longrightarrow> isAuthenticated s)"

lemma same_network: "selected s = selected t \<Longrightarrow> currentNetwork dflt ns s = currentNetwork dflt ns t"
  by (simp add: currentNetwork_def)

lemma same_session:
  assumes "app_ok dflt ns s" "selected t = selected s" "l2Provider t = l2Provider s"
    and "wallet_address t \<noteq> None \<longrightarrow> isAuthenticated t"
  shows "app_ok dflt ns t"
  using assms same_network [of s t dflt ns] by (simp add: app_ok_def provider_of_network_def)

lemma select_network_ok: "app_ok dflt ns s \<Longrightarrow> app_ok dflt ns (select_network dflt ns name s)"
  by (auto simp: app_ok_def provider_of_network_def select_network_def Let_def)

lemma getL2Provider_ok: "app_ok dflt ns s \<Longrightarrow> getL2Provider dflt ns s = (t, r) \<Longrightarrow> app_ok dflt ns t"
  by (auto simp: getL2Provider_def app_ok_def provider_of_network_def rpc_url_def Let_def currentNetwork_def
      split: option.splits)

lemma handleAccountsChanged_ok: "app_ok dflt ns s \<Longrightarrow> app_ok dflt ns (handleAccountsChanged as s)"
  by (erule same_session) (auto simp: handleAccountsChanged_def split: list.splits)

lemma updateRpcToken_run:
  "updateRpcToken S s =
     (if rpcToken s \<noteq> None then (s, Inr ())
      else case sv_token S of Inl e \<Rightarrow> (s, Inl e) | Inr t \<Rightarrow> (s\<lparr>rpcToken := Some t\<rparr>, Inr ()))"
  by (simp add: updateRpcToken_def bind_def act_simps split: sum.splits)

lemma view_logout_run:
  "view_logout S s =
     (let t = (disconnect s)\<lparr>rpcToken := None\<rparr> in
      case sv_logout S of Inl e \<Rightarrow> (t, Inl e) | Inr _ \<Rightarrow> (t\<lparr>app_user := LoggedOut\<rparr>, Inr ()))"
  by (simp add: view_logout_def logout_def bind_def act_simps Let_def split: sum.splits)

lemma initializeLogin_user: "\<exists>u. fst (initializeLogin S s) = s\<lparr>app_user := u\<rparr>"
proof -
  have same: "\<exists>u. s = s\<lparr>app_user := u\<rparr>" by (rule exI [of _ "app_user s"]) simp
  show ?thesis
    using same by (auto simp: initializeLogin_def catch_def bind_def act_simps split: sum.splits option.splits json.splits)
qed

lemma login_run:
  assumes "login siwe dflt ns W S s = (t, r)"
  shows "case r of
      Inl _ \<Rightarrow> t = s\<lparr>app_user := LoggedOut, isLoginPending := True\<rparr>
    | Inr _ \<Rightarrow> (\<exists>a nonce signature.
        t = s\<lparr>app_user := LoggedIn a, isLoginPending := False\<rparr> \<and> wl_signer W = Inr a \<and> sv_nonce S = Inr nonce \<and>
        wl_sign W (siwe a (nw_l2ChainId (currentNetwork dflt ns s)) nonce) = Inr signature \<and>
        sv_verify S signature (siwe a (nw_l2ChainId (currentNetwork dflt ns s)) nonce) = Inr ())"
  using assms
  by (auto simp: login_def Let_def bind_def act_simps currentNetwork_def split: sum.splits if_splits)

lemma connect_run:
  "connect W s =
     (case (wl_detect W, wl_requestAccounts W) of
        (Inr True, Inr as) \<Rightarrow> ((handleAccountsChanged as s)\<lparr>isConnectPending := False, isConnectFailed := False\<rparr>, Inr ())
      | _ \<Rightarrow> (s\<lparr>isConnectPending := False, isConnectFailed := True\<rparr>, Inr ()))"
  by (auto simp: connect_def finally_do_def catch_def bind_def act_simps handleAccountsChanged_def
      split: sum.splits bool.splits list.splits)

lemma app_step_ok:
  assumes "app_step siwe dflt ns s t" "app_ok dflt ns s"
  shows "app_ok dflt ns t"
  using assms
proof (induction rule: app_step.induct)
  case (step_identify s query origin)
  have keep: "app_ok dflt ns (u\<lparr>contextReady := True\<rparr>)" if "app_ok dflt ns u" for u
    using that by (rule same_session) (use that in \<open>auto simp: app_ok_def\<close>)
  show ?case
    unfolding identifyNetwork_def Let_def using step_identify select_network_ok
    by (intro keep) (auto split: option.splits)
next
  case (step_provider s t r)
  then show ?case by (rule getL2Provider_ok [rotated])
next
  case (step_token S s t r)
  then show ?case
    by (intro same_session [of dflt ns s t]) (auto simp: updateRpcToken_run app_ok_def split: if_splits sum.splits)
next
  case (step_user S s t r)
  with initializeLogin_user [of S s] obtain u where "t = s\<lparr>app_user := u\<rparr>" by auto
  with step_user show ?case by (intro same_session [of dflt ns s t]) (auto simp: app_ok_def)
next
  case (step_login W S s t r)
  from login_run [OF step_login(1)] step_login(2) show ?case
    by (intro same_session [of dflt ns s t]) (auto simp: app_ok_def split: sum.splits)
next
  case (step_logout S s t r)
  then show ?case
    by (intro same_session [of dflt ns s t])
      (auto simp: view_logout_run disconnect_def app_ok_def Let_def split: sum.splits)
next
  case (step_wallet s W)
  then show ?case
    by (intro same_session [of dflt ns s "wallet_initialize W s"])
      (auto simp: wallet_initialize_def handleAccountsChanged_def app_ok_def Let_def split: sum.splits list.splits)
next
  case (step_connect W s t r)
  then show ?case
    by (intro same_session [of dflt ns s t])
      (auto simp: connect_run handleAccountsChanged_def app_ok_def split: sum.splits bool.splits list.splits)
next
  case (step_accounts s accounts)
  then show ?case by (rule handleAccountsChanged_ok)
next
  case (step_signer W chain s t r)
  then show ?case
    by (auto simp: signer_on_def bind_def act_simps of_opt_def intro: getL2Provider_ok split: sum.splits if_splits prod.splits option.splits)
next
  case (step_add W s t r')
  then show ?case
    by (intro same_session [of dflt ns s t])
      (auto simp: addNetwork_def finally_do_def bind_def act_simps app_ok_def split: sum.splits if_splits)
qed

section \<open>What the steps guarantee\<close>

definition fresh_app :: "string \<Rightarrow> string option \<Rightarrow> bool \<Rightarrow> app" where
  "fresh_app name token authenticated =
     \<lparr>selected = name, contextReady = False, app_user = LoggedOut, l2Provider = None, rpcToken = token,
      isLoginPending = False, walletReady = False, isConnectPending = False, isConnectFailed = False,
      isMetamaskInstalled = False, isAddNetworkPending = False, wallet_address = None, isAuthenticated = authenticated\<rparr>"



text \<open>
  Signing in ends in one of two ways. It returns after the server has accepted the signature of the
  wallet's account over the server's nonce, and that account is logged in; or it throws, the page is logged
  out and the login stays marked as pending.
\<close>

theorem login_outcomes:
  assumes "login siwe dflt ns W S s = (t, r)"
  shows "case r of
      Inl _ \<Rightarrow> app_user t = LoggedOut \<and> isLoginPending t
    | Inr _ \<Rightarrow> \<not> isLoginPending t \<and> (\<exists>a nonce signature.
        app_user t = LoggedIn a \<and> wl_signer W = Inr a \<and> sv_nonce S = Inr nonce \<and>
        wl_sign W (siwe a (nw_l2ChainId (currentNetwork dflt ns s)) nonce) = Inr signature \<and>
        sv_verify S signature (siwe a (nw_l2ChainId (currentNetwork dflt ns s)) nonce) = Inr ())"
  using login_run [OF assms] by (auto split: sum.splits)

text \<open>
  The token of the private RPC is the one the server gives the user who is logged in, when the page was
  left through its logout before; a token that is still in the storage is kept, whoever signs in.
\<close>

theorem token_after_login:
  assumes "login siwe dflt ns W S s = (u, Inr ())" "sv_token S = Inr k"
  shows "updateRpcToken S u = (u\<lparr>rpcToken := Some (case rpcToken s of None \<Rightarrow> k | Some old \<Rightarrow> old)\<rparr>, Inr ()) \<and>
    rpcToken (fst (view_logout S s)) = None"
proof -
  from login_run [OF assms(1)] have u: "rpcToken u = rpcToken s" by auto
  have "u\<lparr>rpcToken := Some old\<rparr> = u" if "rpcToken u = Some old" for old
    using that by (cases u) simp
  with u assms(2) show ?thesis
    by (auto simp: updateRpcToken_run view_logout_run Let_def split: option.splits sum.splits)
qed

text \<open>
  The provider is made once: a token that is obtained afterwards does not reach it until another network
  is selected.
\<close>

lemma provider_keeps_first_url:
  assumes "getL2Provider dflt ns s = (t, Inr url)"
  shows "getL2Provider dflt ns (t\<lparr>rpcToken := Some k\<rparr>) = (t\<lparr>rpcToken := Some k\<rparr>, Inr url)"
  using assms by (auto simp: getL2Provider_def Let_def split: option.splits)

end
