(* ===== verification/App_Requests.thy ===== *)
theory App_Requests
  imports Json
begin

text \<open>
  The requests of the explorer's front end (\<open>src/packages/app/src/composables\<close>: \<open>common/useFetch\<close>,
  \<open>common/useFetchCollection\<close>, \<open>useSearch\<close>, \<open>useTokenLibrary\<close>, \<open>useToken\<close>, \<open>all\<close> of \<open>useTransaction\<close>, and
  \<open>utils/validators\<close>). A request that fails with a response is \<open>HttpError\<close> with its
  status; any other exception is no \<open>FetchError\<close>, or one without a response.
\<close>

section \<open>common/useFetch.ts\<close>

text \<open>
  A request starts and, at some later moment, settles; several may be on their way. What a settled request
  does to the variables does not depend on which request it is.
\<close>

record 'a fetch_state =
  fs_item :: "'a option"
  fs_pending :: bool
  fs_failed :: bool

datatype 'a fetch_event = FetchStart | FetchSettle "exn + 'a"

fun fetch_event_step :: "'a fetch_event \<Rightarrow> 'a fetch_state \<Rightarrow> 'a fetch_state" where
  "fetch_event_step FetchStart s = s\<lparr>fs_pending := True, fs_failed := False\<rparr>"
| "fetch_event_step (FetchSettle (Inr v)) s = s\<lparr>fs_item := Some v, fs_pending := False\<rparr>"
| "fetch_event_step (FetchSettle (Inl _)) s = s\<lparr>fs_failed := True, fs_item := None, fs_pending := False\<rparr>"

definition useFetch_init :: "'a fetch_state" where
  "useFetch_init = \<lparr>fs_item = None, fs_pending = False, fs_failed = False\<rparr>"

definition useFetch_run :: "'a fetch_event list \<Rightarrow> 'a fetch_state" where
  "useFetch_run es = fold fetch_event_step es useFetch_init"

text \<open>The last answer among the events, if one has arrived.\<close>

definition last_answer :: "'a fetch_event list \<Rightarrow> (exn + 'a) option" where
  "last_answer es = map_option (\<lambda>e. case e of FetchSettle r \<Rightarrow> r | FetchStart \<Rightarrow> undefined)
     (find_last (\<lambda>e. e \<noteq> FetchStart) es)"

lemma find_last_snoc: "find_last P (xs @ [x]) = (if P x then Some x else find_last P xs)"
  by (induction xs) (auto split: option.splits)

lemma last_answer_snoc:
  "last_answer (es @ [FetchStart]) = last_answer es" "last_answer (es @ [FetchSettle r]) = Some r"
  by (simp_all add: last_answer_def find_last_snoc)

text \<open>Whether a request has failed and none has been started since.\<close>

definition failed_since_start :: "'a fetch_event list \<Rightarrow> bool" where
  "failed_since_start es \<longleftrightarrow>
     (case find_last (\<lambda>e. case e of FetchStart \<Rightarrow> True | FetchSettle r \<Rightarrow> isl r) es of
        Some (FetchSettle _) \<Rightarrow> True | _ \<Rightarrow> False)"

text \<open>
  The item is that of the request that was answered last, not of the one that was started last; and one
  answer ends the pending state although other requests may still be on their way.
\<close>

theorem fetch_shows_last_answer:
  "fs_item (useFetch_run es) = (case last_answer es of Some (Inr v) \<Rightarrow> Some v | _ \<Rightarrow> None) \<and>
   fs_pending (useFetch_run es) = (es \<noteq> [] \<and> last es = FetchStart) \<and>
   fs_failed (useFetch_run es) = failed_since_start es"
proof (induction es rule: rev_induct)
  case Nil
  show ?case by (simp add: useFetch_run_def useFetch_init_def last_answer_def failed_since_start_def)
next
  case (snoc e es)
  have run: "useFetch_run (es @ [e]) = fetch_event_step e (useFetch_run es)" by (simp add: useFetch_run_def)
  show ?case
  proof (cases e)
    case FetchStart
    with snoc run show ?thesis by (simp add: last_answer_snoc failed_since_start_def find_last_snoc)
  next
    case (FetchSettle r)
    with snoc run show ?thesis by (cases r) (simp_all add: last_answer_snoc failed_since_start_def find_last_snoc)
  qed
qed

section \<open>common/useFetchCollection.ts\<close>

text \<open>
  The answer has its items and its total, which may be missing; without \<open>meta\<close> reading the total throws,
  when the data has been set already.
\<close>

record 'a collection_state =
  cl_data :: "'a list option"
  cl_total :: "int option"
  cl_page :: "int option"
  cl_pending :: bool
  cl_failed :: bool

type_synonym 'r collection_answer = "exn + 'r list option \<times> int option"

datatype 'r load_event = LoadStart int | LoadSettle "'r collection_answer"

fun apply_load :: "('r \<Rightarrow> 'a) \<Rightarrow> 'r load_event \<Rightarrow> 'a collection_state \<Rightarrow> 'a collection_state" where
  "apply_load mapper (LoadStart nextPage) s = s\<lparr>cl_page := Some nextPage, cl_pending := True, cl_failed := False\<rparr>"
| "apply_load mapper (LoadSettle (Inl _)) s = s\<lparr>cl_failed := True, cl_data := None, cl_pending := False\<rparr>"
| "apply_load mapper (LoadSettle (Inr (items, number))) s =
     (case number of
        Some t \<Rightarrow> s\<lparr>cl_data := map_option (map mapper) items, cl_total := Some t, cl_pending := False\<rparr>
      | None \<Rightarrow> s\<lparr>cl_failed := True, cl_data := None, cl_pending := False\<rparr>)"

text \<open>The parameters of the request, in their order; \<open>toDate\<close> is its time and its text.\<close>

definition collection_params :: "nat \<Rightarrow> int \<Rightarrow> (int \<times> string) option \<Rightarrow> (string \<times> string) list" where
  "collection_params pageSize nextPage toDate =
     [(''pageSize'', show_nat pageSize), (''page'', show_int nextPage)] @
     (case toDate of Some (ms, stamp) \<Rightarrow> if ms > 0 then [(''toDate'', stamp)] else [] | None \<Rightarrow> [])"

section \<open>utils/validators.ts\<close>

definition isTransactionHash :: "string \<Rightarrow> bool" where
  "isTransactionHash s \<longleftrightarrow> take 2 s = ''0x'' \<and> list_all is_hex_digit (drop 2 s) \<and> length (drop 2 s) = 64"

text \<open>\<open>Number(s)\<close> of a text of digits, signs and asterisks: digits after at most one sign.\<close>

fun digits_value :: "nat \<Rightarrow> string \<Rightarrow> nat" where
  "digits_value v [] = v"
| "digits_value v (c # cs) = digits_value (10 * v + (code c - 48)) cs"

definition signed_number :: "string \<Rightarrow> int option" where
  "signed_number s =
     (let neg = (s \<noteq> [] \<and> hd s = CHR ''-'');
          ds = (if s \<noteq> [] \<and> (hd s = CHR ''-'' \<or> hd s = CHR ''+'') then tl s else s)
      in if ds \<noteq> [] \<and> list_all is_digit ds
         then Some (if neg then - int (digits_value 0 ds) else int (digits_value 0 ds)) else None)"

definition isBlockNumber :: "string \<Rightarrow> bool" where
  "isBlockNumber s \<longleftrightarrow>
     s \<noteq> [] \<and> list_all (\<lambda>c. is_digit c \<or> c \<in> set ''*+-'') s \<and>
     (case signed_number s of Some n \<Rightarrow> 0 \<le> n \<and> n \<le> 9007199254740991 | None \<Rightarrow> False)"

section \<open>useSearch.ts\<close>

record search_route =
  sr_param :: string
  sr_apiRoute :: string
  sr_routeName :: string
  sr_prefetch :: bool

text \<open>\<open>isAddr\<close> is \<open>isAddress\<close> of ethers on the text in lower case; it does not throw.\<close>

definition getSearchRoute :: "(string \<Rightarrow> bool) \<Rightarrow> string \<Rightarrow> search_route option" where
  "getSearchRoute isAddr param =
     map_option snd (find fst
       [(isAddr (lower param), \<lparr>sr_param = ''address'', sr_apiRoute = ''address'', sr_routeName = ''address'', sr_prefetch = True\<rparr>),
        (isBlockNumber param, \<lparr>sr_param = ''id'', sr_apiRoute = ''batches'', sr_routeName = ''batch'', sr_prefetch = True\<rparr>),
        (isTransactionHash param, \<lparr>sr_param = ''hash'', sr_apiRoute = ''transactions'', sr_routeName = ''transaction'', sr_prefetch = False\<rparr>)])"

record search_state =
  ss_pending :: bool
  ss_failed :: bool
  ss_pushed :: "(string \<times> (string \<times> string) list) list"

definition push_route :: "string \<Rightarrow> (string \<times> string) list \<Rightarrow> (search_state, unit) act" where
  "push_route name params = modify (\<lambda>s. s\<lparr>ss_pushed := ss_pushed s @ [(name, params)]\<rparr>)"

text \<open>The value says whether the search has returned early.\<close>

definition try_route :: "(string \<Rightarrow> exn + unit) \<Rightarrow> string \<Rightarrow> search_route \<Rightarrow> string \<Rightarrow> (search_state, bool) act" where
  "try_route fetch apiUrl route param =
     finally_do
       (catch
         (bind (if sr_prefetch route then of_sum (fetch (apiUrl @ ''/'' @ sr_apiRoute route @ ''/'' @ param)) else ret ()) (\<lambda>_.
          bind (push_route (sr_routeName route) [(sr_param route, param)]) (\<lambda>_. ret True)))
         (\<lambda>e. case e of
            HttpError _ status \<Rightarrow>
              if status = 403 then bind (push_route (sr_routeName route) [(sr_param route, param)]) (\<lambda>_. ret True)
              else if status \<noteq> 404 then bind (modify (\<lambda>s. s\<lparr>ss_failed := True\<rparr>)) (\<lambda>_. ret False)
              else ret False
          | _ \<Rightarrow> bind (modify (\<lambda>s. s\<lparr>ss_failed := True\<rparr>)) (\<lambda>_. ret False)))
       (\<lambda>s. s\<lparr>ss_pending := False\<rparr>)"

definition app_search :: "(string \<Rightarrow> bool) \<Rightarrow> (string \<Rightarrow> exn + unit) \<Rightarrow> string \<Rightarrow> string \<Rightarrow> (search_state, unit) act" where
  "app_search isAddr fetch apiUrl param =
     bind (modify (\<lambda>s. s\<lparr>ss_pending := True\<rparr>)) (\<lambda>_.
     case getSearchRoute isAddr param of
       None \<Rightarrow> push_route ''not-found'' []
     | Some route \<Rightarrow> bind (try_route fetch apiUrl route param) (\<lambda>done.
         if done then ret () else push_route ''not-found'' []))"

lemma try_route_run:
  "try_route fetch apiUrl route param s =
     (let found = s\<lparr>ss_pending := False, ss_pushed := ss_pushed s @ [(sr_routeName route, [(sr_param route, param)])]\<rparr> in
      case (if sr_prefetch route then fetch (apiUrl @ ''/'' @ sr_apiRoute route @ ''/'' @ param) else Inr ()) of
        Inr _ \<Rightarrow> (found, Inr True)
      | Inl e \<Rightarrow>
          if \<exists>m. e = HttpError m 403 then (found, Inr True)
          else (s\<lparr>ss_pending := False, ss_failed := (ss_failed s \<or> (\<forall>m. e \<noteq> HttpError m 404))\<rparr>, Inr False))"
proof (cases "if sr_prefetch route then fetch (apiUrl @ ''/'' @ sr_apiRoute route @ ''/'' @ param) else Inr ()")
  case (Inr u)
  then show ?thesis
    by (cases "sr_prefetch route")
      (simp_all add: try_route_def push_route_def finally_do_def catch_def bind_def act_simps Let_def)
next
  case (Inl e)
  then have "sr_prefetch route" "fetch (apiUrl @ ''/'' @ sr_apiRoute route @ ''/'' @ param) = Inl e"
    by (simp_all split: if_splits)
  then show ?thesis
    by (cases e) (simp_all add: try_route_def push_route_def finally_do_def catch_def bind_def act_simps Let_def)
qed

text \<open>
  A search goes to exactly one page. It is the page of the address, batch or transaction when that exists,
  or may not be seen by the user, or is not looked up before; and the page for what is not found otherwise,
  where an error that is no answer 404 is marked. A text that is none of the three leaves the search marked
  as pending.
\<close>

theorem search_one_page:
  assumes "app_search isAddr fetch apiUrl param s = (t, r)"
  shows "r = Inr () \<and>
    (case getSearchRoute isAddr param of
       None \<Rightarrow> t = s\<lparr>ss_pending := True, ss_pushed := ss_pushed s @ [(''not-found'', [])]\<rparr>
     | Some route \<Rightarrow>
         (case (if sr_prefetch route then fetch (apiUrl @ ''/'' @ sr_apiRoute route @ ''/'' @ param) else Inr ()) of
            Inr _ \<Rightarrow> t = s\<lparr>ss_pending := False, ss_pushed := ss_pushed s @ [(sr_routeName route, [(sr_param route, param)])]\<rparr>
          | Inl e \<Rightarrow>
              if \<exists>m. e = HttpError m 403
              then t = s\<lparr>ss_pending := False, ss_pushed := ss_pushed s @ [(sr_routeName route, [(sr_param route, param)])]\<rparr>
              else t = s\<lparr>ss_pending := False, ss_failed := (ss_failed s \<or> (\<forall>m. e \<noteq> HttpError m 404)),
                     ss_pushed := ss_pushed s @ [(''not-found'', [])]\<rparr>))"
proof (cases "getSearchRoute isAddr param")
  case None
  with assms show ?thesis by (auto simp: app_search_def push_route_def bind_def act_simps)
next
  case (Some route)
  then have "app_search isAddr fetch apiUrl param s =
      (case try_route fetch apiUrl route param (s\<lparr>ss_pending := True\<rparr>) of
         (u, Inl e) \<Rightarrow> (u, Inl e) | (u, Inr done) \<Rightarrow> (if done then ret () else push_route ''not-found'' []) u)"
    by (simp add: app_search_def bind_def act_simps)
  with assms Some show ?thesis
    by (cases "if sr_prefetch route then fetch (apiUrl @ ''/'' @ sr_apiRoute route @ ''/'' @ param) else Inr ()")
      (auto simp: try_route_run push_route_def act_simps)
qed

section \<open>useTransaction.ts: all the pages of a collection\<close>

text \<open>\<open>all\<close>: at most 99 pages of a hundred, until one that is not full.\<close>

fun all_loop :: "(nat \<Rightarrow> exn + 'a list) \<Rightarrow> nat \<Rightarrow> nat \<Rightarrow> exn + 'a list" where
  "all_loop fetch 0 page = Inr []"
| "all_loop fetch (Suc k) page =
     sbind (fetch page) (\<lambda>items.
     if items = [] then Inr []
     else if 100 > length items then Inr items
     else sbind (all_loop fetch k (page + 1)) (\<lambda>rest. Inr (items @ rest)))"

definition all_pages :: "(nat \<Rightarrow> exn + 'a list) \<Rightarrow> exn + 'a list" where
  "all_pages fetch = all_loop fetch 99 1"

lemma all_loop_pages:
  assumes "\<And>p. fetch p = Inr (take 100 (drop ((p - 1) * 100) xs))"
  shows "all_loop fetch k (Suc n) = Inr (take (k * 100) (drop (n * 100) xs))"
proof (induction k arbitrary: n)
  case (Suc k)
  let ?rest = "drop (n * 100) xs"
  have page: "fetch (Suc n) = Inr (take 100 ?rest)" using assms [of "Suc n"] by simp
  have "take (Suc k * 100) ?rest = take 100 ?rest @ take (k * 100) (drop (Suc n * 100) xs)"
    using take_add [of 100 "k * 100" ?rest] by (simp add: add.commute)
  moreover have "drop (Suc n * 100) xs = []" if "length (take 100 ?rest) < 100" using that by simp
  ultimately show ?case
    using Suc.IH [of "Suc n"] page by (cases "length (take 100 ?rest) < 100") auto
qed simp

text \<open>
  The contract with a server of pages: the page \<open>p\<close> of a hundred items is that part of the collection.
  Against such a server \<open>all\<close> returns the collection, up to its first 9900 items.
\<close>

locale paged_source =
  fixes serve :: "nat \<Rightarrow> exn + 'a list"
    and items :: "'a list"
  assumes serve_page: "serve p = Inr (take 100 (drop ((p - 1) * 100) items))"
begin

lemma all_served: "all_pages serve = Inr (take 9900 items)"
  using all_loop_pages [of serve items 99 0] serve_page by (simp add: all_pages_def)

lemma all_served_short: "length items \<le> 9900 \<Longrightarrow> all_pages serve = Inr items"
  using all_served by simp

end

lemma all_pages_error: "fetch 1 = Inl e \<Longrightarrow> all_pages fetch = Inl e"
  by (simp add: all_pages_def eval_nat_numeral sbind_def)

section \<open>useTokenLibrary.ts\<close>

text \<open>
  \<open>retrieveTokens\<close> asks for page after page while the answer says that there are more; nothing else bounds
  the loop. \<open>minLiquidity\<close> is whether the configuration has one.
\<close>

record 'a token_page =
  tp_items :: "'a list"
  tp_totalPages :: int
  tp_currentPage :: int

partial_function (option) token_pages ::
  "bool \<Rightarrow> (int \<Rightarrow> exn + 'a token_page) \<Rightarrow> int \<Rightarrow> 'a list \<Rightarrow> (exn + 'a list) option" where
  "token_pages minLiquidity fetch page acc =
     (case fetch page of
        Inl e \<Rightarrow> Some (Inl e)
      | Inr r \<Rightarrow>
          if minLiquidity \<and> tp_totalPages r > tp_currentPage r
          then token_pages minLiquidity fetch (page + 1) (acc @ tp_items r)
          else Some (Inr (acc @ tp_items r)))"

definition put_first :: "('a \<Rightarrow> bool) \<Rightarrow> (exn + 'a) \<Rightarrow> 'a list \<Rightarrow> 'a list" where
  "put_first is_zk fetched tokens =
     (case find is_zk tokens of
        Some t \<Rightarrow> t # remove1 t tokens
      | None \<Rightarrow> (case fetched of Inr t \<Rightarrow> t # tokens | Inl _ \<Rightarrow> tokens))"

definition retrieveTokens ::
  "bool \<Rightarrow> ('a \<Rightarrow> bool) option \<Rightarrow> (exn + 'a) \<Rightarrow> (int \<Rightarrow> exn + 'a token_page) \<Rightarrow> (exn + 'a list) option" where
  "retrieveTokens minLiquidity zkToken fetchedZk fetch =
     map_option (\<lambda>r. sbind r (\<lambda>tokens. Inr (case zkToken of None \<Rightarrow> tokens | Some z \<Rightarrow> put_first z fetchedZk tokens)))
       (token_pages minLiquidity fetch 1 [])"

text \<open>Which token the library finds, and the one that is fetched otherwise.\<close>

definition getTokenInfo :: "('a \<Rightarrow> string) \<Rightarrow> 'a list \<Rightarrow> (string \<Rightarrow> exn + 'a) \<Rightarrow> string option \<Rightarrow> exn + 'a option" where
  "getTokenInfo l2Address library retrieveToken address =
     (case address of
        None \<Rightarrow> Inr None
      | Some a \<Rightarrow> if a = [] then Inr None
          else (case find (\<lambda>t. l2Address t = a) library of
                  Some t \<Rightarrow> Inr (Some t)
                | None \<Rightarrow> sbind (retrieveToken a) (\<lambda>t. Inr (Some t))))"

text \<open>
  Against a server that says which page it has answered, out of a fixed number of pages, the library ends
  and has the tokens of all pages.
\<close>

lemma token_pages_from:
  assumes "\<And>p. 1 \<le> p \<Longrightarrow> fetch p = Inr \<lparr>tp_items = items p, tp_totalPages = int n, tp_currentPage = p\<rparr>"
    and "1 \<le> page" "m = nat (int n - page)"
  shows "token_pages True fetch page acc = Some (Inr (acc @ concat (map (\<lambda>i. items (page + int i)) [0..<Suc m])))"
  using assms(2,3)
proof (induction m arbitrary: page acc)
  case 0
  then show ?case using assms(1) [of page] by (subst token_pages.simps) simp
next
  case (Suc m)
  then have "token_pages True fetch (page + 1) (acc @ items page) =
      Some (Inr ((acc @ items page) @ concat (map (\<lambda>i. items (page + 1 + int i)) [0..<Suc m])))"
    by (intro Suc.IH) auto
  moreover have "[0..<Suc (Suc m)] = 0 # map Suc [0..<Suc m]" by (simp add: upt_conv_Cons map_Suc_upt)
  moreover have "int n > page" using Suc.prems by simp
  ultimately show ?case
    using assms(1) [of page] Suc.prems
    by (subst token_pages.simps) (simp add: comp_def add.assoc del: upt_Suc)
qed

theorem token_library_ends:
  assumes "\<And>p. 1 \<le> p \<Longrightarrow> fetch p = Inr \<lparr>tp_items = items p, tp_totalPages = int n, tp_currentPage = p\<rparr>"
  shows "token_pages True fetch 1 [] = Some (Inr (concat (map items [1..max 1 (int n)])))"
proof -
  have "map (\<lambda>i. items (1 + int i)) [0..<Suc (nat (int n - 1))] = map items [1..max 1 (int n)]"
  proof (rule nth_equalityI)
    show "length (map (\<lambda>i. items (1 + int i)) [0..<Suc (nat (int n - 1))]) = length (map items [1..max 1 (int n)])" by simp
    show "map (\<lambda>i. items (1 + int i)) [0..<Suc (nat (int n - 1))] ! i = map items [1..max 1 (int n)] ! i"
      if "i < length (map (\<lambda>i. items (1 + int i)) [0..<Suc (nat (int n - 1))])" for i
      using that by (simp del: upt_Suc)
  qed
  note pages = this
  have "token_pages True fetch 1 [] = Some (Inr ([] @ concat (map (\<lambda>i. items (1 + int i)) [0..<Suc (nat (int n - 1))])))"
    by (rule token_pages_from) (simp_all add: assms)
  then show ?thesis unfolding pages by simp
qed

end
