(* ===== verification/App_Transactions.thy ===== *)
theory App_Transactions
  imports App_Requests Worker_Entities "HOL-Library.Multiset"
begin

text \<open>
  The page of a transaction and the pages of blocks and batches in the front end
  (\<open>src/packages/app/src/composables\<close>: \<open>useTransaction\<close>, \<open>useTransfers\<close>, \<open>useTransactions\<close>, \<open>useBlock\<close>, \<open>useBatch\<close>;
  \<open>utils/helpers\<close>). \<open>BigInt\<close> on text is an argument, as it throws for what is no number.
\<close>

section \<open>useTransaction.ts\<close>

datatype network_origin = L1 | L2

text \<open>A transfer as the API answers it, with the token it has joined, and as the page keeps it.\<close>

record joined_token =
  jt_l1Address :: "string option"
  jt_decimals :: "int option"
  jt_name :: "string option"
  jt_symbol :: "string option"
  jt_usdPrice :: "rat option"
  jt_liquidity :: "rat option"
  jt_iconURL :: "string option"

record api_transfer =
  ax_amount :: "string option"
  ax_from :: string
  ax_to :: string
  ax_type :: TransferType
  ax_tokenAddress :: "string option"
  ax_token :: "joined_token option"

record shown_token =
  sh_address :: "string option"
  sh_l2Address :: "string option"
  sh_l1Address :: "string option"
  sh_decimals :: int
  sh_name :: "string option"
  sh_symbol :: "string option"
  sh_usdPrice :: "rat option"
  sh_liquidity :: "rat option"
  sh_iconURL :: "string option"

record token_transfer =
  tt_amount :: "string option"
  tt_from :: string
  tt_to :: string
  tt_type :: TransferType
  tt_fromNetwork :: network_origin
  tt_toNetwork :: network_origin
  tt_tokenInfo :: shown_token

definition getTransferNetworkOrigin :: "TransferType \<Rightarrow> bool \<Rightarrow> network_origin" where
  "getTransferNetworkOrigin typ sender =
     (if sender then (if typ = Deposit then L1 else L2) else (if typ = Withdrawal then L1 else L2))"

definition shown_token_of :: "string option \<Rightarrow> joined_token option \<Rightarrow> shown_token" where
  "shown_token_of address token =
     \<lparr>sh_address = address, sh_l2Address = address, sh_l1Address = Option.bind token jt_l1Address,
      sh_decimals = (case Option.bind token jt_decimals of None \<Rightarrow> 0 | Some d \<Rightarrow> d),
      sh_name = Option.bind token jt_name, sh_symbol = Option.bind token jt_symbol,
      sh_usdPrice = Option.bind token jt_usdPrice, sh_liquidity = Option.bind token jt_liquidity,
      sh_iconURL = Option.bind token jt_iconURL\<rparr>"

definition mapTransfer :: "api_transfer \<Rightarrow> token_transfer" where
  "mapTransfer t = \<lparr>tt_amount = ax_amount t, tt_from = ax_from t, tt_to = ax_to t, tt_type = ax_type t,
     tt_fromNetwork = getTransferNetworkOrigin (ax_type t) True, tt_toNetwork = getTransferNetworkOrigin (ax_type t) False,
     tt_tokenInfo = shown_token_of (ax_tokenAddress t) (ax_token t)\<rparr>"

definition mapTransfers :: "api_transfer list \<Rightarrow> token_transfer list" where
  "mapTransfers = map mapTransfer"

definition filterRefunds :: "api_transfer list \<Rightarrow> api_transfer list" where
  "filterRefunds = filter (\<lambda>t. ax_type t = Refund)"

definition filterFees :: "api_transfer list \<Rightarrow> api_transfer list" where
  "filterFees = filter (\<lambda>t. ax_type t = Fee)"

definition filterTransfers :: "api_transfer list \<Rightarrow> api_transfer list" where
  "filterTransfers = filter (\<lambda>t. ax_type t \<noteq> Fee \<and> ax_type t \<noteq> Refund)"

text \<open>\<open>amount || 0\<close>: a missing or empty amount is zero.\<close>

definition amount_value :: "(string \<Rightarrow> exn + int) \<Rightarrow> string option \<Rightarrow> exn + int" where
  "amount_value bigint v = (case v of None \<Rightarrow> Inr 0 | Some t \<Rightarrow> if t = [] then Inr 0 else bigint t)"

definition sumAmounts :: "(string \<Rightarrow> exn + int) \<Rightarrow> token_transfer list \<Rightarrow> exn + int" where
  "sumAmounts bigint changes =
     fold_act (\<lambda>t acc. sbind (amount_value bigint (tt_amount t)) (\<lambda>v. Inr (acc + v))) changes 0"

definition numberToHexString :: "int \<Rightarrow> string" where
  "numberToHexString n = ''0x'' @ show_int_hex n"

record fee_data =
  fd_amountPaid :: string
  fd_isPaidByPaymaster :: bool
  fd_paymasterAddress :: "string option"
  fd_refunds :: "token_transfer list"
  fd_amountRefunded :: string

text \<open>An event as the API and the chain give it, and as the page keeps it.\<close>

record event_log =
  el_address :: string
  el_blockNumber :: int
  el_data :: string
  el_logIndex :: int
  el_topics :: "string list"
  el_transactionHash :: "string option"
  el_transactionIndex :: int

record log_entry =
  le_address :: string
  le_blockNumber :: int
  le_data :: string
  le_logIndex :: string
  le_topics :: "string list"
  le_transactionHash :: "string option"
  le_transactionIndex :: string

definition map_log :: "event_log \<Rightarrow> log_entry" where
  "map_log l = \<lparr>le_address = el_address l, le_blockNumber = el_blockNumber l, le_data = el_data l,
     le_logIndex = show_int_hex (el_logIndex l), le_topics = el_topics l, le_transactionHash = el_transactionHash l,
     le_transactionIndex = show_int_hex (el_transactionIndex l)\<rparr>"

record call_data =
  cd_contractAddress :: "string option"
  cd_calldata :: string
  cd_sighash :: string
  cd_value :: string

text \<open>The hashes of the transactions of the batch on the first layer.\<close>

record l1_hashes =
  lh_commitTxHash :: "string option"
  lh_executeTxHash :: "string option"
  lh_proveTxHash :: "string option"

record gas_data =
  gd_gasPrice :: string
  gd_gasLimit :: string
  gd_gasUsed :: string
  gd_gasPerPubdata :: "string option"
  gd_maxFeePerGas :: "string option"
  gd_maxPriorityFeePerGas :: "string option"

text \<open>
  A transaction as the API answers it, and as the page keeps it; fields that belong together and keep their
  names are records of their own.
\<close>

record api_transaction =
  xa_hash :: string
  xa_blockHash :: string
  xa_blockNumber :: int
  xa_to :: string
  xa_from :: string
  xa_data :: string
  xa_value :: string
  xa_l1 :: l1_hashes
  xa_fee :: string
  xa_transactionIndex :: int
  xa_isL1Originated :: bool
  xa_nonce :: int
  xa_receivedAt :: string
  xa_status :: string
  xa_l1BatchNumber :: "int option"
  xa_isL1BatchSealed :: bool
  xa_error :: "string option"
  xa_revertReason :: "string option"
  xa_gas :: gas_data

record transaction_item =
  ti_hash :: string
  ti_blockHash :: "string option"
  ti_blockNumber :: "int option"
  ti_data :: call_data
  ti_value :: string
  ti_from :: string
  ti_to :: "string option"
  ti_l1 :: l1_hashes
  ti_fee :: string
  ti_feeData :: "fee_data"
  ti_indexInBlock :: int
  ti_isL1Originated :: bool
  ti_nonce :: int
  ti_receivedAt :: string
  ti_status :: string
  ti_l1BatchNumber :: "int option"
  ti_isL1BatchSealed :: bool
  ti_error :: "string option"
  ti_revertReason :: "string option"
  ti_logs :: "log_entry list"
  ti_transfers :: "token_transfer list"
  ti_gas :: gas_data

definition mapTransaction ::
  "(string \<Rightarrow> exn + int) \<Rightarrow> api_transaction \<Rightarrow> api_transfer list \<Rightarrow> event_log list \<Rightarrow> exn + transaction_item" where
  "mapTransaction bigint t transfers logs =
     (let fees = mapTransfers (filterFees transfers);
          refunds = mapTransfers (filterRefunds transfers);
          paymasterFee = find (\<lambda>f. tt_from f \<noteq> xa_from t) fees;
          isPaidByPaymaster = (\<not> xa_isL1Originated t \<and> paymasterFee \<noteq> None)
      in sbind (sumAmounts bigint (mapTransfers (filterRefunds transfers))) (\<lambda>refunded.
         Inr \<lparr>ti_hash = xa_hash t, ti_blockHash = Some (xa_blockHash t), ti_blockNumber = Some (xa_blockNumber t),
              ti_data = \<lparr>cd_contractAddress = Some (xa_to t), cd_calldata = xa_data t, cd_sighash = take 10 (xa_data t),
                cd_value = xa_value t\<rparr>,
              ti_value = xa_value t, ti_from = xa_from t, ti_to = Some (xa_to t), ti_l1 = xa_l1 t, ti_fee = xa_fee t,
              ti_feeData = \<lparr>fd_amountPaid = xa_fee t, fd_isPaidByPaymaster = isPaidByPaymaster,
                fd_paymasterAddress = (if isPaidByPaymaster then map_option tt_from paymasterFee else None),
                fd_refunds = refunds, fd_amountRefunded = numberToHexString refunded\<rparr>,
              ti_indexInBlock = xa_transactionIndex t, ti_isL1Originated = xa_isL1Originated t, ti_nonce = xa_nonce t,
              ti_receivedAt = xa_receivedAt t, ti_status = xa_status t, ti_l1BatchNumber = xa_l1BatchNumber t,
              ti_isL1BatchSealed = xa_isL1BatchSealed t, ti_error = xa_error t, ti_revertReason = xa_revertReason t,
              ti_logs = map map_log logs, ti_transfers = mapTransfers (filterTransfers transfers), ti_gas = xa_gas t\<rparr>))"

text \<open>
  \<open>getFromBlockchainByHash\<close>: what the private RPC knows of the transaction, as the libraries ethers and
  zksync-ethers give it; amounts are integers. \<open>stamp\<close> is \<open>toJSON\<close> of a date.
\<close>

record chain_transaction =
  ct_hash :: string
  ct_blockHash :: "string option"
  ct_blockNumber :: "int option"
  ct_to :: "string option"
  ct_from :: string
  ct_data :: string
  ct_value :: int
  ct_nonce :: int
  ct_l1BatchNumber :: "int option"
  ct_gasPrice :: "int option"
  ct_gasLimit :: int
  ct_maxFeePerGas :: "int option"
  ct_maxPriorityFeePerGas :: "int option"

record chain_details =
  ds_status :: string
  ds_l1 :: l1_hashes
  ds_fee :: int
  ds_isL1Originated :: bool
  ds_receivedAt :: int
  ds_gasPerPubdata :: "string option"

record chain_receipt =
  cr_index :: int
  cr_logs :: "event_log list"
  cr_gasUsed :: int

definition chain_item ::
  "(int \<Rightarrow> string) \<Rightarrow> chain_transaction \<Rightarrow> chain_details \<Rightarrow> chain_receipt \<Rightarrow> string \<Rightarrow> string option \<Rightarrow> transaction_item" where
  "chain_item stamp x d r gasPrice perPubdata =
     \<lparr>ti_hash = ct_hash x, ti_blockHash = ct_blockHash x, ti_blockNumber = ct_blockNumber x,
      ti_data = \<lparr>cd_contractAddress = ct_to x, cd_calldata = ct_data x, cd_sighash = take 10 (ct_data x),
        cd_value = show_int (ct_value x)\<rparr>,
      ti_value = show_int (ct_value x), ti_from = ct_from x, ti_to = ct_to x, ti_l1 = ds_l1 d, ti_fee = show_int (ds_fee d),
      ti_feeData = \<lparr>fd_amountPaid = show_int (ds_fee d), fd_isPaidByPaymaster = False, fd_paymasterAddress = None,
        fd_refunds = [], fd_amountRefunded = numberToHexString 0\<rparr>,
      ti_indexInBlock = cr_index r, ti_isL1Originated = ds_isL1Originated d, ti_nonce = ct_nonce x,
      ti_receivedAt = stamp (ds_receivedAt d), ti_status = ''indexing'', ti_l1BatchNumber = ct_l1BatchNumber x,
      ti_isL1BatchSealed = False, ti_error = None, ti_revertReason = None, ti_logs = map map_log (cr_logs r),
      ti_transfers = [],
      ti_gas = \<lparr>gd_gasPrice = gasPrice, gd_gasLimit = show_int (ct_gasLimit x), gd_gasUsed = show_int (cr_gasUsed r),
        gd_gasPerPubdata = perPubdata, gd_maxFeePerGas = map_option show_int (ct_maxFeePerGas x),
        gd_maxPriorityFeePerGas = map_option show_int (ct_maxPriorityFeePerGas x)\<rparr>\<rparr>"

definition getFromBlockchainByHash ::
  "(string \<Rightarrow> exn + int) \<Rightarrow> (int \<Rightarrow> string) \<Rightarrow> exn + chain_transaction option \<Rightarrow> exn + chain_details option \<Rightarrow>
     exn + chain_receipt option \<Rightarrow> transaction_item option" where
  "getFromBlockchainByHash bigint stamp getTransaction getTransactionDetails getTransactionReceipt =
     (case (getTransaction, getTransactionDetails, getTransactionReceipt) of
        (Inr (Some x), Inr (Some d), Inr (Some r)) \<Rightarrow>
          if ds_status d = ''pending'' then None
          else
            (case (ct_gasPrice x, ds_gasPerPubdata d) of
               (None, _) \<Rightarrow> None
             | (Some price, None) \<Rightarrow> Some (chain_item stamp x d r (show_int price) None)
             | (Some price, Some g) \<Rightarrow>
                 if g = [] then Some (chain_item stamp x d r (show_int price) None)
                 else (case bigint g of
                         Inl _ \<Rightarrow> None
                       | Inr v \<Rightarrow> Some (chain_item stamp x d r (show_int price) (Some (show_int v)))))
      | _ \<Rightarrow> None)"

text \<open>
  \<open>getByHash\<close>: the answers of the three requests, in parallel; the first one that fails decides, and the
  model takes them in order. \<open>fromChain\<close> is what \<open>getFromBlockchainByHash\<close> returns.
\<close>

record tx_page =
  xp_transaction :: "transaction_item option"
  xp_pending :: bool
  xp_failed :: bool

definition getByHash ::
  "(string \<Rightarrow> exn + int) \<Rightarrow> exn + api_transaction \<Rightarrow> exn + api_transfer list \<Rightarrow> exn + event_log list \<Rightarrow>
     transaction_item option \<Rightarrow> tx_page" where
  "getByHash bigint response transfers logs fromChain =
     (case sbind response (\<lambda>t. sbind transfers (\<lambda>ts. sbind logs (\<lambda>ls. mapTransaction bigint t ts ls))) of
        Inr item \<Rightarrow> \<lparr>xp_transaction = Some item, xp_pending = False, xp_failed = False\<rparr>
      | Inl (HttpError m status) \<Rightarrow>
          if status = 404 then \<lparr>xp_transaction = fromChain, xp_pending = False, xp_failed = False\<rparr>
          else \<lparr>xp_transaction = None, xp_pending = False, xp_failed = False\<rparr>
      | Inl _ \<Rightarrow> \<lparr>xp_transaction = None, xp_pending = False, xp_failed = True\<rparr>)"

subsection \<open>What the page shows\<close>

lemma mapTransfer_simps [simp]: "tt_amount (mapTransfer t) = ax_amount t" "tt_from (mapTransfer t) = ax_from t"
  by (simp_all add: mapTransfer_def)

lemma sumAmounts_total:
  assumes "\<And>t. t \<in> set ts \<Longrightarrow> amount_value bigint (ax_amount t) = Inr (v t)"
  shows "sumAmounts bigint (mapTransfers ts) = Inr (sum_list (map v ts))"
proof -
  have "fold_act (\<lambda>t acc. sbind (amount_value bigint (tt_amount t)) (\<lambda>v. Inr (acc + v))) (mapTransfers ts) acc =
      Inr (acc + sum_list (map v ts))" for acc
    using assms by (induction ts arbitrary: acc) (simp_all add: mapTransfers_def add.assoc)
  then show ?thesis by (simp add: sumAmounts_def)
qed

lemma transfer_parts: "mset xs = mset (filterFees xs) + mset (filterRefunds xs) + mset (filterTransfers xs)"
  by (induction xs) (auto simp: filterFees_def filterRefunds_def filterTransfers_def)

lemma find_payer: "find (\<lambda>f. tt_from f \<noteq> a) (mapTransfers xs) = map_option mapTransfer (find (\<lambda>x. ax_from x \<noteq> a) xs)"
  by (induction xs) (auto simp: mapTransfers_def)


text \<open>A page whose transaction the API does not know is that of the chain, and a transaction being indexed has no transfers.\<close>

lemma indexing_page:
  assumes "getByHash bigint (Inl (HttpError m 404)) transfers logs
      (getFromBlockchainByHash bigint stamp getTransaction getDetails getReceipt) = page" "xp_transaction page = Some item"
  shows "ti_status item = ''indexing'' \<and> ti_transfers item = [] \<and> \<not> ti_isL1BatchSealed item \<and> \<not> xp_failed page"
  using assms
  by (auto simp: getByHash_def sbind_def getFromBlockchainByHash_def chain_item_def
      split: sum.splits option.splits if_splits)


section \<open>useTransfers.ts, useTransactions.ts\<close>

text \<open>The mapper of the lists of transfers: a token that is missing is described by its address only.\<close>

record listed_transfer = api_transfer +
  lt_fromNetwork :: network_origin
  lt_toNetwork :: network_origin

definition map_listed_transfer :: "api_transfer \<Rightarrow> listed_transfer" where
  "map_listed_transfer t =
     \<lparr>ax_amount = ax_amount t, ax_from = ax_from t, ax_to = ax_to t, ax_type = ax_type t, ax_tokenAddress = ax_tokenAddress t,
      ax_token = (case ax_token t of
          None \<Rightarrow> Some \<lparr>jt_l1Address = None, jt_decimals = Some 0, jt_name = None, jt_symbol = None, jt_usdPrice = None,
            jt_liquidity = None, jt_iconURL = None\<rparr>
        | Some k \<Rightarrow> Some k),
      lt_fromNetwork = (if ax_type t = Deposit then L1 else L2), lt_toNetwork = (if ax_type t = Withdrawal then L1 else L2)\<rparr>"

text \<open>The query of a list of transactions: what is given, and the number zero too.\<close>

datatype search_value = SearchNumber int | SearchText string | SearchNothing

fun search_text :: "search_value \<Rightarrow> string option" where
  "search_text (SearchNumber n) = Some (show_int n)"
| "search_text (SearchText t) = (if t = [] then None else Some t)"
| "search_text SearchNothing = None"

definition transactions_query :: "(string \<times> search_value) list \<Rightarrow> (string \<times> string) list" where
  "transactions_query params =
     concat (map (\<lambda>(k, v). case search_text v of None \<Rightarrow> [] | Some t \<Rightarrow> [(k, t)]) params)"

section \<open>useBlock.ts, useBatch.ts\<close>

text \<open>The item, and whether the request is shown as failed; an answer 404 is not a failure.\<close>

definition not_http_404 :: "exn \<Rightarrow> bool" where
  "not_http_404 e \<longleftrightarrow> (\<forall>m. e \<noteq> HttpError m 404)"

definition useBlock_getById :: "exn + 'a \<Rightarrow> 'a option \<times> bool" where
  "useBlock_getById answer = (case answer of Inr v \<Rightarrow> (Some v, False) | Inl e \<Rightarrow> (None, not_http_404 e))"

definition useBatch_getById :: "exn + 'a \<Rightarrow> 'a option \<times> bool" where
  "useBatch_getById answer = (case answer of Inr v \<Rightarrow> (Some v, False) | Inl e \<Rightarrow> (None, not_http_404 e))"

section \<open>utils/helpers.ts\<close>

definition arrayHalfDivider :: "'a list \<Rightarrow> 'a list \<times> 'a list" where
  "arrayHalfDivider xs = (take ((length xs + 1) div 2) xs, drop ((length xs + 1) div 2) xs)"

text \<open>Elements whose key is not in the order come last; the sort is stable.\<close>

definition order_index :: "string list \<Rightarrow> string \<Rightarrow> nat" where
  "order_index order k = length (takeWhile (\<lambda>x. x \<noteq> k) order)"

definition mapOrder :: "('a \<Rightarrow> string) \<Rightarrow> string list \<Rightarrow> 'a list \<Rightarrow> 'a list" where
  "mapOrder key order = sort_key (\<lambda>a. order_index order (key a))"

end
