(* ===== verification/App_Contracts.thy ===== *)
theory App_Contracts
  imports App_Transactions
begin

text \<open>
  The pages of addresses and contracts in the front end (\<open>src/packages/app/src/composables\<close>: \<open>useAddress\<close>,
  \<open>useContractABI\<close>, \<open>useEventLog\<close>, \<open>useTransactionData\<close>, \<open>useContractEvents\<close>, \<open>useContractVerification\<close>). The
  chain, the verification service and the decoders of the library ethers are arguments.
\<close>

section \<open>useAddress.ts\<close>

definition ZeroAddress :: string where
  "ZeroAddress = ''0x'' @ replicate 40 CHR ''0''"

text \<open>\<open>slice(-40)\<close> of what the chain answers; \<open>isAddr\<close> is \<open>isAddress\<close> of ethers.\<close>

definition getAddressSafe :: "(string \<Rightarrow> bool) \<Rightarrow> exn + string \<Rightarrow> string option" where
  "getAddressSafe isAddr answer =
     (case answer of
        Inl _ \<Rightarrow> None
      | Inr bytes \<Rightarrow>
          let address = ''0x'' @ drop (length bytes - 40) bytes
          in if \<not> isAddr address \<or> address = ZeroAddress then None else Some address)"

text \<open>What a contract and its storage answer, and what a beacon answers.\<close>

record proxy_answers =
  pa_implementation :: "exn + string"
  pa_eip1967 :: "exn + string"
  pa_beacon :: "exn + string"
  pa_eip1822 :: "exn + string"

definition getProxyImplementation ::
  "(string \<Rightarrow> bool) \<Rightarrow> (string \<Rightarrow> exn + string) \<Rightarrow> proxy_answers \<Rightarrow> string option" where
  "getProxyImplementation isAddr beacon P =
     (case getAddressSafe isAddr (pa_implementation P) of
        Some a \<Rightarrow> Some a
      | None \<Rightarrow>
          (case getAddressSafe isAddr (pa_eip1967 P) of
             Some a \<Rightarrow> Some a
           | None \<Rightarrow>
               (case getAddressSafe isAddr (pa_eip1822 P) of
                  Some a \<Rightarrow> Some a
                | None \<Rightarrow>
                    (case getAddressSafe isAddr (pa_beacon P) of
                       Some b \<Rightarrow> getAddressSafe isAddr (beacon b)
                     | None \<Rightarrow> None))))"

text \<open>\<open>None\<close> also when no verification service is configured.\<close>

definition getContractVerificationInfo :: "(string \<Rightarrow> exn + 'i) option \<Rightarrow> string \<Rightarrow> exn + 'i option" where
  "getContractVerificationInfo verifier address =
     (case verifier of
        None \<Rightarrow> Inr None
      | Some f \<Rightarrow> (case f address of Inr i \<Rightarrow> Inr (Some i) | Inl e \<Rightarrow> if not_http_404 e then Inl e else Inr None))"

definition getContractProxyInfo ::
  "(string \<Rightarrow> exn + 'i) option \<Rightarrow> string option \<Rightarrow> (string \<times> 'i option) option" where
  "getContractProxyInfo verifier implementation =
     (case implementation of
        None \<Rightarrow> None
      | Some a \<Rightarrow> (case getContractVerificationInfo verifier a of Inl _ \<Rightarrow> None | Inr i \<Rightarrow> Some (a, i)))"

datatype ('r, 'i) address_item =
    OwnAccount 'r
  | OtherAccount string
  | ContractItem 'r "'i option" "(string \<times> 'i option) option"

datatype 'r address_answer = AccountAnswer 'r | ContractAnswer 'r string

text \<open>The item, which stays the old one when the request fails, and whether it is shown as failed.\<close>

definition getByAddress ::
  "(string \<Rightarrow> exn + 'i) option \<Rightarrow> (string \<Rightarrow> string option) \<Rightarrow> string \<Rightarrow> exn + 'r address_answer \<Rightarrow>
     ('r, 'i) address_item option \<Rightarrow> ('r, 'i) address_item option \<times> bool" where
  "getByAddress verifier implementation address answer old =
     (case answer of
        Inr (AccountAnswer r) \<Rightarrow> (Some (OwnAccount r), False)
      | Inr (ContractAnswer r a) \<Rightarrow>
          (case getContractVerificationInfo verifier a of
             Inl (HttpError m status) \<Rightarrow> if status = 403 then (Some (OtherAccount address), False) else (old, True)
           | Inl _ \<Rightarrow> (old, True)
           | Inr i \<Rightarrow> (Some (ContractItem r i (getContractProxyInfo verifier (implementation a))), False))
      | Inl (HttpError m status) \<Rightarrow> if status = 403 then (Some (OtherAccount address), False) else (old, True)
      | Inl _ \<Rightarrow> (old, True))"

text \<open>
  An account page shows an account in full only when the proxy has answered with it; an address the user
  may not see, which the proxy answers with 403, is shown as somebody else's account, with its address only.
\<close>

theorem address_page_authorized:
  "(fst (getByAddress verifier implementation address answer old) = Some (OwnAccount r) \<longrightarrow>
      answer = Inr (AccountAnswer r) \<or> old = Some (OwnAccount r)) \<and>
   (answer = Inl (HttpError m 403) \<longrightarrow>
      getByAddress verifier implementation address answer old = (Some (OtherAccount address), False))"
  by (auto simp: getByAddress_def split: sum.splits address_answer.splits exn.splits if_splits)

section \<open>useContractABI.ts, useEventLog.ts, useTransactionData.ts\<close>

text \<open>The ABIs of verified contracts by their checksummed address, a later one replacing an earlier one.\<close>

definition getCollection ::
  "(string \<Rightarrow> string) \<Rightarrow> (string \<Rightarrow> exn + (string \<times> 'abi) option) \<Rightarrow> string list \<Rightarrow> (string \<rightharpoonup> 'abi) \<times> bool" where
  "getCollection checksum info addresses =
     (let answers = map info addresses;
          failed = list_ex (\<lambda>a. case a of Inl e \<Rightarrow> not_http_404 e | Inr _ \<Rightarrow> False) answers;
          verified = concat (map (\<lambda>a. case a of Inr (Some c) \<Rightarrow> [c] | _ \<Rightarrow> []) answers)
      in (fold (\<lambda>(a, abi) m. m(checksum a \<mapsto> abi)) verified Map.empty, failed))"

text \<open>
  The decoders of \<open>utils/helpers.ts\<close> and \<open>useTransactionData.ts\<close> over the library's parsers, which find an entry of
  an ABI or fail; the ABI itself is one that the library accepts. An argument is read by the name of its
  input.
\<close>

record parsed =
  pd_name :: string
  pd_inputs :: "(string \<times> string) list"
  pd_args :: "string \<Rightarrow> string option"

record decoded_input =
  di_name :: string
  di_type :: string
  di_value :: "string option"

type_synonym decoded_event = "string \<times> decoded_input list"

definition decoded_input_of :: "parsed \<Rightarrow> string \<times> string \<Rightarrow> decoded_input" where
  "decoded_input_of d = (\<lambda>(n, t). \<lparr>di_name = n, di_type = t, di_value = pd_args d n\<rparr>)"

definition decodeLogWithABI ::
  "('abi \<Rightarrow> string list \<Rightarrow> string \<Rightarrow> parsed option) \<Rightarrow> log_entry \<Rightarrow> 'abi \<Rightarrow> decoded_event option" where
  "decodeLogWithABI parseLog entry abi =
     map_option (\<lambda>d. (pd_name d, map (decoded_input_of d) (pd_inputs d))) (parseLog abi (le_topics entry) (le_data entry))"

text \<open>An input with its encoding, without the \<open>0x\<close> before it; \<open>encode\<close> throws for a value not of its type.\<close>

definition decodeDataWithABI ::
  "('abi \<Rightarrow> string \<Rightarrow> string \<Rightarrow> parsed option) \<Rightarrow> (string \<Rightarrow> string option \<Rightarrow> exn + string) \<Rightarrow> string \<Rightarrow> string \<Rightarrow> 'abi \<Rightarrow>
     (string \<times> (decoded_input \<times> string) list) option" where
  "decodeDataWithABI parseTransaction encode calldata v abi =
     (case parseTransaction abi calldata v of
        None \<Rightarrow> None
      | Some d \<Rightarrow>
          (case map_act (\<lambda>(n, t). sbind (encode t (pd_args d n)) (\<lambda>e. Inr (decoded_input_of d (n, t), drop 2 e))) (pd_inputs d) of
             Inl _ \<Rightarrow> None
           | Inr inputs \<Rightarrow> Some (pd_name d, inputs)))"

text \<open>The ABIs are those of the contracts among the addresses of the logs, each asked for once.\<close>

definition unique_addresses :: "log_entry list \<Rightarrow> string list" where
  "unique_addresses logs = rev (remdups (rev (map le_address logs)))"

definition decodeEventLog ::
  "('abi \<Rightarrow> string list \<Rightarrow> string \<Rightarrow> parsed option) \<Rightarrow> (string \<Rightarrow> string) \<Rightarrow> (string \<Rightarrow> exn + (string \<times> 'abi) option) \<Rightarrow>
     log_entry list \<Rightarrow> (log_entry \<times> decoded_event option) list" where
  "decodeEventLog parseLog checksum info logs =
     (let abis = fst (getCollection checksum info (unique_addresses logs))
      in map (\<lambda>l. (l, Option.bind (abis (le_address l)) (decodeLogWithABI parseLog l))) logs)"

text \<open>
  \<open>decodeTransactionData\<close>: the method, or the error that is shown. \<open>proxyInfo\<close> is what \<open>getContractProxyInfo\<close>
  returns, with the ABI of a verified implementation.
\<close>

definition decodeTransactionData ::
  "('abi \<Rightarrow> string \<Rightarrow> 'm option) \<Rightarrow> (string \<rightharpoonup> 'abi) \<times> bool \<Rightarrow> (string \<times> 'abi option) option \<Rightarrow> string \<Rightarrow> string \<Rightarrow> 'm option \<times> string" where
  "decodeTransactionData decode abis proxyInfo contractAddress calldata =
     (if calldata = ''0x'' then (None, [])
      else
        (case fst abis contractAddress of
           None \<Rightarrow> (None, if snd abis then ''contract_request_failed'' else ''contract_not_verified'')
         | Some abi \<Rightarrow>
             (case decode abi calldata of
                Some m \<Rightarrow> (Some m, [])
              | None \<Rightarrow>
                  (case Option.bind (Option.bind proxyInfo snd) (\<lambda>p. decode p calldata) of
                     Some m \<Rightarrow> (Some m, [])
                   | None \<Rightarrow> (None, ''data_decode_failed'')))))"

section \<open>useContractEvents.ts\<close>

text \<open>The parameters of the request; \<open>toDate\<close> is its time and its text.\<close>

definition event_params :: "int \<Rightarrow> int \<Rightarrow> (int \<times> string) option \<Rightarrow> (string \<times> string) list" where
  "event_params page pageSize toDate =
     (case toDate of Some (ms, stamp) \<Rightarrow> if ms > 0 then [(''toDate'', stamp)] else [] | None \<Rightarrow> []) @
     (if page > 0 then [(''page'', show_int page)] else []) @
     (if pageSize > 0 then [(''limit'', show_int pageSize)] else [])"

record events_state =
  ev_total :: int
  ev_collection :: "(log_entry \<times> decoded_event option) list"
  ev_pending :: bool
  ev_failed :: bool

definition event_entry :: "(string \<Rightarrow> string) \<Rightarrow> event_log \<Rightarrow> log_entry" where
  "event_entry checksum e = (map_log e)\<lparr>le_address := checksum (el_address e)\<rparr>"

definition events_getCollection ::
  "('abi \<Rightarrow> string list \<Rightarrow> string \<Rightarrow> parsed option) \<Rightarrow> (string \<Rightarrow> string) \<Rightarrow> 'abi option \<Rightarrow> exn + event_log list \<times> int \<Rightarrow>
     events_state \<Rightarrow> events_state" where
  "events_getCollection parseLog checksum abi answer s =
     (case answer of
        Inr (items, n) \<Rightarrow>
          s\<lparr>ev_collection := map (\<lambda>e. let item = event_entry checksum e
              in (item, Option.bind abi (decodeLogWithABI parseLog item))) items,
            ev_total := n, ev_failed := False, ev_pending := False\<rparr>
      | Inl e \<Rightarrow> s\<lparr>ev_failed := not_http_404 e, ev_pending := False\<rparr>)"

section \<open>useContractVerification.ts\<close>

text \<open>An error is one of the request, one that the service reports, or another one.\<close>

datatype verification_error = FetchFailed string | VerificationError string "string list" | OtherFailure

record status_answer =
  sa_status :: string
  sa_error :: "string option"
  sa_compilationErrors :: "string list option"

record verification_state =
  vs_pending :: bool
  vs_failed :: bool
  vs_errorMessage :: "string option"
  vs_compilationErrors :: "string list"
  vs_status :: "string option"

definition getStatusById :: "verification_error + status_answer \<Rightarrow> verification_error + string" where
  "getStatusById answer =
     (case answer of
        Inl e \<Rightarrow> Inl e
      | Inr a \<Rightarrow>
          (case sa_error a of
             Some m \<Rightarrow>
               if m \<noteq> []
               then Inl (VerificationError m (case sa_compilationErrors a of Some es \<Rightarrow> es | None \<Rightarrow> []))
               else Inr (sa_status a)
           | None \<Rightarrow> Inr (sa_status a)))"

text \<open>
  The service is asked again, after a while, until it has finished; \<open>poll n\<close> is its answer to the question
  number \<open>n\<close>. What is returned is the status of the first question.
\<close>

partial_function (option) waitForVerification ::
  "(nat \<Rightarrow> verification_error + status_answer) \<Rightarrow> nat \<Rightarrow> verification_state \<Rightarrow>
     (verification_state \<times> (verification_error + string)) option" where
  "waitForVerification poll n s =
     (case getStatusById (poll n) of
        Inl e \<Rightarrow> Some (s, Inl e)
      | Inr status \<Rightarrow>
          if status \<noteq> ''failed'' \<and> status \<noteq> ''successful''
          then Option.bind (waitForVerification poll (n + 1) (s\<lparr>vs_status := Some status\<rparr>))
            (\<lambda>(t, r). Some (t, case r of Inl e \<Rightarrow> Inl e | Inr _ \<Rightarrow> Inr status))
          else Some (s\<lparr>vs_status := Some status\<rparr>, Inr status))"

datatype source_code = SourceText string | SourceFiles string "(string \<times> string) list" bool

record verification_data =
  vd_codeFormat :: string
  vd_contractAddress :: string
  vd_contractName :: string
  vd_optimizationUsed :: bool
  vd_sourceCode :: source_code
  vd_zkCompilerVersion :: string
  vd_compilerVersion :: string
  vd_constructorArguments :: string

text \<open>\<open>name.replace(p, '')\<close>: the first place where \<open>p\<close> occurs.\<close>

fun remove_first :: "string \<Rightarrow> string \<Rightarrow> string" where
  "remove_first p [] = []"
| "remove_first p (c # cs) = (if starts_with (c # cs) p then drop (length p) (c # cs) else c # remove_first p cs)"

definition vyper_sources :: "string \<Rightarrow> source_code \<Rightarrow> (string \<times> json) list" where
  "vyper_sources name src =
     (case src of
        SourceText t \<Rightarrow> [(name, JStr t)]
      | SourceFiles _ files _ \<Rightarrow> fold (\<lambda>(f, content). put_entry (remove_first ''.vy'' f) (JStr content)) files [])"

definition source_json :: "source_code \<Rightarrow> json" where
  "source_json src =
     (case src of
        SourceText t \<Rightarrow> JStr t
      | SourceFiles language files enabled \<Rightarrow>
          JObj [(''language'', JStr language), (''sources'', JObj (map (\<lambda>(f, c). (f, JObj [(''content'', JStr c)])) files)),
            (''settings'', JObj [(''optimizer'', JObj [(''enabled'', JBool enabled)])])])"

definition solidity_format :: "string \<Rightarrow> bool" where
  "solidity_format f \<longleftrightarrow> f = ''solidity-single-file'' \<or> f = ''solidity-standard-json-input''"

definition verification_body :: "verification_data \<Rightarrow> json" where
  "verification_body d =
     JObj ([(''codeFormat'', JStr (vd_codeFormat d)), (''contractAddress'', JStr (vd_contractAddress d)),
        (''contractName'', JStr (vd_contractName d)), (''optimizationUsed'', JBool (vd_optimizationUsed d))] @
       (if vd_constructorArguments d \<noteq> [] then [(''constructorArguments'', JStr (vd_constructorArguments d))] else []) @
       (if solidity_format (vd_codeFormat d)
        then [(''sourceCode'', source_json (vd_sourceCode d)), (''compilerZksolcVersion'', JStr (vd_zkCompilerVersion d)),
              (''compilerSolcVersion'', JStr (vd_compilerVersion d))]
        else [(''sourceCode'', JObj (vyper_sources (vd_contractName d) (vd_sourceCode d))),
              (''compilerZkvyperVersion'', JStr (vd_zkCompilerVersion d)), (''compilerVyperVersion'', JStr (vd_compilerVersion d))]))"

definition verification_failed :: "verification_error \<Rightarrow> verification_state \<Rightarrow> verification_state" where
  "verification_failed e s =
     (case e of
        FetchFailed m \<Rightarrow> s\<lparr>vs_failed := True, vs_errorMessage := Some m\<rparr>
      | VerificationError m es \<Rightarrow> s\<lparr>vs_failed := True, vs_errorMessage := Some m, vs_compilationErrors := es\<rparr>
      | OtherFailure \<Rightarrow> s\<lparr>vs_failed := True\<rparr>)"

text \<open>Only an answer that is a number is waited for.\<close>

definition requestVerification ::
  "(json \<Rightarrow> verification_error + json) \<Rightarrow> (nat \<Rightarrow> verification_error + status_answer) \<Rightarrow> verification_data \<Rightarrow>
     verification_state \<Rightarrow> verification_state option" where
  "requestVerification post poll d s =
     (let t = s\<lparr>vs_pending := True, vs_failed := False, vs_errorMessage := None, vs_compilationErrors := []\<rparr>
      in case post (verification_body d) of
           Inl e \<Rightarrow> Some ((verification_failed e t)\<lparr>vs_pending := False\<rparr>)
         | Inr (JNum _) \<Rightarrow>
             map_option (\<lambda>(u, r). (case r of Inl e \<Rightarrow> verification_failed e u | Inr _ \<Rightarrow> u)\<lparr>vs_pending := False\<rparr>)
               (waitForVerification poll 0 t)
         | Inr _ \<Rightarrow> Some (t\<lparr>vs_pending := False\<rparr>))"

text \<open>
  The versions of a compiler; the order of \<open>localeCompare\<close>, descending and with numbers by value, is an argument.
\<close>

record compiler_state =
  cp_pending :: bool
  cp_failed :: bool
  cp_versions :: "string list"

definition requestCompilerVersions ::
  "(string list \<Rightarrow> string list) \<Rightarrow> (string \<Rightarrow> exn + string list) \<Rightarrow> string \<Rightarrow> (string \<Rightarrow> compiler_state) \<Rightarrow> string \<Rightarrow> compiler_state" where
  "requestCompilerVersions descending fetch compiler states =
     (case fetch (''/contract_verification/'' @ compiler @ ''_versions'') of
        Inr vs \<Rightarrow> states(compiler := \<lparr>cp_pending = False, cp_failed = False, cp_versions = descending vs\<rparr>)
      | Inl _ \<Rightarrow> states(compiler := \<lparr>cp_pending = False, cp_failed = True, cp_versions = cp_versions (states compiler)\<rparr>))"

subsection \<open>Properties\<close>

lemma wait_until:
  assumes "\<And>i. i < k \<Longrightarrow> \<exists>a. poll (n + i) = Inr a \<and> sa_error a = None \<and> sa_status a \<notin> {''failed'', ''successful''}"
    and "getStatusById (poll (n + k)) = r" "\<And>m. r = Inr m \<Longrightarrow> m \<in> {''failed'', ''successful''}"
  shows "\<exists>status q. waitForVerification poll n s =
      Some (s\<lparr>vs_status := (case r of Inr m \<Rightarrow> Some m | Inl _ \<Rightarrow> status)\<rparr>, q) \<and>
    (case r of Inr m \<Rightarrow> \<not> isl q | Inl e \<Rightarrow> q = Inl e)"
  using assms
proof (induction k arbitrary: n s)
  case 0
  have same: "\<exists>st. s = s\<lparr>vs_status := st\<rparr>" by (rule exI [of _ "vs_status s"]) simp
  from 0 same show ?case
    by (subst waitForVerification.simps) (cases r; auto)
next
  case (Suc k)
  from Suc.prems(1) [of 0] obtain a where a: "poll n = Inr a" "sa_error a = None" "sa_status a \<notin> {''failed'', ''successful''}"
    by auto
  have "\<exists>a. poll (Suc n + i) = Inr a \<and> sa_error a = None \<and> sa_status a \<notin> {''failed'', ''successful''}" if "i < k" for i
    using Suc.prems(1) [of "Suc i"] that by simp
  moreover have "getStatusById (poll (Suc n + k)) = r" using Suc.prems(2) by simp
  ultimately obtain status q where
    "waitForVerification poll (Suc n) (s\<lparr>vs_status := Some (sa_status a)\<rparr>) =
       Some (s\<lparr>vs_status := (case r of Inr m \<Rightarrow> Some m | Inl _ \<Rightarrow> status)\<rparr>, q)"
    "case r of Inr m \<Rightarrow> \<not> isl q | Inl e \<Rightarrow> q = Inl e"
    using Suc.IH [of "Suc n" "s\<lparr>vs_status := Some (sa_status a)\<rparr>"] Suc.prems(3) by auto
  with a show ?case
    by (subst waitForVerification.simps) (cases r; cases q; auto simp: getStatusById_def)
qed

text \<open>
  C40: A verification that the service has accepted ends as soon as the service says that it has: when the
  answers until then report work in progress, and the next one the end or an error, the form is no longer
  pending, and it has failed exactly when an error was reported, with its message.
\<close>

theorem verification_ends:
  assumes "post (verification_body d) = Inr (JNum request)"
    and "\<And>i. i < k \<Longrightarrow> \<exists>a. poll i = Inr a \<and> sa_error a = None \<and> sa_status a \<notin> {''failed'', ''successful''}"
    and "poll k = Inr a" "sa_error a = None \<Longrightarrow> sa_status a \<in> {''failed'', ''successful''}" "sa_error a \<noteq> Some []"
  shows "\<exists>t. requestVerification post poll d s = Some t \<and> \<not> vs_pending t \<and> vs_failed t = (sa_error a \<noteq> None) \<and>
    vs_errorMessage t = sa_error a \<and> (sa_error a = None \<longrightarrow> vs_status t = Some (sa_status a))"
proof -
  let ?t = "s\<lparr>vs_pending := True, vs_failed := False, vs_errorMessage := None, vs_compilationErrors := []\<rparr>"
  have last: "getStatusById (poll k) =
      (case sa_error a of
         None \<Rightarrow> Inr (sa_status a)
       | Some m \<Rightarrow> Inl (VerificationError m (case sa_compilationErrors a of Some es \<Rightarrow> es | None \<Rightarrow> [])))"
    using assms(3,5) by (auto simp: getStatusById_def split: option.splits)
  obtain status q where
    "waitForVerification poll 0 ?t = Some (?t\<lparr>vs_status := (case getStatusById (poll k) of Inr m \<Rightarrow> Some m | Inl _ \<Rightarrow> status)\<rparr>, q)"
    "case getStatusById (poll k) of Inr m \<Rightarrow> \<not> isl q | Inl e \<Rightarrow> q = Inl e"
    using wait_until [of k poll 0 "getStatusById (poll k)" ?t] assms(2,4) last by (auto split: option.splits)
  with assms(1) last show ?thesis
    by (cases "sa_error a"; cases q) (auto simp: requestVerification_def Let_def verification_failed_def)
qed

text \<open>What \<open>waitForVerification\<close> itself returns is out of date when the service was asked more than once.\<close>

lemma wait_returns_first_status:
  assumes "poll 0 = Inr \<lparr>sa_status = ''queued'', sa_error = None, sa_compilationErrors = None\<rparr>"
    and "poll 1 = Inr \<lparr>sa_status = ''failed'', sa_error = None, sa_compilationErrors = None\<rparr>"
  shows "waitForVerification poll 0 s = Some (s\<lparr>vs_status := Some ''failed''\<rparr>, Inr ''queued'')"
  using assms by (simp add: waitForVerification.simps [of poll 0] waitForVerification.simps [of poll "Suc 0"] getStatusById_def)

theorem verification_ends_witness:
  "\<exists>t. requestVerification (\<lambda>_. Inr (JNum 5))
      (\<lambda>i. Inr \<lparr>sa_status = (if i = 0 then ''queued'' else ''successful''), sa_error = None, sa_compilationErrors = None\<rparr>)
      \<lparr>vd_codeFormat = ''vyper-multi-file'', vd_contractAddress = ''0x0a'', vd_contractName = ''c'', vd_optimizationUsed = True,
       vd_sourceCode = SourceFiles ''Vyper'' [(''c.vy'', ''x'')] True, vd_zkCompilerVersion = ''1'', vd_compilerVersion = ''2'',
       vd_constructorArguments = []\<rparr>
      \<lparr>vs_pending = False, vs_failed = True, vs_errorMessage = None, vs_compilationErrors = [], vs_status = None\<rparr> = Some t \<and>
    \<not> vs_failed t \<and> vs_status t = Some ''successful''"
  using verification_ends [of "\<lambda>_. Inr (JNum 5)"
      "\<lparr>vd_codeFormat = ''vyper-multi-file'', vd_contractAddress = ''0x0a'', vd_contractName = ''c'', vd_optimizationUsed = True,
       vd_sourceCode = SourceFiles ''Vyper'' [(''c.vy'', ''x'')] True, vd_zkCompilerVersion = ''1'', vd_compilerVersion = ''2'',
       vd_constructorArguments = []\<rparr>" 5 1
      "\<lambda>i. Inr \<lparr>sa_status = (if i = 0 then ''queued'' else ''successful''), sa_error = None, sa_compilationErrors = None\<rparr>"
      "\<lparr>sa_status = ''successful'', sa_error = None, sa_compilationErrors = None\<rparr>"
      "\<lparr>vs_pending = False, vs_failed = True, vs_errorMessage = None, vs_compilationErrors = [], vs_status = None\<rparr>"]
  by auto

text \<open>An event is shown decoded only when its contract is verified, with an entry of that contract's ABI.\<close>

lemma decoded_only_verified:
  assumes "(l, Some e) \<in> set (decodeEventLog parseLog checksum info logs)"
  shows "\<exists>abi. fst (getCollection checksum info (unique_addresses logs)) (le_address l) = Some abi \<and>
    decodeLogWithABI parseLog l abi = Some e"
proof -
  from assms have "Option.bind (fst (getCollection checksum info (unique_addresses logs)) (le_address l))
      (decodeLogWithABI parseLog l) = Some e"
    by (auto simp: decodeEventLog_def Let_def)
  then show ?thesis by (auto simp: bind_eq_Some_conv)
qed

end
