(* ===== verification/App_Verification.thy ===== *)
theory App_Verification
  imports App_Contracts
begin

text \<open>
  The form for the verification of a contract in the front end
  (\<open>src/packages/app/src/views/ContractVerificationView.vue\<close> and
  \<open>components/contract/verification/MultiFileVerification.vue\<close>): its state as one record, everything the user
  and the service can do to it as events, and what it sends. \<open>isAddress\<close> of ethers, the rule \<open>required\<close> of
  vuelidate, the comparison of versions by \<open>localeCompare\<close> and the translated text of the placeholder are
  arguments. The fields of a component and its \<open>v-model\<close> are kept as one value, since Vue brings them
  together before the next event.
\<close>

section \<open>Compilers and compilation types\<close>

datatype compiler = Solc | Zksolc | Vyper | Zkvyper

datatype compilation_type = SoliditySingleFile | SolidityMultiPart | VyperSingleFile | VyperMultiPart

fun compiler_name :: "compiler \<Rightarrow> string" where
  "compiler_name Solc = ''solc''"
| "compiler_name Zksolc = ''zksolc''"
| "compiler_name Vyper = ''vyper''"
| "compiler_name Zkvyper = ''zkvyper''"

fun type_codeFormat :: "compilation_type \<Rightarrow> string" where
  "type_codeFormat SoliditySingleFile = ''solidity-single-file''"
| "type_codeFormat SolidityMultiPart = ''solidity-standard-json-input''"
| "type_codeFormat VyperSingleFile = ''vyper-multi-file''"
| "type_codeFormat VyperMultiPart = ''vyper-multi-file''"

text \<open>The compiler and the zk compiler of a compilation type.\<close>

fun compilerTypeMap :: "compilation_type \<Rightarrow> compiler \<times> compiler" where
  "compilerTypeMap SoliditySingleFile = (Solc, Zksolc)"
| "compilerTypeMap SolidityMultiPart = (Solc, Zksolc)"
| "compilerTypeMap VyperSingleFile = (Vyper, Zkvyper)"
| "compilerTypeMap VyperMultiPart = (Vyper, Zkvyper)"

definition isSingleFile :: "compilation_type \<Rightarrow> bool" where
  "isSingleFile t \<longleftrightarrow> t \<in> {SoliditySingleFile, VyperSingleFile}"

section \<open>The state\<close>

text \<open>A file with its text, or with the error of reading it.\<close>

record source_file =
  sf_name :: string
  sf_text :: "exn + string"

record verification_form =
  vf_contractAddress :: string
  vf_contractName :: string
  vf_contractPath :: string
  vf_optimizationUsed :: bool
  vf_zkCompilerVersion :: string
  vf_compilerVersion :: string
  vf_sourceCode :: string
  vf_constructorArguments :: string
  vf_files :: "source_file list"
  vf_mainFileName :: string

text \<open>
  \<open>vw_dirty\<close> says whether the errors of the form are shown, and \<open>vw_sent\<close> is the request that has not been
  answered.
\<close>

record verification_view =
  vw_form :: verification_form
  vw_type :: compilation_type
  vw_zkVM :: bool
  vw_zkVersion :: string
  vw_version :: string
  vw_compilers :: "string \<Rightarrow> compiler_state"
  vw_request :: verification_state
  vw_dirty :: bool
  vw_sent :: "verification_data option"

record verification_rules =
  vr_isAddress :: "string \<Rightarrow> bool"
  vr_required :: "string \<Rightarrow> bool"
  vr_notOlder :: "string \<Rightarrow> string \<Rightarrow> bool"
  vr_placeholder :: string

definition selectedZkCompiler :: "verification_view \<Rightarrow> compiler_state" where
  "selectedZkCompiler v = vw_compilers v (compiler_name (snd (compilerTypeMap (vw_type v))))"

definition zkVMVersionPrefix :: string where
  "zkVMVersionPrefix = ''zkVM''"

definition selectedCompiler :: "verification_view \<Rightarrow> compiler_state" where
  "selectedCompiler v =
     (let compiler = fst (compilerTypeMap (vw_type v)); info = vw_compilers v (compiler_name compiler)
      in if compiler = Solc
         then info\<lparr>cp_versions := filter (\<lambda>version. starts_with version zkVMVersionPrefix = vw_zkVM v) (cp_versions info)\<rparr>
         else info)"

text \<open>\<open>versions[0] || ''\<close> and \<open>versions[versions.length - 1] || ''\<close>\<close>

definition first_or_empty :: "string list \<Rightarrow> string" where
  "first_or_empty xs = (case xs of [] \<Rightarrow> [] | x # _ \<Rightarrow> x)"

definition last_or_empty :: "string list \<Rightarrow> string" where
  "last_or_empty xs = (if xs = [] then [] else last xs)"

definition chosen_or :: "string \<Rightarrow> string \<Rightarrow> string" where
  "chosen_or a b = (if a \<noteq> [] then a else b)"

definition disabledSubmitButton :: "verification_view \<Rightarrow> bool" where
  "disabledSubmitButton v \<longleftrightarrow>
     vs_pending (vw_request v) \<or> cp_pending (selectedZkCompiler v) \<or> cp_pending (selectedCompiler v)"

definition disabledClearButton :: "verification_view \<Rightarrow> bool" where
  "disabledClearButton v \<longleftrightarrow>
     vs_pending (vw_request v) \<or>
     cp_pending (selectedZkCompiler v) \<or> cp_failed (selectedZkCompiler v) \<or>
     cp_pending (selectedCompiler v) \<or> cp_failed (selectedCompiler v)"

definition defaultValues :: "verification_view \<Rightarrow> verification_form" where
  "defaultValues v =
     \<lparr>vf_contractAddress = [], vf_contractName = [], vf_contractPath = [], vf_optimizationUsed = True,
      vf_zkCompilerVersion = first_or_empty (cp_versions (selectedZkCompiler v)),
      vf_compilerVersion = first_or_empty (cp_versions (selectedCompiler v)),
      vf_sourceCode = [], vf_constructorArguments = [], vf_files = [], vf_mainFileName = []\<rparr>"

text \<open>
  The view as it is set up: the address of the query, or none, and the requests for the versions of the four
  compilers under way.
\<close>

definition verification_setup :: "string option \<Rightarrow> verification_view" where
  "verification_setup query =
     (let v = \<lparr>vw_form = \<lparr>vf_contractAddress = [], vf_contractName = [], vf_contractPath = [], vf_optimizationUsed = True,
                 vf_zkCompilerVersion = [], vf_compilerVersion = [], vf_sourceCode = [], vf_constructorArguments = [],
                 vf_files = [], vf_mainFileName = []\<rparr>,
               vw_type = SoliditySingleFile, vw_zkVM = False, vw_zkVersion = [], vw_version = [],
               vw_compilers = (\<lambda>_. \<lparr>cp_pending = True, cp_failed = False, cp_versions = []\<rparr>),
               vw_request = \<lparr>vs_pending = False, vs_failed = False, vs_errorMessage = None, vs_compilationErrors = [],
                 vs_status = None\<rparr>,
               vw_dirty = False, vw_sent = None\<rparr>
      in v\<lparr>vw_form := (defaultValues v)\<lparr>vf_contractAddress :=
              (case query of Some a \<Rightarrow> a | None \<Rightarrow> vf_contractAddress (defaultValues v))\<rparr>,
           vw_zkVersion := last_or_empty (cp_versions (selectedZkCompiler v)),
           vw_version := last_or_empty (cp_versions (selectedCompiler v))\<rparr>)"

section \<open>The rules of the form\<close>

definition isFilePathRequired :: "verification_rules \<Rightarrow> verification_view \<Rightarrow> bool" where
  "isFilePathRequired R v =
     (if fst (compilerTypeMap (vw_type v)) = Vyper then False
      else if vw_type v = SolidityMultiPart then False
      else if vw_zkVersion v = [] then True
      else vr_notOlder R (drop 1 (vw_zkVersion v)) ''1.3.6'')"

definition valid_form :: "verification_rules \<Rightarrow> verification_view \<Rightarrow> bool" where
  "valid_form R v =
     (let f = vw_form v
      in vr_required R (vf_contractAddress f) \<and> vr_isAddress R (lower (vf_contractAddress f)) \<and>
         vr_required R (vf_contractName f) \<and>
         (isFilePathRequired R v \<longrightarrow> trim (vf_contractPath f) \<noteq> []) \<and>
         vr_required R (vf_zkCompilerVersion f) \<and>
         vr_required R (vf_compilerVersion f) \<and>
         (isSingleFile (vw_type v) \<longrightarrow> trim (vf_sourceCode f) \<noteq> []) \<and>
         (\<not> isSingleFile (vw_type v) \<and> vw_type v \<noteq> VyperMultiPart \<longrightarrow> trim (vf_mainFileName f) \<noteq> []) \<and>
         (\<not> isSingleFile (vw_type v) \<longrightarrow> vf_files f \<noteq> []))"

section \<open>Operations\<close>

definition onZkVMSelectionChanged :: "verification_view \<Rightarrow> verification_view" where
  "onZkVMSelectionChanged v = v\<lparr>vw_version := first_or_empty (cp_versions (selectedCompiler v))\<rparr>"

definition onCompilationTypeChange :: "verification_view \<Rightarrow> verification_view" where
  "onCompilationTypeChange v =
     v\<lparr>vw_zkVersion := first_or_empty (cp_versions (selectedZkCompiler v)),
       vw_version := first_or_empty (cp_versions (selectedCompiler v))\<rparr>"

definition clearForm :: "verification_view \<Rightarrow> verification_view" where
  "clearForm v = v\<lparr>vw_form := defaultValues v, vw_zkVersion := [], vw_version := [], vw_dirty := False\<rparr>"

text \<open>The name matches \<open>/\.(sol|vy)/\<close>, wherever in the name.\<close>

fun source_name :: "string \<Rightarrow> bool" where
  "source_name [] = False"
| "source_name (c # cs) \<longleftrightarrow> starts_with (c # cs) ''.sol'' \<or> starts_with (c # cs) ''.vy'' \<or> source_name cs"

text \<open>A new file is added unless one of that name was there before the upload.\<close>

definition upload_files :: "source_file list \<Rightarrow> verification_form \<Rightarrow> verification_form" where
  "upload_files files f =
     f\<lparr>vf_files := fold (\<lambda>current acc.
         if (\<exists>file \<in> set (vf_files f). sf_name file = sf_name current) \<or> \<not> source_name (sf_name current)
         then acc else acc @ [current]) files (vf_files f)\<rparr>"

definition removeFile :: "nat \<Rightarrow> verification_form \<Rightarrow> verification_form" where
  "removeFile i f =
     (if i < length (vf_files f)
      then f\<lparr>vf_mainFileName :=
               (if length (vf_files f) = 1 \<or> vf_mainFileName f = sf_name (vf_files f ! i) then [] else vf_mainFileName f),
             vf_files := take i (vf_files f) @ drop (i + 1) (vf_files f)\<rparr>
      else f)"

text \<open>A name of the list is selected; the placeholder stands for none.\<close>

definition select_main_file :: "string \<Rightarrow> string \<Rightarrow> verification_form \<Rightarrow> verification_form" where
  "select_main_file placeholder name f =
     (if name \<in> sf_name ` set (vf_files f) then f\<lparr>vf_mainFileName := (if name = placeholder then [] else name)\<rparr> else f)"

text \<open>
  \<open>Promise.all\<close> over the files: the sources by name, or the first error. Objects keep a name where it was
  first set.
\<close>

fun read_files :: "source_file list \<Rightarrow> (string \<times> string) list \<Rightarrow> exn + (string \<times> string) list" where
  "read_files [] acc = Inr acc"
| "read_files (file # files) acc =
     sbind (sf_text file) (\<lambda>content. read_files files
       (if sf_name file \<in> fst ` set acc
        then map (\<lambda>(k, c). (k, if k = sf_name file then content else c)) acc
        else acc @ [(sf_name file, content)]))"

definition prefixed :: "string \<Rightarrow> string \<Rightarrow> string" where
  "prefixed path name = path @ '':'' @ name"

text \<open>What is sent for a valid form.\<close>

definition submission :: "verification_rules \<Rightarrow> verification_view \<Rightarrow> exn + verification_data" where
  "submission R v =
     (let f = vw_form v;
          commonData = \<lparr>vd_codeFormat = type_codeFormat (vw_type v), vd_contractAddress = vf_contractAddress f,
            vd_contractName = [], vd_optimizationUsed = vf_optimizationUsed f, vd_sourceCode = SourceText [],
            vd_zkCompilerVersion = vf_zkCompilerVersion f, vd_compilerVersion = vf_compilerVersion f,
            vd_constructorArguments = vf_constructorArguments f\<rparr>
      in if isSingleFile (vw_type v)
         then Inr (commonData\<lparr>vd_contractName :=
                (if isFilePathRequired R v then prefixed (vf_contractPath f) (vf_contractName f) else vf_contractName f),
              vd_sourceCode := SourceText (vf_sourceCode f)\<rparr>)
         else sbind (read_files (vf_files f) []) (\<lambda>sources.
              Inr (commonData\<lparr>vd_contractName :=
                (if vf_mainFileName f \<noteq> [] then prefixed (vf_mainFileName f) (vf_contractName f) else vf_contractName f),
              vd_sourceCode := SourceFiles (if fst (compilerTypeMap (vw_type v)) = Solc then ''Solidity'' else ''Vyper'')
                sources (vf_optimizationUsed f)\<rparr>)))"

text \<open>
  The versions that are submitted are the selected ones, or else the first of the list. An invalid form shows its
  errors, and an error of a file leaves the request unsent. With a request the state is the one in which the answer
  is waited for.
\<close>

definition submit_versions :: "verification_view \<Rightarrow> verification_view" where
  "submit_versions v =
     v\<lparr>vw_form := (vw_form v)\<lparr>vf_zkCompilerVersion := chosen_or (vw_zkVersion v) (vf_zkCompilerVersion (defaultValues v)),
         vf_compilerVersion := chosen_or (vw_version v) (vf_compilerVersion (defaultValues v))\<rparr>\<rparr>"

definition submitForm :: "verification_rules \<Rightarrow> verification_view \<Rightarrow> verification_view \<times> exn option" where
  "submitForm R v =
     (let w = (submit_versions v)\<lparr>vw_dirty := True\<rparr>
      in if \<not> valid_form R w then (w, None)
         else (case submission R w of
                 Inl e \<Rightarrow> (w, Some e)
               | Inr d \<Rightarrow>
                   (w\<lparr>vw_sent := Some d,
                      vw_request := (vw_request w)\<lparr>vs_pending := True, vs_failed := False, vs_errorMessage := None,
                        vs_compilationErrors := []\<rparr>\<rparr>, None)))"

section \<open>Events\<close>

datatype form_edit =
    ContractAddress string
  | ContractName string
  | ContractPath string
  | OptimizationUsed bool
  | SourceCode string
  | ConstructorArguments string
  | Upload "source_file list"
  | RemoveFile nat
  | MainFile string

text \<open>The fields that are shown: the path, the source text or the files, and the main file.\<close>

definition edit_shown :: "verification_rules \<Rightarrow> verification_view \<Rightarrow> form_edit \<Rightarrow> bool" where
  "edit_shown R v e \<longleftrightarrow>
     (case e of
        ContractPath _ \<Rightarrow> isFilePathRequired R v
      | SourceCode _ \<Rightarrow> isSingleFile (vw_type v)
      | Upload _ \<Rightarrow> \<not> isSingleFile (vw_type v)
      | RemoveFile _ \<Rightarrow> \<not> isSingleFile (vw_type v)
      | MainFile _ \<Rightarrow> \<not> isSingleFile (vw_type v) \<and> fst (compilerTypeMap (vw_type v)) = Solc
      | _ \<Rightarrow> True)"

fun edit_form :: "string \<Rightarrow> form_edit \<Rightarrow> verification_form \<Rightarrow> verification_form" where
  "edit_form placeholder (ContractAddress x) f = f\<lparr>vf_contractAddress := x\<rparr>"
| "edit_form placeholder (ContractName x) f = f\<lparr>vf_contractName := x\<rparr>"
| "edit_form placeholder (ContractPath x) f = f\<lparr>vf_contractPath := x\<rparr>"
| "edit_form placeholder (OptimizationUsed b) f = f\<lparr>vf_optimizationUsed := b\<rparr>"
| "edit_form placeholder (SourceCode x) f = f\<lparr>vf_sourceCode := x\<rparr>"
| "edit_form placeholder (ConstructorArguments x) f = f\<lparr>vf_constructorArguments := x\<rparr>"
| "edit_form placeholder (Upload files) f = upload_files files f"
| "edit_form placeholder (RemoveFile i) f = removeFile i f"
| "edit_form placeholder (MainFile name) f = select_main_file placeholder name f"

text \<open>
  The user's events need the form, which is gone after a success. \<open>Versions\<close> is the answer to one of the four
  requests for versions, and \<open>Answered\<close> the end of the request that was sent, with what the service answers.
\<close>

datatype verification_event =
    Edit form_edit
  | SelectType compilation_type
  | SetZkVM bool
  | SelectZkVersion string
  | SelectVersion string
  | Clear
  | Submit
  | Versions compiler "exn + string list"
  | Answered "json \<Rightarrow> verification_error + json" "nat \<Rightarrow> verification_error + status_answer"

definition form_shown :: "verification_view \<Rightarrow> bool" where
  "form_shown v \<longleftrightarrow> vs_status (vw_request v) \<noteq> Some ''successful''"

definition verification_step ::
  "verification_rules \<Rightarrow> (string list \<Rightarrow> string list) \<Rightarrow> verification_event \<Rightarrow> verification_view \<Rightarrow> verification_view" where
  "verification_step R descending ev v =
     (case ev of
        Edit e \<Rightarrow>
          if form_shown v \<and> \<not> vs_pending (vw_request v) \<and> edit_shown R v e
          then v\<lparr>vw_form := edit_form (vr_placeholder R) e (vw_form v)\<rparr> else v
      | SelectType t \<Rightarrow> if form_shown v then onCompilationTypeChange (v\<lparr>vw_type := t\<rparr>) else v
      | SetZkVM b \<Rightarrow>
          if form_shown v \<and> fst (compilerTypeMap (vw_type v)) = Solc then onZkVMSelectionChanged (v\<lparr>vw_zkVM := b\<rparr>) else v
      | SelectZkVersion x \<Rightarrow>
          if form_shown v \<and> x \<in> set (cp_versions (selectedZkCompiler v)) then v\<lparr>vw_zkVersion := x\<rparr> else v
      | SelectVersion x \<Rightarrow>
          if form_shown v \<and> x \<in> set (cp_versions (selectedCompiler v)) then v\<lparr>vw_version := x\<rparr> else v
      | Clear \<Rightarrow> if form_shown v \<and> \<not> disabledClearButton v then clearForm v else v
      | Submit \<Rightarrow> if form_shown v \<and> \<not> disabledSubmitButton v then fst (submitForm R v) else v
      | Versions c answer \<Rightarrow>
          if cp_pending (vw_compilers v (compiler_name c))
          then v\<lparr>vw_compilers := requestCompilerVersions descending (\<lambda>_. answer) (compiler_name c) (vw_compilers v)\<rparr>
          else v
      | Answered post poll \<Rightarrow>
          (case vw_sent v of
             None \<Rightarrow> v
           | Some d \<Rightarrow>
               (case requestVerification post poll d (vw_request v) of
                  None \<Rightarrow> v
                | Some s \<Rightarrow> v\<lparr>vw_request := s, vw_sent := None\<rparr>)))"

inductive verification_reach :: "verification_rules \<Rightarrow> (string list \<Rightarrow> string list) \<Rightarrow> verification_view \<Rightarrow> bool"
  for R descending where
  opened: "verification_reach R descending (verification_setup query)"
| event: "verification_reach R descending v \<Longrightarrow> verification_reach R descending (verification_step R descending ev v)"

section \<open>What is sent is complete\<close>

text \<open>
  A request has an address, versions that the service has listed for the compilers of its format, and the source of
  the selected kind: a text that is not blank, or files of different names, one of which is named as the main file
  of a Solidity contract.
\<close>

definition complete_source :: "verification_rules \<Rightarrow> compilation_type \<Rightarrow> verification_data \<Rightarrow> bool" where
  "complete_source R t d \<longleftrightarrow>
     (\<exists>name. vr_required R name \<and>
        (case vd_sourceCode d of
           SourceText text \<Rightarrow> isSingleFile t \<and> trim text \<noteq> [] \<and>
             (vd_contractName d = name \<or> (\<exists>path. trim path \<noteq> [] \<and> vd_contractName d = prefixed path name))
         | SourceFiles language sources enabled \<Rightarrow> \<not> isSingleFile t \<and> sources \<noteq> [] \<and> distinct (map fst sources) \<and>
             language = (if fst (compilerTypeMap t) = Solc then ''Solidity'' else ''Vyper'') \<and>
             enabled = vd_optimizationUsed d \<and>
             (t \<noteq> SolidityMultiPart \<and> vd_contractName d = name \<or>
              (\<exists>file \<in> fst ` set sources. vd_contractName d = prefixed file name))))"

definition complete_request :: "verification_rules \<Rightarrow> (string \<Rightarrow> compiler_state) \<Rightarrow> verification_data \<Rightarrow> bool" where
  "complete_request R compilers d \<longleftrightarrow>
     vr_required R (vd_contractAddress d) \<and> vr_isAddress R (lower (vd_contractAddress d)) \<and>
     (\<exists>t. vd_codeFormat d = type_codeFormat t \<and>
        vd_zkCompilerVersion d \<in> set (cp_versions (compilers (compiler_name (snd (compilerTypeMap t))))) \<and>
        vd_compilerVersion d \<in> set (cp_versions (compilers (compiler_name (fst (compilerTypeMap t))))) \<and>
        complete_source R t d)"

definition verification_ok :: "verification_rules \<Rightarrow> verification_view \<Rightarrow> bool" where
  "verification_ok R v \<longleftrightarrow>
     (vf_mainFileName (vw_form v) = [] \<or> vf_mainFileName (vw_form v) \<in> sf_name ` set (vf_files (vw_form v))) \<and>
     (vw_zkVersion v = [] \<or> vw_zkVersion v \<in> set (cp_versions (selectedZkCompiler v))) \<and>
     (vw_version v = [] \<or> vw_version v \<in> set (cp_versions (selectedCompiler v))) \<and>
     (\<forall>c. cp_pending (vw_compilers v c) \<longrightarrow> cp_versions (vw_compilers v c) = []) \<and>
     (vw_sent v \<noteq> None \<longleftrightarrow> vs_pending (vw_request v)) \<and>
     (\<forall>d. vw_sent v = Some d \<longrightarrow> complete_request R (vw_compilers v) d)"

lemma read_files_keys:
  "read_files files acc = Inr out \<Longrightarrow>
     fst ` set out = fst ` set acc \<union> sf_name ` set files \<and> (distinct (map fst acc) \<longrightarrow> distinct (map fst out))"
proof (induction files acc rule: read_files.induct)
  case (2 x xs acc)
  then obtain content where read: "sf_text x = Inr content" by (cases "sf_text x") auto
  let ?acc = "if sf_name x \<in> fst ` set acc then map (\<lambda>(k, c). (k, if k = sf_name x then content else c)) acc
    else acc @ [(sf_name x, content)]"
  have keys: "map fst ?acc = (if sf_name x \<in> fst ` set acc then map fst acc else map fst acc @ [sf_name x])"
    by (auto simp: case_prod_beta)
  have set_keys: "fst ` set ?acc = insert (sf_name x) (fst ` set acc)"
    using arg_cong [OF keys, of set] by (auto split: if_splits)
  have "fst ` set out = fst ` set ?acc \<union> sf_name ` set xs \<and> (distinct (map fst ?acc) \<longrightarrow> distinct (map fst out))"
    using 2 read by simp
  then show ?case unfolding set_keys using keys by (auto split: if_splits)
qed simp

lemma upload_keeps: "set (vf_files f) \<subseteq> set (vf_files (upload_files files f))"
proof -
  have "set acc \<subseteq> set (fold (\<lambda>current acc. if P current then acc else acc @ [current]) files acc)" for P acc
    by (induction files arbitrary: acc) (auto, fastforce+)
  then show ?thesis by (simp add: upload_files_def)
qed

lemma upload_main [simp]: "vf_mainFileName (upload_files files f) = vf_mainFileName f"
  by (simp add: upload_files_def)

lemma removed_keeps: "i < length xs \<Longrightarrow> x \<in> set xs \<Longrightarrow> x \<noteq> xs ! i \<Longrightarrow> x \<in> set (take i xs @ drop (i + 1) xs)"
  using id_take_nth_drop [of i xs] by (metis Suc_eq_plus1 Un_iff set_append set_ConsD)

lemma edit_keeps_main_file:
  assumes "vf_mainFileName f = [] \<or> vf_mainFileName f \<in> sf_name ` set (vf_files f)"
  shows "vf_mainFileName (edit_form placeholder e f) = [] \<or>
    vf_mainFileName (edit_form placeholder e f) \<in> sf_name ` set (vf_files (edit_form placeholder e f))"
proof (cases e)
  case (Upload files)
  then show ?thesis using assms upload_keeps [of f files] by auto
next
  case (RemoveFile i)
  show ?thesis
  proof (cases "i < length (vf_files f)")
    case True
    {
      fix x assume "x \<in> set (vf_files f)" "vf_mainFileName f = sf_name x" "sf_name x \<noteq> sf_name (vf_files f ! i)"
      then have "vf_mainFileName f \<in> sf_name ` set (take i (vf_files f) @ drop (i + 1) (vf_files f))"
        using removed_keeps [OF True, of x] by (metis image_eqI)
    }
    then show ?thesis using assms RemoveFile by (auto simp: removeFile_def)
  qed (use assms RemoveFile in \<open>simp add: removeFile_def\<close>)
qed (use assms in \<open>auto simp: select_main_file_def\<close>)

lemma first_or_empty_in: "first_or_empty xs = [] \<or> first_or_empty xs \<in> set xs"
  by (cases xs) (auto simp: first_or_empty_def)

text \<open>The selected compilers depend on the compilation type, the box and the lists only.\<close>

lemma selected_same [simp]:
  "selectedZkCompiler (v\<lparr>vw_form := x_form\<rparr>) = selectedZkCompiler v"
  "selectedCompiler (v\<lparr>vw_form := x_form\<rparr>) = selectedCompiler v"
  "selectedZkCompiler (v\<lparr>vw_zkVersion := x_zkVersion\<rparr>) = selectedZkCompiler v"
  "selectedCompiler (v\<lparr>vw_zkVersion := x_zkVersion\<rparr>) = selectedCompiler v"
  "selectedZkCompiler (v\<lparr>vw_version := x_version\<rparr>) = selectedZkCompiler v"
  "selectedCompiler (v\<lparr>vw_version := x_version\<rparr>) = selectedCompiler v"
  "selectedZkCompiler (v\<lparr>vw_request := x_request\<rparr>) = selectedZkCompiler v"
  "selectedCompiler (v\<lparr>vw_request := x_request\<rparr>) = selectedCompiler v"
  "selectedZkCompiler (v\<lparr>vw_dirty := x_dirty\<rparr>) = selectedZkCompiler v"
  "selectedCompiler (v\<lparr>vw_dirty := x_dirty\<rparr>) = selectedCompiler v"
  "selectedZkCompiler (v\<lparr>vw_sent := x_sent\<rparr>) = selectedZkCompiler v"
  "selectedCompiler (v\<lparr>vw_sent := x_sent\<rparr>) = selectedCompiler v"
  by (simp_all add: selectedZkCompiler_def selectedCompiler_def cong: if_cong)

lemma selected_versions:
  "set (cp_versions (selectedCompiler v)) \<subseteq> set (cp_versions (vw_compilers v (compiler_name (fst (compilerTypeMap (vw_type v))))))"
  by (auto simp: selectedCompiler_def Let_def)

text \<open>A form that is submitted gives a complete request.\<close>

lemma submission_complete:
  assumes "vf_mainFileName (vw_form v) = [] \<or> vf_mainFileName (vw_form v) \<in> sf_name ` set (vf_files (vw_form v))"
    and "valid_form R v" and "submission R v = Inr d"
  shows "complete_source R (vw_type v) d"
proof (cases "isSingleFile (vw_type v)")
  case True
  have "trim (vf_contractPath (vw_form v)) \<noteq> []" if "isFilePathRequired R v"
    using assms(2) that by (simp add: valid_form_def Let_def)
  then have "vd_contractName d = vf_contractName (vw_form v) \<or>
      (\<exists>path. trim path \<noteq> [] \<and> vd_contractName d = prefixed path (vf_contractName (vw_form v)))"
    using True assms(3) by (cases "isFilePathRequired R v") (auto simp: submission_def Let_def)
  then show ?thesis unfolding complete_source_def using True assms(2,3)
    by (intro exI [of _ "vf_contractName (vw_form v)"]) (auto simp: submission_def valid_form_def Let_def)
next
  case False
  then obtain sources where sources: "read_files (vf_files (vw_form v)) [] = Inr sources"
    using assms(3) by (cases "read_files (vf_files (vw_form v)) []") (auto simp: submission_def Let_def)
  have keys: "fst ` set sources = sf_name ` set (vf_files (vw_form v))" "distinct (map fst sources)"
    using read_files_keys [OF sources] by auto
  have "vf_files (vw_form v) \<noteq> []" using assms(2) False by (simp add: valid_form_def Let_def)
  then have ne: "sources \<noteq> []" using keys(1) by auto
  have main: "vf_mainFileName (vw_form v) \<noteq> []" if "vw_type v = SolidityMultiPart"
    using assms(2) False that by (auto simp: valid_form_def Let_def trim_def)
  have name: "vr_required R (vf_contractName (vw_form v))" using assms(2) by (simp add: valid_form_def Let_def)
  have "vw_type v \<noteq> SolidityMultiPart \<and> vd_contractName d = vf_contractName (vw_form v) \<or>
      (\<exists>file \<in> fst ` set sources. vd_contractName d = prefixed file (vf_contractName (vw_form v)))"
    using False assms(1,3) sources main unfolding keys(1)
    by (cases "vf_mainFileName (vw_form v) = []") (auto simp: submission_def Let_def)
  moreover have "vd_sourceCode d = SourceFiles (if fst (compilerTypeMap (vw_type v)) = Solc then ''Solidity'' else ''Vyper'')
      sources (vd_optimizationUsed d)"
    using False assms(3) sources by (auto simp: submission_def Let_def)
  ultimately show ?thesis unfolding complete_source_def using False keys(2) ne name
    by (intro exI [of _ "vf_contractName (vw_form v)"]) simp
qed

lemma submission_fields:
  assumes "submission R v = Inr d"
  shows "vd_codeFormat d = type_codeFormat (vw_type v)" "vd_contractAddress d = vf_contractAddress (vw_form v)"
    "vd_zkCompilerVersion d = vf_zkCompilerVersion (vw_form v)" "vd_compilerVersion d = vf_compilerVersion (vw_form v)"
  using assms by (cases "read_files (vf_files (vw_form v)) []"; auto simp: submission_def Let_def split: if_splits)+

lemma submit_ok:
  assumes "verification_ok R v" and "\<not> vr_required R []"
  shows "verification_ok R (fst (submitForm R v))"
proof -
  let ?u = "submit_versions v" and ?w = "(submit_versions v)\<lparr>vw_dirty := True\<rparr>"
  have same: "vw_zkVersion ?u = vw_zkVersion v" "vw_version ?u = vw_version v" "vw_compilers ?u = vw_compilers v"
    "vw_sent ?u = vw_sent v" "vw_request ?u = vw_request v" "vw_type ?u = vw_type v"
    "selectedCompiler ?u = selectedCompiler v" "selectedZkCompiler ?u = selectedZkCompiler v"
    "vf_mainFileName (vw_form ?u) = vf_mainFileName (vw_form v)" "vf_files (vw_form ?u) = vf_files (vw_form v)"
    by (simp_all add: submit_versions_def)
  have w: "verification_ok R ?w"
    using assms(1) same by (simp add: verification_ok_def)
  have "complete_request R (vw_compilers v) d" if "valid_form R ?w" "submission R ?w = Inr d" for d
  proof -
    have chosen: "chosen_or x (first_or_empty xs) \<in> set xs" if "x = [] \<or> x \<in> set xs" "vr_required R (chosen_or x (first_or_empty xs))" for x xs
      using that assms(2) first_or_empty_in [of xs] by (auto simp: chosen_or_def split: if_splits)
    have "vr_required R (vf_zkCompilerVersion (vw_form ?w))" "vr_required R (vf_compilerVersion (vw_form ?w))"
      using that(1) by (simp_all add: valid_form_def Let_def)
    then have "vf_zkCompilerVersion (vw_form ?w) \<in> set (cp_versions (selectedZkCompiler v))"
      "vf_compilerVersion (vw_form ?w) \<in> set (cp_versions (selectedCompiler v))"
      using assms(1) by (simp_all add: submit_versions_def defaultValues_def verification_ok_def chosen)
    moreover have "complete_source R (vw_type v) d"
      using submission_complete [of ?w R d] w that same by (simp add: verification_ok_def)
    moreover have "vr_required R (vd_contractAddress d)" "vr_isAddress R (lower (vd_contractAddress d))"
      using that(1) submission_fields [OF that(2)] by (simp_all add: valid_form_def Let_def)
    ultimately show ?thesis
      using submission_fields [OF that(2)] selected_versions [of v] same(6)
      by (auto simp: complete_request_def selectedZkCompiler_def intro!: exI [of _ "vw_type v"])
  qed
  then show ?thesis using w
    by (auto simp: submitForm_def Let_def verification_ok_def same split: sum.splits)
qed

lemma requestVerification_pending: "requestVerification post poll d s = Some t \<Longrightarrow> \<not> vs_pending t"
  by (cases "post (verification_body d)") (auto simp: requestVerification_def Let_def split: json.splits)

lemma complete_request_mono:
  assumes "complete_request R compilers d" and "\<And>c. set (cp_versions (compilers c)) \<subseteq> set (cp_versions (compilers' c))"
  shows "complete_request R compilers' d"
  using assms unfolding complete_request_def by blast

lemma versions_ok:
  assumes "verification_ok R v" and "cp_pending (vw_compilers v c)"
  shows "verification_ok R (v\<lparr>vw_compilers := requestCompilerVersions descending (\<lambda>_. answer) c (vw_compilers v)\<rparr>)"
proof -
  let ?cs = "requestCompilerVersions descending (\<lambda>_. answer) c (vw_compilers v)"
  have grow: "set (cp_versions (vw_compilers v c')) \<subseteq> set (cp_versions (?cs c'))" for c'
    using assms by (auto simp: requestCompilerVersions_def verification_ok_def split: sum.splits)
  have pend: "cp_pending (?cs c') \<Longrightarrow> cp_versions (?cs c') = []" for c'
    using assms by (auto simp: requestCompilerVersions_def verification_ok_def split: sum.splits if_splits)
  have "set (cp_versions (selectedZkCompiler v)) \<subseteq> set (cp_versions (selectedZkCompiler (v\<lparr>vw_compilers := ?cs\<rparr>)))"
    "set (cp_versions (selectedCompiler v)) \<subseteq> set (cp_versions (selectedCompiler (v\<lparr>vw_compilers := ?cs\<rparr>)))"
    using grow by (fastforce simp: selectedZkCompiler_def selectedCompiler_def Let_def)+
  then show ?thesis using assms(1) pend complete_request_mono [OF _ grow]
    unfolding verification_ok_def by auto
qed

lemma verification_step_ok:
  assumes "verification_ok R v" and "\<not> vr_required R []"
  shows "verification_ok R (verification_step R descending ev v)"
proof (cases ev)
  case (Edit e)
  then show ?thesis using assms(1) edit_keeps_main_file [of "vw_form v" "vr_placeholder R" e]
    by (simp add: verification_step_def verification_ok_def)
next
  case (SelectType t)
  then show ?thesis using assms(1)
    by (simp add: verification_step_def onCompilationTypeChange_def verification_ok_def first_or_empty_in)
next
  case (SetZkVM b)
  have "selectedZkCompiler (v\<lparr>vw_zkVM := b\<rparr>) = selectedZkCompiler v" by (simp add: selectedZkCompiler_def)
  then show ?thesis using SetZkVM assms(1)
    by (simp add: verification_step_def onZkVMSelectionChanged_def verification_ok_def first_or_empty_in)
next
  case (SelectZkVersion x)
  then show ?thesis using assms(1) by (simp add: verification_step_def verification_ok_def)
next
  case (SelectVersion x)
  then show ?thesis using assms(1) by (simp add: verification_step_def verification_ok_def)
next
  case Clear
  then show ?thesis using assms(1)
    by (simp add: verification_step_def clearForm_def defaultValues_def verification_ok_def)
next
  case Submit
  then show ?thesis using assms(1) submit_ok [OF assms] by (simp add: verification_step_def)
next
  case (Versions c answer)
  then show ?thesis using assms(1) versions_ok [OF assms(1)] by (simp add: verification_step_def)
next
  case (Answered post poll)
  then show ?thesis using assms(1) requestVerification_pending
    by (auto simp: verification_step_def verification_ok_def split: option.splits)
qed

lemma verification_reach_ok:
  assumes "verification_reach R descending v" and "\<not> vr_required R []"
  shows "verification_ok R v"
  using assms(1)
proof induction
  case (opened query)
  show ?case
    by (simp add: verification_ok_def verification_setup_def Let_def defaultValues_def last_or_empty_def first_or_empty_def
      selectedCompiler_def selectedZkCompiler_def)
next
  case (event v ev)
  then show ?case using verification_step_ok [OF _ assms(2)] by blast
qed

lemma verification_reach_fold:
  "verification_reach R descending v \<Longrightarrow> verification_reach R descending (fold (verification_step R descending) evs v)"
  by (induction evs arbitrary: v) (simp_all add: verification_reach.event)


definition demo_rules :: verification_rules where
  "demo_rules = \<lparr>vr_isAddress = (\<lambda>a. length a = 42), vr_required = (\<lambda>x. trim x \<noteq> []), vr_notOlder = (\<lambda>_ _. True),
     vr_placeholder = ''Choose Main File''\<rparr>"

definition demo_filled :: verification_view where
  "demo_filled = fold (verification_step demo_rules (\<lambda>xs. xs))
     [Versions Zksolc (Inr [''v1.4.0'', ''v1.3.5'']), Versions Solc (Inr [''zkVM-0.8.20'', ''0.8.20'']),
      Versions Zkvyper (Inr [''v1.4.1'']), Versions Vyper (Inr [''0.3.10'']),
      SelectType SolidityMultiPart, Edit (ContractAddress (''0x'' @ replicate 40 CHR ''1'')), Edit (ContractName ''Token''),
      Edit (Upload [\<lparr>sf_name = ''Token.sol'', sf_text = Inr ''contract''\<rparr>]), Edit (MainFile ''Token.sol'')]
     (verification_setup None)"

definition sent_name :: "verification_view \<Rightarrow> (string \<times> string) option" where
  "sent_name v = map_option (\<lambda>d. (vd_codeFormat d, vd_contractName d)) (vw_sent v)"


text \<open>
  The main file outlives a change of the compilation type: the selector is not shown for Vyper, and a Vyper contract
  is sent with the name of the Solidity file, which is also still one of its sources.
\<close>

lemma main_file_survives_type_change:
  "sent_name (verification_step demo_rules (\<lambda>xs. xs) Submit
     (verification_step demo_rules (\<lambda>xs. xs) (SelectType VyperMultiPart) demo_filled)) =
   Some (''vyper-multi-file'', ''Token.sol:Token'')"
  by code_simp

text \<open>Two new files of one name in an upload are both listed, and only the text of the second is sent.\<close>

lemma same_name_upload:
  "vf_files (upload_files [\<lparr>sf_name = ''A.sol'', sf_text = Inr ''1''\<rparr>, \<lparr>sf_name = ''A.sol'', sf_text = Inr ''2''\<rparr>]
     (vw_form (verification_setup None))) =
   [\<lparr>sf_name = ''A.sol'', sf_text = Inr ''1''\<rparr>, \<lparr>sf_name = ''A.sol'', sf_text = Inr ''2''\<rparr>]"
  "read_files [\<lparr>sf_name = ''A.sol'', sf_text = Inr ''1''\<rparr>, \<lparr>sf_name = ''A.sol'', sf_text = Inr ''2''\<rparr>] [] = Inr [(''A.sol'', ''2'')]"
  by code_simp+

end
