(* ===== verification/App_Trace.thy ===== *)
theory App_Trace
  imports Json
begin

text \<open>
  The debugger of the front end (\<open>src/packages/app/src/composables/useTrace.ts\<close>): the memory at a step of a
  trace, and moving through its steps. Objects with numeric keys are association lists in ascending order
  of their keys, the order of \<open>Object.values\<close>.
\<close>

record memory_interaction =
  mi_address :: int
  mi_direction :: string
  mi_memory_type :: string
  mi_page :: int
  mi_value :: string

record memory_snapshot =
  ms_memory_type :: string
  ms_page :: int
  ms_values :: "string list"

record trace_step =
  st_contract :: string
  st_pc :: int
  st_interactions :: "memory_interaction list"
  st_snapshots :: "memory_snapshot list"
  st_registers :: "string list"
  st_error :: "string option"
  st_stack_page :: int
  st_heap_page :: int
  st_code_page :: int
  st_calldata_page :: int
  st_returndata_page :: int

record trace_source =
  so_assembly_code :: "string option"
  so_active_lines :: "int list"
  so_pc_line_mapping :: "(int \<times> int) list"

record trace_file =
  tf_sources :: "(string \<times> trace_source) list"
  tf_steps :: "trace_step list"

definition getMemoryDirection ::
  "memory_interaction list \<Rightarrow> string \<Rightarrow> int \<Rightarrow> int \<Rightarrow> string option" where
  "getMemoryDirection interactions memoryType page address =
     (let directions = map mi_direction
        (filter (\<lambda>m. mi_page m = page \<and> mi_memory_type m = memoryType \<and> mi_address m = address) interactions)
      in if ''Write'' \<in> set directions then Some ''Write''
         else if ''Read'' \<in> set directions then Some ''Read'' else None)"

text \<open>What a step does to the memory of a page: its snapshots first, then its writes, each in order.\<close>

definition snapshot_writes :: "memory_snapshot \<Rightarrow> (int \<times> string) list" where
  "snapshot_writes snap = zip (map int [0..<length (ms_values snap)]) (ms_values snap)"

definition step_writes :: "string \<Rightarrow> int \<Rightarrow> trace_step \<Rightarrow> (int \<times> string) list" where
  "step_writes memoryType page st =
     concat (map snapshot_writes
       (filter (\<lambda>s. ms_memory_type s = memoryType \<and> ms_page s = page) (st_snapshots st))) @
     map (\<lambda>m. (mi_address m, mi_value m))
       (filter (\<lambda>m. mi_direction m = ''Write'' \<and> mi_memory_type m = memoryType \<and> mi_page m = page) (st_interactions st))"

text \<open>A \<open>Map\<close> keeps a key where it was first set; its entries are sorted by key in the end.\<close>

fun map_put :: "'k \<Rightarrow> 'v \<Rightarrow> ('k \<times> 'v) list \<Rightarrow> ('k \<times> 'v) list" where
  "map_put k v [] = [(k, v)]"
| "map_put k v ((j, w) # m) = (if j = k then (k, v) # m else (j, w) # map_put k v m)"

definition memoryAtFrame :: "trace_step list \<Rightarrow> nat \<Rightarrow> string \<Rightarrow> int \<Rightarrow> (int \<times> string) list" where
  "memoryAtFrame steps activeIndex memoryType page =
     sort_key fst
       (fold (\<lambda>st m. fold (\<lambda>(k, v). map_put k v) (step_writes memoryType page st) m) (take (activeIndex + 1) steps) [])"

section \<open>Navigation\<close>

text \<open>\<open>Math.max(0, Math.min(value, length - 1))\<close>\<close>

definition goTo :: "trace_file \<Rightarrow> int \<Rightarrow> int" where
  "goTo trace v = max 0 (min v (int (length (tf_steps trace)) - 1))"

definition step_at :: "trace_file \<Rightarrow> int option \<Rightarrow> trace_step option" where
  "step_at trace index =
     (case index of
        None \<Rightarrow> None
      | Some i \<Rightarrow> if 0 \<le> i \<and> i < int (length (tf_steps trace)) then Some (tf_steps trace ! nat i) else None)"

text \<open>The active step with its line; a step of a contract without a source throws.\<close>

definition activeStep :: "trace_file \<Rightarrow> int option \<Rightarrow> exn + (trace_step \<times> int option) option" where
  "activeStep trace index =
     (case step_at trace index of
        None \<Rightarrow> Inr None
      | Some st \<Rightarrow>
          (case map_of (tf_sources trace) (st_contract st) of
             None \<Rightarrow> Inl TypeError
           | Some src \<Rightarrow> Inr (Some (st, map_of (so_pc_line_mapping src) (st_pc st)))))"

text \<open>\<open>indexOf\<close>, \<open>-1\<close> when it is not there.\<close>

definition index_of :: "'a \<Rightarrow> 'a list \<Rightarrow> int" where
  "index_of x xs = (if x \<in> set xs then int (length (takeWhile (\<lambda>y. y \<noteq> x) xs)) else -1)"

definition first_index :: "('a \<Rightarrow> bool) \<Rightarrow> 'a list \<Rightarrow> int" where
  "first_index P xs = (if \<exists>x \<in> set xs. P x then int (length (takeWhile (\<lambda>y. \<not> P y) xs)) else -1)"

definition navigateToLine :: "trace_file \<Rightarrow> string \<Rightarrow> int \<Rightarrow> exn + int" where
  "navigateToLine trace address line =
     (case map_of (tf_sources trace) address of
        None \<Rightarrow> Inl TypeError
      | Some src \<Rightarrow>
          let pc = index_of line (map snd (so_pc_line_mapping src)) + 1
          in Inr (goTo trace (first_index (\<lambda>st. st_contract st = address \<and> st_pc st = pc) (tf_steps trace))))"

definition getActiveLines :: "trace_source \<Rightarrow> int list" where
  "getActiveLines src =
     map snd (filter (\<lambda>(i, _). int (i + 1) \<in> set (so_active_lines src))
       (zip [0..<length (so_pc_line_mapping src)] (map snd (so_pc_line_mapping src))))"

text \<open>How often each step is executed, in relation to the most frequent one.\<close>

definition step_counts :: "trace_file \<Rightarrow> ((string \<times> int) \<times> nat) list" where
  "step_counts trace =
     fold (\<lambda>st m. let k = (st_contract st, st_pc st)
        in map_put k ((case map_of m k of None \<Rightarrow> 0 | Some n \<Rightarrow> n) + 1) m) (tf_steps trace) []"

definition traceCountPercentage :: "trace_file \<Rightarrow> int option \<Rightarrow> ((string \<times> int) \<times> rat) list" where
  "traceCountPercentage trace index =
     (if index = None then []
      else let counts = step_counts trace; most = fold max (map snd counts) 0
        in map (\<lambda>(k, n). (k, of_nat n / of_nat most)) counts)"

section \<open>Properties\<close>

lemma map_of_map_put [simp]: "map_of (map_put k v m) = (map_of m)(k \<mapsto> v)"
  by (induction k v m rule: map_put.induct) auto

lemma keys_map_put: "set (map fst (map_put k v m)) = insert k (set (map fst m))"
  by (induction k v m rule: map_put.induct) auto

lemma distinct_map_put: "distinct (map fst m) \<Longrightarrow> distinct (map fst (map_put k v m))"
proof (induction k v m rule: map_put.induct)
  case (2 k v k' v' m)
  then show ?case using keys_map_put [of k v m] by (auto simp del: set_map)
qed simp

lemma fold_map_put:
  "map_of (fold (\<lambda>(k, v). map_put k v) ws m) = map_of m ++ map_of (rev ws)"
  "distinct (map fst m) \<Longrightarrow> distinct (map fst (fold (\<lambda>(k, v). map_put k v) ws m))"
  by (induction ws arbitrary: m) (auto simp: map_add_def fun_eq_iff distinct_map_put split: option.splits)

lemma sort_map:
  assumes "distinct (map fst m)"
  shows "map_of (sort_key fst m) = map_of m" "distinct (map fst (sort_key fst m))"
proof -
  show d: "distinct (map fst (sort_key fst m))" using assms by (simp add: distinct_map)
  show "map_of (sort_key fst m) = map_of m" using map_of_inject_set [OF d assms] by simp
qed

lemma fold_fold: "fold (\<lambda>x m. fold f (g x) m) xs m = fold f (concat (map g xs)) m"
  by (induction xs arbitrary: m) simp_all

text \<open>
  The memory shown at a step is the last value written to each address by the steps up to it, where a step
  first takes its snapshots and then its writes; the addresses come in ascending order, each once.
\<close>

theorem memory_is_last_write:
  "map_of (memoryAtFrame steps n memoryType page) =
     map_of (rev (concat (map (step_writes memoryType page) (take (n + 1) steps)))) \<and>
   sorted (map fst (memoryAtFrame steps n memoryType page)) \<and> distinct (map fst (memoryAtFrame steps n memoryType page))"
proof -
  let ?ws = "concat (map (step_writes memoryType page) (take (n + 1) steps))"
  have mem: "memoryAtFrame steps n memoryType page = sort_key fst (fold (\<lambda>(k, v). map_put k v) ?ws [])"
    by (simp add: memoryAtFrame_def fold_fold)
  have "distinct (map fst (fold (\<lambda>(k, v). map_put k v) ?ws []))" by (simp add: fold_map_put(2))
  from sort_map [OF this] show ?thesis by (simp add: mem fold_map_put(1))
qed

text \<open>Going to a step always ends on a step of the trace, and on the one that was asked for when it exists.\<close>

theorem goTo_bounds:
  "(tf_steps trace \<noteq> [] \<longrightarrow> (\<exists>st. step_at trace (Some (goTo trace v)) = Some st)) \<and>
   (tf_steps trace = [] \<longrightarrow> goTo trace v = 0) \<and>
   (0 \<le> v \<and> v < int (length (tf_steps trace)) \<longrightarrow> goTo trace v = v)"
  by (cases "tf_steps trace") (auto simp: goTo_def step_at_def)

text \<open>A line that no step of the contract reaches leads to the first step of the trace.\<close>

lemma unreached_line:
  assumes "map_of (tf_sources trace) address = Some src"
    and "\<forall>st \<in> set (tf_steps trace). st_contract st = address \<longrightarrow>
      st_pc st \<noteq> index_of line (map snd (so_pc_line_mapping src)) + 1"
  shows "navigateToLine trace address line = Inr 0"
  using assms by (auto simp: navigateToLine_def Let_def first_index_def goTo_def)

end
