(* ===== verification/App_Debugger.thy ===== *)
theory App_Debugger
  imports App_Trace
begin

text \<open>
  The views of the debugger (\<open>src/packages/app/src/views/DebuggerView.vue\<close> and, under
  \<open>components/debugger\<close>, \<open>Navigation.vue\<close>, \<open>SourceViewer.vue\<close> and \<open>MetadataTabs.vue\<close>, with
  \<open>utils/highlight.ts\<close>, \<open>utils/mappers.ts\<close> and the upload of \<open>composables/useTrace.ts\<close>). \<open>BigInt\<close> and
  ethers' \<open>isHexString\<close> are arguments, and so is the number that a text denotes. Layout and scrolling are left out.
\<close>

section \<open>utils/highlight.ts\<close>

text \<open>\<open>indexOf\<close> on text, and \<open>includes\<close>.\<close>

fun text_index :: "string \<Rightarrow> string \<Rightarrow> nat option" where
  "text_index p [] = (if p = [] then Some 0 else None)"
| "text_index p (c # cs) = (if starts_with (c # cs) p then Some 0 else map_option Suc (text_index p cs))"

definition text_includes :: "string \<Rightarrow> string \<Rightarrow> bool" where
  "text_includes s p \<longleftrightarrow> text_index p s \<noteq> None"

definition quote_char :: char where
  "quote_char = CHR 0x22"

definition apostrophe_char :: char where
  "apostrophe_char = CHR 0x27"

definition escape_char :: "char \<Rightarrow> string" where
  "escape_char c =
     (if c = CHR ''&'' then ''&amp;''
      else if c = CHR ''<'' then ''&lt;''
      else if c = CHR ''>'' then ''&gt;''
      else if c = quote_char then ''&quot;''
      else if c = apostrophe_char then ''&#039;''
      else [c])"

definition escape_html :: "string \<Rightarrow> string" where
  "escape_html s = concat (map escape_char s)"

definition mark_open :: string where
  "mark_open = ''<mark class='' @ [quote_char] @ ''mark'' @ [quote_char] @ ''>''"

definition mark_close :: string where
  "mark_close = ''</mark>''"

definition highlight :: "string \<Rightarrow> string \<Rightarrow> string" where
  "highlight s query =
     (let escaped = escape_html s
      in if query = [] then escaped
         else (case text_index (lower query) (lower escaped) of
                 Some i \<Rightarrow> take i escaped @ mark_open @ take (length query) (drop i escaped) @ mark_close @
                   drop (i + length query) escaped
               | None \<Rightarrow> escaped))"

text \<open>
  C39: Whatever the text and the query are, the markup that the debugger inserts as HTML is the escaped text, at
  most with one pair of mark tags around a part of it; the escaped text has no tag and no quote of its own.
\<close>

theorem highlight_safe:
  "(\<exists>a b c. a @ b @ c = escape_html s \<and> highlight s query \<in> {a @ b @ c, a @ mark_open @ b @ mark_close @ c}) \<and>
   set (escape_html s) \<inter> {CHR ''<'', CHR ''>'', quote_char, apostrophe_char} = {}"
proof
  show "\<exists>a b c. a @ b @ c = escape_html s \<and> highlight s query \<in> {a @ b @ c, a @ mark_open @ b @ mark_close @ c}"
  proof (cases "query = [] \<or> text_index (lower query) (lower (escape_html s)) = None")
    case True
    then have "highlight s query = [] @ [] @ escape_html s" by (auto simp: highlight_def Let_def)
    then show ?thesis by (metis append_Nil insertI1)
  next
    case False
    then obtain i where i: "query \<noteq> []" "text_index (lower query) (lower (escape_html s)) = Some i" by auto
    let ?e = "escape_html s"
    have "highlight s query = take i ?e @ mark_open @ take (length query) (drop i ?e) @ mark_close @ drop (i + length query) ?e"
      using i by (simp add: highlight_def Let_def)
    moreover have "take i ?e @ take (length query) (drop i ?e) @ drop (i + length query) ?e = ?e"
      by (metis append_take_drop_id drop_drop add.commute)
    ultimately show ?thesis by blast
  qed
  have "set (escape_char c) \<inter> {CHR ''<'', CHR ''>'', quote_char, apostrophe_char} = {}" for c
    by (auto simp: escape_char_def quote_char_def apostrophe_char_def)
  then show "set (escape_html s) \<inter> {CHR ''<'', CHR ''>'', quote_char, apostrophe_char} = {}"
    by (fastforce simp: escape_html_def)
qed

text \<open>The query is searched in the escaped text, so it can be found within an entity, which it then breaks.\<close>

lemma query_within_entity: "highlight ''a<b'' ''l'' = ''a&'' @ mark_open @ ''l'' @ mark_close @ ''t;b''"
  by code_simp

section \<open>utils/mappers.ts\<close>

datatype data_format = Hex | Dec

text \<open>\<open>formatHexDecimals\<close>: hexadecimal digits get their prefix, and \<open>BigInt\<close> throws for what is no number.\<close>

definition formatHexDecimals :: "(string \<Rightarrow> exn + int) \<Rightarrow> (string \<Rightarrow> bool) \<Rightarrow> string \<Rightarrow> data_format \<Rightarrow> exn + string" where
  "formatHexDecimals bigint isHexString text fmt =
     (let validValue = (if text = ''0x'' then ''0'' else text);
          prefix = (if isHexString validValue then [] else ''0x'')
      in sbind (bigint (prefix @ validValue)) (\<lambda>n.
         Inr (if fmt = Dec then show_int n else ''0x'' @ show_int_hex n)))"

text \<open>An interaction as it is shown: its address has become a text.\<close>

record shown_interaction =
  sn_address :: json
  sn_direction :: string
  sn_memory_type :: string
  sn_page :: int
  sn_value :: string

record shown_step =
  ss_step :: trace_step
  ss_interactions :: "shown_interaction list"
  ss_snapshots :: "memory_snapshot list"
  ss_registers :: "string list"

definition mapStep :: "(string \<Rightarrow> exn + int) \<Rightarrow> (string \<Rightarrow> bool) \<Rightarrow> trace_step \<Rightarrow> data_format \<Rightarrow> exn + shown_step" where
  "mapStep bigint isHexString st fmt =
     (let shown = (\<lambda>v. formatHexDecimals bigint isHexString v fmt) in
      sbind (map_act (\<lambda>e. sbind (shown (show_int (mi_address e))) (\<lambda>a. sbind (shown (mi_value e)) (\<lambda>v.
          Inr \<lparr>sn_address = JStr a, sn_direction = mi_direction e, sn_memory_type = mi_memory_type e, sn_page = mi_page e,
            sn_value = v\<rparr>))) (st_interactions st)) (\<lambda>is.
      sbind (map_act (\<lambda>e. sbind (map_act shown (ms_values e)) (\<lambda>vs. Inr (e\<lparr>ms_values := vs\<rparr>))) (st_snapshots st)) (\<lambda>ss.
      sbind (map_act shown (st_registers st)) (\<lambda>rs.
      Inr \<lparr>ss_step = st, ss_interactions = is, ss_snapshots = ss, ss_registers = rs\<rparr>))))"

section \<open>MetadataTabs.vue\<close>

definition memoryData :: "trace_step \<Rightarrow> (string \<times> int) list" where
  "memoryData st =
     [(''stack'', st_stack_page st), (''heap'', st_heap_page st), (''code'', st_code_page st),
      (''callData'', st_calldata_page st), (''returnData'', st_returndata_page st)]"

text \<open>The tabs: only pages with an index other than zero.\<close>

definition metadata_tabs :: "trace_step \<Rightarrow> (string \<times> int) list" where
  "metadata_tabs st = filter (\<lambda>(_, index). index \<noteq> 0) (memoryData st)"

text \<open>
  The tab number \<open>i\<close> shows what is given for that number, and the contents are numbered as the pages are: the
  memory at the step with that index, and the direction of each address. The direction is looked up by
  \<open>===\<close> among the interactions of the step.
\<close>

definition shown_direction :: "shown_interaction list \<Rightarrow> string \<Rightarrow> int \<Rightarrow> int \<Rightarrow> string option" where
  "shown_direction interactions memoryType page address =
     (let directions = map sn_direction
        (filter (\<lambda>m. sn_page m = page \<and> sn_memory_type m = memoryType \<and> sn_address m = JNum (of_int address)) interactions)
      in if ''Write'' \<in> set directions then Some ''Write''
         else if ''Read'' \<in> set directions then Some ''Read'' else None)"

definition tab_content ::
  "trace_step list \<Rightarrow> nat \<Rightarrow> shown_step \<Rightarrow> nat \<Rightarrow> ((int \<times> string) \<times> string option) list" where
  "tab_content steps activeIndex shown i =
     (case memoryData (ss_step shown) ! i of
        (type, page) \<Rightarrow>
          map (\<lambda>(address, v). ((address, v), shown_direction (ss_interactions shown) (lower type) page address))
            (memoryAtFrame steps activeIndex (lower type) page))"

section \<open>DebuggerView.vue: the calls around a step\<close>

text \<open>The runs of steps of one contract: its address, its first and its last step.\<close>

definition add_to_runs :: "nat \<times> trace_step \<Rightarrow> (string \<times> nat \<times> nat) list \<Rightarrow> (string \<times> nat \<times> nat) list" where
  "add_to_runs = (\<lambda>(index, element) runs.
     if runs \<noteq> [] \<and> fst (last runs) = st_contract element
     then butlast runs @ [(fst (last runs), fst (snd (last runs)), index)]
     else runs @ [(st_contract element, index, index)])"

definition contractsVariations :: "trace_step list \<Rightarrow> (string \<times> nat \<times> nat) list" where
  "contractsVariations steps = fold add_to_runs (enumerate 0 steps) []"

datatype block_type = Parent | Child

text \<open>The step of the parent, that of the child, and the blocks of the tabs, in the order they are found.\<close>

record call_blocks =
  cb_parent :: "nat option"
  cb_child :: "nat option"
  cb_tabs :: "(block_type \<times> nat) list"

definition add_blocks :: "(string \<times> nat \<times> nat) list \<Rightarrow> string \<Rightarrow> nat \<Rightarrow> nat \<Rightarrow> call_blocks \<Rightarrow> call_blocks" where
  "add_blocks runs address active index b =
     (let (a, first, last) = runs ! index;
          b = (if a = address \<and> index > 0 \<and> active \<ge> first
               then let p = snd (snd (runs ! (index - 1)))
                    in b\<lparr>cb_parent := Some p, cb_tabs := cb_tabs b @ [(Parent, p)]\<rparr>
               else b)
      in if a = address \<and> index < length runs - 1 \<and> active \<le> last
         then let c = fst (snd (runs ! (index + 1)))
              in b\<lparr>cb_child := Some c, cb_tabs := cb_tabs b @ [(Child, c)]\<rparr>
         else b)"

definition call_blocks_at :: "trace_step list \<Rightarrow> nat \<Rightarrow> call_blocks" where
  "call_blocks_at steps active =
     (let runs = contractsVariations steps
      in fold (add_blocks runs (st_contract (steps ! active)) active) [0..<length runs]
           \<lparr>cb_parent = None, cb_child = None, cb_tabs = []\<rparr>)"

text \<open>The headings of the tabs.\<close>

definition call_tabs :: "call_blocks \<Rightarrow> block_type list" where
  "call_tabs b = (if cb_parent b \<noteq> None then [Parent] else []) @ (if cb_child b \<noteq> None then [Child] else [])"

text \<open>Where a run begins and ends, and that the runs cut the steps into maximal pieces of one contract.\<close>

abbreviation run_first :: "string \<times> nat \<times> nat \<Rightarrow> nat" where
  "run_first r \<equiv> fst (snd r)"

abbreviation run_last :: "string \<times> nat \<times> nat \<Rightarrow> nat" where
  "run_last r \<equiv> snd (snd r)"

definition runs_ok :: "trace_step list \<Rightarrow> (string \<times> nat \<times> nat) list \<Rightarrow> bool" where
  "runs_ok steps runs \<longleftrightarrow>
     (runs = [] \<longleftrightarrow> steps = []) \<and>
     (\<forall>k < length runs. run_first (runs ! k) \<le> run_last (runs ! k) \<and> run_last (runs ! k) < length steps) \<and>
     (\<forall>k < length runs. run_first (runs ! k) = (if k = 0 then 0 else run_last (runs ! (k - 1)) + 1)) \<and>
     (\<forall>k < length runs. k > 0 \<longrightarrow> fst (runs ! (k - 1)) \<noteq> fst (runs ! k)) \<and>
     (\<forall>k < length runs. \<forall>i. run_first (runs ! k) \<le> i \<and> i \<le> run_last (runs ! k) \<longrightarrow>
        st_contract (steps ! i) = fst (runs ! k)) \<and>
     (runs \<noteq> [] \<longrightarrow> run_last (last runs) + 1 = length steps)"

lemma runs_snoc: "contractsVariations (xs @ [x]) = add_to_runs (length xs, x) (contractsVariations xs)"
  by (simp add: contractsVariations_def enumerate_append_eq)

lemma runs_ok_new:
  assumes "runs_ok xs runs" and "runs = [] \<or> fst (last runs) \<noteq> st_contract x"
  shows "runs_ok (xs @ [x]) (runs @ [(st_contract x, length xs, length xs)])"
  using assms
  by (cases "runs = []") (auto simp: runs_ok_def All_less_Suc nth_append last_conv_nth)

lemma runs_ok_longer:
  assumes "runs_ok xs (rs @ [(st_contract x, f, l)])"
  shows "runs_ok (xs @ [x]) (rs @ [(st_contract x, f, length xs)])"
  using assms
  by (auto simp: runs_ok_def All_less_Suc nth_append)

lemma contract_runs_ok: "runs_ok steps (contractsVariations steps)"
proof (induction steps rule: rev_induct)
  case (snoc x xs)
  let ?runs = "contractsVariations xs"
  show ?case
  proof (cases "?runs \<noteq> [] \<and> fst (last ?runs) = st_contract x")
    case True
    then obtain rs f l where "?runs = rs @ [(st_contract x, f, l)]"
      by (cases ?runs rule: rev_cases) (auto simp: prod_eq_iff)
    then show ?thesis using runs_ok_longer [of xs rs x f l] snoc by (simp add: runs_snoc add_to_runs_def)
  next
    case False
    then have "add_to_runs (length xs, x) ?runs = ?runs @ [(st_contract x, length xs, length xs)]"
      by (auto simp: add_to_runs_def)
    then show ?thesis using runs_ok_new [OF snoc, of x] False by (auto simp: runs_snoc)
  qed
qed (simp add: runs_ok_def contractsVariations_def)

lemma runs_okD:
  assumes "runs_ok steps runs"
  shows "k < length runs \<Longrightarrow> run_first (runs ! k) \<le> run_last (runs ! k)"
    and "k < length runs \<Longrightarrow> run_last (runs ! k) < length steps"
    and "Suc k < length runs \<Longrightarrow> run_first (runs ! Suc k) = run_last (runs ! k) + 1"
    and "Suc k < length runs \<Longrightarrow> fst (runs ! k) \<noteq> fst (runs ! Suc k)"
    and "k < length runs \<Longrightarrow> run_first (runs ! k) \<le> i \<Longrightarrow> i \<le> run_last (runs ! k) \<Longrightarrow> st_contract (steps ! i) = fst (runs ! k)"
    and "runs \<noteq> [] \<Longrightarrow> run_first (runs ! 0) = 0"
    and "runs \<noteq> [] \<Longrightarrow> run_last (runs ! (length runs - 1)) + 1 = length steps"
  using assms by (auto simp: runs_ok_def last_conv_nth)

lemma runs_apart:
  assumes "runs_ok steps runs"
  shows "k < j \<Longrightarrow> j < length runs \<Longrightarrow> run_last (runs ! k) < run_first (runs ! j)"
proof (induction j)
  case (Suc j)
  have step: "run_first (runs ! Suc j) = run_last (runs ! j) + 1" "run_first (runs ! j) \<le> run_last (runs ! j)"
    using runs_okD(1,3) [OF assms, of j] Suc.prems(2) by auto
  then show ?case using Suc by (cases "k = j") auto
qed simp

lemma run_of_step:
  assumes "runs_ok steps runs" and "i < length steps"
  obtains r where "r < length runs" "run_first (runs ! r) \<le> i" "i \<le> run_last (runs ! r)"
    "fst (runs ! r) = st_contract (steps ! i)"
proof -
  let ?R = "{k. k < length runs \<and> run_first (runs ! k) \<le> i}"
  have ne: "runs \<noteq> []" using assms by (auto simp: runs_ok_def)
  then have "0 \<in> ?R" using assms by (simp add: runs_ok_def)
  then have r: "Max ?R \<in> ?R" by (intro Max_in) auto
  have "i \<le> run_last (runs ! Max ?R)"
  proof (cases "Suc (Max ?R) < length runs")
    case True
    have "finite ?R" by simp
    then have "Suc (Max ?R) \<notin> ?R" using Max_ge [of ?R "Suc (Max ?R)"] by (metis Suc_n_not_le_n)
    then have "i < run_first (runs ! Suc (Max ?R))" using True by simp
    also have "\<dots> = run_last (runs ! Max ?R) + 1" using assms(1) True by (simp add: runs_ok_def)
    finally show ?thesis by simp
  next
    case False
    then have "Max ?R = length runs - 1" using r by auto
    then have "runs ! Max ?R = last runs" using ne by (simp add: last_conv_nth)
    then show ?thesis using assms ne by (simp add: runs_ok_def)
  qed
  moreover have "fst (runs ! Max ?R) = st_contract (steps ! i)"
    using runs_okD(5) [OF assms(1), of "Max ?R" i] r calculation by simp
  ultimately show ?thesis using r that by blast
qed

text \<open>A value that a loop sets at some elements is in the end the one of the last of them.\<close>

lemma fold_last_set:
  assumes "\<And>k b. F (h k b) = (if P k then Some (f k) else F b)"
  shows "F (fold h ks b) = (if filter P ks = [] then F b else Some (f (last (filter P ks))))"
  by (induction ks rule: rev_induct) (auto simp: assms)

lemma last_filter_upt:
  assumes "r < n" and "P r" and "\<And>k. r < k \<Longrightarrow> k < n \<Longrightarrow> \<not> P k"
  shows "filter P [0..<n] \<noteq> [] \<and> last (filter P [0..<n]) = r"
proof -
  have "[0..<n] = [0..<r] @ r # [Suc r..<n]" using assms(1) by (metis le0 less_imp_le_nat upt_add_eq_append le_add_diff_inverse upt_conv_Cons)
  moreover have "filter P [Suc r..<n] = []" using assms(3) by (auto simp: filter_empty_conv)
  ultimately show ?thesis using assms(2) by simp
qed

lemma cb_parent_at:
  assumes "i < length steps" and "r < length (contractsVariations steps)"
    and "run_first (contractsVariations steps ! r) \<le> i" and "i \<le> run_last (contractsVariations steps ! r)"
  shows "cb_parent (call_blocks_at steps i) = (if r = 0 then None else Some (run_last (contractsVariations steps ! (r - 1))))"
proof -
  let ?runs = "contractsVariations steps"
  let ?P = "\<lambda>k. fst (?runs ! k) = st_contract (steps ! i) \<and> k > 0 \<and> i \<ge> run_first (?runs ! k)"
  note ok = contract_runs_ok [of steps]
  have addr: "fst (?runs ! r) = st_contract (steps ! i)" using ok assms by (simp add: runs_ok_def)
  have later: "\<not> ?P k" if "r < k" "k < length ?runs" for k
    using runs_apart [OF ok that] assms(4) by simp
  have set_parent: "cb_parent (add_blocks ?runs (st_contract (steps ! i)) i k b) =
      (if ?P k then Some (run_last (?runs ! (k - 1))) else cb_parent b)" for k b
    by (auto simp: add_blocks_def Let_def split: prod.splits)
  have loop: "cb_parent (call_blocks_at steps i) =
      (if filter ?P [0..<length ?runs] = [] then None
       else Some (run_last (?runs ! (last (filter ?P [0..<length ?runs]) - 1))))"
    unfolding call_blocks_at_def Let_def
    using fold_last_set [of cb_parent "add_blocks ?runs (st_contract (steps ! i)) i" ?P "\<lambda>k. run_last (?runs ! (k - 1))", OF set_parent]
    by simp
  show ?thesis
  proof (cases r)
    case 0
    have "\<not> ?P k" if "k < length ?runs" for k using later [of k] that 0 by (cases k) auto
    then have "filter ?P [0..<length ?runs] = []" by (auto simp: filter_empty_conv)
    then show ?thesis using loop 0 by simp
  next
    case (Suc r')
    then have "?P r" using addr assms(3) by simp
    from last_filter_upt [of r "length ?runs" ?P, OF assms(2) this later] show ?thesis using loop Suc by simp
  qed
qed

lemma cb_child_at:
  assumes "i < length steps" and "r < length (contractsVariations steps)"
    and "run_first (contractsVariations steps ! r) \<le> i" and "i \<le> run_last (contractsVariations steps ! r)"
    and "\<And>k. r < k \<Longrightarrow> k < length (contractsVariations steps) \<Longrightarrow> fst (contractsVariations steps ! k) \<noteq> st_contract (steps ! i)"
  shows "cb_child (call_blocks_at steps i) =
    (if r = length (contractsVariations steps) - 1 then None else Some (run_first (contractsVariations steps ! (r + 1))))"
proof -
  let ?runs = "contractsVariations steps"
  let ?Q = "\<lambda>k. fst (?runs ! k) = st_contract (steps ! i) \<and> k < length ?runs - 1 \<and> i \<le> run_last (?runs ! k)"
  note ok = contract_runs_ok [of steps]
  have addr: "fst (?runs ! r) = st_contract (steps ! i)" using runs_okD(5) [OF ok assms(2-4)] by simp
  have earlier: "\<not> ?Q k" if "k < r" for k
    using runs_apart [OF ok that assms(2)] assms(3) by simp
  have set_child: "cb_child (add_blocks ?runs (st_contract (steps ! i)) i k b) =
      (if ?Q k then Some (run_first (?runs ! (k + 1))) else cb_child b)" for k b
    by (auto simp: add_blocks_def Let_def split: prod.splits)
  have loop: "cb_child (call_blocks_at steps i) =
      (if filter ?Q [0..<length ?runs] = [] then None
       else Some (run_first (?runs ! (last (filter ?Q [0..<length ?runs]) + 1))))"
    unfolding call_blocks_at_def Let_def
    using fold_last_set [of cb_child "add_blocks ?runs (st_contract (steps ! i)) i" ?Q "\<lambda>k. run_first (?runs ! (k + 1))", OF set_child]
    by simp
  show ?thesis
  proof (cases "r = length ?runs - 1")
    case True
    then have "\<not> ?Q k" if "k < length ?runs" for k using earlier [of k] by fastforce
    then have "filter ?Q [0..<length ?runs] = []" by (auto simp: filter_empty_conv)
    then show ?thesis using loop True by simp
  next
    case False
    then have "?Q r" using addr assms(2,4) by simp
    moreover have "\<not> ?Q k" if "r < k" "k < length ?runs" for k using assms(5) that by blast
    ultimately show ?thesis using last_filter_upt [of r "length ?runs" ?Q] loop False assms(2) by simp
  qed
qed


definition demo_step :: "string \<Rightarrow> trace_step" where
  "demo_step contract = \<lparr>st_contract = contract, st_pc = 0, st_interactions = [], st_snapshots = [], st_registers = [],
     st_error = None, st_stack_page = 0, st_heap_page = 5, st_code_page = 0, st_calldata_page = 0, st_returndata_page = 0\<rparr>"


text \<open>
  When the trace does come back, the child is the one after the last stretch of the contract, not the one that is
  called next, and the tabs show the blocks of several stretches: with the two headings for parent and child, the
  tab of the parent has that of an earlier stretch, and the tab of the child another parent.
\<close>

lemma child_of_last_stretch:
  "cb_child (call_blocks_at (map demo_step [''A'', ''B'', ''A'', ''C'']) 0) = Some 3"
  by code_simp

lemma tabs_of_other_stretches:
  "(let b = call_blocks_at (map demo_step [''A'', ''B'', ''A'', ''C'', ''A'', ''D'']) 4
    in (call_tabs b, cb_parent b, cb_child b, cb_tabs b)) =
   ([Parent, Child], Some 3, Some 5, [(Parent, 1), (Parent, 3), (Child, 5)])"
  by code_simp

text \<open>
  The address of a shown interaction is a text, so no direction is ever found for it, and a page without an index
  shifts the contents of the tabs: here the only tab, for the heap, shows the stack.
\<close>

lemma mapped_addresses:
  assumes "mapStep bigint isHexString st fmt = Inr shown" and "m \<in> set (ss_interactions shown)"
  shows "\<exists>a. sn_address m = JStr a"
proof -
  have elems: "map_act f xs = Inr ys \<Longrightarrow> y \<in> set ys \<Longrightarrow> \<exists>x. f x = Inr y"
    for f :: "memory_interaction \<Rightarrow> exn + shown_interaction" and xs ys y
    by (induction xs arbitrary: ys) (auto split: sum.splits)
  show ?thesis using assms
    by (auto simp: mapStep_def Let_def sbind_def split: sum.splits dest!: elems)
qed

lemma direction_never_shown:
  assumes "mapStep bigint isHexString st fmt = Inr shown"
  shows "shown_direction (ss_interactions shown) memoryType page address = None"
proof -
  have "sn_address m \<noteq> JNum (of_int address)" if "m \<in> set (ss_interactions shown)" for m
    using mapped_addresses [OF assms that] by auto
  then show ?thesis by (auto simp: shown_direction_def Let_def)
qed

lemma tabs_and_contents_differ:
  "metadata_tabs (demo_step ''A'') ! 0 = (''heap'', 5)" "memoryData (demo_step ''A'') ! 0 = (''stack'', 0)"
  by code_simp+

text \<open>The decimal address of an interaction is read as hexadecimal digits.\<close>

lemma decimal_address_as_hex:
  assumes "bigint ''0x10'' = Inr 16" and "\<not> isHexString ''10''"
  shows "formatHexDecimals bigint isHexString (show_int 10) Dec = Inr ''16''"
proof -
  have "show_int 10 = ''10''" "show_int 16 = ''16''" by code_simp+
  then show ?thesis using assms by (simp add: formatHexDecimals_def Let_def sbind_def)
qed

end
