(* ===== verification/App_Debug_View.thy ===== *)
theory App_Debug_View
  imports App_Debugger
begin

text \<open>
  The state of the debugger (\<open>src/packages/app/src/views/DebuggerView.vue\<close> with the upload of
  \<open>composables/useTrace.ts\<close>) and its operations as steps, the sources of a trace, their lines as
  \<open>components/debugger/SourceViewer.vue\<close> shows them, and the buttons of \<open>components/debugger/Navigation.vue\<close>.
\<close>

section \<open>Sources\<close>

record source_node =
  sd_address :: string
  sd_fileName :: "string option"
  sd_source :: "string list"
  sd_errors :: "(int \<times> string option) list"
  sd_expanded :: bool
  sd_pcLineMapping :: "(int \<times> int) list"

text \<open>The group of \<open>"(.*?)"\<close>: the dot does not match a carriage return.\<close>

fun quoted_text :: "string \<Rightarrow> string option" where
  "quoted_text [] = None"
| "quoted_text (c # cs) =
     (if c = quote_char \<and> quote_char \<in> set cs \<and> CHR 0x0D \<notin> set (takeWhile (\<lambda>x. x \<noteq> quote_char) cs)
      then Some (takeWhile (\<lambda>x. x \<noteq> quote_char) cs)
      else quoted_text cs)"

definition source_file_name :: "string list \<Rightarrow> string option" where
  "source_file_name lines =
     (case find (\<lambda>l. text_includes l ''.file'') lines of None \<Rightarrow> None | Some l \<Rightarrow> quoted_text l)"

text \<open>The errors by line: every step of the trace sets the entry of the line of its program counter.\<close>

definition line_errors :: "(int \<times> int) list \<Rightarrow> trace_step list \<Rightarrow> (int \<times> string option) list" where
  "line_errors mapping steps =
     fold (\<lambda>st errors. case map_of mapping (st_pc st) of Some line \<Rightarrow> map_put line (st_error st) errors | None \<Rightarrow> errors)
       steps []"

definition source_nodes :: "trace_file \<Rightarrow> source_node list" where
  "source_nodes f =
     map (\<lambda>(address, item).
       let src = (case so_assembly_code item of Some asm \<Rightarrow> split_on CHR 0x0A asm | None \<Rightarrow> [])
       in \<lparr>sd_address = address, sd_fileName = source_file_name src, sd_source = src,
           sd_errors = line_errors (so_pc_line_mapping item) (tf_steps f), sd_expanded = False,
           sd_pcLineMapping = so_pc_line_mapping item\<rparr>) (tf_sources f)"

section \<open>SourceViewer.vue\<close>

record instruction_node =
  in_line :: nat
  in_label :: string
  in_error :: "string option"
  in_parent :: "nat option"
  in_expandable :: bool

definition line_error :: "(int \<times> string option) list \<Rightarrow> nat \<Rightarrow> string option" where
  "line_error errors j = (case map_of errors (int j) of Some e \<Rightarrow> e | None \<Rightarrow> None)"

definition next_begins :: "string list \<Rightarrow> bool" where
  "next_begins rest = (case rest of [] \<Rightarrow> False | l # _ \<Rightarrow> text_includes l ''.func_begin'')"

fun instruction_nodes ::
  "(int \<times> string option) list \<Rightarrow> nat \<Rightarrow> nat option \<Rightarrow> string list \<Rightarrow> instruction_node list" where
  "instruction_nodes errors j parent [] = []"
| "instruction_nodes errors j parent (label # rest) =
     (if trim label \<noteq> []
      then [\<lparr>in_line = j, in_label = label, in_error = line_error errors j, in_parent = parent, in_expandable = next_begins rest\<rparr>]
      else []) @
     instruction_nodes errors (j + 1)
       (if text_includes label ''.func_end'' then None else if next_begins rest then Some j else parent) rest"

text \<open>The list is filled when the lines or their errors change, after what was there before.\<close>

definition rebuild_nodes :: "(int \<times> string option) list \<Rightarrow> string list \<Rightarrow> instruction_node list \<Rightarrow> instruction_node list" where
  "rebuild_nodes errors source data = (if source = [] then [] else data @ instruction_nodes errors 0 None source)"

definition node_shown :: "nat list \<Rightarrow> string \<Rightarrow> instruction_node \<Rightarrow> bool" where
  "node_shown expanded searchText item =
     (if searchText \<noteq> [] then text_includes (lower (in_label item)) (lower searchText)
      else case in_parent item of None \<Rightarrow> True | Some p \<Rightarrow> p \<in> set expanded)"

text \<open>
  Each shown node with its place in the list and the frequency of a step: of the first program counter whose line is
  that place.
\<close>

definition shown_nodes ::
  "nat list \<Rightarrow> string \<Rightarrow> ((string \<times> int) \<times> rat) list \<Rightarrow> string \<Rightarrow> (int \<times> int) list \<Rightarrow> instruction_node list \<Rightarrow>
     (nat \<times> instruction_node \<times> rat option) list" where
  "shown_nodes expanded searchText percentages address mapping data =
     map (\<lambda>(index, item). (index, item,
         case find (\<lambda>(pc, line). line = int index) mapping of
           None \<Rightarrow> None
         | Some (pc, _) \<Rightarrow> map_of percentages (address, pc)))
       (enumerate 0 (filter (node_shown expanded searchText) data))"

text \<open>A click opens or closes a node, and goes to the line when it was executed.\<close>

definition viewer_click :: "nat list \<Rightarrow> int list \<Rightarrow> string \<Rightarrow> nat \<Rightarrow> nat list \<times> (string \<times> int) option" where
  "viewer_click expanded activeLines address line =
     ((if line \<in> set expanded then filter (\<lambda>i. i \<noteq> line) expanded else expanded @ [line]),
      (if int line \<in> set activeLines then Some (address, int line) else None))"

text \<open>The function of the active line is opened, unless it begins at line 0.\<close>

definition open_active :: "instruction_node list \<Rightarrow> int option \<Rightarrow> nat list \<Rightarrow> nat list" where
  "open_active data line expanded =
     (case find (\<lambda>item. Some (int (in_line item)) = line) data of
        None \<Rightarrow> expanded
      | Some item \<Rightarrow>
          (case in_parent item of
             None \<Rightarrow> expanded
           | Some p \<Rightarrow> if p = 0 \<or> p \<in> set expanded then expanded else expanded @ [p]))"

section \<open>Navigation.vue\<close>

datatype navigation = First | Previous | Next | Last | Typed string | ArrowLeft | ArrowRight

text \<open>
  Where the steps of the navigation lead, or nowhere when the button is disabled. \<open>num\<close> gives the integer that a
  text denotes, if it is one.
\<close>

definition nav_target :: "(string \<Rightarrow> int option) \<Rightarrow> int \<Rightarrow> int option \<Rightarrow> navigation \<Rightarrow> int option" where
  "nav_target num steps_total index nav =
     (case nav of
        First \<Rightarrow> Some 0
      | Previous \<Rightarrow> (case index of None \<Rightarrow> None | Some i \<Rightarrow> if i = 0 then None else Some (i - 1))
      | Next \<Rightarrow> (case index of None \<Rightarrow> None | Some i \<Rightarrow> if i + 1 \<ge> steps_total then None else Some (i + 1))
      | Last \<Rightarrow> (case index of None \<Rightarrow> None | Some i \<Rightarrow> if i + 1 \<ge> steps_total then None else Some (steps_total - 1))
      | Typed text \<Rightarrow>
          Some (case num text of Some n \<Rightarrow> if n > 0 \<and> n \<le> steps_total then n - 1 else 0 | None \<Rightarrow> 0)
      | ArrowLeft \<Rightarrow> map_option (\<lambda>i. i - 1) index
      | ArrowRight \<Rightarrow> map_option (\<lambda>i. i + 1) index)"

section \<open>DebuggerView.vue\<close>

record debugger =
  db_file :: "trace_file option"
  db_hasError :: bool
  db_index :: "int option"
  db_collection :: "source_node list"
  db_searchText :: string
  db_format :: data_format
  db_shown :: "shown_step option"
  db_opened :: bool

definition debugger_start :: debugger where
  "debugger_start = \<lparr>db_file = None, db_hasError = False, db_index = None, db_collection = [], db_searchText = [],
     db_format = Hex, db_shown = None, db_opened = False\<rparr>"

text \<open>
  The file with the text that was read, parsed: it is taken when it has sources. A new file has no active step yet,
  and its sources are listed; the step that is shown stays.
\<close>

definition upload_trace :: "exn + trace_file \<Rightarrow> debugger \<Rightarrow> debugger" where
  "upload_trace parsed s =
     (case parsed of
        Inl _ \<Rightarrow> s\<lparr>db_hasError := True\<rparr>
      | Inr f \<Rightarrow>
          if tf_sources f = [] then s\<lparr>db_hasError := True\<rparr>
          else s\<lparr>db_hasError := False, db_file := Some f, db_index := None, db_collection := source_nodes f,
                 db_searchText := []\<rparr>)"

definition debugger_active :: "debugger \<Rightarrow> (trace_step \<times> int option) option" where
  "debugger_active s =
     (case db_file s of
        None \<Rightarrow> None
      | Some f \<Rightarrow> (case activeStep f (db_index s) of Inr a \<Rightarrow> a | Inl _ \<Rightarrow> None))"

text \<open>The active step in the selected format replaces the one that was shown.\<close>

definition format_active :: "(string \<Rightarrow> exn + int) \<Rightarrow> (string \<Rightarrow> bool) \<Rightarrow> debugger \<Rightarrow> debugger" where
  "format_active bigint isHexString s =
     (case debugger_active s of
        None \<Rightarrow> s
      | Some (st, _) \<Rightarrow>
          (case mapStep bigint isHexString st (db_format s) of Inl _ \<Rightarrow> s | Inr shown \<Rightarrow> s\<lparr>db_shown := Some shown\<rparr>))"

definition set_expanded :: "string \<Rightarrow> (bool \<Rightarrow> bool) \<Rightarrow> source_node list \<Rightarrow> source_node list" where
  "set_expanded address f nodes =
     map (\<lambda>item. if sd_address item = address then item\<lparr>sd_expanded := f (sd_expanded item)\<rparr> else item) nodes"

definition expand_active :: "debugger \<Rightarrow> debugger" where
  "expand_active s =
     (case debugger_active s of
        None \<Rightarrow> s
      | Some (st, _) \<Rightarrow> s\<lparr>db_collection := set_expanded (st_contract st) (\<lambda>_. True) (db_collection s)\<rparr>)"

definition debugger_goTo :: "(string \<Rightarrow> exn + int) \<Rightarrow> (string \<Rightarrow> bool) \<Rightarrow> int \<Rightarrow> debugger \<Rightarrow> debugger" where
  "debugger_goTo bigint isHexString v s =
     (case db_file s of
        None \<Rightarrow> s
      | Some f \<Rightarrow> expand_active (format_active bigint isHexString (s\<lparr>db_index := Some (goTo f v)\<rparr>)))"

definition handleClick :: "string \<Rightarrow> debugger \<Rightarrow> debugger" where
  "handleClick address s =
     (if db_searchText s \<noteq> [] then s else s\<lparr>db_collection := set_expanded address Not (db_collection s)\<rparr>)"

datatype debugger_event =
    UploadTrace "exn + trace_file"
  | Navigate navigation
  | ToLine string int
  | Search string
  | Toggle string
  | SelectFormat data_format
  | OpenModal
  | CloseModal

definition debugger_step ::
  "(string \<Rightarrow> exn + int) \<Rightarrow> (string \<Rightarrow> bool) \<Rightarrow> (string \<Rightarrow> int option) \<Rightarrow> debugger_event \<Rightarrow> debugger \<Rightarrow> debugger" where
  "debugger_step bigint isHexString num ev s =
     (case ev of
        UploadTrace parsed \<Rightarrow> upload_trace parsed s
      | _ \<Rightarrow>
          (case db_file s of
             None \<Rightarrow> s
           | Some f \<Rightarrow>
               if db_hasError s then s
               else (case ev of
                       Navigate nav \<Rightarrow>
                         (case nav_target num (int (length (tf_steps f))) (db_index s) nav of
                            None \<Rightarrow> s | Some v \<Rightarrow> debugger_goTo bigint isHexString v s)
                     | ToLine address line \<Rightarrow>
                         (case map_of (tf_sources f) address of
                            None \<Rightarrow> s
                          | Some src \<Rightarrow>
                              if line \<in> set (getActiveLines src)
                              then (case navigateToLine f address line of
                                      Inl _ \<Rightarrow> s | Inr i \<Rightarrow> debugger_goTo bigint isHexString i s)
                              else s)
                     | Search text \<Rightarrow> s\<lparr>db_searchText := text\<rparr>
                     | Toggle address \<Rightarrow> handleClick address s
                     | SelectFormat fmt \<Rightarrow> format_active bigint isHexString (s\<lparr>db_format := fmt\<rparr>)
                     | OpenModal \<Rightarrow> s\<lparr>db_opened := True\<rparr>
                     | CloseModal \<Rightarrow> s\<lparr>db_opened := False\<rparr>
                     | _ \<Rightarrow> s)))"

inductive debugger_reach ::
  "(string \<Rightarrow> exn + int) \<Rightarrow> (string \<Rightarrow> bool) \<Rightarrow> (string \<Rightarrow> int option) \<Rightarrow> debugger \<Rightarrow> bool" for bigint isHexString num where
  opened: "debugger_reach bigint isHexString num debugger_start"
| event: "debugger_reach bigint isHexString num s \<Longrightarrow>
    debugger_reach bigint isHexString num (debugger_step bigint isHexString num ev s)"

section \<open>Properties\<close>

lemma instruction_nodes_lines:
  "map (\<lambda>n. (in_line n, in_label n)) (instruction_nodes errors j parent src) = filter (\<lambda>(_, l). trim l \<noteq> []) (enumerate j src)"
  by (induction errors j parent src rule: instruction_nodes.induct) auto

text \<open>Without a search the lines outside of functions are shown, and those of the opened functions.\<close>

lemma all_lines_found:
  assumes "searchText = []" and "\<And>n p. n \<in> set data \<Longrightarrow> in_parent n = Some p \<Longrightarrow> p \<in> set expanded"
  shows "map (fst \<circ> snd) (shown_nodes expanded searchText percentages address mapping data) = data"
proof -
  have "filter (node_shown expanded searchText) data = data"
    using assms by (auto simp: filter_id_conv node_shown_def split: option.splits)
  moreover have "map (fst \<circ> snd) (map (\<lambda>(index, item). (index, item, f index)) (enumerate n xs)) = xs"
    for f :: "nat \<Rightarrow> rat option" and n and xs :: "instruction_node list"
    by (induction xs arbitrary: n) auto
  ultimately show ?thesis by (simp add: shown_nodes_def)
qed

lemma next_then_previous:
  assumes "0 \<le> i" and "nav_target num steps_total (Some i) Next = Some j"
  shows "nav_target num steps_total (Some j) Previous = Some i"
  using assms by (auto simp: nav_target_def split: if_splits)

definition debugger_ok :: "(string \<Rightarrow> exn + int) \<Rightarrow> (string \<Rightarrow> bool) \<Rightarrow> debugger \<Rightarrow> bool" where
  "debugger_ok bigint isHexString s \<longleftrightarrow>
     map (sd_expanded_update (\<lambda>_. False)) (db_collection s) = (case db_file s of None \<Rightarrow> [] | Some f \<Rightarrow> source_nodes f) \<and>
     (\<forall>i. db_index s = Some i \<longrightarrow> (\<exists>f. db_file s = Some f \<and> 0 \<le> i \<and> (tf_steps f \<noteq> [] \<longrightarrow> i < int (length (tf_steps f))))) \<and>
     (\<forall>f. db_file s = Some f \<longrightarrow> tf_sources f \<noteq> []) \<and>
     (\<forall>st line shown. debugger_active s = Some (st, line) \<and> mapStep bigint isHexString st (db_format s) = Inr shown \<longrightarrow>
        db_shown s = Some shown)"

lemma collapse_set_expanded:
  "map (sd_expanded_update (\<lambda>_. False)) (set_expanded address f nodes) = map (sd_expanded_update (\<lambda>_. False)) nodes"
  by (simp add: set_expanded_def)

lemma collapse_source_nodes: "map (sd_expanded_update (\<lambda>_. False)) (source_nodes f) = source_nodes f"
  by (auto simp: source_nodes_def Let_def)

lemma debugger_active_same [simp]:
  "debugger_active (s\<lparr>db_collection := c\<rparr>) = debugger_active s"
  "debugger_active (s\<lparr>db_shown := sh\<rparr>) = debugger_active s"
  "debugger_active (s\<lparr>db_format := fmt\<rparr>) = debugger_active s"
  "debugger_active (s\<lparr>db_searchText := x\<rparr>) = debugger_active s"
  "debugger_active (s\<lparr>db_opened := b\<rparr>) = debugger_active s"
  "debugger_active (s\<lparr>db_hasError := b\<rparr>) = debugger_active s"
  by (cases "db_file s"; simp add: debugger_active_def)+

lemma no_active_step: "db_index s = None \<Longrightarrow> debugger_active s = None"
  by (cases "db_file s") (simp_all add: debugger_active_def activeStep_def step_at_def)

text \<open>What the formatting and the opening of a source leave, and that the active step is shown afterwards.\<close>

lemma format_active_same:
  "db_collection (format_active bigint isHexString s) = db_collection s"
  "db_file (format_active bigint isHexString s) = db_file s"
  "db_index (format_active bigint isHexString s) = db_index s"
  "db_format (format_active bigint isHexString s) = db_format s"
  "debugger_active (format_active bigint isHexString s) = debugger_active s"
  by (auto simp: format_active_def split: option.splits prod.splits sum.splits)

lemma format_active_shown:
  "debugger_active s = Some (st, line) \<Longrightarrow> mapStep bigint isHexString st (db_format s) = Inr shown \<Longrightarrow>
     db_shown (format_active bigint isHexString s) = Some shown"
  by (simp add: format_active_def)

lemma expand_active_same:
  "map (sd_expanded_update (\<lambda>_. False)) (db_collection (expand_active s)) = map (sd_expanded_update (\<lambda>_. False)) (db_collection s)"
  "db_file (expand_active s) = db_file s" "db_index (expand_active s) = db_index s" "db_format (expand_active s) = db_format s"
  "db_shown (expand_active s) = db_shown s" "debugger_active (expand_active s) = debugger_active s"
  by (auto simp: expand_active_def collapse_set_expanded split: option.splits prod.splits)

lemma debugger_goTo_ok:
  assumes "debugger_ok bigint isHexString s"
  shows "debugger_ok bigint isHexString (debugger_goTo bigint isHexString v s)"
proof (cases "db_file s")
  case (Some f)
  then show ?thesis using assms
    by (auto simp: debugger_goTo_def debugger_ok_def format_active_same expand_active_same format_active_shown goTo_def)
qed (use assms in \<open>simp add: debugger_goTo_def\<close>)

lemma upload_trace_ok:
  assumes "debugger_ok bigint isHexString s"
  shows "debugger_ok bigint isHexString (upload_trace parsed s)"
proof (cases parsed)
  case (Inr f)
  then show ?thesis using assms
    by (cases "tf_sources f = []") (auto simp: upload_trace_def debugger_ok_def collapse_source_nodes no_active_step)
qed (use assms in \<open>auto simp: upload_trace_def debugger_ok_def\<close>)

lemma debugger_step_ok:
  assumes "debugger_ok bigint isHexString s"
  shows "debugger_ok bigint isHexString (debugger_step bigint isHexString num ev s)"
proof (cases "(\<exists>parsed. ev = UploadTrace parsed) \<or> db_file s = None \<or> db_hasError s")
  case True
  then show ?thesis using assms upload_trace_ok [OF assms]
    by (auto simp: debugger_step_def split: debugger_event.splits option.splits)
next
  case False
  then obtain f where f: "db_file s = Some f" "\<not> db_hasError s" by (cases "db_file s") auto
  show ?thesis
  proof (cases ev)
    case (Navigate nav)
    then show ?thesis using f assms debugger_goTo_ok [OF assms] by (simp add: debugger_step_def split: option.splits)
  next
    case (ToLine address line)
    then show ?thesis using f assms debugger_goTo_ok [OF assms]
      by (simp add: debugger_step_def split: option.splits sum.splits)
  next
    case (SelectFormat fmt)
    then show ?thesis using f assms
      by (auto simp: debugger_step_def debugger_ok_def format_active_same format_active_shown)
  next
    case (Toggle address)
    then show ?thesis using f assms
      by (auto simp: debugger_step_def debugger_ok_def handleClick_def collapse_set_expanded)
  qed (use f False assms in \<open>auto simp: debugger_step_def debugger_ok_def\<close>)
qed

text \<open>
  After any uploads, movements and searches, the debugger lists exactly the sources of the last file that had
  some, the active step is one of its steps, and what is shown of the active step is that step in the selected format.
\<close>

theorem debugger_consistent:
  assumes "debugger_reach bigint isHexString num s"
  shows "debugger_ok bigint isHexString s"
  using assms
proof induction
  case opened
  then show ?case by (simp add: debugger_ok_def debugger_start_def debugger_active_def)
next
  case (event s ev)
  then show ?case using debugger_step_ok by blast
qed

definition demo_trace :: trace_file where
  "demo_trace = \<lparr>
     tf_sources =
       [(''A'', \<lparr>so_assembly_code = Some (''f:'' @ [CHR 0x0A] @ ''.func_begin'' @ [CHR 0x0A] @ ''ret''),
                so_active_lines = [1], so_pc_line_mapping = [(1, 2), (7, 1)]\<rparr>),
        (''B'', \<lparr>so_assembly_code = Some ''nop'', so_active_lines = [], so_pc_line_mapping = [(1, 0)]\<rparr>)],
     tf_steps = [(demo_step ''A'')\<lparr>st_pc := 1, st_error := Some ''out of gas''\<rparr>, (demo_step ''A'')\<lparr>st_pc := 7\<rparr>]\<rparr>"

definition demo_events :: "debugger_event list" where
  "demo_events = [UploadTrace (Inr demo_trace), Navigate First, Navigate Next, SelectFormat Dec]"

definition demo_debugger :: debugger where
  "demo_debugger =
     fold (debugger_step (\<lambda>_. Inr 0) (\<lambda>_. False) (\<lambda>_. None)) demo_events debugger_start"

lemma debugger_reach_fold:
  "debugger_reach bigint isHexString num s \<Longrightarrow>
     debugger_reach bigint isHexString num (fold (debugger_step bigint isHexString num) evs s)"
  by (induction evs arbitrary: s) (simp_all add: debugger_reach.event)

theorem debugger_consistent_witness:
  "db_index demo_debugger = Some 1 \<and> debugger_ok (\<lambda>_. Inr 0) (\<lambda>_. False) demo_debugger"
proof -
  have "debugger_reach (\<lambda>_. Inr 0) (\<lambda>_. False) (\<lambda>_. None) demo_debugger"
    unfolding demo_debugger_def by (intro debugger_reach_fold debugger_reach.opened)
  moreover have "db_index demo_debugger = Some 1" by code_simp
  ultimately show ?thesis using debugger_consistent by blast
qed

text \<open>A new file leaves the step of the old one on the screen, with no step active.\<close>

lemma step_of_old_file:
  "map_option (st_contract \<circ> ss_step) (db_shown (upload_trace (Inr (demo_trace\<lparr>tf_steps := []\<rparr>)) demo_debugger)) = Some ''A''"
  "db_index (upload_trace (Inr (demo_trace\<lparr>tf_steps := []\<rparr>)) demo_debugger) = None"
  by code_simp+

text \<open>
  The errors of every step are entered into every source, so an error of the contract A appears in the source of B,
  and a later step at the line, here of any contract, removes it.
\<close>

lemma error_in_other_source:
  "map (\<lambda>n. (sd_address n, line_error (sd_errors n) 0)) (source_nodes demo_trace) = [(''A'', None), (''B'', Some ''out of gas'')]"
  by code_simp

lemma later_step_removes_error:
  "line_errors [(1, 0)] [(demo_step ''A'')\<lparr>st_pc := 1, st_error := Some ''e''\<rparr>, (demo_step ''C'')\<lparr>st_pc := 1\<rparr>] = [(0, None)]"
  by code_simp

text \<open>
  A function that begins at line 0 is not opened for its active line, and the colour of a line is that of the line
  whose number is its place among the shown ones.
\<close>

lemma function_at_line_0:
  assumes "in_parent item = Some 0"
  shows "open_active [item] (Some (int (in_line item))) expanded = expanded"
  using assms by (simp add: open_active_def)

lemma colour_by_place:
  "map (\<lambda>(_, n, p). (in_line n, p)) (shown_nodes [] [] [((''A'', 5), 1)] ''A'' [(5, 1)]
     (instruction_nodes [] 0 None [''f:'', ''.func_begin'', ''ret'', ''.func_end'', ''main:''])) = [(0, None), (4, Some 1)]"
  by code_simp

end
