(* ===== verification/App_Consistency.thy ===== *)
theory App_Consistency
  imports Api_Consistency App_Transactions
begin

text \<open>
  The front end over the API: the lists that \<open>useTransaction\<close> collects page by page are the ones that the API's
  endpoints answer, \<open>transactions/:hash/transfers\<close> and \<open>transactions/:hash/logs\<close>.
\<close>

interpretation api_pages: paged_source
  "\<lambda>p. Inr (pg_items (api_paginate enc links num (page_options route p 100 maxLimit filters False) count_query rows))" rows
  for enc links num route maxLimit filters count_query rows
  by unfold_locales
    (simp add: api_paginate_def paginateQueryBuilder_def paginate_items_def page_options_def uses_number_filter_def Let_def)

definition page_items :: "exn + 'r pagination \<Rightarrow> exn + 'r list" where
  "page_items answer = sbind answer (\<lambda>p. Inr (pg_items p))"

text \<open>The transfers and the logs of a transaction in the order of the API.\<close>

definition tx_transfers :: "string \<Rightarrow> 'z db_scheme \<Rightarrow> transfer_row list" where
  "tx_transfers h s = sort_key (\<lambda>t. - tf_timestamp t) (sort_key tf_logIndex
     (filter (\<lambda>f. tf_transactionHash f = Some (hexc h)) (transfers s)))"

definition tx_logs :: "string \<Rightarrow> 'z db_scheme \<Rightarrow> log_row list" where
  "tx_logs h s = sort_key (\<lambda>l. - l_timestamp l) (sort_key lg_index
     (filter (\<lambda>l. lg_transactionHash l = Some (hexc h)) (logs s)))"

lemma hash_param_valid: "hash_regex h \<Longrightarrow> hash_param (Some (JStr h)) k = k h"
  by (cases h) (auto simp: hash_param_def ParseTransactionHashPipe_transform_def text_arg_def hash_regex_def)

lemma transfers_answer:
  assumes "hash_regex h"
  shows "page_items (getTransactionTransfers enc links (Some (JStr h)) p 100 m s) =
    (if TransactionService_exists h s
     then Inr (pg_items (api_paginate enc links f_number
       (page_options (''transactions/'' @ h @ ''/transfers'') p 100 (Some m) [] False) None (tx_transfers h s)))
     else Inl no_such_item)"
  by (simp add: getTransactionTransfers_def hash_param_valid [OF assms] page_items_def transfers_findAll_def tx_transfers_def)

lemma logs_answer:
  assumes "hash_regex h"
  shows "page_items (getTransactionLogs enc links (Some (JStr h)) p 100 m s) =
    (if TransactionService_exists h s
     then Inr (pg_items (api_paginate enc links l_number
       (page_options (''transactions/'' @ h @ ''/logs'') p 100 (Some m) [] False) None (tx_logs h s)))
     else Inl no_such_item)"
  by (simp add: getTransactionLogs_def hash_param_valid [OF assms] page_items_def LogService_findAll_def tx_logs_def)

text \<open>
  C22: The page of a transaction collects every transfer and every log that the worker has stored for it, each
  once, up to 9900 of each; when the API does not know the transaction both end in its answer 404, on which
  the page asks the chain.
\<close>

theorem transaction_lists_complete:
  assumes "hash_regex h"
  shows "if TransactionService_exists h s
    then all_pages (\<lambda>p. page_items (getTransactionTransfers enc links (Some (JStr h)) p 100 m s)) =
           Inr (take 9900 (tx_transfers h s)) \<and>
         all_pages (\<lambda>p. page_items (getTransactionLogs enc links (Some (JStr h)) p 100 m s)) = Inr (take 9900 (tx_logs h s)) \<and>
         mset (tx_transfers h s) = mset (filter (\<lambda>f. tf_transactionHash f = Some (hexc h)) (transfers s)) \<and>
         mset (tx_logs h s) = mset (filter (\<lambda>l. lg_transactionHash l = Some (hexc h)) (logs s))
    else all_pages (\<lambda>p. page_items (getTransactionTransfers enc links (Some (JStr h)) p 100 m s)) = Inl (HttpError ''Not Found'' 404) \<and>
         all_pages (\<lambda>p. page_items (getTransactionLogs enc links (Some (JStr h)) p 100 m s)) = Inl (HttpError ''Not Found'' 404)"
proof (cases "TransactionService_exists h s")
  case True
  then show ?thesis
    by (simp add: transfers_answer [OF assms] logs_answer [OF assms] api_pages.all_served tx_transfers_def tx_logs_def)
next
  case False
  then show ?thesis
    by (simp add: transfers_answer [OF assms] logs_answer [OF assms] all_pages_error no_such_item_def)
qed

definition demo_hash :: string where
  "demo_hash = ''0x'' @ replicate 64 CHR ''a''"

definition demo_tx_log :: log_row where
  "demo_tx_log = \<lparr>lg_address = ''0x0b'', lg_data = [], lg_topics = [], lg_index = 0, lg_blockNumber = 1,
     lg_transactionHash = Some demo_hash, lg_transactionIndex = 0, lg_removed = None, l_timestamp = 0, l_number = 0\<rparr>"

definition demo_lists_db :: db where
  "demo_lists_db = empty_db\<lparr>transactions := [demo_tx\<lparr>tr_hash := demo_hash\<rparr>], logs := [demo_tx_log]\<rparr>"

theorem transaction_lists_complete_witness:
  "all_pages (\<lambda>p. page_items (getTransactionLogs (\<lambda>t. t) (\<lambda>_ _. []) (Some (JStr demo_hash)) p 100 10000 demo_lists_db)) =
     Inr [demo_tx_log]"
proof -
  have hash: "hash_regex demo_hash" "hexc demo_hash = demo_hash" by code_simp+
  then have "TransactionService_exists demo_hash demo_lists_db" "tx_logs demo_hash demo_lists_db = [demo_tx_log]"
    by (simp_all add: TransactionService_exists_def tx_of_def tx_logs_def demo_lists_db_def demo_tx_log_def)
  with transaction_lists_complete [OF hash(1), of demo_lists_db "\<lambda>t. t" "\<lambda>_ _. []" 10000] show ?thesis by simp
qed

end
