(* ===== verification/App_Interaction.thy ===== *)
theory App_Interaction
  imports App_Session
begin

text \<open>
  Calling contracts from the explorer's front end (\<open>src/packages/app/src/composables/useContractInteraction.ts\<close>).
  The method of the contract that the library ethers makes, \<open>parseEther\<close> and the text of an exception are
  arguments. A call is observed with the URL of the provider it goes to.
\<close>

record interaction =
  ci_pending :: bool
  ci_failed :: bool
  ci_message :: "string option"
  ci_transactionHash :: "string option"
  ci_error :: "string option"

text \<open>A call has an account and a type when it is a transaction, and a value when the function is payable.\<close>

record call_options =
  co_from :: string
  co_type :: int
  co_value :: "int option"

datatype contract_call = ReadCall string "json list" | WriteCall string "json list" call_options

definition PAYABLE_AMOUNT_PARAM_NAME :: string where
  "PAYABLE_AMOUNT_PARAM_NAME = ''payable_function_payable_amount''"

text \<open>The texts \<open>true\<close> and \<open>false\<close> of the form are truth values.\<close>

definition input_value :: "json \<Rightarrow> json" where
  "input_value v = (if v = JStr ''true'' then JBool True else if v = JStr ''false'' then JBool False else v)"

definition method_arguments :: "(string \<times> json) list \<Rightarrow> json list" where
  "method_arguments params = map (\<lambda>(_, v). input_value v) (filter (\<lambda>(k, _). k \<noteq> PAYABLE_AMOUNT_PARAM_NAME) params)"

definition payable_amount :: "(string \<times> json) list \<Rightarrow> json" where
  "payable_amount params =
     (case map_of params PAYABLE_AMOUNT_PARAM_NAME of None \<Rightarrow> JStr ''0'' | Some JNull \<Rightarrow> JStr ''0'' | Some v \<Rightarrow> v)"

text \<open>
  A call answers a value, or throws something that \<open>processException\<close> turns into a wallet error. The error that
  is kept is the message of what was thrown.
\<close>

definition interaction_start :: "interaction \<Rightarrow> interaction" where
  "interaction_start i = i\<lparr>ci_pending := True, ci_failed := False, ci_message := None, ci_transactionHash := None, ci_error := None\<rparr>"

definition interaction_failed :: "string option \<Rightarrow> interaction \<Rightarrow> interaction" where
  "interaction_failed m i = i\<lparr>ci_failed := True, ci_error := m, ci_pending := False\<rparr>"

definition call_error :: "json option \<Rightarrow> wallet_error" where
  "call_error e = processException (Inr e) ''Please, try again later''"

definition writeFunction ::
  "network \<Rightarrow> network list \<Rightarrow> wallet \<Rightarrow> (exn \<Rightarrow> string option) \<Rightarrow> (json \<Rightarrow> exn + int) \<Rightarrow> (contract_call \<Rightarrow> json option + string) \<Rightarrow>
     string \<Rightarrow> (string \<times> json) list \<Rightarrow> app \<Rightarrow> interaction \<Rightarrow> app \<times> interaction \<times> contract_call list" where
  "writeFunction dflt ns W msg parseEther call mutability params s i =
     (let i = interaction_start i in
      case getL2Signer dflt ns W s of
        (t, Inl e) \<Rightarrow> (t, interaction_failed (msg e) i, [])
      | (t, Inr (Inl w)) \<Rightarrow> (t, interaction_failed (Some (we_message w)) i, [])
      | (t, Inr (Inr (address, url))) \<Rightarrow>
          (case parseEther (payable_amount params) of
             Inl e \<Rightarrow> (t, interaction_failed (msg e) i, [])
           | Inr v \<Rightarrow>
               let c = WriteCall url (method_arguments params)
                     \<lparr>co_from = address, co_type = 0, co_value = (if mutability = ''payable'' then Some v else None)\<rparr>
               in (case call c of
                     Inl e \<Rightarrow> (t, interaction_failed (Some (we_message (call_error e))) i, [c])
                   | Inr hash \<Rightarrow> (t, i\<lparr>ci_transactionHash := Some hash, ci_pending := False\<rparr>, [c]))))"

text \<open>Without a wallet a function is read through the URL of the network itself.\<close>

definition readFunction ::
  "network \<Rightarrow> network list \<Rightarrow> wallet \<Rightarrow> (exn \<Rightarrow> string option) \<Rightarrow> (contract_call \<Rightarrow> json option + string option) \<Rightarrow>
     (string \<times> json) list \<Rightarrow> app \<Rightarrow> interaction \<Rightarrow> app \<times> interaction \<times> contract_call list" where
  "readFunction dflt ns W msg call params s i =
     (let i = interaction_start i in
      case (if wallet_address s = None then (s, Inr (Inr ([], nw_rpcUrl (currentNetwork dflt ns s)))) else getL2Signer dflt ns W s) of
        (t, Inl e) \<Rightarrow> (t, interaction_failed (msg e) i, [])
      | (t, Inr (Inl w)) \<Rightarrow> (t, interaction_failed (Some (we_message w)) i, [])
      | (t, Inr (Inr (_, url))) \<Rightarrow>
          let c = ReadCall url (map snd params)
          in (case call c of
                Inl e \<Rightarrow> (t, interaction_failed (Some (we_message (call_error e))) i, [c])
              | Inr text \<Rightarrow> (t, i\<lparr>ci_message := text, ci_pending := False\<rparr>, [c])))"

section \<open>What is sent\<close>

lemma getL2Signer_address:
  "getL2Signer dflt ns W s = (t, Inr (Inr (address, url))) \<Longrightarrow> wl_signer W = Inr address"
  by (auto simp: getL2Signer_def signer_on_def bind_def act_simps of_opt_def split: sum.splits if_splits prod.splits option.splits)

text \<open>
  A transaction is sent at most once, from the account of the wallet, without the amount among its
  arguments, and with a value only for a payable function; it has failed exactly when no hash is shown.
\<close>

theorem write_sends_own:
  assumes "writeFunction dflt ns W msg parseEther call mutability params s i = (t, j, calls)"
  shows "\<not> ci_pending j \<and> (ci_failed j \<longleftrightarrow> ci_transactionHash j = None) \<and> length calls \<le> 1 \<and>
    (\<forall>c \<in> set calls. \<exists>url o'. c = WriteCall url (method_arguments params) o' \<and> wl_signer W = Inr (co_from o') \<and>
       (co_value o' \<noteq> None \<longrightarrow> mutability = ''payable''))"
  using assms
  by (auto simp: writeFunction_def Let_def interaction_failed_def interaction_start_def dest: getL2Signer_address
      split: prod.splits sum.splits if_splits)

text \<open>Without a wallet a read goes to the URL of the network, which has no token.\<close>

lemma read_without_token:
  assumes "wallet_address s = None" "readFunction dflt ns W msg call params s i = (t, j, calls)"
  shows "calls = [ReadCall (nw_rpcUrl (currentNetwork dflt ns s)) (map snd params)] \<and> t = s"
  using assms by (auto simp: readFunction_def Let_def split: sum.splits)

end
