(* ===== verification/App_Function_Form.thy ===== *)
theory App_Function_Form
  imports App_Interaction App_Trace Api_Queries
begin

text \<open>
  The form with which a function of a contract is called (\<open>src/packages/app/src/components/contract/interaction\<close>:
  \<open>FunctionForm.vue\<close>, \<open>FunctionArrayParameter.vue\<close>), up to the arguments that \<open>useContractInteraction\<close> sends. The
  encoder of ethers, its \<open>parseEther\<close> and the rule \<open>required\<close> of vuelidate are arguments. An object is an
  association list in the order in which its keys were first set; parameters of a contract have no numeric names.
\<close>

section \<open>Types of parameters (utils/helpers.ts)\<close>

text \<open>The groups of \<open>(.*)\[(.*)\]\<close>: the last bracket that is closed, and what is in it up to the last closing one.\<close>

definition up_to_last :: "char \<Rightarrow> string \<Rightarrow> string" where
  "up_to_last c s = rev (tl (dropWhile (\<lambda>x. x \<noteq> c) (rev s)))"

fun array_parts :: "string \<Rightarrow> (string \<times> string) option" where
  "array_parts [] = None"
| "array_parts (c # cs) =
     (case array_parts cs of
        Some (a, b) \<Rightarrow> Some (c # a, b)
      | None \<Rightarrow> if c = CHR ''['' \<and> CHR '']'' \<in> set cs then Some ([], up_to_last (CHR '']'') cs) else None)"

definition isArrayFunctionType :: "string \<Rightarrow> bool" where
  "isArrayFunctionType type \<longleftrightarrow> array_parts type \<noteq> None"

definition getRawFunctionType :: "string \<Rightarrow> string" where
  "getRawFunctionType type = (case array_parts type of Some (a, _) \<Rightarrow> a | None \<Rightarrow> type)"

definition getRequiredArrayLength :: "string \<Rightarrow> int option" where
  "getRequiredArrayLength type = (case array_parts type of Some (_, b) \<Rightarrow> js_parseInt b | None \<Rightarrow> None)"

definition length_required :: "string \<Rightarrow> bool" where
  "length_required type \<longleftrightarrow> getRequiredArrayLength type \<notin> {None, Some 0}"

section \<open>FunctionForm.vue\<close>

record form_input =
  ip_key :: string
  ip_type :: string
  ip_isArray :: bool

definition numbered_key :: "nat \<Rightarrow> string" where
  "numbered_key i = ''input'' @ show_nat i"

text \<open>The inputs of the form for the parameters of the function, names and types, after the amount of a payable one.\<close>

definition form_inputs :: "(string \<times> string) list \<Rightarrow> string \<Rightarrow> form_input list" where
  "form_inputs params stateMutability =
     (if stateMutability = ''payable'' then [\<lparr>ip_key = PAYABLE_AMOUNT_PARAM_NAME, ip_type = ''ether'', ip_isArray = False\<rparr>]
      else []) @
     map (\<lambda>(i, name, type).
       if isArrayFunctionType type then \<lparr>ip_key = name, ip_type = type, ip_isArray = True\<rparr>
       else \<lparr>ip_key = (if name \<noteq> [] then name else numbered_key i), ip_type = type, ip_isArray = False\<rparr>)
       (enumerate 0 params)"

text \<open>A field with one text, or with one for each element of an array.\<close>

datatype form_value = Single string | Elements "string list"

type_synonym form_fields = "(string \<times> form_value) list"

text \<open>
  The fields as they are mounted: an array has as many empty elements as its type requires, or one. The other fields
  are not there until something is typed.
\<close>

definition initial_fields :: "form_input list \<Rightarrow> form_fields" where
  "initial_fields inputs =
     fold (\<lambda>input. map_put (ip_key input) (Elements (replicate
         (if length_required (ip_type input) then nat (the (getRequiredArrayLength (ip_type input))) else 1) [])))
       (filter ip_isArray inputs) []"

datatype field_event =
    TypeText string string
  | TypeElement string nat string
  | AddField string
  | RemoveField string nat

definition free_array :: "form_input list \<Rightarrow> string \<Rightarrow> bool" where
  "free_array inputs key \<longleftrightarrow>
     (\<exists>input \<in> set inputs. ip_key input = key \<and> ip_isArray input \<and> \<not> length_required (ip_type input))"

definition update_elements :: "string \<Rightarrow> (string list \<Rightarrow> string list) \<Rightarrow> form_fields \<Rightarrow> form_fields" where
  "update_elements key f filled =
     (case map_of filled key of Some (Elements xs) \<Rightarrow> map_put key (Elements (f xs)) filled | _ \<Rightarrow> filled)"

text \<open>Elements can be added and removed when the type does not require their number.\<close>

definition field_step :: "form_input list \<Rightarrow> field_event \<Rightarrow> form_fields \<Rightarrow> form_fields" where
  "field_step inputs ev filled =
     (case ev of
        TypeText key text \<Rightarrow>
          if \<exists>input \<in> set inputs. ip_key input = key \<and> \<not> ip_isArray input then map_put key (Single text) filled else filled
      | TypeElement key i text \<Rightarrow> update_elements key (\<lambda>xs. xs[i := text]) filled
      | AddField key \<Rightarrow> if free_array inputs key then update_elements key (\<lambda>xs. xs @ [[]]) filled else filled
      | RemoveField key i \<Rightarrow>
          if free_array inputs key then update_elements key (\<lambda>xs. take i xs @ drop (i + 1) xs) filled else filled)"

record form_rules =
  fr_required :: "string \<Rightarrow> bool"
  fr_parseEther :: "string \<Rightarrow> bool"
  fr_validateAbiValue :: "string \<Rightarrow> string \<Rightarrow> bool"

text \<open>An element may be empty only at the end of an array whose length is free.\<close>

definition element_valid :: "form_rules \<Rightarrow> string \<Rightarrow> nat \<Rightarrow> nat \<Rightarrow> string \<Rightarrow> bool" where
  "element_valid R type n i v \<longleftrightarrow>
     (if v \<noteq> [] then fr_validateAbiValue R v (getRawFunctionType type) else \<not> length_required type \<and> i + 1 = n)"

definition single_valid :: "form_rules \<Rightarrow> string \<Rightarrow> string option \<Rightarrow> bool" where
  "single_valid R type v \<longleftrightarrow>
     (case v of
        None \<Rightarrow> False
      | Some t \<Rightarrow> fr_required R t \<and> (if type = ''ether'' then fr_parseEther R t else fr_validateAbiValue R t type))"

definition input_valid :: "form_rules \<Rightarrow> form_fields \<Rightarrow> form_input \<Rightarrow> bool" where
  "input_valid R filled input \<longleftrightarrow>
     (case map_of filled (ip_key input) of
        None \<Rightarrow> ip_isArray input
      | Some (Single t) \<Rightarrow> \<not> ip_isArray input \<and> single_valid R (ip_type input) (Some t)
      | Some (Elements xs) \<Rightarrow>
          ip_isArray input \<and> (\<forall>i < length xs. element_valid R (ip_type input) (length xs) i (xs ! i)))"

definition convertBoolean :: "string \<Rightarrow> bool" where
  "convertBoolean v \<longleftrightarrow> v \<notin> {''0'', ''false''}"

text \<open>Empty elements are dropped, and fields of the type \<open>bool\<close> become truth values.\<close>

definition sent_value :: "form_input list \<Rightarrow> string \<Rightarrow> form_value \<Rightarrow> json" where
  "sent_value inputs key v =
     (let is_bool = (\<exists>input \<in> set inputs. ip_key input = key \<and> ip_type input = ''bool'')
      in case v of
           Elements xs \<Rightarrow> JArr (map (\<lambda>x. if is_bool then JBool (convertBoolean x) else JStr x) (filter (\<lambda>x. x \<noteq> []) xs))
         | Single t \<Rightarrow> if t \<noteq> [] \<and> is_bool then JBool (convertBoolean t) else JStr t)"

definition sent_field :: "form_input list \<Rightarrow> string \<times> form_value \<Rightarrow> string \<times> json" where
  "sent_field inputs = (\<lambda>(key, v). (key, sent_value inputs key v))"

text \<open>The rules are an object by key, so of inputs with one key the last counts.\<close>

fun effective_inputs :: "form_input list \<Rightarrow> form_input list" where
  "effective_inputs [] = []"
| "effective_inputs (input # inputs) =
     (if ip_key input \<in> ip_key ` set inputs then effective_inputs inputs else input # effective_inputs inputs)"

definition form_submit :: "form_rules \<Rightarrow> form_input list \<Rightarrow> form_fields \<Rightarrow> (string \<times> json) list option" where
  "form_submit R inputs filled =
     (if list_all (input_valid R filled) (effective_inputs inputs) then Some (map (sent_field inputs) filled) else None)"

inductive form_reach :: "form_input list \<Rightarrow> form_fields \<Rightarrow> bool" for inputs where
  mounted: "form_reach inputs (initial_fields inputs)"
| edited: "form_reach inputs filled \<Longrightarrow> form_reach inputs (field_step inputs ev filled)"

section \<open>What is sent\<close>

lemma effective_distinct: "distinct (map ip_key inputs) \<Longrightarrow> effective_inputs inputs = inputs"
  by (induction inputs) auto

definition filled_ok :: "form_input list \<Rightarrow> form_fields \<Rightarrow> bool" where
  "filled_ok inputs filled \<longleftrightarrow>
     distinct (map fst filled) \<and> fst ` set filled \<subseteq> ip_key ` set inputs \<and>
     ip_key ` {input \<in> set inputs. ip_isArray input} \<subseteq> fst ` set filled"

lemma filled_ok_put:
  "filled_ok inputs filled \<Longrightarrow> k \<in> ip_key ` set inputs \<Longrightarrow> filled_ok inputs (map_put k v filled)"
  using keys_map_put [of k v filled] by (auto simp: filled_ok_def distinct_map_put)

lemma initial_ok: "filled_ok inputs (initial_fields inputs)"
proof -
  have "distinct (map fst acc) \<Longrightarrow> distinct (map fst (fold (\<lambda>input. map_put (ip_key input) (g input)) xs acc)) \<and>
      fst ` set (fold (\<lambda>input. map_put (ip_key input) (g input)) xs acc) = fst ` set acc \<union> ip_key ` set xs"
    for g :: "form_input \<Rightarrow> form_value" and xs acc
  proof (induction xs arbitrary: acc)
    case (Cons x xs)
    then show ?case
      using Cons.IH [of "map_put (ip_key x) (g x) acc"] keys_map_put [of "ip_key x" "g x" acc] by (auto simp: distinct_map_put)
  qed simp
  from this [of "[]"] show ?thesis by (auto simp: filled_ok_def initial_fields_def)
qed

lemma field_step_ok:
  assumes "filled_ok inputs filled"
  shows "filled_ok inputs (field_step inputs ev filled)"
proof -
  have elements: "filled_ok inputs (update_elements key f filled)" for key f
  proof (cases "map_of filled key")
    case (Some v)
    then have "key \<in> fst ` set filled" by (force dest: map_of_SomeD)
    then have "key \<in> ip_key ` set inputs" using assms unfolding filled_ok_def by blast
    then show ?thesis using Some assms filled_ok_put [OF assms] by (cases v) (simp_all add: update_elements_def)
  qed (use assms in \<open>simp add: update_elements_def\<close>)
  show ?thesis
    using assms elements filled_ok_put [OF assms] by (cases ev) (auto simp: field_step_def)
qed

lemma form_reach_ok: "form_reach inputs filled \<Longrightarrow> filled_ok inputs filled"
  by (induction rule: form_reach.induct) (simp_all add: initial_ok field_step_ok)

text \<open>A value that has been checked against the type of its input.\<close>

definition checked_value :: "form_rules \<Rightarrow> form_input \<Rightarrow> json \<Rightarrow> bool" where
  "checked_value R input v \<longleftrightarrow>
     (case v of
        JArr js \<Rightarrow> ip_isArray input \<and>
          (\<forall>j \<in> set js. \<exists>x. x \<noteq> [] \<and> fr_validateAbiValue R x (getRawFunctionType (ip_type input)) \<and>
             j = (if ip_type input = ''bool'' then JBool (convertBoolean x) else JStr x))
      | JStr t \<Rightarrow> \<not> ip_isArray input \<and> single_valid R (ip_type input) (Some t)
      | JBool b \<Rightarrow> \<not> ip_isArray input \<and> ip_type input = ''bool'' \<and>
          (\<exists>t. single_valid R (ip_type input) (Some t) \<and> b = convertBoolean t)
      | _ \<Rightarrow> False)"

lemma input_key_inject:
  assumes "distinct (map ip_key inputs)" "input \<in> set inputs" "input' \<in> set inputs" "ip_key input' = ip_key input"
  shows "input' = input"
  using assms by (auto simp: distinct_map inj_on_def)

lemma sent_field_checked:
  assumes "distinct (map ip_key inputs)" "input \<in> set inputs" "input_valid R filled input"
    and "map_of filled (ip_key input) = Some v"
  shows "checked_value R input (sent_value inputs (ip_key input) v)"
proof -
  have bool: "(\<exists>i \<in> set inputs. ip_key i = ip_key input \<and> ip_type i = ''bool'') \<longleftrightarrow> ip_type input = ''bool''"
    using input_key_inject [OF assms(1,2)] assms(2) by blast
  show ?thesis
  proof (cases v)
    case (Single t)
    then show ?thesis using assms(3,4) unfolding sent_value_def Let_def bool
      by (auto simp: checked_value_def input_valid_def)
  next
    case (Elements xs)
    have "x \<in> set xs \<Longrightarrow> x \<noteq> [] \<Longrightarrow> fr_validateAbiValue R x (getRawFunctionType (ip_type input))" for x
      using assms(3,4) Elements by (auto simp: input_valid_def element_valid_def in_set_conv_nth)
    then show ?thesis using assms(3,4) Elements unfolding sent_value_def Let_def bool
      by (auto simp: checked_value_def input_valid_def)
  qed
qed

lemma map_of_sent: "map_of (map (sent_field inputs) filled) k = map_option (sent_value inputs k) (map_of filled k)"
  by (induction filled) (auto simp: sent_field_def)


definition demo_form_rules :: form_rules where
  "demo_form_rules = \<lparr>fr_required = (\<lambda>t. t \<noteq> []), fr_parseEther = (\<lambda>_. True), fr_validateAbiValue = (\<lambda>_ _. True)\<rparr>"

definition filled_with :: "(string \<times> string) list \<Rightarrow> string \<Rightarrow> field_event list \<Rightarrow> form_fields" where
  "filled_with params mutability evs =
     fold (field_step (form_inputs params mutability)) evs (initial_fields (form_inputs params mutability))"

lemma filled_with_reach: "form_reach (form_inputs params mutability) (filled_with params mutability evs)"
proof -
  have "form_reach inputs filled \<Longrightarrow> form_reach inputs (fold (field_step inputs) evs filled)" for inputs filled
    by (induction evs arbitrary: filled) (simp_all add: form_reach.edited)
  then show ?thesis by (simp add: filled_with_def form_reach.mounted)
qed

definition demo_params :: "(string \<times> string) list" where
  "demo_params = [(''to'', ''uint256''), (''amount'', ''uint256'')]"

definition form_arguments :: "(string \<times> string) list \<Rightarrow> string \<Rightarrow> field_event list \<Rightarrow> json list option" where
  "form_arguments params mutability evs =
     map_option method_arguments (form_submit demo_form_rules (form_inputs params mutability) (filled_with params mutability evs))"


text \<open>
  Filled in another order, the arguments change places: here the amount is taken for the receiver. The fields of
  arrays are there from the start, so their arguments come before all others.
\<close>

lemma arguments_in_typing_order:
  "form_arguments demo_params ''nonpayable'' [TypeText ''amount'' ''7'', TypeText ''to'' ''5''] = Some [JStr ''7'', JStr ''5'']"
  by code_simp

lemma array_arguments_first:
  "form_arguments [(''x'', ''uint256''), (''ys'', ''uint256[]'')] ''nonpayable'' [TypeText ''x'' ''1'', TypeElement ''ys'' 0 ''2''] =
     Some [JArr [JStr ''2''], JStr ''1'']"
  by code_simp

text \<open>
  Only fields whose type is exactly \<open>bool\<close> become truth values, not the elements of an array, and two parameters
  of one name, such as two arrays without a name, share one field.
\<close>

lemma bool_array_as_text:
  "form_arguments [(''b'', ''bool''), (''bs'', ''bool[]'')] ''nonpayable'' [TypeElement ''bs'' 0 ''false'', TypeText ''b'' ''false''] =
     Some [JArr [JStr ''false''], JBool False]"
  by code_simp

lemma unnamed_arrays_share:
  "form_arguments [([], ''uint256[]''), ([], ''uint256[]'')] ''nonpayable'' [TypeElement [] 0 ''1'', TypeElement [] 0 ''2''] =
     Some [JArr [JStr ''2'']]"
  by code_simp

end
