(* ===== verification/Api_Contracts.thy ===== *)
theory Api_Contracts
  imports Api_Endpoints
begin

text \<open>
  Source code through the explorer's API (\<open>src/packages/api/src/api\<close>: \<open>getContractSourceCode\<close> and
  \<open>verifySourceContract\<close> of \<open>contract/contract.controller.ts\<close>, and \<open>mappers/sourceCodeMapper.ts\<close>). The
  verification service, \<open>JSON.stringify\<close> and the text of a value that is no string are arguments. A body
  has been validated by class-validator. Setting a property of an array has no effect on what is sent.
\<close>

section \<open>sourceCodeMapper.ts\<close>

definition SOURCE_CODE_EMPTY_INFO :: json where
  "SOURCE_CODE_EMPTY_INFO = JObj [(''ABI'', JStr ''Contract source code not verified''), (''CompilerVersion'', JStr []),
     (''ConstructorArguments'', JStr []), (''ContractName'', JStr []), (''EVMVersion'', JStr ''Default''),
     (''Implementation'', JStr []), (''Library'', JStr []), (''LicenseType'', JStr ''Unknown''), (''OptimizationUsed'', JStr []),
     (''Proxy'', JStr ''0''), (''Runs'', JStr []), (''SourceCode'', JStr []), (''SwarmSource'', JStr [])]"

definition as_text :: "(json \<Rightarrow> string) \<Rightarrow> json \<Rightarrow> string" where
  "as_text str v = (case v of JStr t \<Rightarrow> t | _ \<Rightarrow> str v)"

text \<open>\<open>Object.entries\<close>: the elements of an array or a text are numbered; \<open>null\<close> throws.\<close>

definition numbered_entries :: "'a list \<Rightarrow> (string \<times> 'a) list" where
  "numbered_entries xs = zip (map show_nat [0..<length xs]) xs"

definition own_entries :: "json \<Rightarrow> (string \<times> json) list" where
  "own_entries v =
     (case v of JObj kvs \<Rightarrow> kvs | JArr js \<Rightarrow> numbered_entries js | JStr t \<Rightarrow> numbered_entries (map (\<lambda>c. JStr [c]) t) | _ \<Rightarrow> [])"

definition object_entries :: "json option \<Rightarrow> exn + (string \<times> json) list" where
  "object_entries v = (case v of None \<Rightarrow> Inl TypeError | Some JNull \<Rightarrow> Inl TypeError | Some j \<Rightarrow> Inr (own_entries j))"

definition is_text :: "json option \<Rightarrow> bool" where
  "is_text v \<longleftrightarrow> (case v of Some (JStr _) \<Rightarrow> True | _ \<Rightarrow> False)"

definition braced :: "(json \<Rightarrow> string) \<Rightarrow> json option \<Rightarrow> string" where
  "braced stringify v = ''{'' @ (case v of None \<Rightarrow> ''undefined'' | Some j \<Rightarrow> stringify j) @ ''}''"

definition vyper_source :: "(json \<Rightarrow> string) \<Rightarrow> json option \<Rightarrow> (string \<times> json) list \<Rightarrow> json" where
  "vyper_source stringify optimizationUsed files =
     (case files of
        [(_, content)] \<Rightarrow> content
      | _ \<Rightarrow> JStr (braced stringify (Some (JObj
          [(''language'', JStr ''Vyper''),
           (''settings'', JObj [(''optimizer'', fields_of [(''enabled'', optimizationUsed)])]),
           (''sources'', JObj (map (\<lambda>(f, c). (f, JObj [(''content'', c)])) files))]))))"

definition source_text :: "(json \<Rightarrow> string) \<Rightarrow> string \<Rightarrow> json option \<Rightarrow> json option \<Rightarrow> exn + json" where
  "source_text stringify codeFormat optimizationUsed src =
     (if starts_with codeFormat ''vyper-multi-file'' \<and> \<not> is_text src
      then sbind (object_entries src) (\<lambda>files. Inr (vyper_source stringify optimizationUsed files))
      else Inr (case src of Some (JStr t) \<Rightarrow> JStr t | _ \<Rightarrow> JStr (braced stringify src)))"

text \<open>The libraries of the settings as text: one \<open>file:contract:address\<close> for each, between semicolons.\<close>

definition library_texts :: "(json \<Rightarrow> string) \<Rightarrow> json \<Rightarrow> exn + string list" where
  "library_texts str libraries =
     sbind (map_act (\<lambda>(f, contracts). sbind (object_entries (Some contracts)) (\<lambda>cs.
         Inr (map (\<lambda>(c, a). f @ '':'' @ c @ '':'' @ as_text str a) cs))) (own_entries libraries))
       (\<lambda>tss. Inr (concat tss))"

definition settings_info :: "(json \<Rightarrow> string) \<Rightarrow> json option \<Rightarrow> exn + string \<times> string" where
  "settings_info str settings =
     (if \<not> truthy settings then Inr ([], [])
      else
        sbind (access settings ''optimizer'') (\<lambda>optimizer.
        let runs = (case opt_access optimizer ''runs'' of None \<Rightarrow> [] | Some JNull \<Rightarrow> [] | Some j \<Rightarrow> as_text str j) in
        sbind (access settings ''libraries'') (\<lambda>libraries.
        if \<not> truthy libraries then Inr (runs, [])
        else sbind (library_texts str (the libraries)) (\<lambda>ts. Inr (runs, join_with '';'' ts)))))"

text \<open>A compiler version is the first of two that is truthy, and otherwise the second, whatever it is.\<close>

definition mapContractSourceCode :: "(json \<Rightarrow> string) \<Rightarrow> (json \<Rightarrow> string) \<Rightarrow> json option \<Rightarrow> exn + json" where
  "mapContractSourceCode str stringify data =
     sbind (access data ''request'') (\<lambda>request.
     sbind (access request ''codeFormat'') (\<lambda>codeFormat.
     sbind (the_string codeFormat) (\<lambda>codeFormat.
     sbind (access request ''sourceCode'') (\<lambda>src.
     sbind (access request ''optimizationUsed'') (\<lambda>optimizationUsed.
     sbind (source_text stringify codeFormat optimizationUsed src) (\<lambda>sourceCode.
     sbind (access src ''settings'') (\<lambda>settings.
     sbind (settings_info str settings) (\<lambda>(runs, libraryString).
     sbind (access data ''artifacts'') (\<lambda>artifacts.
     sbind (access artifacts ''abi'') (\<lambda>abi.
     sbind (access request ''constructorArguments'') (\<lambda>arguments.
     sbind (the_string arguments) (\<lambda>arguments.
     sbind (access request ''contractName'') (\<lambda>contractName.
     Inr (fields_of
       [(''ABI'', map_option (\<lambda>j. JStr (stringify j)) abi), (''SourceCode'', Some sourceCode),
        (''ConstructorArguments'', plain_text (if starts_with arguments ''0x'' then drop 2 arguments else arguments)),
        (''ContractName'', contractName), (''EVMVersion'', plain_text ''Default''),
        (''OptimizationUsed'', plain_text (if truthy optimizationUsed then ''1'' else ''0'')),
        (''Library'', plain_text libraryString), (''LicenseType'', plain_text []),
        (''CompilerVersion'', js_or (opt_access request ''compilerSolcVersion'') (opt_access request ''compilerVyperVersion'')),
        (''Runs'', plain_text runs), (''SwarmSource'', plain_text []), (''Proxy'', plain_text ''0''),
        (''Implementation'', plain_text []),
        (''ZkCompilerVersion'', js_or (opt_access request ''compilerZksolcVersion'') (opt_access request ''compilerZkvyperVersion''))]))))))))))))))"

section \<open>contract.controller.ts\<close>

definition getContractSourceCode ::
  "(json \<Rightarrow> string) \<Rightarrow> (json \<Rightarrow> string) \<Rightarrow> (string \<Rightarrow> verifier_answer) \<Rightarrow> json option \<Rightarrow> exn + api_response" where
  "getContractSourceCode str stringify verifier address =
     api_address_param default_address address (\<lambda>a.
     case verifier (''/contract_verification/info/'' @ a) of
       VError st _ \<Rightarrow>
         if (case st of Some n \<Rightarrow> n \<ge> 500 | None \<Rightarrow> False) then Inl (internal_error ''Failed to get contract source code'')
         else Inr (response True OK (JArr [SOURCE_CODE_EMPTY_INFO]))
     | VData d \<Rightarrow>
         if \<not> truthy (opt_access (opt_access (Some d) ''artifacts'') ''abi'')
         then Inr (response True OK (JArr [SOURCE_CODE_EMPTY_INFO]))
         else sbind (mapContractSourceCode str stringify (Some d)) (\<lambda>info. Inr (response True OK (JArr [info]))))"

text \<open>The libraries are pairs of a name and an address, in the order of their numbers.\<close>

record verify_request =
  vq_sourceCode :: json
  vq_codeformat :: string
  vq_contractname :: string
  vq_compilerversion :: string
  vq_zkCompilerVersion :: string
  vq_runs :: "int option"
  vq_optimizationUsed :: string
  vq_constructorArguements :: "string option"
  vq_libraries :: "(string option \<times> string option) list"

definition split_library :: "string \<Rightarrow> string \<times> string" where
  "split_library name =
     (case split_on CHR '':'' name of f # c # _ \<Rightarrow> (f, c) | f # _ \<Rightarrow> (f, ''undefined'') | [] \<Rightarrow> ([], ''undefined''))"

definition add_library :: "string option \<times> string option \<Rightarrow> (string \<times> json) list \<Rightarrow> (string \<times> json) list" where
  "add_library l libraries =
     (case l of
        (Some name, Some address) \<Rightarrow>
          if name \<noteq> [] \<and> address \<noteq> []
          then (let (file, contract) = split_library name in
            put_entry file (JObj (put_entry contract (JStr address)
              (case map_of libraries file of None \<Rightarrow> [] | Some j \<Rightarrow> own_entries j))) libraries)
          else libraries
      | _ \<Rightarrow> libraries)"

definition request_libraries :: "verify_request \<Rightarrow> (string \<times> json) list" where
  "request_libraries r = fold add_library (take 10 (vq_libraries r)) []"

text \<open>Setting a property: an array is sent without it, and a value that is no object throws.\<close>

definition set_property :: "string \<Rightarrow> json \<Rightarrow> json \<Rightarrow> exn + json" where
  "set_property k v j =
     (case j of JObj kvs \<Rightarrow> Inr (JObj (put_entry k v kvs)) | JArr js \<Rightarrow> Inr (JArr js) | _ \<Rightarrow> Inl TypeError)"

definition merged_libraries :: "json \<Rightarrow> (string \<times> json) list \<Rightarrow> json" where
  "merged_libraries settings libraries =
     JObj (fold (\<lambda>(k, v). put_entry k v) libraries
       (fold (\<lambda>(k, v). put_entry k v) (case field ''libraries'' settings of None \<Rightarrow> [] | Some j \<Rightarrow> own_entries j) []))"

definition with_runs :: "int option \<Rightarrow> json \<Rightarrow> exn + json" where
  "with_runs runs settings =
     (case runs of
        None \<Rightarrow> Inr settings
      | Some n \<Rightarrow>
          if n = 0 then Inr settings
          else
            let optimizer = (if truthy (field ''optimizer'' settings) then the (field ''optimizer'' settings)
                             else JObj [(''enabled'', JBool True)])
            in sbind (set_property ''runs'' (JNum (of_int n)) optimizer) (\<lambda>o'. set_property ''optimizer'' o' settings))"

text \<open>The body of the verification request has the source code with the libraries and the runs in its settings.\<close>

definition solidity_request :: "verify_request \<Rightarrow> bool" where
  "solidity_request r \<longleftrightarrow> vq_codeformat r = ''solidity-single-file'' \<or> vq_codeformat r = ''solidity-standard-json-input''"

definition verify_source :: "verify_request \<Rightarrow> exn + json" where
  "verify_source r =
     (case vq_sourceCode r of
        JObj kvs \<Rightarrow>
          if \<not> solidity_request r then Inr (JObj kvs)
          else
            let settings = (if truthy (map_of kvs ''settings'') then the (map_of kvs ''settings'') else JObj []) in
            sbind (set_property ''libraries'' (merged_libraries settings (request_libraries r)) settings) (\<lambda>settings.
            sbind (with_runs (vq_runs r) settings) (\<lambda>settings.
            Inr (JObj (put_entry ''settings'' settings kvs))))
      | j \<Rightarrow> Inr j)"

definition verification_post :: "string \<Rightarrow> verify_request \<Rightarrow> json \<Rightarrow> json" where
  "verification_post contractAddress r src =
     fields_of
       ([(''codeFormat'', plain_text (vq_codeformat r)), (''contractAddress'', plain_text contractAddress),
         (''contractName'', plain_text (vq_contractname r)), (''optimizationUsed'', Some (JBool (vq_optimizationUsed r = ''1''))),
         (''sourceCode'', Some src), (''constructorArguments'', map_option JStr (vq_constructorArguements r))] @
        (if solidity_request r
         then [(''compilerZksolcVersion'', plain_text (vq_zkCompilerVersion r)), (''compilerSolcVersion'', plain_text (vq_compilerversion r))]
         else [(''compilerZkvyperVersion'', plain_text (vq_zkCompilerVersion r)), (''compilerVyperVersion'', plain_text (vq_compilerversion r))]))"

text \<open>The message of a \<open>BadRequestException\<close> that is made from the answer of the service.\<close>

definition bad_request_from :: "json option \<Rightarrow> exn" where
  "bad_request_from data =
     (case data of
        None \<Rightarrow> bad_request ''Bad Request''
      | Some JNull \<Rightarrow> bad_request ''Bad Request''
      | Some (JStr t) \<Rightarrow> bad_request t
      | Some j \<Rightarrow> (case field ''message'' j of Some (JStr t) \<Rightarrow> bad_request t | _ \<Rightarrow> bad_request ''Bad Request Exception''))"

definition verifySourceContract ::
  "(json \<Rightarrow> string) \<Rightarrow> (string \<Rightarrow> json \<Rightarrow> verifier_answer) \<Rightarrow> json option \<Rightarrow> verify_request \<Rightarrow> exn + api_response" where
  "verifySourceContract str post contractaddress r =
     api_address_param (required_address ''Missing or invalid contractAddress (should start with 0x)'') contractaddress (\<lambda>address.
     sbind (verify_source r) (\<lambda>src.
     case post ''/contract_verification'' (verification_post address r src) of
       VError st data \<Rightarrow>
         if st = Some 400 then Inl (bad_request_from data) else Inl (internal_error ''Failed to send verification request'')
     | VData JNull \<Rightarrow> Inl TypeError
     | VData d \<Rightarrow> Inr (response True OK (JStr (as_text str d)))))"

section \<open>Libraries survive the verification\<close>

lemma split_on_append: "sep \<notin> set f \<Longrightarrow> split_on sep (f @ sep # rest) = f # split_on sep rest"
  by (induction f) auto

lemma split_library_name: "CHR '':'' \<notin> set f \<Longrightarrow> CHR '':'' \<notin> set c \<Longrightarrow> split_library (f @ '':'' @ c) = (f, c)"
  by (simp add: split_library_def split_on_append split_on_no_sep)

lemma put_entry_keys [simp]: "fst ` set (put_entry k v kvs) = insert k (fst ` set kvs)"
  by (induction k v kvs rule: put_entry.induct) auto

lemma put_entry_distinct: "distinct (map fst kvs) \<Longrightarrow> distinct (map fst (put_entry k v kvs))"
  by (induction k v kvs rule: put_entry.induct) auto

lemma set_put_entry: "distinct (map fst kvs) \<Longrightarrow> set (put_entry k v kvs) = insert (k, v) {e \<in> set kvs. fst e \<noteq> k}"
  by (induction k v kvs rule: put_entry.induct) (auto simp: rev_image_eqI)

text \<open>The libraries by file and contract.\<close>

definition lib_at :: "(string \<times> json) list \<Rightarrow> string \<times> string \<Rightarrow> json option" where
  "lib_at libs = (\<lambda>(f, c). case map_of libs f of None \<Rightarrow> None | Some j \<Rightarrow> map_of (entries j) c)"

definition library_table :: "(string \<times> json) list \<Rightarrow> bool" where
  "library_table libs \<longleftrightarrow> distinct (map fst libs) \<and>
     (\<forall>(f, j) \<in> set libs. \<exists>cs. j = JObj cs \<and> distinct (map fst cs) \<and> (\<forall>(c, v) \<in> set cs. \<exists>a. v = JStr a))"

lemma library_tableD:
  assumes "library_table libs" "map_of libs f = Some j"
  obtains cs where "j = JObj cs" "distinct (map fst cs)" "\<forall>(c, v) \<in> set cs. \<exists>a. v = JStr a"
  using assms map_of_SomeD [OF assms(2)] by (fastforce simp: library_table_def)

lemma add_library_table:
  assumes "library_table libs" "CHR '':'' \<notin> set f" "CHR '':'' \<notin> set c" "a \<noteq> []"
  shows "library_table (add_library (Some (f @ '':'' @ c), Some a) libs) \<and>
    lib_at (add_library (Some (f @ '':'' @ c), Some a) libs) = (lib_at libs)((f, c) \<mapsto> JStr a)"
proof -
  define old where "old = (case map_of libs f of None \<Rightarrow> [] | Some j \<Rightarrow> own_entries j)"
  have old: "distinct (map fst old) \<and> (\<forall>(c, v) \<in> set old. \<exists>a. v = JStr a)"
  proof (cases "map_of libs f")
    case (Some j)
    from library_tableD [OF assms(1) Some] obtain cs
      where "j = JObj cs" "distinct (map fst cs)" "\<forall>(c, v) \<in> set cs. \<exists>a. v = JStr a" by blast
    with Some show ?thesis by (simp add: old_def own_entries_def)
  qed (simp add: old_def)
  have at_old: "map_of old c' = lib_at libs (f, c')" for c'
  proof (cases "map_of libs f")
    case (Some j)
    from library_tableD [OF assms(1) Some] obtain cs where "j = JObj cs" by blast
    with Some show ?thesis by (simp add: old_def own_entries_def lib_at_def)
  qed (simp add: old_def lib_at_def)
  have new: "add_library (Some (f @ '':'' @ c), Some a) libs = put_entry f (JObj (put_entry c (JStr a) old)) libs"
    using assms(4) by (simp add: add_library_def split_library_name [OF assms(2,3), simplified] old_def)
  have "library_table (put_entry f (JObj (put_entry c (JStr a) old)) libs)"
    unfolding library_table_def
  proof (intro conjI)
    from assms(1) have d: "distinct (map fst libs)" by (simp add: library_table_def)
    then show "distinct (map fst (put_entry f (JObj (put_entry c (JStr a) old)) libs))" by (rule put_entry_distinct)
    show "\<forall>(f', j) \<in> set (put_entry f (JObj (put_entry c (JStr a) old)) libs).
        \<exists>cs. j = JObj cs \<and> distinct (map fst cs) \<and> (\<forall>(c, v) \<in> set cs. \<exists>a. v = JStr a)"
      using assms(1) old
      by (auto simp: set_put_entry [OF d] library_table_def put_entry_distinct set_put_entry)
  qed
  moreover have "lib_at (put_entry f (JObj (put_entry c (JStr a) old)) libs) = (lib_at libs)((f, c) \<mapsto> JStr a)"
  proof
    fix p
    show "lib_at (put_entry f (JObj (put_entry c (JStr a) old)) libs) p = ((lib_at libs)((f, c) \<mapsto> JStr a)) p"
      using at_old by (cases p) (simp add: lib_at_def)
  qed
  ultimately show ?thesis unfolding new by blast
qed

definition well_named :: "((string \<times> string) \<times> string) list \<Rightarrow> bool" where
  "well_named ps \<longleftrightarrow> (\<forall>((f, c), a) \<in> set ps. CHR '':'' \<notin> set f \<and> CHR '':'' \<notin> set c \<and> a \<noteq> [])"

definition named_library :: "(string \<times> string) \<times> string \<Rightarrow> string option \<times> string option" where
  "named_library = (\<lambda>((f, c), a). (Some (f @ '':'' @ c), Some a))"

lemma fold_add_library:
  assumes "well_named ps" "library_table libs"
  shows "library_table (fold add_library (map named_library ps) libs) \<and>
    lib_at (fold add_library (map named_library ps) libs) = lib_at libs ++ (map_option JStr \<circ> map_of (rev ps))"
  using assms
proof (induction ps arbitrary: libs)
  case (Cons p ps)
  obtain f c a where p: "p = ((f, c), a)" by (cases p) auto
  with Cons.prems have ok: "CHR '':'' \<notin> set f" "CHR '':'' \<notin> set c" "a \<noteq> []" "well_named ps" by (auto simp: well_named_def)
  note step = add_library_table [OF Cons.prems(2) ok(1-3)]
  from Cons.IH [OF ok(4) conjunct1 [OF step]] step show ?case
    by (auto simp: p named_library_def map_add_def fun_eq_iff split: option.splits)
qed (simp add: fun_eq_iff map_add_def)

lemma library_texts_table:
  assumes "library_table libs"
  shows "\<exists>ts. library_texts str (JObj libs) = Inr ts \<and>
    set ts = {f @ '':'' @ c @ '':'' @ a | f c a. lib_at libs (f, c) = Some (JStr a)}"
proof -
  let ?texts = "\<lambda>(f, j). map (\<lambda>(c, a). f @ '':'' @ c @ '':'' @ as_text str a) (entries j)"
  have run: "map_act (\<lambda>(f, contracts). sbind (object_entries (Some contracts)) (\<lambda>cs.
      Inr (map (\<lambda>(c, a). f @ '':'' @ c @ '':'' @ as_text str a) cs))) es = Inr (map ?texts es)"
    if "\<forall>(f, j) \<in> set es. \<exists>cs. j = JObj cs" for es
    using that by (induction es) (auto simp: sbind_def object_entries_def own_entries_def)
  have at: "(\<exists>j. (f, j) \<in> set libs \<and> (c, v) \<in> set (entries j)) \<longleftrightarrow> lib_at libs (f, c) = Some v" for f c v
  proof -
    have d: "distinct (map fst libs)" using assms by (simp add: library_table_def)
    have inner: "(c, v) \<in> set (entries j) \<longleftrightarrow> map_of (entries j) c = Some v" if "(f, j) \<in> set libs" for j
      using assms that by (auto simp: library_table_def)
    have "lib_at libs (f, c) = Some v \<longleftrightarrow> (\<exists>j. map_of libs f = Some j \<and> map_of (entries j) c = Some v)"
      by (simp add: lib_at_def split: option.splits)
    also have "\<dots> \<longleftrightarrow> (\<exists>j. (f, j) \<in> set libs \<and> (c, v) \<in> set (entries j))"
      using d inner by (metis map_of_eq_Some_iff)
    finally show ?thesis by simp
  qed
  have textual: "\<exists>a. v = JStr a" if "lib_at libs (f, c) = Some v" for f c v
    using that assms by (auto simp: lib_at_def split: option.splits elim!: library_tableD dest: map_of_SomeD)
  have "library_texts str (JObj libs) = Inr (concat (map ?texts libs))"
    using assms run [of libs] by (fastforce simp: library_texts_def own_entries_def library_table_def sbind_def)
  moreover have "set (concat (map ?texts libs)) = {f @ '':'' @ c @ '':'' @ a | f c a. lib_at libs (f, c) = Some (JStr a)}"
  proof (intro set_eqI iffI)
    fix t
    assume "t \<in> set (concat (map ?texts libs))"
    then obtain f j c v where *: "(f, j) \<in> set libs" "(c, v) \<in> set (entries j)" "t = f @ '':'' @ c @ '':'' @ as_text str v" by auto
    with at [of f c v] have known: "lib_at libs (f, c) = Some v" by blast
    from textual [OF this] obtain a where "v = JStr a" by blast
    with * known have "t = f @ '':'' @ c @ '':'' @ a" "lib_at libs (f, c) = Some (JStr a)" by (simp_all add: as_text_def)
    then show "t \<in> {f @ '':'' @ c @ '':'' @ a | f c a. lib_at libs (f, c) = Some (JStr a)}" by blast
  next
    fix t
    assume "t \<in> {f @ '':'' @ c @ '':'' @ a | f c a. lib_at libs (f, c) = Some (JStr a)}"
    then obtain f c a where t: "t = f @ '':'' @ c @ '':'' @ a" "lib_at libs (f, c) = Some (JStr a)" by blast
    with at [of f c "JStr a"] obtain j where "(f, j) \<in> set libs" "(c, JStr a) \<in> set (entries j)" by blast
    with t show "t \<in> set (concat (map ?texts libs))" by (force simp: as_text_def)
  qed
  ultimately show ?thesis by blast
qed

lemma put_entries_self: "distinct (map fst libs) \<Longrightarrow> fold (\<lambda>(k, v). put_entry k v) libs [] = libs"
proof -
  have app: "k \<notin> fst ` set kvs \<Longrightarrow> put_entry k v kvs = kvs @ [(k, v)]" for k :: string and v :: json and kvs
    by (induction k v kvs rule: put_entry.induct) auto
  have "distinct (map fst (kvs @ libs)) \<Longrightarrow> fold (\<lambda>(k, v). put_entry k v) libs kvs = kvs @ libs" for kvs
    by (induction libs arbitrary: kvs) (auto simp: app)
  from this [of "[]"] show "distinct (map fst libs) \<Longrightarrow> fold (\<lambda>(k, v). put_entry k v) libs [] = libs" by simp
qed

text \<open>
  The libraries of a verification request come back with the source code of the verified contract: when the
  settings that \<open>verifysourcecode\<close> sends are the ones the service keeps, the text \<open>Library\<close> that \<open>getsourcecode\<close> answers
  names each library of the request with its address, once more the last address when one is given twice, and
  nothing else; and the number of runs is the one of the request.
\<close>

theorem libraries_round_trip:
  assumes "vq_libraries r = map named_library ps" "well_named ps" "length ps \<le> 10"
    and "vq_sourceCode r = JObj kvs" "solidity_request r" "map_of kvs ''settings'' = None"
  shows "\<exists>src settings ts. verify_source r = Inr src \<and> field ''settings'' src = Some settings \<and>
    settings_info str (Some settings) =
      Inr (case vq_runs r of None \<Rightarrow> [] | Some n \<Rightarrow> if n = 0 then [] else str (JNum (of_int n)), join_with '';'' ts) \<and>
    set ts = {f @ '':'' @ c @ '':'' @ a | f c a. map_of (rev ps) (f, c) = Some a}"
proof -
  define libs where "libs = request_libraries r"
  have libs: "libs = fold add_library (map named_library ps) []"
    using assms(1,3) by (simp add: libs_def request_libraries_def)
  have "library_table []" by (simp add: library_table_def)
  from fold_add_library [OF assms(2) this] have table: "library_table libs"
    and at: "lib_at libs p = map_option JStr (map_of (rev ps) p)" for p
    by (auto simp: libs lib_at_def map_add_def fun_eq_iff split: option.splits)
  from library_texts_table [OF table, of str] obtain ts where ts: "library_texts str (JObj libs) = Inr ts"
    "set ts = {f @ '':'' @ c @ '':'' @ a | f c a. map_of (rev ps) (f, c) = Some a}"
    by (auto simp: at)
  have merged: "merged_libraries (JObj []) libs = JObj libs"
    using table by (simp add: merged_libraries_def put_entries_self library_table_def)
  show ?thesis
    using assms(4-6) ts
    by (cases "vq_runs r")
      (auto simp: verify_source_def Let_def merged libs_def [symmetric] set_property_def with_runs_def settings_info_def
        access_def opt_access_def sbind_def as_text_def)
qed

theorem libraries_round_trip_witness:
  "\<exists>src settings ts. verify_source \<lparr>vq_sourceCode = JObj [], vq_codeformat = ''solidity-single-file'', vq_contractname = ''C'',
      vq_compilerversion = ''1'', vq_zkCompilerVersion = ''2'', vq_runs = Some 200, vq_optimizationUsed = ''1'',
      vq_constructorArguements = None, vq_libraries = [(Some ''a.sol:L'', Some ''0x0a'')]\<rparr> = Inr src \<and>
    field ''settings'' src = Some settings \<and>
    settings_info (\<lambda>_. ''n'') (Some settings) = Inr (''n'', join_with '';'' ts) \<and> set ts = {''a.sol:L:0x0a''}"
proof -
  have named: "[(Some ''a.sol:L'', Some ''0x0a'')] = map named_library [((''a.sol'', ''L''), ''0x0a'')]"
    by (simp add: named_library_def)
  have ok: "well_named [((''a.sol'', ''L''), ''0x0a'')]" by (simp add: well_named_def)
  let ?r = "\<lparr>vq_sourceCode = JObj [], vq_codeformat = ''solidity-single-file'', vq_contractname = ''C'',
      vq_compilerversion = ''1'', vq_zkCompilerVersion = ''2'', vq_runs = Some 200, vq_optimizationUsed = ''1'',
      vq_constructorArguements = None, vq_libraries = [(Some ''a.sol:L'', Some ''0x0a'')]\<rparr>"
  have only: "{f @ '':'' @ c @ '':'' @ a | f c a. map_of (rev [((''a.sol'', ''L''), ''0x0a'')]) (f, c) = Some a} = {''a.sol:L:0x0a''}"
    by (auto split: if_splits)
  have "vq_libraries ?r = map named_library [((''a.sol'', ''L''), ''0x0a'')]" "solidity_request ?r"
    using named by (simp_all add: solidity_request_def)
  from libraries_round_trip [OF this(1) ok _ _ this(2), of "[]" "\<lambda>_. ''n''"] show ?thesis unfolding only by simp
qed

end
