(* ===== verification/Spec2Isabelle.thy ===== *)
theory Spec2Isabelle
  imports Rpc_Service Worker_Counter_Records Worker_Unit_Of_Work Worker_Retries Worker_System Worker_Prices Proxy_App
    Fetcher_Node Api_Consistency App_Session App_Verification App_Debug_View App_Consistency
    App_Function_Form Api_Contracts
begin

text \<open>
  A verification library for the double-zero repository: a private ZKsync chain whose JSON-RPC and block
  explorer show each user only what the user may see. The library models the TypeScript services under
  \<open>src/packages\<close> and the logic of the explorer's front end.

  \<^bold>\<open>The program.\<close>
  \<^item> \<open>private-rpc\<close> stands between users and the chain's node. A user has a URL with a token; each JSON-RPC call is
    checked against a document of permissions, and answers are filtered.
  \<^item> \<open>data-fetcher\<close> reads a block from the node with its receipts, logs, transfers and changed balances.
  \<^item> \<open>worker\<close> asks the data fetcher for block after block and stores them, keeps batches, tokens, balances and
    counters, and takes back what the chain has dropped.
  \<^item> \<open>api\<close> answers queries over the worker's tables.
  \<^item> \<open>proxy\<close> stands before the api: it signs users in with an Ethereum signature and filters what they see.
  \<^item> \<open>app\<close> is the explorer's front end over the proxy, the private RPC and the user's wallet.

  \<^bold>\<open>How code is translated.\<close> Theory Prelude: an asynchronous function is a state transformer that returns or
  throws (\<open>act\<close>), a pure function that may throw a value of \<open>exn + 'a\<close>; \<open>for_each\<close>, \<open>map_act\<close>, \<open>filter_act\<close> and
  \<open>fold_act\<close> are the array methods with callbacks that may throw, \<open>catch\<close> and \<open>finally_do\<close> the statements of these
  names. Theories Json and External: values that cross the network, property access, the schemas of zod as
  data, and the record \<open>lib\<close> of the functions of viem and zod with the documented behaviour that some theorems
  assume and an instance that has it (\<open>demo_lib\<close>). Theory Bytes: Node's buffers and hexadecimal text.

  \<^bold>\<open>private-rpc.\<close> Permissions: \<open>permissions/\<close> and \<open>schemas\<close> (access rules, response filters, \<open>YamlParser.parse\<close>, the
  authorizer). \<open>authorizer_refines_document\<close> is the specification: each check decides as the last matching method
  of the document declares; locale \<open>rule_table\<close> is the contract between parser and checks. Rpc_Methods: \<open>rpc/methods\<close>
  and \<open>delegate-call.ts\<close>; locales \<open>node_handler\<close> and \<open>listing_handler\<close> are the contracts of handlers, and the
  properties say what each method asks of the node and shows. Rpc_Service: the dispatcher, the users table with
  its codecs, the routes; locale \<open>token_store\<close> gives that issued tokens keep resolving.

  \<^bold>\<open>worker.\<close> Worker_Entities, Worker_Db and Worker_Repositories: rows, constraints, statements (locales \<open>table\<close>,
  \<open>versioned_upsert\<close>); the integrity invariant \<open>db_ok\<close>. Worker_Counters and Worker_Counter_Records: counters against a
  reference count over the rows processed (locale \<open>counter_store\<close>). Worker_Unit_Of_Work: transactions as
  interleaved tasks, a step relation whose runs commit at most once and release their connection.
  Worker_Loops, Worker_Retries: polling, delays and repeated calls. Worker_Balances, Worker_Tokens,
  Worker_Blocks, Worker_Batches, Worker_Revert: the services; the main invariant is that the stored blocks are a
  linked chain (\<open>stored_chain_linked\<close>), and a revert takes back exactly what is above the last common block.
  Worker_Prices: the providers of token prices, their repeated requests and what is stored.
  Worker_System: all services interleaved over one database, with reverts and restarts, as a step relation;
  \<open>system_stays_consistent\<close> is its invariant (locale \<open>block_writes\<close>: what adding a block writes).

  \<^bold>\<open>data-fetcher.\<close> Fetcher_Logs, Fetcher_Transfers (one transfer per log that has a handler; fees and refunds of
  deposits against a declarative account), Fetcher_Balances (the shared map of changed balances, and that requests for
  different blocks do not disturb each other), Fetcher_Blocks (the data of a block, and its endpoint),
  Fetcher_Retries (calls end within the configured total time), Fetcher_Node (the methods of the node service
  over a node that may fail).

  \<^bold>\<open>proxy.\<close> Proxy_Http (URLs, schemas, pagination; locale \<open>row_filter\<close>: what a filter keeps is the user's own),
  Proxy_Routes, Proxy_Public_Api (each guarded action), Proxy_App (sessions over the requests of a client,
  cross-site requests, the order of the hooks).

  \<^bold>\<open>api.\<close> Api_Queries (pipes, pagination), Api_Services, Api_Controllers, Api_Endpoints, Api_Contracts (source code to and
  from the verification service, with the round trip of its libraries), and Api_Consistency, which states the answers against what the worker stores: the cleaning of balances is invisible, endpoints agree,
  totals are numbers of rows.

  \<^bold>\<open>app.\<close> App_Session (network, wallet, login and token as one record with a step relation), App_Requests (fetching
  with overlapping requests, search, paging; locale \<open>paged_source\<close>), App_Transactions, App_Contracts, App_Verification
  (the form for the verification of a contract: its events, rules and what it sends), App_Interaction, App_Function_Form (the form for the arguments of a call), App_Trace and
  App_Debugger (memory at a step, the calls around it, escaping of what is inserted as HTML), App_Debug_View (the state of
  the debugger and its operations as steps, sources and navigation), and App_Consistency: what the front end collects page by page is what the api has. Below in this theory, the worker
  over the data fetcher.

  \<^bold>\<open>Termination and bounds.\<close> Loops that the code bounds are recursive functions. Loops that may run for ever are
  partial functions with values in \<open>option\<close>, and that they return is a theorem: \<open>rpcCall_returns\<close>, \<open>fetcher_calls_end\<close>,
  \<open>search_correct\<close>, \<open>token_library_ends\<close>, \<open>verification_ends\<close>. The only fuel is a number that the code has itself, as the
  99 pages of \<open>all_loop\<close>. JavaScript numbers are integers or rationals: the values that the code computes with stay
  below \<open>2 ^ 53\<close>, and rounding is not modelled; amounts are unbounded integers, as \<open>BigInt\<close> is, or decimal text.
  Bytes are words of eight bits.

  \<^bold>\<open>Abstractions.\<close> Database transactions that run concurrently are taken in the order of their commits, and a
  transaction that is rolled back leaves the state before it, sequences included. The transactions of a block are read
  one after the other, although the code starts them together; what interleaving does to their shared state is
  stated in Fetcher_Balances. The data fetcher answers one element per block asked for. Rows that tie in the order
  of a query keep the order of the table. Logging, metrics and tracing have no effect. A browser session is that of one
  client.

  \<^bold>\<open>Parameters.\<close> viem, zod, siwe, the URL class, ethers and zksync-ethers (decoders, checksums, constants), NestJS with
  class-validator, the links of nestjs-typeorm-paginate, ohmyfetch, the user's wallet, the node, the
  verification service and the clock. Hypotheses about them are predicates with a name (\<open>address_documented\<close>,
  \<open>honest_node\<close> and others), and each theorem that has one comes with an instance.

  \<^bold>\<open>Not modelled.\<close> Start-up, configuration from the environment, health checks, metrics and migrations, which do
  not take part in what is stored or shown; the Vue templates, apart from the conditions that the modelled views rest on, routes, stories and locales of the front end and its
  formatting of dates and money, which are presentation; ABIs, scripts, the demonstration and the example contracts.
\<close>

section \<open>The worker over the data fetcher\<close>

text \<open>
  What the worker receives for a block is the data fetcher's answer: the block it delivers is the node's,
  and none when the answer is \<open>null\<close>.
\<close>

definition fetched_from :: "zk_lib \<Rightarrow> blockchain \<Rightarrow> chain \<Rightarrow> bool" where
  "fetched_from Z C K \<longleftrightarrow>
     (\<forall>n. \<exists>s t a. BlockService_getData Z C n s = (t, Inr a) \<and>
        d_block (fetchBlock K n) = map_option (\<lambda>r. block_dto.truncate (rs_block r)) a)"

text \<open>The node answers a block under its own number, with a hash in the usual form.\<close>

definition honest_node :: "blockchain \<Rightarrow> bool" where
  "honest_node C \<longleftrightarrow> (\<forall>n b. ch_getBlock C n = Inr (Some b) \<longrightarrow> bk_number b = n \<and> canonical_hash (bk_hash b))"

lemma fetcher_is_honest:
  assumes "fetched_from Z C K" "honest_node C"
  shows "honest_fetcher K"
  unfolding honest_fetcher_def
proof (intro allI impI)
  fix n b
  assume b: "d_block (fetchBlock K n) = Some b"
  from assms(1) obtain s t a where "BlockService_getData Z C n s = (t, Inr a)"
    "d_block (fetchBlock K n) = map_option (\<lambda>r. block_dto.truncate (rs_block r)) a"
    unfolding fetched_from_def by blast
  moreover from this b obtain r where "a = Some r" "b = block_dto.truncate (rs_block r)" by (cases a) auto
  ultimately have "ch_getBlock C n = Inr (Some (rs_block r))" using BlockService_getData_block by fastforce
  with assms(2) \<open>b = _\<close> show "bk_number b = n \<and> canonical_hash (bk_hash b)"
    by (auto simp: honest_node_def block_dto.defs)
qed

text \<open>
  The same when the node fails at times: what its service finally returns is honest if every answer to an attempt is.
\<close>

definition honest_provider :: "node_provider \<Rightarrow> bool" where
  "honest_provider p \<longleftrightarrow> (\<forall>n i b. pv_getBlock p n i = Inr (Some b) \<longrightarrow> bk_number b = n \<and> canonical_hash (bk_hash b))"

lemma served_is_honest:
  assumes "served_by throwing isETH k p C" "rpc_config_ok k" "honest_provider p"
  shows "honest_node C"
  unfolding honest_node_def
proof (intro allI impI)
  fix n b
  assume b: "ch_getBlock C n = Inr (Some b)"
  obtain i where "service_getBlock k p n = Some (pv_getBlock p n i)"
    using service_call_answer [OF assms(2), of "pv_getBlock p n"] by (auto simp: service_getBlock_def)
  moreover from assms(1) obtain z where "service_getBlock k p n = Some z" "thrown_as throwing z = ch_getBlock C n"
    unfolding served_by_def by blast
  ultimately have "thrown_as throwing (pv_getBlock p n i) = Inr (Some b)" using b by simp
  then have "pv_getBlock p n i = Inr (Some b)" by (cases "pv_getBlock p n i") (auto simp: thrown_as_def)
  with assms(3) show "bk_number b = n \<and> canonical_hash (bk_hash b)" by (auto simp: honest_provider_def)
qed

lemma served_chain_stays_linked:
  assumes "served_by throwing isETH k p C" "rpc_config_ok k" "honest_provider p" "fetched_from Z C K"
    and "0 < bc_numberOfBlocksPerDbTransaction cfg" "chain_linked cfg s" "keys_ok s"
    and "processNextBlocksRange E cfg K m fails s = (t, r)"
  shows "chain_linked cfg t"
  using round_keeps_linked [OF fetcher_is_honest [OF assms(4) served_is_honest [OF assms(1-3)]] assms(5-8)] .

text \<open>
  C14: Over the data fetcher and a node that answers every block under its own number, a round of the worker
  keeps the stored chain linked, whichever action or commit fails.
\<close>

theorem fetched_chain_stays_linked:
  assumes "fetched_from Z C K" "honest_node C" "0 < bc_numberOfBlocksPerDbTransaction cfg"
    and "chain_linked cfg s" "keys_ok s"
    and "processNextBlocksRange E cfg K m fails s = (t, r)"
  shows "chain_linked cfg t"
  using round_keeps_linked [OF fetcher_is_honest [OF assms(1,2)] assms(3-6)] .

text \<open>The node knows the blocks 1 and 2, without transactions.\<close>

definition linked_node :: blockchain where
  "linked_node = demo_node
     \<lparr>ch_getBlock := \<lambda>n. Inr (map_option (\<lambda>b. block_dto.extend b \<lparr>nb_transactions = []\<rparr>) (d_block (fetchBlock demo_chain n))),
      ch_getBlockDetails := \<lambda>n. Inr (if n = 1 \<or> n = 2 then Some demo_block_details else None)\<rparr>"

lemma linked_node_fetched: "fetched_from demo_zk linked_node demo_chain"
  unfolding fetched_from_def
proof
  fix n
  show "\<exists>s t a. BlockService_getData demo_zk linked_node n s = (t, Inr a) \<and>
      d_block (fetchBlock demo_chain n) = map_option (\<lambda>r. block_dto.truncate (rs_block r)) a"
  proof (cases "n = 1 \<or> n = 2")
    case True
    then obtain b where b: "d_block (fetchBlock demo_chain n) = Some b"
      by (auto simp: demo_chain_def demo_data_def)
    with True have node: "ch_getBlock linked_node n = Inr (Some (block_dto.extend b \<lparr>nb_transactions = []\<rparr>))"
      "ch_getBlockDetails linked_node n = Inr (Some demo_block_details)" "ch_getLogs linked_node n n = Inr []"
      by (simp_all add: linked_node_def demo_node_def)
    have "\<exists>r. snd (BlockService_getData demo_zk linked_node n demo_fetcher) = Inr (Some r) \<and>
        rs_block r = block_dto.extend b \<lparr>nb_transactions = []\<rparr>"
      by (simp add: BlockService_getData_def node finally_do_def block_logs_def LogService_getData_def getTransfers_def
          bind_def act_simps changed_balances_def block_dto.defs)
    then obtain r where "BlockService_getData demo_zk linked_node n demo_fetcher =
        (fst (BlockService_getData demo_zk linked_node n demo_fetcher), Inr (Some r))"
      "rs_block r = block_dto.extend b \<lparr>nb_transactions = []\<rparr>" by (metis prod.collapse)
    moreover have "block_dto.truncate (block_dto.extend b \<lparr>nb_transactions = []\<rparr>) = b"
      by (simp add: block_dto.defs)
    ultimately show ?thesis using b by (metis option.map(2))
  next
    case False
    then have "BlockService_getData demo_zk linked_node n demo_fetcher = (demo_fetcher, Inr None)"
      by (simp add: BlockService_getData_def linked_node_def demo_chain_def demo_data_def act_simps)
    with False show ?thesis
      by (intro exI [of _ demo_fetcher] exI [of _ None]) (simp add: demo_chain_def demo_data_def)
  qed
qed

lemma linked_node_honest: "honest_node linked_node"
  using demo_honest by (auto simp: honest_node_def honest_fetcher_def linked_node_def block_dto.defs)

theorem fetched_chain_stays_linked_witness:
  "chain_linked demo_config (fst (demo_round (\<lambda>_. False)))"
proof -
  have "keys_ok demo_worker_db" "chain_linked demo_config demo_worker_db"
    using demo_worker_ok by (simp_all add: db_ok_def)
  moreover have "0 < bc_numberOfBlocksPerDbTransaction demo_config" by (simp add: demo_config_def)
  moreover have "processNextBlocksRange demo_env demo_config demo_chain (Some 7) (\<lambda>_. False) demo_worker_db =
      (fst (demo_round (\<lambda>_. False)), snd (demo_round (\<lambda>_. False)))"
    by (simp add: demo_round_def)
  ultimately show ?thesis
    using fetched_chain_stays_linked [OF linked_node_fetched linked_node_honest] by blast
qed

end
